(* ===== verification/Pajin_Prelude.thy ===== *)
theory Pajin_Prelude
  imports Complex_Main "HOL-Library.AList" "HOL-Library.Char_ord" "HOL-Library.List_Lexorder" "HOL-Library.Code_Target_Nat"
begin

text \<open>
  The vocabulary every component of the PAJIN model shares: Python exceptions as values of a sum
  type, Python's dynamically typed numbers where the source inspects their type, insertion-ordered
  dictionaries as association lists, aware and naive datetimes, and labelled transition systems
  with their invariants.
\<close>

section \<open>Exceptions and results\<close>

text \<open>
  One constructor per exception class the modelled sources raise; the argument is the message.
  \<open>ValidationError\<close> stands for Pydantic's exception, whose message lists every failing field.
\<close>

datatype exn =
    ValueError string
  | TypeError string
  | KeyError string
  | PermissionError string
  | RuntimeError string
  | OverflowError
  | UnicodeEncodeError
  | ValidationError
  | FileExistsError
  | OSError
  | CancelledError
  | WorkerCleanupError
  | CapabilityError string
  | BudgetExceeded string
  | BudgetPersistenceError string
  | InvalidScopeURL string
  | RunIntegrityError string
  | ToolRequestCanonicalizationError
  | AssertionError
  | AttributeError

type_synonym 'a result = "exn + 'a"

text \<open>
  \<open>except ValueError\<close> also catches the subclasses of \<open>ValueError\<close>.
\<close>

fun is_value_error :: "exn \<Rightarrow> bool" where
  "is_value_error (ValueError _) = True"
| "is_value_error ValidationError = True"
| "is_value_error UnicodeEncodeError = True"
| "is_value_error (CapabilityError _) = True"
| "is_value_error (InvalidScopeURL _) = True"
| "is_value_error (RunIntegrityError _) = True"
| "is_value_error ToolRequestCanonicalizationError = True"
| "is_value_error _ = False"

fun is_type_error :: "exn \<Rightarrow> bool" where
  "is_type_error (TypeError _) = True"
| "is_type_error _ = False"

definition is_ok :: "'a result \<Rightarrow> bool" where
  "is_ok r = (case r of Inl _ \<Rightarrow> False | Inr _ \<Rightarrow> True)"

section \<open>Dynamically typed arguments\<close>

text \<open>
  A number argument as the source sees it before its own \<open>isinstance\<close> or \<open>type(...)\<close> test.
  \<open>PyFloat\<close> carries a finite double as the rational it denotes; \<open>PyNonFinite\<close> is an infinity or
  a NaN; \<open>PyOther\<close> is any other object.
\<close>

datatype py_num = PyBool bool | PyInt int | PyFloat rat | PyNonFinite | PyOther

section \<open>Text\<close>

text \<open>Python's \<open>str.isspace\<close> on the code points below 256, and \<open>str.strip()\<close>.\<close>

definition py_space :: "char \<Rightarrow> bool" where
  "py_space c = (let n = (of_char c :: nat) in
     9 \<le> n \<and> n \<le> 13 \<or> 28 \<le> n \<and> n \<le> 32 \<or> n = 133 \<or> n = 160)"

definition py_strip :: "string \<Rightarrow> string" where
  "py_strip s = rev (dropWhile py_space (rev (dropWhile py_space s)))"

text \<open>\<open>str(n)\<close> of an integer.\<close>

fun show_nat :: "nat \<Rightarrow> string" where
  "show_nat n =
     (if n < 10 then [char_of (48 + n)] else show_nat (n div 10) @ [char_of (48 + n mod 10)])"

declare show_nat.simps [simp del]

definition show_int :: "int \<Rightarrow> string" where
  "show_int n = (if n < 0 then ''-'' @ show_nat (nat (- n)) else show_nat (nat n))"

definition is_hex_lower :: "char \<Rightarrow> bool" where
  "is_hex_lower c = (c \<in> set ''0123456789abcdef'')"

text \<open>\<open>len(value) != 64 or any(character not in "0123456789abcdef" ...)\<close>, negated.\<close>

definition is_sha256_hex :: "string \<Rightarrow> bool" where
  "is_sha256_hex s = (length s = 64 \<and> list_all is_hex_lower s)"

section \<open>Datetimes\<close>

text \<open>
  An instant is a number of microseconds since 1970-01-01T00:00:00Z. A \<open>datetime\<close> is a wall clock
  reading with an optional \<open>tzinfo\<close>, which may answer \<open>None\<close> from \<open>utcoffset()\<close>.
\<close>

type_synonym instant = int

datatype py_tzinfo = TzOffset "int option"

datatype py_datetime = PyDatetime (wall: int) (tzinfo: "py_tzinfo option")

definition utcoffset :: "py_datetime \<Rightarrow> int option" where
  "utcoffset d = (case tzinfo d of None \<Rightarrow> None | Some (TzOffset off) \<Rightarrow> off)"

definition datetime_min :: int where
  "datetime_min = -62135596800000000"

definition datetime_max :: int where
  "datetime_max = 253402300799999999"

definition in_datetime_range :: "int \<Rightarrow> bool" where
  "in_datetime_range u = (datetime_min \<le> u \<and> u \<le> datetime_max)"

definition utc_datetime :: "instant \<Rightarrow> py_datetime" where
  "utc_datetime u = PyDatetime u (Some (TzOffset (Some 0)))"

definition seconds :: "int \<Rightarrow> int" where
  "seconds n = n * 1000000"

section \<open>Dictionaries\<close>

text \<open>
  A Python \<open>dict\<close> keeps insertion order: assignment to an existing key keeps its place, a new key
  goes to the end. \<^const>\<open>AList.update\<close> does exactly that on association lists.
\<close>

type_synonym ('k, 'v) dict = "('k \<times> 'v) list"

abbreviation dict_get :: "('k, 'v) dict \<Rightarrow> 'k \<Rightarrow> 'v option" where
  "dict_get d k \<equiv> map_of d k"

abbreviation dict_set :: "'k \<Rightarrow> 'v \<Rightarrow> ('k, 'v) dict \<Rightarrow> ('k, 'v) dict" where
  "dict_set k v d \<equiv> AList.update k v d"

abbreviation dict_del :: "'k \<Rightarrow> ('k, 'v) dict \<Rightarrow> ('k, 'v) dict" where
  "dict_del k d \<equiv> AList.delete k d"

definition dict_ok :: "('k, 'v) dict \<Rightarrow> bool" where
  "dict_ok d = distinct (map fst d)"

section \<open>Labelled transition systems\<close>

text \<open>
  \<open>steps step s es t\<close>: the labels \<open>es\<close>, in order, lead from \<open>s\<close> to \<open>t\<close>. Every operation of the
  modelled components runs under the component's lock, so any interleaving of threads is such a
  sequence of whole operations.
\<close>

text \<open>The sum of a measure over the values of a dictionary.\<close>

definition dict_sum :: "('v \<Rightarrow> int) \<Rightarrow> ('k \<times> 'v) list \<Rightarrow> int" where
  "dict_sum f d = sum_list (map (\<lambda>kv. f (snd kv)) d)"

inductive steps :: "('s \<Rightarrow> 'e \<Rightarrow> 's \<Rightarrow> bool) \<Rightarrow> 's \<Rightarrow> 'e list \<Rightarrow> 's \<Rightarrow> bool" for step where
  steps_nil: "steps step s [] s"
| steps_snoc: "steps step s es t \<Longrightarrow> step t e u \<Longrightarrow> steps step s (es @ [e]) u"

section \<open>Shared lemmas\<close>

named_theorems dict_simps "lookup, update and deletion on dictionaries"

lemma dict_get_set [dict_simps]:
  "dict_get (dict_set k v d) k' = (if k' = k then Some v else dict_get d k')"
  by (simp add: update_conv')

lemma dict_get_del [dict_simps]:
  "dict_get (dict_del k d) k' = (if k' = k then None else dict_get d k')"
  by (simp add: delete_conv')

lemma dict_ok_set [simp, intro]: "dict_ok d \<Longrightarrow> dict_ok (dict_set k v d)"
  by (simp add: dict_ok_def distinct_update)

lemma dict_ok_del [simp, intro]: "dict_ok d \<Longrightarrow> dict_ok (dict_del k d)"
  by (simp add: dict_ok_def distinct_delete)

lemma dict_ok_Nil [simp]: "dict_ok []"
  by (simp add: dict_ok_def)

lemma dict_get_in_set: "dict_ok d \<Longrightarrow> (k, v) \<in> set d \<longleftrightarrow> dict_get d k = Some v"
  by (simp add: dict_ok_def)

lemma dict_set_fresh: "dict_get d k = None \<Longrightarrow> dict_set k v d = d @ [(k, v)]"
  by (induction d) (auto split: if_splits)

lemma dict_sum_set_fresh:
  "dict_get d k = None \<Longrightarrow> dict_sum f (dict_set k v d) = dict_sum f d + f v"
  by (simp add: dict_set_fresh dict_sum_def)

lemma dict_del_subset: "set (dict_del k d) \<subseteq> set d"
  by (auto simp: AList.delete_eq)

lemma dict_sum_del:
  "dict_ok d \<Longrightarrow> dict_get d k = Some v \<Longrightarrow> dict_sum f (dict_del k d) = dict_sum f d - f v"
proof (induction d)
  case (Cons kv d)
  then show ?case
    by (cases kv) (auto simp: dict_ok_def dict_sum_def delete_id split: if_splits)
qed simp

lemma dict_sum_nonneg: "(\<And>k v. (k, v) \<in> set d \<Longrightarrow> 0 \<le> f v) \<Longrightarrow> 0 \<le> dict_sum f d"
  unfolding dict_sum_def by (rule sum_list_nonneg) auto

lemma dict_sum_ge:
  "dict_ok d \<Longrightarrow> dict_get d k = Some v \<Longrightarrow> (\<And>k v. (k, v) \<in> set d \<Longrightarrow> 0 \<le> f v) \<Longrightarrow> f v \<le> dict_sum f d"
  using dict_sum_del [of d k v f] dict_sum_nonneg [of "dict_del k d" f] 
  by (fastforce dest: subsetD [OF dict_del_subset])

lemma steps_append:
  assumes "steps step t fs u" and "steps step s es t"
  shows "steps step s (es @ fs) u"
  using assms
proof (induction rule: steps.induct)
  case steps_nil
  then show ?case by simp
next
  case (steps_snoc t' fs u' e v)
  then have "steps step s ((es @ fs) @ [e]) v"
    by (blast intro: steps.steps_snoc)
  then show ?case by simp
qed

lemma steps_single: "step s e t \<Longrightarrow> steps step s [e] t"
  using steps.steps_snoc [of step s "[]" s e t] by (simp add: steps.steps_nil)

lemma steps_Cons: "step s e t \<Longrightarrow> steps step t es u \<Longrightarrow> steps step s (e # es) u"
  using steps_append [of step t es u s "[e]"] steps_single [of step s e t] by simp

lemma steps_Nil_iff [simp]: "steps step s [] t \<longleftrightarrow> t = s"
  by (auto intro: steps.steps_nil elim: steps.cases)

lemma steps_snoc_iff: "steps step s (es @ [e]) u \<longleftrightarrow> (\<exists>t. steps step s es t \<and> step t e u)"
  by (auto intro: steps.steps_snoc elim: steps.cases)

text \<open>
  The contract of a state invariant: one step keeps it. A client gets it for every run.
\<close>

locale transition_invariant =
  fixes step :: "'s \<Rightarrow> 'e \<Rightarrow> 's \<Rightarrow> bool"
    and inv :: "'s \<Rightarrow> bool"
  assumes step_inv: "inv s \<Longrightarrow> step s e t \<Longrightarrow> inv t"
begin

lemma run_inv: "steps step s es t \<Longrightarrow> inv s \<Longrightarrow> inv t"
  by (induction rule: steps.induct) (auto intro: step_inv)

end

lemma sum_case_ok: "is_ok r \<longleftrightarrow> (\<exists>x. r = Inr x)"
  by (cases r) (auto simp: is_ok_def)

end
