(* ===== verification/Campaign_Models.thy ===== *)
theory Campaign_Models
  imports Pajin_Prelude
begin

text \<open>
  The typed contracts of \<^verbatim>\<open>src/src/pajin/domain/models.py\<close> that carry authority: the campaign
  manifest with its authorization, testing windows, rules of engagement, scope and budgets, the
  capability grant with its attenuation order, and the tool request. A Pydantic model is a record
  of its validated field values; a validator that can fail is a function into \<^typ>\<open>'a result\<close>.
\<close>

section \<open>JSON values and enumerations\<close>

datatype json =
    JNull
  | JBool bool
  | JInt int
  | JFloat rat
  | JStr string
  | JList "json list"
  | JObj "(string \<times> json) list"

datatype campaign_mode = AI_REDTEAM | BUG_BOUNTY | CTF

datatype autonomy_level = MANUAL | ASSISTED | SUPERVISED | POLICY_AUTONOMOUS | LAB_AUTONOMOUS

datatype weekday = MONDAY | TUESDAY | WEDNESDAY | THURSDAY | FRIDAY | SATURDAY | SUNDAY

definition WEEKDAYS :: "weekday list" where
  "WEEKDAYS = [MONDAY, TUESDAY, WEDNESDAY, THURSDAY, FRIDAY, SATURDAY, SUNDAY]"

datatype tool_risk_tier = T0 | T1 | T2 | T3 | T4

fun tier_value :: "tool_risk_tier \<Rightarrow> int" where
  "tier_value T0 = 0"
| "tier_value T1 = 1"
| "tier_value T2 = 2"
| "tier_value T3 = 3"
| "tier_value T4 = 4"

text \<open>\<open>ToolRiskTier\<close> is an \<open>IntEnum\<close>: tiers compare by their integer value.\<close>

instantiation tool_risk_tier :: linorder
begin

definition less_eq_tool_risk_tier :: "tool_risk_tier \<Rightarrow> tool_risk_tier \<Rightarrow> bool" where
  "less_eq_tool_risk_tier a b = (tier_value a \<le> tier_value b)"

definition less_tool_risk_tier :: "tool_risk_tier \<Rightarrow> tool_risk_tier \<Rightarrow> bool" where
  "less_tool_risk_tier a b = (tier_value a < tier_value b)"

instance
proof
  fix a b c :: tool_risk_tier
  show "(a < b) = (a \<le> b \<and> \<not> b \<le> a)"
    by (auto simp: less_eq_tool_risk_tier_def less_tool_risk_tier_def)
  show "a \<le> a"
    by (simp add: less_eq_tool_risk_tier_def)
  show "a \<le> b \<Longrightarrow> b \<le> c \<Longrightarrow> a \<le> c"
    by (simp add: less_eq_tool_risk_tier_def)
  show "a \<le> b \<Longrightarrow> b \<le> a \<Longrightarrow> a = b"
    by (cases a; cases b) (simp_all add: less_eq_tool_risk_tier_def)
  show "a \<le> b \<or> b \<le> a"
    by (auto simp: less_eq_tool_risk_tier_def)
qed

end

section \<open>Authority timestamps\<close>

text \<open>
  \<open>_authority_timestamp\<close>: a timestamp with no UTC offset is refused, and \<open>astimezone(UTC)\<close>
  overflows when the instant leaves the range of \<open>datetime\<close>.
\<close>

definition authority_timestamp :: "py_datetime \<Rightarrow> string \<Rightarrow> instant result" where
  "authority_timestamp value label =
     (case utcoffset value of
        None \<Rightarrow> Inl (ValueError (label @ '' must include an explicit UTC offset or Z''))
      | Some off \<Rightarrow>
          (if in_datetime_range (wall value - off) then Inr (wall value - off)
           else Inl OverflowError))"

section \<open>Authorization\<close>

record authorization =
  approved_by :: string
  approved_at :: instant
  auth_expires_at :: instant
  auth_evidence :: string

text \<open>
  \<open>Authorization(...)\<close>: the field validators run in field order; an \<open>OverflowError\<close> is not a
  \<open>ValueError\<close> and leaves Pydantic unwrapped.
\<close>

definition make_authorization ::
  "string \<Rightarrow> py_datetime \<Rightarrow> py_datetime \<Rightarrow> string \<Rightarrow> authorization result" where
  "make_authorization approver appr expi evid =
     (let ra = authority_timestamp appr ''authorization timestamp'';
          re = authority_timestamp expi ''authorization timestamp''
      in if ra = Inl OverflowError \<or> re = Inl OverflowError then Inl OverflowError
         else case (ra, re) of
           (Inr a, Inr e) \<Rightarrow>
             (if \<not> (1 \<le> length approver \<and> length approver \<le> 200) \<or> \<not> (1 \<le> length evid \<and> length evid \<le> 2000)
              then Inl ValidationError
              else if e \<le> a then Inl ValidationError
              else Inr \<lparr>approved_by = approver, approved_at = a, auth_expires_at = e, auth_evidence = evid\<rparr>)
         | _ \<Rightarrow> Inl ValidationError)"

text \<open>\<open>Authorization.is_active\<close>; \<open>now\<close> is the reading of \<open>datetime.now(UTC)\<close>.\<close>

definition authorization_is_active ::
  "authorization \<Rightarrow> py_datetime option \<Rightarrow> instant \<Rightarrow> bool result" where
  "authorization_is_active a at' now =
     (case authority_timestamp (case at' of None \<Rightarrow> utc_datetime now | Some d \<Rightarrow> d)
             ''authorization evaluation timestamp'' of
        Inl e \<Rightarrow> Inl e
      | Inr t \<Rightarrow> Inr (approved_at a \<le> t \<and> t < auth_expires_at a))"

section \<open>Weekly testing windows\<close>

text \<open>
  A \<open>time\<close> is the microseconds since midnight and whether it carries a \<open>tzinfo\<close>. The IANA time
  zone database is a parameter: \<open>zoneinfo name\<close> is \<open>None\<close> when \<open>ZoneInfo(name)\<close> raises
  \<open>ZoneInfoNotFoundError\<close> (a \<open>KeyError\<close>) and otherwise gives the UTC offset at an instant. The
  host's local zone, which \<open>astimezone\<close> assumes for a \<open>tzinfo\<close> without an offset, is \<open>local_zone\<close>.
\<close>

datatype py_time = PyTime (time_us: int) (time_aware: bool)

type_synonym zone_db = "string \<Rightarrow> (instant \<Rightarrow> int) option"

definition day_us :: int where
  "day_us = 86400000000"

record testing_window =
  window_days :: "weekday set"
  start_time :: int
  end_time :: int
  window_timezone :: string

definition make_testing_window ::
  "zone_db \<Rightarrow> weekday set \<Rightarrow> py_time \<Rightarrow> py_time \<Rightarrow> string \<Rightarrow> testing_window result" where
  "make_testing_window zoneinfo days st en tz =
     (if \<not> (1 \<le> card days \<and> card days \<le> 7) \<or> \<not> (1 \<le> length tz \<and> length tz \<le> 100)
      then Inl ValidationError
      else if st = en \<and> st \<noteq> PyTime 0 False then Inl ValidationError
      else if time_aware st \<or> time_aware en then Inl ValidationError
      else if zoneinfo tz = None then Inl ValidationError
      else Inr \<lparr>window_days = days, start_time = time_us st, end_time = time_us en,
                window_timezone = tz\<rparr>)"

text \<open>1970-01-01 was a Thursday, number 3 of \<open>datetime.weekday()\<close>.\<close>

definition weekday_index :: "int \<Rightarrow> nat" where
  "weekday_index local = nat ((local div day_us + 3) mod 7)"

text \<open>The window test on a local wall clock reading.\<close>

definition window_covers :: "testing_window \<Rightarrow> int \<Rightarrow> bool" where
  "window_covers w local =
     (let local_time = local mod day_us;
          today = WEEKDAYS ! weekday_index local;
          previous_day = WEEKDAYS ! ((weekday_index local + 6) mod 7)
      in if start_time w = end_time w then today \<in> window_days w
         else if start_time w < end_time w
           then today \<in> window_days w \<and> start_time w \<le> local_time \<and> local_time < end_time w
         else if start_time w \<le> local_time then today \<in> window_days w
         else local_time < end_time w \<and> previous_day \<in> window_days w)"

text \<open>\<open>WeeklyTestingWindow.is_active\<close>.\<close>

definition window_is_active ::
  "zone_db \<Rightarrow> (int \<Rightarrow> int) \<Rightarrow> testing_window \<Rightarrow> py_datetime option \<Rightarrow> instant \<Rightarrow> bool result" where
  "window_is_active zoneinfo local_zone w at' now =
     (let d = (case at' of None \<Rightarrow> utc_datetime now | Some d \<Rightarrow> d);
          off = (case tzinfo d of None \<Rightarrow> 0
                 | Some (TzOffset (Some k)) \<Rightarrow> k
                 | Some (TzOffset None) \<Rightarrow> local_zone (wall d));
          u = wall d - off
      in case zoneinfo (window_timezone w) of
           None \<Rightarrow> Inl (KeyError ''No time zone found'')
         | Some zone \<Rightarrow>
             (if in_datetime_range u \<and> in_datetime_range (u + zone u)
              then Inr (window_covers w (u + zone u))
              else Inl OverflowError))"

section \<open>Rules of engagement, scope and budgets\<close>

record rules_of_engagement =
  roe_max_tool_risk_tier :: tool_risk_tier
  allowed_methods :: "string set"
  allowed_tool_categories :: "string set"
  prohibit :: "string set"
  stop_on :: "string set"
  allow_private_networks :: bool
  max_requests_per_minute :: "int option"
  testing_windows :: "testing_window list"

record budgets =
  duration_seconds :: int
  max_cost_usd :: rat
  max_agents :: int
  max_spawn_depth :: int
  max_tool_calls :: int
  max_model_calls :: int
  max_model_tokens :: int

text \<open>The \<open>Field(ge=..., le=...)\<close> bounds of \<open>Budgets\<close>.\<close>

definition valid_budgets :: "budgets \<Rightarrow> bool" where
  "valid_budgets b =
     (1 \<le> duration_seconds b \<and> duration_seconds b \<le> 86400 \<and>
      0 \<le> max_cost_usd b \<and> max_cost_usd b \<le> 10000 \<and>
      1 \<le> max_agents b \<and> max_agents b \<le> 100 \<and>
      0 \<le> max_spawn_depth b \<and> max_spawn_depth b \<le> 10 \<and>
      1 \<le> max_tool_calls b \<and> max_tool_calls b \<le> 1000000 \<and>
      0 \<le> max_model_calls b \<and> max_model_calls b \<le> 100000 \<and>
      0 \<le> max_model_tokens b \<and> max_model_tokens b \<le> 1000000000)"

record scope =
  scope_allow :: "string list"
  scope_deny :: "string list"

record campaign_target =
  target_type :: string
  target_id :: string
  target_endpoint :: string
  target_simulation :: json

record campaign_spec =
  spec_mode :: campaign_mode
  spec_autonomy :: autonomy_level
  spec_authorization :: authorization
  spec_targets :: "campaign_target list"
  spec_scope :: scope
  spec_access_profile :: string
  spec_objectives :: "string list"
  spec_threat_classes :: "string list"
  spec_rules_of_engagement :: rules_of_engagement
  spec_budgets :: budgets
  spec_outputs :: "string list"

record campaign_manifest =
  api_version :: string
  manifest_kind :: string
  metadata_name :: string
  metadata_description :: "string option"
  campaign_spec :: campaign_spec

section \<open>Capability grants\<close>

record capability_grant =
  grant_id :: string
  parent_grant_id :: "string option"
  grant_subject :: string
  grant_campaign :: string
  grant_tools :: "string set"
  grant_targets :: "string set"
  grant_max_risk_tier :: tool_risk_tier
  grant_max_calls :: int
  grant_expires_at :: instant
  grant_delegable :: bool
  grant_issued_at :: instant
  grant_depth :: int

text \<open>\<open>CapabilityGrant(...)\<close> with its field bounds and \<open>validate_lineage_shape\<close>.\<close>

definition make_grant ::
  "string \<Rightarrow> string option \<Rightarrow> string \<Rightarrow> string \<Rightarrow> string set \<Rightarrow> string set \<Rightarrow> tool_risk_tier \<Rightarrow> int \<Rightarrow>
   py_datetime \<Rightarrow> bool \<Rightarrow> py_datetime \<Rightarrow> int \<Rightarrow> capability_grant result" where
  "make_grant gid parent subj camp tools targets tier calls expires delegable issued depth =
     (let re = authority_timestamp expires ''capability timestamp'';
          ri = authority_timestamp issued ''capability timestamp''
      in if re = Inl OverflowError \<or> ri = Inl OverflowError then Inl OverflowError
         else case (re, ri) of
           (Inr e, Inr i) \<Rightarrow>
             (if calls < 0 \<or> depth < 0 \<or> 100 < depth then Inl ValidationError
              else if e \<le> i then Inl ValidationError
              else if parent = None \<and> depth \<noteq> 0 then Inl ValidationError
              else if parent \<noteq> None \<and> depth = 0 then Inl ValidationError
              else Inr \<lparr>grant_id = gid, parent_grant_id = parent, grant_subject = subj,
                        grant_campaign = camp, grant_tools = tools, grant_targets = targets,
                        grant_max_risk_tier = tier, grant_max_calls = calls,
                        grant_expires_at = e, grant_delegable = delegable,
                        grant_issued_at = i, grant_depth = depth\<rparr>)
         | _ \<Rightarrow> Inl ValidationError)"

text \<open>\<open>CapabilityGrant.attenuates\<close>; the stored timestamps are already UTC.\<close>

definition attenuates :: "capability_grant \<Rightarrow> capability_grant \<Rightarrow> bool" where
  "attenuates c p =
     (grant_campaign c = grant_campaign p \<and>
      grant_subject c \<noteq> grant_subject p \<and>
      grant_tools c \<subseteq> grant_tools p \<and>
      grant_targets c \<subseteq> grant_targets p \<and>
      grant_max_risk_tier c \<le> grant_max_risk_tier p \<and>
      grant_max_calls c \<le> grant_max_calls p \<and>
      grant_issued_at p \<le> grant_issued_at c \<and>
      grant_expires_at c \<le> grant_expires_at p \<and>
      grant_depth c = grant_depth p + 1 \<and>
      parent_grant_id c = Some (grant_id p) \<and>
      grant_delegable p)"

section \<open>Tool requests and specifications\<close>

record tool_request =
  request_id :: string
  request_agent_id :: string
  request_tool_id :: string
  request_target :: string
  request_method :: string
  request_arguments :: json

record tool_spec =
  tool_id :: string
  tool_version :: string
  tool_description :: string
  tool_risk_tier :: tool_risk_tier
  tool_categories :: "string set"
  tool_evidence_types :: "string set"
  tool_network_access :: bool
  tool_network_request_cost :: int
  tool_parallel_safe :: bool

text \<open>What a constructed grant satisfies.\<close>

definition grant_shape :: "capability_grant \<Rightarrow> bool" where
  "grant_shape g =
     (0 \<le> grant_max_calls g \<and> 0 \<le> grant_depth g \<and> grant_depth g \<le> 100 \<and>
      grant_issued_at g < grant_expires_at g \<and>
      (parent_grant_id g = None \<longleftrightarrow> grant_depth g = 0))"

section \<open>A sample campaign\<close>

text \<open>A concrete manifest at which the properties of the components are evaluated.\<close>

definition sample_campaign :: campaign_manifest where
  "sample_campaign =
     \<lparr>api_version = ''pajin.dev/v1'', manifest_kind = ''Campaign'', metadata_name = ''demo'',
      metadata_description = None,
      campaign_spec =
        \<lparr>spec_mode = BUG_BOUNTY, spec_autonomy = SUPERVISED,
         spec_authorization = \<lparr>approved_by = ''alice'', approved_at = 0, auth_expires_at = seconds 1000,
                               auth_evidence = ''ticket''\<rparr>,
         spec_targets = [\<lparr>target_type = ''http'', target_id = ''t'',
                          target_endpoint = ''http://a.test/'', target_simulation = JObj []\<rparr>],
         spec_scope = \<lparr>scope_allow = [''http://a.test/*''], scope_deny = [''http://a.test/admin*'']\<rparr>,
         spec_access_profile = ''blackbox'', spec_objectives = [''probe''], spec_threat_classes = [],
         spec_rules_of_engagement =
           \<lparr>roe_max_tool_risk_tier = T2, allowed_methods = {''GET''}, allowed_tool_categories = {},
            prohibit = {''dos''}, stop_on = {}, allow_private_networks = False,
            max_requests_per_minute = Some 3, testing_windows = []\<rparr>,
         spec_budgets =
           \<lparr>duration_seconds = 600, max_cost_usd = 5, max_agents = 4, max_spawn_depth = 1,
            max_tool_calls = 5, max_model_calls = 20, max_model_tokens = 1000\<rparr>,
         spec_outputs = [''markdown-report'']\<rparr>\<rparr>"

section \<open>Lemmas\<close>

lemma authority_timestamp_utc [simp]:
  "in_datetime_range u \<Longrightarrow> authority_timestamp (utc_datetime u) l = Inr u"
  by (simp add: authority_timestamp_def utc_datetime_def utcoffset_def)

lemma authority_timestamp_InrD: "authority_timestamp d l = Inr u \<Longrightarrow> in_datetime_range u"
  by (auto simp: authority_timestamp_def split: option.splits if_splits)

lemma make_authorization_window:
  "make_authorization b a e v = Inr auth \<Longrightarrow> approved_at auth < auth_expires_at auth"
  by (auto simp: make_authorization_def Let_def split: sum.splits if_splits)

lemma make_grant_Inr:
  assumes "make_grant gid parent subj camp tls tgts tier calls ex del iss dep = Inr g"
  shows "grant_shape g" "grant_id g = gid" "parent_grant_id g = parent" "grant_subject g = subj"
    "grant_campaign g = camp" "grant_tools g = tls" "grant_targets g = tgts"
    "grant_max_risk_tier g = tier" "grant_max_calls g = calls" "grant_delegable g = del"
    "grant_depth g = dep"
  using assms by (auto simp: make_grant_def grant_shape_def Let_def split: sum.splits if_splits)

lemma attenuates_authority:
  assumes "attenuates c p"
  shows "grant_campaign c = grant_campaign p" "grant_tools c \<subseteq> grant_tools p"
    "grant_targets c \<subseteq> grant_targets p" "grant_max_risk_tier c \<le> grant_max_risk_tier p"
    "grant_max_calls c \<le> grant_max_calls p" "grant_issued_at p \<le> grant_issued_at c"
    "grant_expires_at c \<le> grant_expires_at p"
  using assms by (auto simp: attenuates_def)

end
