(* ===== verification/Capability_Ledger.thy ===== *)
theory Capability_Ledger
  imports Campaign_Models
begin

text \<open>
  \<open>CapabilityLedger\<close> of \<^verbatim>\<open>src/src/pajin/policy/capability.py\<close>: issuance of the root grant,
  delegation, consumption along the whole lineage, and revocation. The ledger's lock makes every
  operation atomic, so a history of the ledger is a run of \<open>ledger_step\<close>.

  The live \<open>CapabilityRecord\<close> objects are shared by reference between the dictionary and the
  lineage lists; the model names a live record by its key in the dictionary. The two parent-chain
  loops are \<^theory_text>\<open>partial_function\<close>s: \<open>None\<close> is a loop that does not end.
\<close>

section \<open>State\<close>

record capability_record =
  rec_grant :: capability_grant
  remaining_calls :: int
  revoked :: bool
  revoke_reason :: "string option"

record capability_ledger =
  max_depth :: int
  records :: "(string, capability_record) dict"

text \<open>What one call of the ledger's clock did: raised, gave a value that is no datetime, or a datetime.\<close>

datatype clock_reading = ClockRaised | ClockOther | ClockAt py_datetime

section \<open>Operations\<close>

text \<open>\<open>CapabilityLedger.__init__\<close>.\<close>

definition new_ledger :: "py_num \<Rightarrow> capability_ledger result" where
  "new_ledger depth =
     (case depth of
        PyInt n \<Rightarrow>
          (if 0 \<le> n \<and> n \<le> 100 then Inr \<lparr>max_depth = n, records = []\<rparr>
           else Inl (ValueError ''maximum capability depth must be an integer from 0 through 100''))
      | _ \<Rightarrow> Inl (ValueError ''maximum capability depth must be an integer from 0 through 100''))"

text \<open>\<open>_issued_at\<close>.\<close>

definition ledger_issued_at :: "clock_reading \<Rightarrow> py_datetime result" where
  "ledger_issued_at clk =
     (case clk of
        ClockRaised \<Rightarrow> Inl (CapabilityError ''capability issuance clock failed'')
      | ClockOther \<Rightarrow>
          Inl (CapabilityError ''capability issuance clock requires a UTC offset or Z'')
      | ClockAt d \<Rightarrow>
          (case utcoffset d of
             None \<Rightarrow> Inl (CapabilityError ''capability issuance clock requires a UTC offset or Z'')
           | Some off \<Rightarrow>
               (if in_datetime_range (wall d - off) then Inr (utc_datetime (wall d - off))
                else Inl OverflowError)))"

text \<open>\<open>_store_grant\<close>: revalidating a grant that was just constructed changes nothing.\<close>

definition store_grant :: "capability_grant \<Rightarrow> capability_ledger \<Rightarrow> capability_ledger" where
  "store_grant g L = L\<lparr>records := dict_set (grant_id g)
     \<lparr>rec_grant = g, remaining_calls = grant_max_calls g, revoked = False, revoke_reason = None\<rparr>
     (records L)\<rparr>"

text \<open>\<open>_record\<close>.\<close>

definition ledger_record :: "(string, capability_record) dict \<Rightarrow> string \<Rightarrow> capability_record result" where
  "ledger_record recs gid =
     (case dict_get recs gid of
        None \<Rightarrow> Inl (CapabilityError (''unknown capability grant: '' @ gid))
      | Some r \<Rightarrow> Inr r)"

text \<open>
  \<open>issue_root\<close>; \<open>gid\<close> is the identifier the grant's \<open>uuid4\<close> factory produces. The manifest's
  \<open>max_tool_calls\<close> is an \<open>int\<close> by its type, so the type test of the source cannot fail here.
\<close>

definition issue_root ::
  "capability_ledger \<Rightarrow> campaign_manifest \<Rightarrow> string \<Rightarrow> string \<Rightarrow> string set \<Rightarrow> string set \<Rightarrow>
   clock_reading \<Rightarrow> (capability_grant \<times> capability_ledger) result" where
  "issue_root L c gid subj tls tgts clk =
     (if records L \<noteq> [] then Inl (CapabilityError ''root capability has already been issued'')
      else case ledger_issued_at clk of
        Inl e \<Rightarrow> Inl e
      | Inr iss \<Rightarrow>
          (case make_grant gid None subj (metadata_name c) tls tgts
                  (roe_max_tool_risk_tier (spec_rules_of_engagement (campaign_spec c)))
                  (max_tool_calls (spec_budgets (campaign_spec c)))
                  (utc_datetime (auth_expires_at (spec_authorization (campaign_spec c))))
                  True iss 0 of
             Inl e \<Rightarrow> Inl e
           | Inr g \<Rightarrow> Inr (g, store_grant g L)))"

text \<open>\<open>delegate\<close>.\<close>

definition delegate ::
  "capability_ledger \<Rightarrow> string \<Rightarrow> string \<Rightarrow> string \<Rightarrow> string set \<Rightarrow> string set \<Rightarrow> tool_risk_tier \<Rightarrow>
   py_num \<Rightarrow> py_datetime option \<Rightarrow> bool \<Rightarrow> clock_reading \<Rightarrow>
   (capability_grant \<times> capability_ledger) result" where
  "delegate L parent_id gid subj tls tgts tier calls expires delegable clk =
     (case calls of
        PyInt n \<Rightarrow>
          (if n < 0 then Inl (CapabilityError ''child call budget must be a non-negative integer'')
           else case ledger_record (records L) parent_id of
             Inl e \<Rightarrow> Inl e
           | Inr pr \<Rightarrow>
             (let parent = rec_grant pr; child_depth = grant_depth parent + 1 in
              if revoked pr then Inl (CapabilityError ''revoked capability cannot delegate'')
              else if child_depth > max_depth L
                then Inl (CapabilityError ''maximum capability delegation depth exceeded'')
              else if n > remaining_calls pr
                then Inl (CapabilityError ''child call budget exceeds parent remaining budget'')
              else case ledger_issued_at clk of
                Inl e \<Rightarrow> Inl e
              | Inr iss \<Rightarrow>
                (case make_grant gid (Some (grant_id parent)) subj (grant_campaign parent) tls tgts
                        tier n
                        (case expires of None \<Rightarrow> utc_datetime (grant_expires_at parent) | Some d \<Rightarrow> d)
                        delegable iss child_depth of
                   Inl e \<Rightarrow> Inl e
                 | Inr child \<Rightarrow>
                     (if \<not> attenuates child parent
                      then Inl (CapabilityError ''child capability does not attenuate parent authority'')
                      else Inr (child, store_grant child L)))))
      | _ \<Rightarrow> Inl (CapabilityError ''child call budget must be a non-negative integer''))"

text \<open>\<open>_lineage\<close>: the grant, its parent, and so on up to the root.\<close>

partial_function (option) lineage_loop ::
  "(string, capability_record) dict \<Rightarrow> string list \<Rightarrow> string \<Rightarrow> string list result option" where
  "lineage_loop recs acc gid =
     (case dict_get recs gid of
        None \<Rightarrow> Some (Inl (CapabilityError (''unknown capability grant: '' @ gid)))
      | Some r \<Rightarrow>
          (case parent_grant_id (rec_grant r) of
             None \<Rightarrow> Some (Inr (acc @ [gid]))
           | Some p \<Rightarrow> lineage_loop recs (acc @ [gid]) p))"

definition lineage :: "capability_ledger \<Rightarrow> string \<Rightarrow> string list result option" where
  "lineage L gid = lineage_loop (records L) [] gid"

definition call_left :: "(string, capability_record) dict \<Rightarrow> string \<Rightarrow> bool" where
  "call_left recs k =
     (case dict_get recs k of None \<Rightarrow> False | Some r \<Rightarrow> \<not> revoked r \<and> 0 < remaining_calls r)"

text \<open>\<open>can_consume\<close> and \<open>consume\<close>.\<close>

definition can_consume :: "capability_ledger \<Rightarrow> string \<Rightarrow> bool result option" where
  "can_consume L gid =
     (case lineage L gid of
        None \<Rightarrow> None
      | Some (Inl e) \<Rightarrow> Some (Inl e)
      | Some (Inr ids) \<Rightarrow> Some (Inr (list_all (call_left (records L)) ids)))"

definition spend_call :: "string \<Rightarrow> (string, capability_record) dict \<Rightarrow> (string, capability_record) dict" where
  "spend_call k recs =
     (case dict_get recs k of
        None \<Rightarrow> recs
      | Some r \<Rightarrow> dict_set k (r\<lparr>remaining_calls := remaining_calls r - 1\<rparr>) recs)"

definition consume :: "capability_ledger \<Rightarrow> string \<Rightarrow> capability_ledger result option" where
  "consume L gid =
     (case lineage L gid of
        None \<Rightarrow> None
      | Some (Inl e) \<Rightarrow> Some (Inl e)
      | Some (Inr ids) \<Rightarrow>
          Some (if \<not> list_all (call_left (records L)) ids
                then Inl (CapabilityError ''capability lineage has no remaining authorized call'')
                else Inr (L\<lparr>records := fold spend_call ids (records L)\<rparr>)))"

text \<open>\<open>_descends_from\<close>.\<close>

partial_function (option) descends_from ::
  "(string, capability_record) dict \<Rightarrow> string \<Rightarrow> string \<Rightarrow> bool result option" where
  "descends_from recs gid ancestor =
     (case dict_get recs gid of
        None \<Rightarrow> Some (Inl (CapabilityError (''unknown capability grant: '' @ gid)))
      | Some r \<Rightarrow>
          (case parent_grant_id (rec_grant r) of
             None \<Rightarrow> Some (Inr False)
           | Some p \<Rightarrow>
               (if p = ancestor then Some (Inr True) else descends_from recs p ancestor)))"

text \<open>
  The loop of \<open>revoke\<close> over \<open>self._records.items()\<close>. An exception leaves the records revoked so
  far revoked, so the state is returned beside the result.
\<close>

definition mark_revoked ::
  "string \<Rightarrow> string \<Rightarrow> (string, capability_record) dict \<Rightarrow> (string, capability_record) dict" where
  "mark_revoked k reason recs =
     (case dict_get recs k of
        None \<Rightarrow> recs
      | Some r \<Rightarrow> dict_set k (r\<lparr>revoked := True, revoke_reason := Some reason\<rparr>) recs)"

definition is_revoked :: "(string, capability_record) dict \<Rightarrow> string \<Rightarrow> bool" where
  "is_revoked recs k = (case dict_get recs k of None \<Rightarrow> False | Some r \<Rightarrow> revoked r)"

fun revoke_loop ::
  "string list \<Rightarrow> string \<Rightarrow> string \<Rightarrow> bool \<Rightarrow> string list \<Rightarrow> (string, capability_record) dict \<Rightarrow>
   (string list result \<times> (string, capability_record) dict) option" where
  "revoke_loop [] gid reason cascade acc recs = Some (Inr acc, recs)"
| "revoke_loop (k # ks) gid reason cascade acc recs =
     (case (if k = gid then Some (Inr True)
            else if cascade then descends_from recs k gid else Some (Inr False)) of
        None \<Rightarrow> None
      | Some (Inl e) \<Rightarrow> Some (Inl e, recs)
      | Some (Inr selected) \<Rightarrow>
          (if selected \<and> \<not> is_revoked recs k
           then revoke_loop ks gid reason cascade (acc @ [k]) (mark_revoked k reason recs)
           else revoke_loop ks gid reason cascade acc recs))"

text \<open>\<open>revoke\<close>.\<close>

definition revoke ::
  "capability_ledger \<Rightarrow> string \<Rightarrow> string \<Rightarrow> bool \<Rightarrow> (string list result \<times> capability_ledger) option" where
  "revoke L gid reason cascade =
     (if py_strip reason = [] \<or> 500 < length reason
      then Some (Inl (CapabilityError ''capability revocation reason must contain 1 to 500 characters''), L)
      else case ledger_record (records L) gid of
        Inl e \<Rightarrow> Some (Inl e, L)
      | Inr _ \<Rightarrow>
          map_option (\<lambda>(res, recs). (res, L\<lparr>records := recs\<rparr>))
            (revoke_loop (map fst (records L)) gid reason cascade [] (records L)))"

section \<open>Histories\<close>

datatype ledger_event = Issued string | Delegated string string | Consumed string | RevokedBy string

text \<open>
  One successful or failed operation that touches the state. \<open>uuid4\<close> gives an identifier that is
  not in use; that is the one fact assumed of it.
\<close>

inductive ledger_step :: "capability_ledger \<Rightarrow> ledger_event \<Rightarrow> capability_ledger \<Rightarrow> bool" where
  step_issue: "issue_root L c gid subj tls tgts clk = Inr (g, L') \<Longrightarrow> ledger_step L (Issued gid) L'"
| step_delegate:
    "delegate L p gid subj tls tgts tier calls expires delegable clk = Inr (g, L') \<Longrightarrow>
     dict_get (records L) gid = None \<Longrightarrow> ledger_step L (Delegated p gid) L'"
| step_consume: "consume L k = Some (Inr L') \<Longrightarrow> ledger_step L (Consumed k) L'"
| step_revoke: "revoke L k reason cascade = Some (res, L') \<Longrightarrow> ledger_step L (RevokedBy k) L'"

text \<open>\<open>under recs k a\<close>: the grant \<open>k\<close> is \<open>a\<close> or was delegated, in one or more steps, from \<open>a\<close>.\<close>

inductive under :: "(string, capability_record) dict \<Rightarrow> string \<Rightarrow> string \<Rightarrow> bool" for recs where
  under_self: "dict_get recs k = Some r \<Longrightarrow> under recs k k"
| under_parent: "dict_get recs k = Some r \<Longrightarrow> parent_grant_id (rec_grant r) = Some p \<Longrightarrow>
    under recs p a \<Longrightarrow> under recs k a"

text \<open>The calls a history spent under a grant.\<close>

definition spends_under :: "(string, capability_record) dict \<Rightarrow> string \<Rightarrow> ledger_event \<Rightarrow> bool" where
  "spends_under recs a e = (case e of Consumed k \<Rightarrow> under recs k a | _ \<Rightarrow> False)"

definition calls_under :: "(string, capability_record) dict \<Rightarrow> string \<Rightarrow> ledger_event list \<Rightarrow> nat" where
  "calls_under recs a es = length (filter (spends_under recs a) es)"

section \<open>The ledger invariant\<close>

definition record_wf :: "int \<Rightarrow> (string, capability_record) dict \<Rightarrow> string \<Rightarrow> capability_record \<Rightarrow> bool" where
  "record_wf d recs k r =
     (grant_id (rec_grant r) = k \<and> grant_shape (rec_grant r) \<and>
      0 \<le> remaining_calls r \<and> remaining_calls r \<le> grant_max_calls (rec_grant r) \<and>
      grant_depth (rec_grant r) \<le> d \<and>
      (case parent_grant_id (rec_grant r) of
         None \<Rightarrow> True
       | Some p \<Rightarrow> (case dict_get recs p of
                      None \<Rightarrow> False
                    | Some rp \<Rightarrow> attenuates (rec_grant r) (rec_grant rp))))"

definition ledger_wf :: "capability_ledger \<Rightarrow> bool" where
  "ledger_wf L = (dict_ok (records L) \<and> 0 \<le> max_depth L \<and>
     (\<forall>k r. dict_get (records L) k = Some r \<longrightarrow> record_wf (max_depth L) (records L) k r))"

text \<open>Two states of the records with the same grants: only budgets and revocation flags differ.\<close>

definition same_grants ::
  "(string, capability_record) dict \<Rightarrow> (string, capability_record) dict \<Rightarrow> bool" where
  "same_grants recs recs' = (\<forall>k. map_option rec_grant (dict_get recs k) = map_option rec_grant (dict_get recs' k))"

text \<open>A revocation only sets flags and reasons.\<close>

definition revoked_ext ::
  "(string, capability_record) dict \<Rightarrow> (string, capability_record) dict \<Rightarrow> bool" where
  "revoked_ext recs recs' = (\<forall>k. case dict_get recs k of
      None \<Rightarrow> dict_get recs' k = None
    | Some r \<Rightarrow> (\<exists>r'. dict_get recs' k = Some r' \<and> rec_grant r' = rec_grant r \<and>
                   remaining_calls r' = remaining_calls r \<and> (revoked r \<longrightarrow> revoked r')))"

text \<open>Every call a history spent names a grant the ledger still holds.\<close>

definition calls_recorded :: "(string, capability_record) dict \<Rightarrow> ledger_event list \<Rightarrow> bool" where
  "calls_recorded recs es = (\<forall>k. Consumed k \<in> set es \<longrightarrow> (\<exists>r. dict_get recs k = Some r))"

definition calls_conserved :: "(string, capability_record) dict \<Rightarrow> ledger_event list \<Rightarrow> bool" where
  "calls_conserved recs es = (\<forall>a r. dict_get recs a = Some r \<longrightarrow>
     int (calls_under recs a es) + remaining_calls r = grant_max_calls (rec_grant r))"

section \<open>A sample history\<close>

declare lineage_loop.simps [code] and descends_from.simps [code]

text \<open>A root grant, a delegation, a call under the child, and a non-cascading revocation of the root.\<close>

definition sample_ledger0 :: capability_ledger where
  "sample_ledger0 = projr (new_ledger (PyInt 2))"

definition sample_root :: "(capability_grant \<times> capability_ledger) result" where
  "sample_root = issue_root sample_ledger0 sample_campaign ''root'' ''supervisor''
     {''http.get'', ''mcp''} {''http://a.test/''} (ClockAt (utc_datetime 10))"

definition sample_ledger1 :: capability_ledger where
  "sample_ledger1 = snd (projr sample_root)"

definition sample_child :: "(capability_grant \<times> capability_ledger) result" where
  "sample_child = delegate sample_ledger1 ''root'' ''child'' ''agent''
     {''http.get''} {''http://a.test/''} T1 (PyInt 2) None False (ClockAt (utc_datetime 20))"

definition sample_ledger2 :: capability_ledger where
  "sample_ledger2 = snd (projr sample_child)"

definition sample_ledger3 :: capability_ledger where
  "sample_ledger3 = projr (the (consume sample_ledger2 ''child''))"

definition sample_ledger4 :: capability_ledger where
  "sample_ledger4 = snd (the (revoke sample_ledger3 ''root'' ''stop'' False))"

section \<open>Lookups after the primitive updates\<close>

lemma dict_get_spend_call [dict_simps]:
  "dict_get (spend_call k recs) k' =
     (if k' = k then map_option (\<lambda>r. r\<lparr>remaining_calls := remaining_calls r - 1\<rparr>) (dict_get recs k)
      else dict_get recs k')"
  by (auto simp: spend_call_def dict_simps split: option.splits)

lemma dict_get_mark_revoked [dict_simps]:
  "dict_get (mark_revoked k reason recs) k' =
     (if k' = k then map_option (\<lambda>r. r\<lparr>revoked := True, revoke_reason := Some reason\<rparr>) (dict_get recs k)
      else dict_get recs k')"
  by (auto simp: mark_revoked_def dict_simps split: option.splits)

lemma dict_ok_spend_call [simp]: "dict_ok recs \<Longrightarrow> dict_ok (spend_call k recs)"
  by (auto simp: spend_call_def split: option.splits)

lemma dict_ok_mark_revoked [simp]: "dict_ok recs \<Longrightarrow> dict_ok (mark_revoked k reason recs)"
  by (auto simp: mark_revoked_def split: option.splits)

lemma dict_ok_fold_spend [simp]: "dict_ok recs \<Longrightarrow> dict_ok (fold spend_call ids recs)"
  by (induction ids arbitrary: recs) auto

lemma dict_get_fold_spend:
  "distinct ids \<Longrightarrow> dict_get (fold spend_call ids recs) k =
     (if k \<in> set ids
      then map_option (\<lambda>r. r\<lparr>remaining_calls := remaining_calls r - 1\<rparr>) (dict_get recs k)
      else dict_get recs k)"
  by (induction ids arbitrary: recs) (auto simp: dict_simps)

section \<open>The delegation order\<close>

lemma under_dom: "under recs k a \<Longrightarrow> (\<exists>r. dict_get recs k = Some r) \<and> (\<exists>r. dict_get recs a = Some r)"
  by (induction rule: under.induct) auto

lemma under_trans: "under recs k a \<Longrightarrow> under recs a b \<Longrightarrow> under recs k b"
  by (induction rule: under.induct) (auto intro: under.intros)

lemma under_unfold:
  "dict_get recs k = Some r \<Longrightarrow>
   under recs k a \<longleftrightarrow> a = k \<or> (\<exists>p. parent_grant_id (rec_grant r) = Some p \<and> under recs p a)"
  by (subst under.simps) auto

lemma same_grants_refl [simp]: "same_grants recs recs"
  by (simp add: same_grants_def)

lemma same_grants_sym: "same_grants recs recs' \<Longrightarrow> same_grants recs' recs"
  by (simp add: same_grants_def)

lemma same_grants_trans: "same_grants a b \<Longrightarrow> same_grants b c \<Longrightarrow> same_grants a c"
  by (simp add: same_grants_def)

lemma same_grantsD:
  "same_grants recs recs' \<Longrightarrow> dict_get recs k = Some r \<Longrightarrow>
   \<exists>r'. dict_get recs' k = Some r' \<and> rec_grant r' = rec_grant r"
  by (metis (no_types, lifting) map_option_eq_Some option.simps(9) same_grants_def)

lemma same_grants_under_imp: "under recs k a \<Longrightarrow> same_grants recs recs' \<Longrightarrow> under recs' k a"
proof (induction rule: under.induct)
  case (under_self k r)
  then show ?case by (auto dest: same_grantsD intro: under.intros)
next
  case (under_parent k r p a)
  then show ?case by (metis same_grantsD under.under_parent)
qed

lemma same_grants_under: "same_grants recs recs' \<Longrightarrow> under recs' k a = under recs k a"
  by (blast intro: same_grants_under_imp same_grants_sym)

lemma same_grants_calls_under:
  "same_grants recs recs' \<Longrightarrow> calls_under recs' a es = calls_under recs a es"
  by (auto simp: calls_under_def spends_under_def same_grants_under
      intro!: arg_cong [where f = length] filter_cong split: ledger_event.splits)

lemma same_grants_spend: "same_grants recs (spend_call k recs)"
  by (auto simp: same_grants_def dict_simps option.map_comp o_def)

lemma same_grants_fold_spend: "same_grants recs (fold spend_call ids recs)"
  by (induction ids arbitrary: recs) (auto intro: same_grants_trans same_grants_spend)

lemma same_grants_mark: "same_grants recs (mark_revoked k reason recs)"
  by (auto simp: same_grants_def dict_simps option.map_comp o_def)

section \<open>Well-formed ledgers\<close>

lemma ledger_wfD:
  assumes "ledger_wf L" and "dict_get (records L) k = Some r"
  shows "grant_id (rec_grant r) = k" "grant_shape (rec_grant r)" "0 \<le> remaining_calls r"
    "remaining_calls r \<le> grant_max_calls (rec_grant r)" "grant_depth (rec_grant r) \<le> max_depth L"
  using assms by (auto simp: ledger_wf_def record_wf_def)

lemma ledger_wf_parent:
  assumes "ledger_wf L" and "dict_get (records L) k = Some r"
    and "parent_grant_id (rec_grant r) = Some p"
  obtains rp where "dict_get (records L) p = Some rp" and "attenuates (rec_grant r) (rec_grant rp)"
    and "grant_depth (rec_grant r) = grant_depth (rec_grant rp) + 1"
proof -
  have "record_wf (max_depth L) (records L) k r"
    using assms(1,2) by (simp add: ledger_wf_def)
  then obtain rp where "dict_get (records L) p = Some rp" and "attenuates (rec_grant r) (rec_grant rp)"
    using assms(3) by (auto simp: record_wf_def split: option.splits)
  then show ?thesis
    using that by (simp add: attenuates_def)
qed

lemma under_depth:
  assumes "ledger_wf L" and "under (records L) k a"
    and "dict_get (records L) k = Some r" and "dict_get (records L) a = Some ra"
  shows "grant_depth (rec_grant ra) \<le> grant_depth (rec_grant r)"
  using assms(2,3,4)
proof (induction arbitrary: r rule: under.induct)
  case (under_self k r')
  then show ?case by simp
next
  case (under_parent k r' p a)
  then have par: "parent_grant_id (rec_grant r) = Some p" by simp
  obtain rp where "dict_get (records L) p = Some rp"
    and "grant_depth (rec_grant r) = grant_depth (rec_grant rp) + 1"
    using ledger_wf_parent [OF assms(1) under_parent.prems(1) par] .
  with under_parent.IH under_parent.prems show ?case by fastforce
qed

text \<open>The lineage loop ends, and lists every ancestor of the grant once.\<close>

lemma lineage_loop_total:
  assumes "ledger_wf L" and "dict_get (records L) k = Some r"
  shows "\<exists>ids. lineage_loop (records L) acc k = Some (Inr (acc @ ids)) \<and> distinct ids \<and>
           set ids = {a. under (records L) k a}"
  using assms(2)
proof (induction "nat (grant_depth (rec_grant r))" arbitrary: k r acc rule: less_induct)
  case less
  note k = \<open>dict_get (records L) k = Some r\<close>
  show ?case
  proof (cases "parent_grant_id (rec_grant r)")
    case None
    have "{a. under (records L) k a} = {k}"
      using None by (auto simp: under_unfold [OF k])
    then show ?thesis
      using None k by (subst lineage_loop.simps) auto
  next
    case (Some p)
    obtain rp where rp: "dict_get (records L) p = Some rp"
      and depth: "grant_depth (rec_grant r) = grant_depth (rec_grant rp) + 1"
      using ledger_wf_parent [OF assms(1) k Some] .
    have "0 \<le> grant_depth (rec_grant rp)"
      using ledger_wfD(2) [OF assms(1) rp] by (simp add: grant_shape_def)
    with depth have "nat (grant_depth (rec_grant rp)) < nat (grant_depth (rec_grant r))" by simp
    from less(1) [OF this rp, of "acc @ [k]"] obtain ids where
      ids: "lineage_loop (records L) (acc @ [k]) p = Some (Inr ((acc @ [k]) @ ids))"
        "distinct ids" "set ids = {a. under (records L) p a}" by blast
    have "\<not> under (records L) p k"
      using under_depth [OF assms(1) _ rp k] depth by auto
    moreover have "{a. under (records L) k a} = insert k {a. under (records L) p a}"
      using Some by (auto simp: under_unfold [OF k])
    ultimately show ?thesis
      using ids k Some by (subst lineage_loop.simps) (auto intro: exI [of _ "k # ids"])
  qed
qed

lemma lineage_total:
  assumes "ledger_wf L" and "dict_get (records L) k = Some r"
  obtains ids where "lineage L k = Some (Inr ids)" and "distinct ids"
    and "set ids = {a. under (records L) k a}"
  using lineage_loop_total [OF assms, of "[]"] by (auto simp: lineage_def)

lemma lineage_unknown: "dict_get (records L) k = None \<Longrightarrow>
  lineage L k = Some (Inl (CapabilityError (''unknown capability grant: '' @ k)))"
  by (simp add: lineage_def lineage_loop.simps)

lemma descends_from_exact:
  assumes "ledger_wf L" and "dict_get (records L) k = Some r"
    and "same_grants (records L) recs"
  shows "descends_from recs k a =
    Some (Inr (\<exists>p. parent_grant_id (rec_grant r) = Some p \<and> under (records L) p a))"
  using assms(2)
proof (induction "nat (grant_depth (rec_grant r))" arbitrary: k r rule: less_induct)
  case less
  obtain r' where r': "dict_get recs k = Some r'" "rec_grant r' = rec_grant r"
    using same_grantsD [OF assms(3) less.prems] by blast
  show ?case
  proof (cases "parent_grant_id (rec_grant r)")
    case None
    with r' show ?thesis by (subst descends_from.simps) auto
  next
    case (Some p)
    obtain rp where rp: "dict_get (records L) p = Some rp"
      and depth: "grant_depth (rec_grant r) = grant_depth (rec_grant rp) + 1"
      using ledger_wf_parent [OF assms(1) less.prems Some] .
    have "0 \<le> grant_depth (rec_grant rp)"
      using ledger_wfD(2) [OF assms(1) rp] by (simp add: grant_shape_def)
    with depth have "nat (grant_depth (rec_grant rp)) < nat (grant_depth (rec_grant r))" by simp
    from less(1) [OF this rp] r' Some under_unfold [OF rp, of a] show ?thesis
      by (subst descends_from.simps) (auto split: if_splits)
  qed
qed

section \<open>What each operation does to the records\<close>

lemma ledger_wf_same_grants:
  assumes "ledger_wf L" and "same_grants (records L) recs" and "dict_ok recs"
    and "\<And>k r. dict_get recs k = Some r \<Longrightarrow>
           0 \<le> remaining_calls r \<and> remaining_calls r \<le> grant_max_calls (rec_grant r)"
  shows "ledger_wf (L\<lparr>records := recs\<rparr>)"
proof -
  have "record_wf (max_depth L) recs k r" if r: "dict_get recs k = Some r" for k r
  proof -
    obtain r0 where r0: "dict_get (records L) k = Some r0" "rec_grant r0 = rec_grant r"
      using same_grantsD [OF same_grants_sym [OF assms(2)] r] by auto
    have wf0: "record_wf (max_depth L) (records L) k r0"
      using assms(1) r0(1) by (simp add: ledger_wf_def)
    show ?thesis
    proof (cases "parent_grant_id (rec_grant r)")
      case None
      then show ?thesis using wf0 r0 assms(4) [OF r] by (simp add: record_wf_def)
    next
      case (Some p)
      with r0 obtain rp where rp: "dict_get (records L) p = Some rp"
        "attenuates (rec_grant r0) (rec_grant rp)"
        by (metis assms(1) ledger_wf_parent)
      obtain rp' where "dict_get recs p = Some rp'" "rec_grant rp' = rec_grant rp"
        using same_grantsD [OF assms(2) rp(1)] by blast
      then show ?thesis using wf0 r0 rp Some assms(4) [OF r] by (simp add: record_wf_def)
    qed
  qed
  then show ?thesis using assms(1,3) by (simp add: ledger_wf_def)
qed

text \<open>\<open>consume\<close> spends one call on the grant and on each of its ancestors, and on nothing else.\<close>

lemma consume_Inr:
  assumes "ledger_wf L" and "consume L k = Some (Inr L')"
  obtains recs where "L' = L\<lparr>records := recs\<rparr>" and "dict_ok recs" and "same_grants (records L) recs"
    and "\<And>a. dict_get recs a =
           (if under (records L) k a
            then map_option (\<lambda>r. r\<lparr>remaining_calls := remaining_calls r - 1\<rparr>) (dict_get (records L) a)
            else dict_get (records L) a)"
    and "\<And>a r. under (records L) k a \<Longrightarrow> dict_get (records L) a = Some r \<Longrightarrow>
           \<not> revoked r \<and> 0 < remaining_calls r"
    and "\<exists>r. dict_get (records L) k = Some r"
proof -
  have "dict_get (records L) k \<noteq> None"
  proof
    assume "dict_get (records L) k = None"
    then show False using assms(2) by (simp add: consume_def lineage_unknown)
  qed
  then obtain r where r: "dict_get (records L) k = Some r" by blast
  obtain ids where ids: "lineage L k = Some (Inr ids)" "distinct ids" "set ids = {a. under (records L) k a}"
    using lineage_total [OF assms(1) r] .
  have ok: "list_all (call_left (records L)) ids" and
    L': "L' = L\<lparr>records := fold spend_call ids (records L)\<rparr>"
    using assms(2) ids(1) by (auto simp: consume_def split: if_splits)
  show ?thesis
  proof (rule that [of "fold spend_call ids (records L)"])
    show "dict_ok (fold spend_call ids (records L))"
      using assms(1) by (simp add: ledger_wf_def)
    show "same_grants (records L) (fold spend_call ids (records L))"
      by (rule same_grants_fold_spend)
    fix a
    show "dict_get (fold spend_call ids (records L)) a =
      (if under (records L) k a
       then map_option (\<lambda>r. r\<lparr>remaining_calls := remaining_calls r - 1\<rparr>) (dict_get (records L) a)
       else dict_get (records L) a)"
      using ids by (simp add: dict_get_fold_spend)
  next
    fix a ra
    assume "under (records L) k a" and "dict_get (records L) a = Some ra"
    then show "\<not> revoked ra \<and> 0 < remaining_calls ra"
      using ok ids(3) by (force simp: list_all_iff call_left_def)
  qed (use L' r in auto)
qed

lemma revoked_ext_refl [simp]: "revoked_ext recs recs"
  by (simp add: revoked_ext_def split: option.splits)

lemma revoked_extD:
  assumes "revoked_ext recs recs'" and "dict_get recs k = Some r"
  shows "\<exists>r'. dict_get recs' k = Some r' \<and> rec_grant r' = rec_grant r \<and>
     remaining_calls r' = remaining_calls r \<and> (revoked r \<longrightarrow> revoked r')"
  using assms(1) [unfolded revoked_ext_def, THEN spec, of k] assms(2) by simp

lemma revoked_ext_None:
  assumes "revoked_ext recs recs'" and "dict_get recs k = None"
  shows "dict_get recs' k = None"
  using assms(1) [unfolded revoked_ext_def, THEN spec, of k] assms(2) by simp

lemma revoked_ext_trans:
  assumes "revoked_ext a b" and "revoked_ext b c"
  shows "revoked_ext a c"
  unfolding revoked_ext_def
proof
  fix k
  show "case dict_get a k of None \<Rightarrow> dict_get c k = None
    | Some r \<Rightarrow> (\<exists>r'. dict_get c k = Some r' \<and> rec_grant r' = rec_grant r \<and>
        remaining_calls r' = remaining_calls r \<and> (revoked r \<longrightarrow> revoked r'))"
  proof (cases "dict_get a k")
    case None
    then show ?thesis using assms revoked_ext_None by fastforce
  next
    case (Some r)
    then obtain r' where r': "dict_get b k = Some r'" "rec_grant r' = rec_grant r"
      "remaining_calls r' = remaining_calls r" "revoked r \<longrightarrow> revoked r'"
      using revoked_extD [OF assms(1)] by blast
    then show ?thesis using revoked_extD [OF assms(2) r'(1)] Some by auto
  qed
qed

lemma revoked_ext_mark: "revoked_ext recs (mark_revoked k reason recs)"
  by (auto simp: revoked_ext_def dict_simps split: option.splits)

lemma revoked_ext_same_grants: "revoked_ext recs recs' \<Longrightarrow> same_grants recs recs'"
  unfolding same_grants_def
proof
  fix k
  assume ext: "revoked_ext recs recs'"
  show "map_option rec_grant (dict_get recs k) = map_option rec_grant (dict_get recs' k)"
    using revoked_extD [OF ext, of k] revoked_ext_None [OF ext, of k]
    by (cases "dict_get recs k") auto
qed

lemma revoked_ext_is_revoked: "revoked_ext recs recs' \<Longrightarrow> is_revoked recs k \<Longrightarrow> is_revoked recs' k"
  by (auto simp: is_revoked_def dest: revoked_extD split: option.splits)

lemma revoke_loop_ext:
  "revoke_loop ks gid reason cascade acc recs = Some (res, recs') \<Longrightarrow> dict_ok recs \<Longrightarrow>
   revoked_ext recs recs' \<and> dict_ok recs'"
proof (induction ks gid reason cascade acc recs rule: revoke_loop.induct)
  case (1 gid reason cascade acc recs)
  then show ?case by simp
next
  case (2 k ks gid reason cascade acc recs)
  then show ?case
    by (fastforce split: option.splits sum.splits if_splits
        intro: revoked_ext_trans [OF revoked_ext_mark])
qed

text \<open>On a well-formed ledger the loop ends without an exception and revokes the named grant.\<close>

lemma revoke_ext:
  assumes "ledger_wf L" and "revoke L k reason cascade = Some (res, L')"
  obtains recs where "L' = L\<lparr>records := recs\<rparr>" and "revoked_ext (records L) recs" and "dict_ok recs"
proof -
  have ok: "dict_ok (records L)" using assms(1) by (simp add: ledger_wf_def)
  consider "L' = L" | recs where "L' = L\<lparr>records := recs\<rparr>"
      "revoke_loop (map fst (records L)) k reason cascade [] (records L) = Some (res, recs)"
    using assms(2) by (auto simp: revoke_def split: if_splits sum.splits)
  then show ?thesis
  proof cases
    case 1
    then show ?thesis using that [of "records L"] ok by simp
  next
    case 2
    then show ?thesis using that revoke_loop_ext ok by blast
  qed
qed

text \<open>A fresh grant stored under a well-formed parent.\<close>

lemma ledger_wf_store:
  assumes "ledger_wf L" and "dict_get (records L) (grant_id g) = None" and "grant_shape g"
    and "grant_depth g \<le> max_depth L"
    and "parent_grant_id g = None \<or>
      (\<exists>p rp. parent_grant_id g = Some p \<and> dict_get (records L) p = Some rp \<and> attenuates g (rec_grant rp))"
  shows "ledger_wf (store_grant g L)"
proof -
  let ?new = "\<lparr>rec_grant = g, remaining_calls = grant_max_calls g, revoked = False, revoke_reason = None\<rparr>"
  let ?recs = "dict_set (grant_id g) ?new (records L)"
  have "record_wf (max_depth L) ?recs k r" if k: "dict_get ?recs k = Some r" for k r
  proof (cases "k = grant_id g")
    case True
    with k have "r = ?new" by (simp add: dict_simps)
    with True assms(2-5) show ?thesis
      by (auto simp: record_wf_def dict_simps grant_shape_def split: option.splits)
  next
    case False
    with k have "dict_get (records L) k = Some r" by (simp add: dict_simps)
    then have "record_wf (max_depth L) (records L) k r" using assms(1) by (simp add: ledger_wf_def)
    then show ?thesis
      using assms(2) by (auto simp: record_wf_def dict_simps split: option.splits)
  qed
  then show ?thesis using assms(1) by (simp add: ledger_wf_def store_grant_def)
qed

lemma delegate_Inr:
  assumes "delegate L p gid subj tls tgts tier calls expires del clk = Inr (g, L')"
  obtains pr where "dict_get (records L) p = Some pr" and "\<not> revoked pr"
    and "grant_depth (rec_grant pr) + 1 \<le> max_depth L"
    and "L' = store_grant g L" and "grant_id g = gid" and "grant_shape g"
    and "parent_grant_id g = Some (grant_id (rec_grant pr))" and "attenuates g (rec_grant pr)"
    and "grant_max_calls g \<le> remaining_calls pr"
proof -
  from assms obtain pr n ex iss where
    pr: "dict_get (records L) p = Some pr" "\<not> revoked pr" "\<not> max_depth L \<le> grant_depth (rec_grant pr)"
      "\<not> remaining_calls pr < n" and
    mk: "make_grant gid (Some (grant_id (rec_grant pr))) subj (grant_campaign (rec_grant pr)) tls tgts
      tier n ex del iss (grant_depth (rec_grant pr) + 1) = Inr g" and
    g: "attenuates g (rec_grant pr)" "L' = store_grant g L"
    unfolding delegate_def ledger_record_def Let_def
    by (auto split: py_num.splits option.splits sum.splits if_splits)
  show ?thesis
    using that pr g make_grant_Inr [OF mk] by simp
qed

lemma issue_root_Inr:
  assumes "issue_root L c gid subj tls tgts clk = Inr (g, L')"
  shows "records L = []" "L' = store_grant g L" "grant_id g = gid" "grant_shape g"
    "parent_grant_id g = None" "grant_depth g = 0"
    "grant_max_calls g = max_tool_calls (spec_budgets (campaign_spec c))"
    "grant_max_risk_tier g = roe_max_tool_risk_tier (spec_rules_of_engagement (campaign_spec c))"
  using assms by (auto simp: issue_root_def dest: make_grant_Inr split: if_splits sum.splits)

section \<open>Steps\<close>

lemma new_ledger_wf: "new_ledger d = Inr L \<Longrightarrow> ledger_wf L \<and> records L = []"
  by (auto simp: new_ledger_def ledger_wf_def split: py_num.splits if_splits)

lemma revoke_wf:
  assumes "ledger_wf L" and "revoke L k reason cascade = Some (res, L')"
  shows "ledger_wf L'"
proof -
  obtain recs where recs: "L' = L\<lparr>records := recs\<rparr>" "revoked_ext (records L) recs" "dict_ok recs"
    using revoke_ext [OF assms] by blast
  have "0 \<le> remaining_calls r \<and> remaining_calls r \<le> grant_max_calls (rec_grant r)"
    if r: "dict_get recs a = Some r" for a r
  proof (cases "dict_get (records L) a")
    case None
    then show ?thesis using revoked_ext_None [OF recs(2)] r by auto
  next
    case (Some r0)
    then show ?thesis
      using revoked_extD [OF recs(2) Some] r ledger_wfD(3,4) [OF assms(1) Some] by auto
  qed
  then show ?thesis
    using ledger_wf_same_grants [OF assms(1) revoked_ext_same_grants [OF recs(2)] recs(3)] recs(1)
    by simp
qed

lemma consume_get:
  assumes "ledger_wf L" and "consume L k = Some (Inr L')"
  shows "dict_get (records L') a =
           (if under (records L) k a
            then map_option (\<lambda>r. r\<lparr>remaining_calls := remaining_calls r - 1\<rparr>) (dict_get (records L) a)
            else dict_get (records L) a)"
  by (rule consume_Inr [OF assms]) simp

lemma consume_left:
  assumes "ledger_wf L" and "consume L k = Some (Inr L')"
    and "under (records L) k a" and "dict_get (records L) a = Some r"
  shows "\<not> revoked r \<and> 0 < remaining_calls r"
  by (rule consume_Inr [OF assms(1,2)]) (use assms(3,4) in blast)

lemma consume_same_grants:
  assumes "ledger_wf L" and "consume L k = Some (Inr L')"
  shows "same_grants (records L) (records L')" "dict_ok (records L')" "L' = L\<lparr>records := records L'\<rparr>"
    "\<exists>r. dict_get (records L) k = Some r"
     apply (rule consume_Inr [OF assms]; simp)
    apply (rule consume_Inr [OF assms]; simp)
   apply (rule consume_Inr [OF assms]; simp)
  apply (rule consume_Inr [OF assms]; simp)
  done

lemma consume_wf:
  assumes "ledger_wf L" and "consume L k = Some (Inr L')"
  shows "ledger_wf L'"
proof -
  have "0 \<le> remaining_calls r \<and> remaining_calls r \<le> grant_max_calls (rec_grant r)"
    if r: "dict_get (records L') a = Some r" for a r
  proof (cases "dict_get (records L) a")
    case None
    then show ?thesis using consume_get [OF assms, of a] r by (simp split: if_splits)
  next
    case (Some r0)
    then show ?thesis
      using consume_get [OF assms, of a] r consume_left [OF assms _ Some]
        ledger_wfD(3,4) [OF assms(1) Some] by (auto split: if_splits)
  qed
  then show ?thesis
    using ledger_wf_same_grants [OF assms(1) consume_same_grants(1,2) [OF assms]]
      consume_same_grants(3) [OF assms] by simp
qed

lemma delegate_wf:
  assumes "ledger_wf L" and "delegate L p gid subj tls tgts tier calls expires del clk = Inr (g, L')"
    and "dict_get (records L) gid = None"
  shows "ledger_wf L'"
proof -
  obtain pr where pr: "dict_get (records L) p = Some pr"
    "grant_depth (rec_grant pr) + 1 \<le> max_depth L"
    "L' = store_grant g L" "grant_id g = gid" "grant_shape g"
    "parent_grant_id g = Some (grant_id (rec_grant pr))" "attenuates g (rec_grant pr)"
    using delegate_Inr [OF assms(2)] by metis
  have "grant_depth g = grant_depth (rec_grant pr) + 1"
    using pr(7) by (simp add: attenuates_def)
  moreover have "grant_id (rec_grant pr) = p"
    using ledger_wfD(1) [OF assms(1) pr(1)] .
  ultimately show ?thesis
    using ledger_wf_store [OF assms(1), of g] pr assms(3) by auto
qed

lemma issue_root_wf:
  assumes "ledger_wf L" and "issue_root L c gid subj tls tgts clk = Inr (g, L')"
  shows "ledger_wf L'"
  using issue_root_Inr [OF assms(2)] ledger_wf_store [OF assms(1), of g] assms(1)
  by (simp add: ledger_wf_def)

lemma ledger_step_wf: "ledger_wf L \<Longrightarrow> ledger_step L e L' \<Longrightarrow> ledger_wf L'"
  by (erule ledger_step.cases) (auto intro: issue_root_wf delegate_wf consume_wf revoke_wf)

interpretation ledger_runs: transition_invariant ledger_step ledger_wf
  by unfold_locales (rule ledger_step_wf)

lemma ledger_run_wf: "new_ledger d = Inr L0 \<Longrightarrow> steps ledger_step L0 es L \<Longrightarrow> ledger_wf L"
  using ledger_runs.run_inv new_ledger_wf by blast

text \<open>No step removes a grant, rewrites one, or lifts a revocation.\<close>

lemma ledger_step_keeps:
  assumes "ledger_wf L" and "ledger_step L e L'" and "dict_get (records L) k = Some r"
  shows "\<exists>r'. dict_get (records L') k = Some r' \<and> rec_grant r' = rec_grant r \<and> (revoked r \<longrightarrow> revoked r')"
  using assms(2)
proof cases
  case (step_issue c gid subj tls tgts clk g)
  then show ?thesis using issue_root_Inr(1) assms(3) by fastforce
next
  case (step_delegate p gid subj tls tgts tier calls expires delegable clk g)
  have "L' = store_grant g L" "grant_id g = gid"
    using delegate_Inr [OF step_delegate(2)] by metis+
  then show ?thesis using step_delegate(3) assms(3) by (auto simp: store_grant_def dict_simps)
next
  case (step_consume k')
  show ?thesis using assms(3) consume_get [OF assms(1) step_consume(2), of k] by (auto split: if_splits)
next
  case (step_revoke k' reason cascade res)
  obtain recs where "L' = L\<lparr>records := recs\<rparr>" "revoked_ext (records L) recs"
    using revoke_ext [OF assms(1) step_revoke(2)] by metis
  then show ?thesis using revoked_extD [OF _ assms(3)] by fastforce
qed

lemma ledger_run_keeps:
  assumes "steps ledger_step L es L'" and "ledger_wf L" and "dict_get (records L) k = Some r"
  shows "\<exists>r'. dict_get (records L') k = Some r' \<and> rec_grant r' = rec_grant r \<and> (revoked r \<longrightarrow> revoked r')"
  using assms
proof (induction rule: steps.induct)
  case (steps_nil s)
  then show ?case by blast
next
  case (steps_snoc s es t e u)
  then show ?case using ledger_step_keeps ledger_runs.run_inv by metis
qed

lemma under_run:
  assumes "steps ledger_step L es L'" and "ledger_wf L" and "dict_get (records L) k = Some r"
  shows "under (records L') k a \<longleftrightarrow> under (records L) k a"
proof
  assume "under (records L') k a"
  then show "under (records L) k a" using assms(3)
  proof (induction arbitrary: r rule: under.induct)
    case (under_self k r')
    then show ?case by (auto intro: under.intros)
  next
    case (under_parent k r' p a)
    then have "rec_grant r' = rec_grant r"
      using ledger_run_keeps [OF assms(1,2) under_parent.prems] by auto
    then obtain rp where "dict_get (records L) p = Some rp"
      using ledger_wf_parent [OF assms(2) under_parent.prems] under_parent.hyps(2) by metis
    then show ?case
      using under_parent \<open>rec_grant r' = rec_grant r\<close> by (auto intro: under.under_parent)
  qed
next
  assume "under (records L) k a"
  then show "under (records L') k a"
  proof (induction rule: under.induct)
    case (under_self k r)
    then show ?case using ledger_run_keeps [OF assms(1,2)] by (metis under.under_self)
  next
    case (under_parent k r p a)
    then show ?case using ledger_run_keeps [OF assms(1,2) under_parent.hyps(1)]
      by (metis under.under_parent)
  qed
qed

section \<open>Conservation of calls\<close>

lemma calls_under_snoc:
  "calls_under recs a (es @ [e]) = calls_under recs a es + (if spends_under recs a e then 1 else 0)"
  by (simp add: calls_under_def)

lemma calls_under_cong:
  assumes "\<And>k. Consumed k \<in> set es \<Longrightarrow> under recs' k a \<longleftrightarrow> under recs k a"
  shows "calls_under recs' a es = calls_under recs a es"
  unfolding calls_under_def
  by (rule arg_cong [where f = length], rule filter_cong)
    (auto simp: spends_under_def assms split: ledger_event.splits)

lemma calls_under_none:
  assumes "\<And>k. Consumed k \<in> set es \<Longrightarrow> \<not> under recs k a"
  shows "calls_under recs a es = 0"
  using assms by (auto simp: calls_under_def spends_under_def filter_empty_conv split: ledger_event.splits)

lemma calls_recorded_step:
  assumes "calls_recorded (records L) es" and "ledger_wf L" and "ledger_step L e L'"
  shows "calls_recorded (records L') (es @ [e])"
  unfolding calls_recorded_def
proof (intro allI impI)
  fix k assume "Consumed k \<in> set (es @ [e])"
  then consider "Consumed k \<in> set es" | "e = Consumed k" by auto
  then have "\<exists>r. dict_get (records L) k = Some r"
  proof cases
    case 1
    then show ?thesis using assms(1) by (simp add: calls_recorded_def)
  next
    case 2
    have "consume L k = Some (Inr L')"
      using assms(3) unfolding 2 by (auto elim: ledger_step.cases)
    then show ?thesis using consume_same_grants(4) [OF assms(2)] by blast
  qed
  then show "\<exists>r. dict_get (records L') k = Some r"
    using ledger_step_keeps [OF assms(2,3)] by blast
qed

lemma calls_conserved_store:
  assumes "calls_conserved (records L) es" and "calls_recorded (records L) es" and "ledger_wf L"
    and "dict_get (records L) (grant_id g) = None" and "ledger_step L e (store_grant g L)"
    and "\<And>k. e \<noteq> Consumed k"
  shows "calls_conserved (records (store_grant g L)) (es @ [e])"
  unfolding calls_conserved_def
proof (intro allI impI)
  let ?L = "store_grant g L"
  fix a r assume r: "dict_get (records ?L) a = Some r"
  have e: "\<not> spends_under (records ?L) a e"
    using assms(6) by (auto simp: spends_under_def split: ledger_event.splits)
  have same: "under (records ?L) k a \<longleftrightarrow> under (records L) k a" if k: "Consumed k \<in> set es" for k
  proof -
    obtain rk where "dict_get (records L) k = Some rk"
      using assms(2) k unfolding calls_recorded_def by blast
    then show ?thesis using under_run [OF steps_single [of ledger_step, OF assms(5)] assms(3)] by blast
  qed
  show "int (calls_under (records ?L) a (es @ [e])) + remaining_calls r = grant_max_calls (rec_grant r)"
  proof (cases "a = grant_id g")
    case True
    have "\<not> under (records ?L) k a" if "Consumed k \<in> set es" for k
      using same [OF that] under_dom [of "records L" k a] True assms(4) by auto
    then have "calls_under (records ?L) a es = 0" by (rule calls_under_none)
    then show ?thesis
      using r True e by (simp add: calls_under_snoc store_grant_def dict_simps, auto)
  next
    case False
    then have "dict_get (records L) a = Some r"
      using r by (simp add: store_grant_def dict_simps)
    then show ?thesis
      using assms(1) e calls_under_cong [of es, OF same] by (simp add: calls_conserved_def calls_under_snoc)
  qed
qed

lemma calls_conserved_consume:
  assumes "calls_conserved (records L) es" and "ledger_wf L" and "consume L k = Some (Inr L')"
  shows "calls_conserved (records L') (es @ [Consumed k])"
  unfolding calls_conserved_def
proof (intro allI impI)
  fix a r assume r: "dict_get (records L') a = Some r"
  note sg = consume_same_grants(1) [OF assms(2,3)]
  obtain r0 where r0: "dict_get (records L) a = Some r0"
    using same_grantsD [OF same_grants_sym [OF sg] r] by blast
  then have "int (calls_under (records L) a es) + remaining_calls r0 = grant_max_calls (rec_grant r0)"
    using assms(1) by (simp add: calls_conserved_def)
  then show "int (calls_under (records L') a (es @ [Consumed k])) + remaining_calls r =
      grant_max_calls (rec_grant r)"
    using consume_get [OF assms(2,3), of a] r r0
    by (auto simp: calls_under_snoc same_grants_calls_under [OF sg] spends_under_def
        same_grants_under [OF sg] split: if_splits)
qed

lemma calls_conserved_revoke:
  assumes "calls_conserved (records L) es" and "ledger_wf L"
    and "revoke L k reason cascade = Some (res, L')"
  shows "calls_conserved (records L') (es @ [RevokedBy k])"
  unfolding calls_conserved_def
proof (intro allI impI)
  fix a r assume r: "dict_get (records L') a = Some r"
  have ext: "revoked_ext (records L) (records L')"
    by (rule revoke_ext [OF assms(2,3)]) simp
  obtain r0 where r0: "dict_get (records L) a = Some r0"
    using r revoked_ext_None [OF ext, of a] by (cases "dict_get (records L) a") auto
  then have "int (calls_under (records L) a es) + remaining_calls r0 = grant_max_calls (rec_grant r0)"
    using assms(1) by (simp add: calls_conserved_def)
  then show "int (calls_under (records L') a (es @ [RevokedBy k])) + remaining_calls r =
      grant_max_calls (rec_grant r)"
    using revoked_extD [OF ext r0] r
    by (auto simp: calls_under_snoc same_grants_calls_under [OF revoked_ext_same_grants [OF ext]]
        spends_under_def)
qed

lemma calls_conserved_step:
  assumes "calls_conserved (records L) es" and "calls_recorded (records L) es" and "ledger_wf L"
    and "ledger_step L e L'"
  shows "calls_conserved (records L') (es @ [e])"
  using assms(4)
proof cases
  case (step_issue c gid subj tls tgts clk g)
  then show ?thesis
    using calls_conserved_store [OF assms(1-3), of g e] assms(4) issue_root_Inr(1,2) [OF step_issue(2)]
    by simp
next
  case (step_delegate p gid subj tls tgts tier calls expires delegable clk g)
  have "L' = store_grant g L" "grant_id g = gid"
    using delegate_Inr [OF step_delegate(2)] by metis+
  then show ?thesis
    using calls_conserved_store [OF assms(1-3), of g e] assms(4) step_delegate(1,3) by simp
next
  case (step_consume k)
  then show ?thesis using calls_conserved_consume [OF assms(1,3)] by simp
next
  case (step_revoke k reason cascade res)
  then show ?thesis using calls_conserved_revoke [OF assms(1,3)] by simp
qed

lemma ledger_run_conserved:
  "steps ledger_step L0 es L \<Longrightarrow> ledger_wf L0 \<Longrightarrow> records L0 = [] \<Longrightarrow>
   calls_recorded (records L) es \<and> calls_conserved (records L) es"
proof (induction rule: steps.induct)
  case (steps_nil s)
  then show ?case by (simp add: calls_recorded_def calls_conserved_def)
next
  case (steps_snoc s es t e u)
  then have "ledger_wf t" by (blast intro: ledger_runs.run_inv)
  then show ?case
    using steps_snoc calls_recorded_step calls_conserved_step by blast
qed

section \<open>Exact revocation\<close>

lemma is_revoked_mark:
  assumes "dict_get recs k = Some r"
  shows "is_revoked (mark_revoked k reason recs) a \<longleftrightarrow> a = k \<or> is_revoked recs a"
  using assms by (auto simp: is_revoked_def dict_simps)

text \<open>What the loop selects: the grant itself and, on a cascade, everything delegated from it.\<close>

lemma revoke_selects:
  assumes "ledger_wf L" and "dict_get (records L) k = Some r" and "same_grants (records L) recs"
  shows "(if k = gid then Some (Inr True) else if cascade then descends_from recs k gid else Some (Inr False))
    = Some (Inr (k = gid \<or> cascade \<and> under (records L) k gid))"
  using descends_from_exact [OF assms, of gid] under_unfold [OF assms(2), of gid] by auto

lemma revoke_loop_exact:
  assumes "ledger_wf L"
  shows "same_grants (records L) recs \<Longrightarrow> set ks \<subseteq> dom (map_of (records L)) \<Longrightarrow> distinct ks \<Longrightarrow>
    \<exists>recs'. revoke_loop ks gid reason cascade acc recs =
        Some (Inr (acc @ filter (\<lambda>k. (k = gid \<or> cascade \<and> under (records L) k gid) \<and> \<not> is_revoked recs k) ks), recs')
      \<and> (\<forall>k. is_revoked recs' k \<longleftrightarrow>
            is_revoked recs k \<or> k \<in> set ks \<and> (k = gid \<or> cascade \<and> under (records L) k gid))"
proof (induction ks arbitrary: acc recs)
  case Nil
  then show ?case by simp
next
  case (Cons k ks)
  obtain r where r: "dict_get (records L) k = Some r"
    using Cons.prems(2) by auto
  note sel = revoke_selects [OF assms r Cons.prems(1), of gid cascade]
  show ?case
  proof (cases "(k = gid \<or> cascade \<and> under (records L) k gid) \<and> \<not> is_revoked recs k")
    case True
    obtain r' where r': "dict_get recs k = Some r'"
      using same_grantsD [OF Cons.prems(1) r] by blast
    have "same_grants (records L) (mark_revoked k reason recs)"
      using Cons.prems(1) same_grants_mark same_grants_trans by blast
    note IH = Cons.IH [OF this, of "acc @ [k]"]
    have "filter (\<lambda>a. (a = gid \<or> cascade \<and> under (records L) a gid) \<and> \<not> is_revoked (mark_revoked k reason recs) a) ks
      = filter (\<lambda>a. (a = gid \<or> cascade \<and> under (records L) a gid) \<and> \<not> is_revoked recs a) ks"
      using Cons.prems(3) by (intro filter_cong) (auto simp: is_revoked_mark [OF r'])
    then show ?thesis using IH Cons.prems(2,3) True sel by (auto simp: is_revoked_mark [OF r'])
  next
    case False
    show ?thesis
      using Cons.IH [OF Cons.prems(1), of acc] Cons.prems(2,3) False sel by auto
  qed
qed

lemma revoke_exact:
  assumes "ledger_wf L" and "dict_get (records L) gid = Some r"
    and "py_strip reason \<noteq> []" and "length reason \<le> 500"
  obtains L' where "revoke L gid reason cascade =
      Some (Inr (filter (\<lambda>k. (k = gid \<or> cascade \<and> under (records L) k gid) \<and> \<not> is_revoked (records L) k)
                  (map fst (records L))), L')"
    and "\<And>k. is_revoked (records L') k \<longleftrightarrow>
      is_revoked (records L) k \<or> k = gid \<or> cascade \<and> under (records L) k gid"
proof -
  have dom: "k \<in> fst ` set (records L)" if "k = gid \<or> under (records L) k gid" for k
    using that assms(2) under_dom [of "records L" k gid] by (auto simp: dom_map_of_conv_image_fst [symmetric])
  have "distinct (map fst (records L))"
    using assms(1) by (simp add: ledger_wf_def dict_ok_def)
  then obtain recs' where "revoke_loop (map fst (records L)) gid reason cascade [] (records L) =
       Some (Inr (filter (\<lambda>k. (k = gid \<or> cascade \<and> under (records L) k gid) \<and> \<not> is_revoked (records L) k)
                  (map fst (records L))), recs')"
    and "\<forall>k. is_revoked recs' k \<longleftrightarrow> is_revoked (records L) k \<or>
         k \<in> fst ` set (records L) \<and> (k = gid \<or> cascade \<and> under (records L) k gid)"
    using revoke_loop_exact [OF assms(1) same_grants_refl, of "map fst (records L)" gid reason cascade "[]"]
    by (auto simp: dom_map_of_conv_image_fst)
  then show ?thesis
    using that [of "L\<lparr>records := recs'\<rparr>"] assms(2-4) dom by (auto simp: revoke_def ledger_record_def)
qed

lemma revoke_total: "ledger_wf L \<Longrightarrow> \<exists>res L'. revoke L gid reason cascade = Some (res, L')"
proof (cases "py_strip reason = [] \<or> 500 < length reason \<or> dict_get (records L) gid = None")
  case True
  then show ?thesis by (auto simp: revoke_def ledger_record_def)
next
  case False
  moreover assume "ledger_wf L"
  ultimately show ?thesis using revoke_exact [of L gid _ reason cascade] by (metis not_less option.exhaust)
qed

text \<open>A grant below a revoked one has no authorized call.\<close>

lemma consume_revoked:
  assumes "ledger_wf L" and "under (records L) k a" and "is_revoked (records L) a"
  shows "can_consume L k = Some (Inr False)"
    "consume L k = Some (Inl (CapabilityError ''capability lineage has no remaining authorized call''))"
proof -
  obtain r where "dict_get (records L) k = Some r" using under_dom [OF assms(2)] by blast
  then obtain ids where ids: "lineage L k = Some (Inr ids)" "set ids = {a. under (records L) k a}"
    using lineage_total [OF assms(1)] by metis
  moreover have "\<not> call_left (records L) a"
    using assms(3) by (auto simp: is_revoked_def call_left_def split: option.splits)
  ultimately have "\<not> list_all (call_left (records L)) ids"
    using assms(2) by (auto simp: list_all_iff)
  then show "can_consume L k = Some (Inr False)"
    "consume L k = Some (Inl (CapabilityError ''capability lineage has no remaining authorized call''))"
    using ids(1) by (simp_all add: can_consume_def consume_def)
qed

lemma is_revoked_run:
  "steps ledger_step L es L' \<Longrightarrow> ledger_wf L \<Longrightarrow> is_revoked (records L) a \<Longrightarrow> is_revoked (records L') a"
  by (auto simp: is_revoked_def dest: ledger_run_keeps split: option.splits)

text \<open>Authority only shrinks along a lineage.\<close>

lemma under_attenuates:
  assumes "ledger_wf L" and "under (records L) k a"
    and "dict_get (records L) k = Some r" and "dict_get (records L) a = Some ra"
  shows "grant_campaign (rec_grant r) = grant_campaign (rec_grant ra) \<and>
    grant_tools (rec_grant r) \<subseteq> grant_tools (rec_grant ra) \<and>
    grant_targets (rec_grant r) \<subseteq> grant_targets (rec_grant ra) \<and>
    grant_max_risk_tier (rec_grant r) \<le> grant_max_risk_tier (rec_grant ra) \<and>
    grant_max_calls (rec_grant r) \<le> grant_max_calls (rec_grant ra) \<and>
    grant_issued_at (rec_grant ra) \<le> grant_issued_at (rec_grant r) \<and>
    grant_expires_at (rec_grant r) \<le> grant_expires_at (rec_grant ra)"
  using assms(2-)
proof (induction arbitrary: r rule: under.induct)
  case (under_self k r')
  then show ?case by simp
next
  case (under_parent k r' p a)
  then have par: "parent_grant_id (rec_grant r) = Some p" by simp
  obtain rp where rp: "dict_get (records L) p = Some rp" "attenuates (rec_grant r) (rec_grant rp)"
    using ledger_wf_parent [OF assms(1) under_parent.prems(1) par] .
  from under_parent.IH [OF rp(1) under_parent.prems(2)] attenuates_authority [OF rp(2)]
  show ?case by (metis order_trans)
qed

section \<open>The sample history is a run\<close>

lemma sample_root_ok: "sample_root = Inr (fst (projr sample_root), sample_ledger1)"
  by code_simp

lemma sample_child_ok: "sample_child = Inr (fst (projr sample_child), sample_ledger2)"
  by code_simp

lemma sample_consume_ok: "consume sample_ledger2 ''child'' = Some (Inr sample_ledger3)"
  by code_simp

lemma sample_revoke_ok: "revoke sample_ledger3 ''root'' ''stop'' False = Some (Inr [''root''], sample_ledger4)"
  by code_simp

lemma sample_new: "new_ledger (PyInt 2) = Inr sample_ledger0"
  by code_simp

lemma sample_run: "steps ledger_step sample_ledger0
  [Issued ''root'', Delegated ''root'' ''child'', Consumed ''child''] sample_ledger3"
proof -
  have "ledger_step sample_ledger0 (Issued ''root'') sample_ledger1"
    using sample_root_ok unfolding sample_root_def by (rule step_issue)
  moreover have "ledger_step sample_ledger1 (Delegated ''root'' ''child'') sample_ledger2"
    using sample_child_ok unfolding sample_child_def by (rule step_delegate) code_simp
  moreover have "ledger_step sample_ledger2 (Consumed ''child'') sample_ledger3"
    using sample_consume_ok by (rule step_consume)
  ultimately show ?thesis by (blast intro: steps_Cons steps.steps_nil)
qed

lemma sample_under:
  "under (records sample_ledger3) ''child'' ''root''" "under (records sample_ledger4) ''child'' ''root''"
proof -
  have "dict_get (records L) ''child'' = Some (the (dict_get (records L) ''child'')) \<Longrightarrow>
    parent_grant_id (rec_grant (the (dict_get (records L) ''child''))) = Some ''root'' \<Longrightarrow>
    dict_get (records L) ''root'' = Some (the (dict_get (records L) ''root'')) \<Longrightarrow>
    under (records L) ''child'' ''root''" for L
    by (rule under.under_parent, assumption, assumption, rule under.under_self)
  note r = this
  show "under (records sample_ledger3) ''child'' ''root''" by (rule r) code_simp+
  show "under (records sample_ledger4) ''child'' ''root''" by (rule r) code_simp+
qed

section \<open>Properties\<close>

text \<open>C17. Calls are conserved: in every state a ledger can reach, the calls spent by a grant and by
  all grants delegated from it, plus the calls the grant has left, are exactly the calls it was
  issued with; so no delegation tree ever spends more than its root was given, and no balance is
  negative.\<close>

theorem calls_are_conserved:
  assumes "new_ledger d = Inr L0" and "steps ledger_step L0 es L"
    and "dict_get (records L) a = Some r"
  shows "int (calls_under (records L) a es) + remaining_calls r = grant_max_calls (rec_grant r) \<and>
    0 \<le> remaining_calls r"
  using ledger_run_conserved [OF assms(2)] new_ledger_wf [OF assms(1)] assms(3)
    ledger_wfD(3) [OF ledger_run_wf [OF assms(1,2)] assms(3)]
  by (simp add: calls_conserved_def)

theorem calls_are_conserved_witness:
  "calls_under (records sample_ledger3) ''root''
     [Issued ''root'', Delegated ''root'' ''child'', Consumed ''child''] = 1 \<and>
   remaining_calls (the (dict_get (records sample_ledger3) ''root'')) = 4"
proof -
  have root: "dict_get (records sample_ledger3) ''root'' = Some (the (dict_get (records sample_ledger3) ''root''))"
    "remaining_calls (the (dict_get (records sample_ledger3) ''root'')) = 4"
    "grant_max_calls (rec_grant (the (dict_get (records sample_ledger3) ''root''))) = 5"
    by code_simp+
  show ?thesis
    using calls_are_conserved [OF sample_new sample_run root(1)] root(2,3) by simp
qed

text \<open>C19. Delegation attenuates: a grant that is below another in the delegation tree has the same
  campaign, and no more tools, targets, risk tier, calls or lifetime than the other, at any depth.\<close>

theorem delegation_attenuates:
  assumes "new_ledger d = Inr L0" and "steps ledger_step L0 es L" and "under (records L) k a"
    and "dict_get (records L) k = Some r" and "dict_get (records L) a = Some ra"
  shows "grant_campaign (rec_grant r) = grant_campaign (rec_grant ra) \<and>
    grant_tools (rec_grant r) \<subseteq> grant_tools (rec_grant ra) \<and>
    grant_targets (rec_grant r) \<subseteq> grant_targets (rec_grant ra) \<and>
    grant_max_risk_tier (rec_grant r) \<le> grant_max_risk_tier (rec_grant ra) \<and>
    grant_max_calls (rec_grant r) \<le> grant_max_calls (rec_grant ra) \<and>
    grant_issued_at (rec_grant ra) \<le> grant_issued_at (rec_grant r) \<and>
    grant_expires_at (rec_grant r) \<le> grant_expires_at (rec_grant ra)"
  using under_attenuates [OF ledger_run_wf [OF assms(1,2)] assms(3-5)] .

theorem delegation_attenuates_witness:
  "grant_tools (rec_grant (the (dict_get (records sample_ledger3) ''child'')))
     \<subseteq> grant_tools (rec_grant (the (dict_get (records sample_ledger3) ''root'')))"
proof -
  have "dict_get (records sample_ledger3) ''root'' = Some (the (dict_get (records sample_ledger3) ''root''))"
    "dict_get (records sample_ledger3) ''child'' = Some (the (dict_get (records sample_ledger3) ''child''))"
    by code_simp+
  then show ?thesis
    using delegation_attenuates [OF sample_new sample_run sample_under(1)] by blast
qed

text \<open>C18. Revocation is final and covers the whole subtree, with or without the cascade flag: once
  \<open>revoke\<close> has accepted a grant, no later history of the ledger lets that grant or any grant below
  it, including grants delegated afterwards, spend a call.\<close>

theorem revocation_is_final:
  assumes "new_ledger d = Inr L0" and "steps ledger_step L0 es L"
    and "revoke L a reason cascade = Some (Inr ids, L1)"
    and "steps ledger_step L1 fs L2" and "under (records L2) k a"
  shows "can_consume L2 k = Some (Inr False) \<and>
    consume L2 k = Some (Inl (CapabilityError ''capability lineage has no remaining authorized call''))"
proof -
  have wf: "ledger_wf L" using ledger_run_wf [OF assms(1,2)] .
  obtain r where r: "dict_get (records L) a = Some r" "py_strip reason \<noteq> []" "length reason \<le> 500"
    using assms(3) by (auto simp: revoke_def ledger_record_def split: if_splits option.splits)
  have "is_revoked (records L1) a"
    by (rule revoke_exact [OF wf r, of cascade]) (use assms(3) in simp)
  moreover have wf1: "ledger_wf L1" using revoke_wf [OF wf assms(3)] .
  ultimately show ?thesis
    using consume_revoked [OF _ assms(5)] is_revoked_run [OF assms(4)] ledger_runs.run_inv [OF assms(4)]
    by blast
qed

theorem revocation_is_final_witness:
  "can_consume sample_ledger3 ''child'' = Some (Inr True) \<and>
   can_consume sample_ledger4 ''child'' = Some (Inr False)"
  using revocation_is_final [OF sample_new sample_run sample_revoke_ok steps.steps_nil sample_under(2)]
  by (simp, code_simp)

text \<open>A cascading revocation touches exactly the subtree: on every reachable ledger \<open>revoke\<close>
  returns, its result lists, in insertion order, the grants it newly revoked, and afterwards a grant
  is revoked exactly when it was before, or is the named grant, or (with the cascade flag) was
  delegated from it.\<close>

theorem revoke_is_exact:
  assumes "new_ledger d = Inr L0" and "steps ledger_step L0 es L"
    and "dict_get (records L) gid = Some r" and "py_strip reason \<noteq> []" and "length reason \<le> 500"
  shows "\<exists>L'. revoke L gid reason cascade =
      Some (Inr (filter (\<lambda>k. (k = gid \<or> cascade \<and> under (records L) k gid) \<and> \<not> is_revoked (records L) k)
                  (map fst (records L))), L') \<and>
    (\<forall>k. is_revoked (records L') k \<longleftrightarrow>
      is_revoked (records L) k \<or> k = gid \<or> cascade \<and> under (records L) k gid)"
  by (rule revoke_exact [OF ledger_run_wf [OF assms(1,2)] assms(3-5), of cascade]) blast

theorem revoke_is_exact_witness:
  "\<exists>L'. revoke sample_ledger3 ''root'' ''stop'' True = Some (Inr [''root'', ''child''], L')"
proof -
  have c: "dict_get (records sample_ledger3) ''root'' = Some (the (dict_get (records sample_ledger3) ''root''))"
    "py_strip ''stop'' \<noteq> []" "length ''stop'' \<le> 500" "map fst (records sample_ledger3) = [''root'', ''child'']"
    "\<not> is_revoked (records sample_ledger3) ''root''" "\<not> is_revoked (records sample_ledger3) ''child''"
    by code_simp+
  show ?thesis
    using revoke_is_exact [OF sample_new sample_run c(1-3), of True] c(4-6) sample_under(1) by auto
qed

text \<open>C20. On every reachable ledger the lineage walks end, and \<open>consume\<close> is all or nothing: it
  succeeds exactly when every grant from the named one up to the root is unrevoked and has a call
  left; then it takes one call from each of them and from no other grant, and changes nothing else.\<close>

theorem consume_is_exact:
  assumes "new_ledger d = Inr L0" and "steps ledger_step L0 es L"
    and "dict_get (records L) k = Some r"
  shows "\<exists>res. consume L k = Some res \<and>
    (is_ok res \<longleftrightarrow> (\<forall>a. under (records L) k a \<longrightarrow> call_left (records L) a)) \<and>
    (\<forall>L'. res = Inr L' \<longrightarrow> max_depth L' = max_depth L \<and>
      (\<forall>a. dict_get (records L') a =
        (if under (records L) k a
         then map_option (\<lambda>r. r\<lparr>remaining_calls := remaining_calls r - 1\<rparr>) (dict_get (records L) a)
         else dict_get (records L) a)))"
proof -
  have wf: "ledger_wf L" using ledger_run_wf [OF assms(1,2)] .
  obtain ids where "lineage L k = Some (Inr ids)" "distinct ids" "set ids = {a. under (records L) k a}"
    using lineage_total [OF wf assms(3)] .
  then show ?thesis
    by (auto simp: consume_def is_ok_def list_all_iff dict_get_fold_spend)
qed

theorem consume_is_exact_witness: "\<exists>L'. consume sample_ledger3 ''child'' = Some (Inr L') \<and>
  dict_get (records L') ''root'' =
    map_option (\<lambda>r. r\<lparr>remaining_calls := 3\<rparr>) (dict_get (records sample_ledger3) ''root'')"
proof -
  have c: "dict_get (records sample_ledger3) ''child'' = Some (the (dict_get (records sample_ledger3) ''child''))"
    "is_ok (the (consume sample_ledger3 ''child''))"
    "map_option remaining_calls (dict_get (records sample_ledger3) ''root'') = Some 4"
    by code_simp+
  obtain res where res: "consume sample_ledger3 ''child'' = Some res"
    and eff: "\<And>L'. res = Inr L' \<Longrightarrow> dict_get (records L') ''root'' =
      map_option (\<lambda>r. r\<lparr>remaining_calls := remaining_calls r - 1\<rparr>) (dict_get (records sample_ledger3) ''root'')"
    using consume_is_exact [OF sample_new sample_run c(1)] sample_under(1) by (metis (lifting))
  moreover obtain L' where "res = Inr L'"
    using c(2) res by (cases res) (auto simp: is_ok_def)
  ultimately have "consume sample_ledger3 ''child'' = Some (Inr L')" "dict_get (records L') ''root'' =
      map_option (\<lambda>r. r\<lparr>remaining_calls := remaining_calls r - 1\<rparr>) (dict_get (records sample_ledger3) ''root'')"
    by simp_all
  then show ?thesis using c(3) by auto
qed

end
