(* ===== verification/Python_Text.thy ===== *)
theory Python_Text
  imports Pajin_Prelude
begin

text \<open>
  What the sources use of Python's text library: \<open>str\<close> methods on strings of code points, the
  strict UTF-8 codec, and the percent encoding of \<open>urllib.parse\<close>. A Python string is the list of
  its code points. The tables of the Unicode character database (case mapping, NFKC, and nameprep
  with Punycode for a non-ASCII label) are a parameter, used on non-ASCII text only.
\<close>

section \<open>Strings of code points\<close>

type_synonym ustr = "nat list"

definition u :: "string \<Rightarrow> ustr" where
  "u s = map of_char s"

record unicode_db =
  uni_lower :: "ustr \<Rightarrow> ustr"
  uni_nfkc :: "ustr \<Rightarrow> ustr"
  uni_to_ascii :: "ustr \<Rightarrow> ustr option"

definition is_ascii :: "ustr \<Rightarrow> bool" where
  "is_ascii s = list_all (\<lambda>c. c < 128) s"

definition ascii_lower :: "nat \<Rightarrow> nat" where
  "ascii_lower c = (if 65 \<le> c \<and> c \<le> 90 then c + 32 else c)"

definition ascii_upper :: "nat \<Rightarrow> nat" where
  "ascii_upper c = (if 97 \<le> c \<and> c \<le> 122 then c - 32 else c)"

definition ascii_alpha :: "nat \<Rightarrow> bool" where
  "ascii_alpha c = (65 \<le> c \<and> c \<le> 90 \<or> 97 \<le> c \<and> c \<le> 122)"

definition ascii_digit :: "nat \<Rightarrow> bool" where
  "ascii_digit c = (48 \<le> c \<and> c \<le> 57)"

text \<open>\<open>str.lower\<close>.\<close>

definition str_lower :: "unicode_db \<Rightarrow> ustr \<Rightarrow> ustr" where
  "str_lower db s = (if is_ascii s then map ascii_lower s else uni_lower db s)"

text \<open>\<open>str.partition\<close> and \<open>str.rpartition\<close> at one character: the text before, whether it was found,
  and the text after.\<close>

definition partition_at :: "nat \<Rightarrow> ustr \<Rightarrow> ustr \<times> bool \<times> ustr" where
  "partition_at c s = (takeWhile (\<lambda>x. x \<noteq> c) s, c \<in> set s, drop 1 (dropWhile (\<lambda>x. x \<noteq> c) s))"

definition rpartition_at :: "nat \<Rightarrow> ustr \<Rightarrow> ustr \<times> bool \<times> ustr" where
  "rpartition_at c s =
     (if c \<in> set s
      then (rev (drop 1 (dropWhile (\<lambda>x. x \<noteq> c) (rev s))), True, rev (takeWhile (\<lambda>x. x \<noteq> c) (rev s)))
      else ([], False, s))"

text \<open>\<open>str.split\<close> at one of the given characters.\<close>

fun split_at :: "nat set \<Rightarrow> ustr \<Rightarrow> ustr list" where
  "split_at cs [] = [[]]"
| "split_at cs (x # xs) =
     (if x \<in> cs then [] # split_at cs xs
      else case split_at cs xs of [] \<Rightarrow> [[x]] | y # ys \<Rightarrow> (x # y) # ys)"

definition starts_with :: "ustr \<Rightarrow> ustr \<Rightarrow> bool" where
  "starts_with p s = (take (length p) s = p)"

definition ends_with :: "ustr \<Rightarrow> ustr \<Rightarrow> bool" where
  "ends_with p s = (length p \<le> length s \<and> drop (length s - length p) s = p)"

text \<open>\<open>int(s)\<close> of a string of ASCII digits, and \<open>str(n)\<close>.\<close>

definition decimal_value :: "ustr \<Rightarrow> nat" where
  "decimal_value s = foldl (\<lambda>n c. 10 * n + (c - 48)) 0 s"

fun decimal :: "nat \<Rightarrow> ustr" where
  "decimal n = (if n < 10 then [48 + n] else decimal (n div 10) @ [48 + n mod 10])"

declare decimal.simps [simp del]

section \<open>UTF-8\<close>

text \<open>The strict encoder: a surrogate cannot be encoded.\<close>

definition utf8_char :: "nat \<Rightarrow> nat list option" where
  "utf8_char c =
     (if c < 0x80 then Some [c]
      else if c < 0x800 then Some [0xC0 + c div 64, 0x80 + c mod 64]
      else if 0xD800 \<le> c \<and> c \<le> 0xDFFF then None
      else if c < 0x10000 then Some [0xE0 + c div 4096, 0x80 + c div 64 mod 64, 0x80 + c mod 64]
      else if c < 0x110000
        then Some [0xF0 + c div 262144, 0x80 + c div 4096 mod 64, 0x80 + c div 64 mod 64, 0x80 + c mod 64]
      else None)"

fun utf8_encode :: "ustr \<Rightarrow> nat list option" where
  "utf8_encode [] = Some []"
| "utf8_encode (c # s) =
     (case utf8_char c of
        None \<Rightarrow> None
      | Some bs \<Rightarrow> map_option ((@) bs) (utf8_encode s))"

text \<open>The strict decoder: one code point and the number of continuation bytes it takes.\<close>

definition utf8_cont :: "nat \<Rightarrow> bool" where
  "utf8_cont b = (0x80 \<le> b \<and> b \<le> 0xBF)"

definition utf8_step :: "nat \<Rightarrow> nat list \<Rightarrow> (nat \<times> nat) option" where
  "utf8_step b bs =
     (if b < 0x80 then Some (b, 0)
      else if 0xC2 \<le> b \<and> b \<le> 0xDF then
        (case bs of
           b1 # _ \<Rightarrow> if utf8_cont b1 then Some ((b - 0xC0) * 64 + (b1 - 0x80), 1) else None
         | _ \<Rightarrow> None)
      else if 0xE0 \<le> b \<and> b \<le> 0xEF then
        (case bs of
           b1 # b2 # _ \<Rightarrow>
             (let c = (b - 0xE0) * 4096 + (b1 - 0x80) * 64 + (b2 - 0x80) in
              if utf8_cont b1 \<and> utf8_cont b2 \<and> 0x800 \<le> c \<and> \<not> (0xD800 \<le> c \<and> c \<le> 0xDFFF)
              then Some (c, 2) else None)
         | _ \<Rightarrow> None)
      else if 0xF0 \<le> b \<and> b \<le> 0xF4 then
        (case bs of
           b1 # b2 # b3 # _ \<Rightarrow>
             (let c = (b - 0xF0) * 262144 + (b1 - 0x80) * 4096 + (b2 - 0x80) * 64 + (b3 - 0x80) in
              if utf8_cont b1 \<and> utf8_cont b2 \<and> utf8_cont b3 \<and> 0x10000 \<le> c \<and> c < 0x110000
              then Some (c, 3) else None)
         | _ \<Rightarrow> None)
      else None)"

fun utf8_decode :: "nat list \<Rightarrow> ustr option" where
  "utf8_decode [] = Some []"
| "utf8_decode (b # bs) =
     (case utf8_step b bs of
        None \<Rightarrow> None
      | Some (c, n) \<Rightarrow> map_option ((#) c) (utf8_decode (drop n bs)))"

section \<open>Percent encoding\<close>

definition is_hex :: "nat \<Rightarrow> bool" where
  "is_hex c = (48 \<le> c \<and> c \<le> 57 \<or> 65 \<le> c \<and> c \<le> 70 \<or> 97 \<le> c \<and> c \<le> 102)"

definition hex_value :: "nat \<Rightarrow> nat" where
  "hex_value c = (if c \<le> 57 then c - 48 else if c \<le> 70 then c - 55 else c - 87)"

definition hex_upper :: "nat \<Rightarrow> nat" where
  "hex_upper n = (if n < 10 then 48 + n else 55 + n)"

text \<open>Two hexadecimal digits stand at the front of the string; the byte they denote.\<close>

definition two_hex :: "ustr \<Rightarrow> bool" where
  "two_hex s = (case s of a # b # _ \<Rightarrow> is_hex a \<and> is_hex b | _ \<Rightarrow> False)"

definition escape_byte :: "ustr \<Rightarrow> nat" where
  "escape_byte s = (case s of a # b # _ \<Rightarrow> 16 * hex_value a + hex_value b | _ \<Rightarrow> 0)"

text \<open>\<open>_unquote_impl\<close> on the bytes of a string.\<close>

fun unquote_bytes :: "nat list \<Rightarrow> nat list" where
  "unquote_bytes [] = []"
| "unquote_bytes (c # s) =
     (if c = 37 \<and> two_hex s then escape_byte s # unquote_bytes (drop 2 s)
      else c # unquote_bytes s)"

text \<open>\<open>unquote(string, errors="strict")\<close>: every run of ASCII characters is decoded on its own;
  \<open>None\<close> is a \<open>UnicodeDecodeError\<close>.\<close>

function unquote_parts :: "ustr \<Rightarrow> ustr option" where
  "unquote_parts [] = Some []"
| "unquote_parts (c # s) =
     (if 128 \<le> c then map_option ((#) c) (unquote_parts s)
      else case utf8_decode (unquote_bytes (takeWhile (\<lambda>x. x < 128) (c # s))) of
        None \<Rightarrow> None
      | Some t \<Rightarrow> map_option ((@) t) (unquote_parts (dropWhile (\<lambda>x. x < 128) (c # s))))"
  by pat_completeness auto

termination unquote_parts
  by (relation "measure length") (auto simp: le_imp_less_Suc length_dropWhile_le)

definition unquote :: "ustr \<Rightarrow> ustr option" where
  "unquote s = (if 37 \<in> set s then unquote_parts s else Some s)"

text \<open>\<open>unquote_to_bytes\<close> of a string; the encoding may fail.\<close>

definition unquote_to_bytes :: "ustr \<Rightarrow> nat list result" where
  "unquote_to_bytes s =
     (case utf8_encode s of None \<Rightarrow> Inl UnicodeEncodeError | Some bs \<Rightarrow> Inr (unquote_bytes bs))"

definition always_safe :: "nat \<Rightarrow> bool" where
  "always_safe c = (ascii_alpha c \<or> ascii_digit c \<or> c \<in> {95, 46, 45, 126})"

definition quote_byte :: "nat list \<Rightarrow> nat \<Rightarrow> ustr" where
  "quote_byte safe b =
     (if always_safe b \<or> b \<in> set safe then [b]
      else [37, hex_upper (b div 16), hex_upper (b mod 16)])"

text \<open>\<open>quote(string, safe, encoding="utf-8", errors="strict")\<close>.\<close>

definition quote :: "nat list \<Rightarrow> ustr \<Rightarrow> ustr result" where
  "quote safe s =
     (case utf8_encode s of
        None \<Rightarrow> Inl UnicodeEncodeError
      | Some bs \<Rightarrow> Inr (concat (map (quote_byte safe) bs)))"

section \<open>Codecs\<close>

text \<open>A partial encoder with a decoder that undoes it; the encoder is then injective where it is
  defined.\<close>

locale codec =
  fixes encode :: "'a \<Rightarrow> 'b option" and decode :: "'b \<Rightarrow> 'a option"
  assumes decode_encode: "encode x = Some y \<Longrightarrow> decode y = Some x"
begin

lemma encode_inj: "encode x = Some z \<Longrightarrow> encode y = Some z \<Longrightarrow> x = y"
  by (metis decode_encode option.inject)

end

lemma div_mod_64_64: "c div 4096 * 4096 + c div 64 mod 64 * 64 + c mod 64 = (c::nat)"
proof -
  have "c div 4096 = c div 64 div 64" by (simp add: div_mult2_eq [symmetric])
  moreover have "c div 64 div 64 * 64 + c div 64 mod 64 = c div 64" by simp
  moreover have "c div 64 * 64 + c mod 64 = c" by simp
  ultimately show ?thesis by linarith
qed

lemma div_mod_64_64_64:
  "c div 262144 * 262144 + c div 4096 mod 64 * 4096 + c div 64 mod 64 * 64 + c mod 64 = (c::nat)"
proof -
  have "c div 262144 = c div 4096 div 64" by (simp add: div_mult2_eq [symmetric])
  moreover have "c div 4096 div 64 * 64 + c div 4096 mod 64 = c div 4096" by simp
  ultimately show ?thesis using div_mod_64_64 [of c] by linarith
qed

lemma mod_64_le: "(n::nat) mod 64 \<le> 63"
  using mod_less_divisor [of 64 n] by linarith

lemma utf8_step_char:
  assumes "utf8_char c = Some bs"
  shows "bs \<noteq> [] \<and> utf8_step (hd bs) (tl bs @ rest) = Some (c, length (tl bs))"
proof -
  consider "c < 0x80" | "0x80 \<le> c" "c < 0x800" | "0x800 \<le> c" "c < 0x10000" "\<not> (0xD800 \<le> c \<and> c \<le> 0xDFFF)"
    | "0x10000 \<le> c" "c < 0x110000"
    using assms by (fastforce simp: utf8_char_def split: if_splits)
  then show ?thesis
  proof cases
    case 1
    then show ?thesis using assms by (auto simp: utf8_char_def utf8_step_def)
  next
    case 2
    have "2 \<le> c div 64" "c div 64 < 32" using 2 by auto
    moreover have "c mod 64 < 64" by simp
    ultimately show ?thesis
      using assms 2 by (auto simp: utf8_char_def utf8_step_def utf8_cont_def)
  next
    case 3
    have bs: "bs = [0xE0 + c div 4096, 0x80 + c div 64 mod 64, 0x80 + c mod 64]"
      using assms 3 by (simp add: utf8_char_def split: if_splits)
    have "c div 4096 < 16" "c mod 64 < 64" "c div 64 mod 64 < 64" using 3 by auto
    then show ?thesis
      using 3 unfolding bs utf8_step_def utf8_cont_def Let_def
      by (simp add: div_mod_64_64 mod_64_le)
  next
    case 4
    have bs: "bs = [0xF0 + c div 262144, 0x80 + c div 4096 mod 64, 0x80 + c div 64 mod 64, 0x80 + c mod 64]"
      using assms 4 by (simp add: utf8_char_def split: if_splits)
    have "c div 262144 < 5" "c mod 64 < 64" "c div 64 mod 64 < 64" "c div 4096 mod 64 < 64" using 4 by auto
    then show ?thesis
      using 4 unfolding bs utf8_step_def utf8_cont_def Let_def
      by (simp add: div_mod_64_64_64 mod_64_le)
  qed
qed

lemma utf8_decode_encode: "utf8_encode s = Some bs \<Longrightarrow> utf8_decode bs = Some s"
proof (induction s arbitrary: bs)
  case Nil
  then show ?case by simp
next
  case (Cons c s)
  then obtain cb r where cb: "utf8_char c = Some cb" "utf8_encode s = Some r" "bs = cb @ r"
    by (auto split: option.splits)
  obtain b t where "cb = b # t" "utf8_step b (t @ r) = Some (c, length t)"
    using utf8_step_char [OF cb(1)] by (cases cb) auto
  then show ?case using cb Cons.IH [OF cb(2)] by simp
qed

interpretation utf8: codec utf8_encode utf8_decode
  by unfold_locales (rule utf8_decode_encode)

lemma utf8_char_bytes: "utf8_char c = Some bs \<Longrightarrow> b \<in> set bs \<Longrightarrow> b < 256"
  by (auto simp: utf8_char_def split: if_splits)

lemma utf8_encode_bytes: "utf8_encode s = Some bs \<Longrightarrow> b \<in> set bs \<Longrightarrow> b < 256"
  by (induction s arbitrary: bs) (auto split: option.splits dest: utf8_char_bytes)

lemma utf8_encode_ascii: "is_ascii s \<Longrightarrow> utf8_encode s = Some s"
  by (induction s) (auto simp: is_ascii_def utf8_char_def)

lemma utf8_encode_append:
  "utf8_encode (s @ t) =
     (case utf8_encode s of None \<Rightarrow> None | Some a \<Rightarrow> map_option ((@) a) (utf8_encode t))"
  by (cases "utf8_encode t"; induction s) (auto split: option.splits)

section \<open>Percent encoding\<close>

lemma hex_upper_hex: "n < 16 \<Longrightarrow> is_hex (hex_upper n)"
  by (auto simp: is_hex_def hex_upper_def)

lemma hex_value_upper [simp]: "n < 16 \<Longrightarrow> hex_value (hex_upper n) = n"
  by (auto simp: hex_value_def hex_upper_def)

text \<open>A byte that is kept is not the percent sign.\<close>

lemma unquote_quote_byte:
  assumes "37 \<notin> set safe" and "b < 256"
  shows "unquote_bytes (quote_byte safe b @ r) = b # unquote_bytes r"
proof (cases "always_safe b \<or> b \<in> set safe")
  case True
  then have "b \<noteq> 37" using assms(1) by (auto simp: always_safe_def ascii_alpha_def ascii_digit_def)
  then show ?thesis using True by (simp add: quote_byte_def)
next
  case False
  have "b div 16 < 16" using assms(2) by auto
  then show ?thesis
    using False by (simp add: quote_byte_def two_hex_def escape_byte_def hex_upper_hex)
qed

lemma unquote_quote_bytes:
  assumes "37 \<notin> set safe"
  shows "(\<forall>b \<in> set bs. b < 256) \<Longrightarrow> unquote_bytes (concat (map (quote_byte safe) bs)) = bs"
  by (induction bs) (auto simp: unquote_quote_byte [OF assms])

text \<open>Quoted text is ASCII.\<close>

lemma hex_upper_ascii: "n < 16 \<Longrightarrow> hex_upper n < 128"
  by (auto simp: hex_upper_def)

lemma quote_byte_ascii:
  "is_ascii safe \<Longrightarrow> b < 256 \<Longrightarrow> is_ascii (quote_byte safe b)"
  by (auto simp: quote_byte_def is_ascii_def list_all_iff always_safe_def ascii_alpha_def ascii_digit_def
      intro!: hex_upper_ascii)

lemma is_ascii_concat: "(\<And>x. x \<in> set xs \<Longrightarrow> is_ascii (f x)) \<Longrightarrow> is_ascii (concat (map f xs))"
  by (induction xs) (auto simp: is_ascii_def)

lemma quote_ascii:
  assumes "quote safe s = Inr q" and "is_ascii safe"
  shows "is_ascii q"
proof -
  obtain bs where "utf8_encode s = Some bs" "q = concat (map (quote_byte safe) bs)"
    using assms(1) by (auto simp: quote_def split: option.splits)
  then show ?thesis
    using utf8_encode_bytes quote_byte_ascii [OF assms(2)] is_ascii_concat by metis
qed

lemma unquote_parts_ascii:
  assumes "is_ascii s"
  shows "unquote_parts s = utf8_decode (unquote_bytes s)"
proof (cases s)
  case Nil
  then show ?thesis by simp
next
  case (Cons c r)
  have ascii: "\<forall>x \<in> set s. x < 128" using assms by (simp add: is_ascii_def list_all_iff)
  then have run: "takeWhile (\<lambda>x. x < 128) (c # r) = c # r" "dropWhile (\<lambda>x. x < 128) (c # r) = []"
    unfolding Cons by (simp_all only: takeWhile_eq_all_conv dropWhile_eq_Nil_conv)
  have "\<not> 128 \<le> c" using ascii Cons by auto
  then have "unquote_parts (c # r) =
     (case utf8_decode (unquote_bytes (c # r)) of
        None \<Rightarrow> None | Some t \<Rightarrow> map_option ((@) t) (unquote_parts []))"
    by (simp only: unquote_parts.simps(2) run if_False)
  also have "\<dots> = utf8_decode (unquote_bytes (c # r))"
    unfolding unquote_parts.simps(1) by (cases "utf8_decode (unquote_bytes (c # r))") simp_all
  finally show ?thesis unfolding Cons .
qed

lemma unquote_bytes_plain: "37 \<notin> set s \<Longrightarrow> unquote_bytes s = s"
  by (induction s) auto

lemma utf8_decode_ascii: "is_ascii s \<Longrightarrow> utf8_decode s = Some s"
  by (induction s) (auto simp: is_ascii_def utf8_step_def)

lemma unquote_ascii: "is_ascii s \<Longrightarrow> unquote s = utf8_decode (unquote_bytes s)"
  by (simp add: unquote_def unquote_parts_ascii unquote_bytes_plain utf8_decode_ascii)

lemma unquote_quote:
  assumes "quote safe s = Inr q" and "37 \<notin> set safe" and "is_ascii safe"
  shows "unquote q = Some s"
proof -
  obtain bs where bs: "utf8_encode s = Some bs" "q = concat (map (quote_byte safe) bs)"
    using assms(1) by (auto simp: quote_def split: option.splits)
  then have "unquote_bytes q = bs"
    using unquote_quote_bytes [OF assms(2)] utf8_encode_bytes [OF bs(1)] by blast
  then show ?thesis
    using unquote_ascii [OF quote_ascii [OF assms(1,3)]] utf8_decode_encode [OF bs(1)] by simp
qed

end
