(* ===== verification/Url_Parsing.thy ===== *)
theory Url_Parsing
  imports Python_Text
begin

text \<open>
  What the sources use of Python's URL library (CPython 3.12): \<open>urlsplit\<close> with its checks of the
  authority, the \<open>username\<close>, \<open>password\<close>, \<open>hostname\<close> and \<open>port\<close> attributes of its result,
  \<open>urlunsplit\<close>, the IPv6 literal test of \<open>ipaddress\<close>, the \<open>idna\<close> codec and \<open>fnmatchcase\<close>.
\<close>

section \<open>IP literals\<close>

text \<open>\<open>IPv4Address\<close>: four decimal octets without leading zeros.\<close>

definition is_octet :: "ustr \<Rightarrow> bool" where
  "is_octet s = (s \<noteq> [] \<and> list_all ascii_digit s \<and> length s \<le> 3 \<and> (s = [48] \<or> hd s \<noteq> 48) \<and>
     decimal_value s \<le> 255)"

definition is_ipv4 :: "ustr \<Rightarrow> bool" where
  "is_ipv4 s = (length (split_at {46} s) = 4 \<and> list_all is_octet (split_at {46} s))"

text \<open>A hextet; the empty text is refused by \<open>int("", 16)\<close>.\<close>

definition is_hextet :: "ustr \<Rightarrow> bool" where
  "is_hextet s = (list_all is_hex s \<and> length s \<le> 4 \<and> s \<noteq> [])"

text \<open>The parts of \<open>IPv6Address._ip_int_from_string\<close>: an IPv4 suffix counts as two hextets.\<close>

definition ipv6_parts :: "ustr \<Rightarrow> ustr list option" where
  "ipv6_parts s =
     (let parts = split_at {58} s in
      if length parts < 3 then None
      else if 46 \<in> set (last parts)
        then (if is_ipv4 (last parts) then Some (butlast parts @ [[48], [48]]) else None)
      else Some parts)"

definition ipv6_skips :: "ustr list \<Rightarrow> nat list" where
  "ipv6_skips parts = filter (\<lambda>i. parts ! i = []) [1..<length parts - 1]"

definition is_ipv6_parts :: "ustr list \<Rightarrow> bool" where
  "is_ipv6_parts parts =
     (length parts \<le> 9 \<and>
      (case ipv6_skips parts of
         [] \<Rightarrow> length parts = 8 \<and> list_all is_hextet parts
       | [i] \<Rightarrow>
           (let hi = (if hd parts = [] then i - 1 else i);
                lo0 = length parts - i - 1;
                lo = (if last parts = [] then lo0 - 1 else lo0)
            in (hd parts = [] \<longrightarrow> hi = 0) \<and> (last parts = [] \<longrightarrow> lo = 0) \<and> hi + lo \<le> 7 \<and>
               list_all is_hextet (take hi parts) \<and> list_all is_hextet (drop (length parts - lo) parts))
       | _ \<Rightarrow> False))"

text \<open>\<open>IPv6Address(text)\<close> succeeds; a scope identifier follows a percent sign.\<close>

definition is_ipv6 :: "ustr \<Rightarrow> bool" where
  "is_ipv6 s =
     (case partition_at 37 s of
        (addr, sep, scope_id) \<Rightarrow>
          47 \<notin> set s \<and> (sep \<longrightarrow> scope_id \<noteq> [] \<and> 37 \<notin> set scope_id) \<and>
          (case ipv6_parts addr of None \<Rightarrow> False | Some parts \<Rightarrow> is_ipv6_parts parts))"

text \<open>\<open>_check_bracketed_host\<close>: \<open>v[a-fA-F0-9]+\..+\<close> (where the dot does not match a newline), or an
  IPv6 address that is not also an IPv4 address.\<close>

definition bracketed_host_ok :: "ustr \<Rightarrow> bool" where
  "bracketed_host_ok h =
     (if starts_with [118] h
      then (let digits = takeWhile is_hex (drop 1 h); rest = dropWhile is_hex (drop 1 h) in
            digits \<noteq> [] \<and> starts_with [46] rest \<and> length rest > 1 \<and> 10 \<notin> set rest)
      else \<not> is_ipv4 h \<and> is_ipv6 h)"

section \<open>urlsplit\<close>

record split_result =
  sp_scheme :: ustr
  sp_netloc :: ustr
  sp_path :: ustr
  sp_query :: ustr
  sp_fragment :: ustr

definition scheme_char :: "nat \<Rightarrow> bool" where
  "scheme_char c = (ascii_alpha c \<or> ascii_digit c \<or> c \<in> {43, 45, 46})"

text \<open>\<open>_check_bracketed_netloc\<close>.\<close>

definition bracketed_netloc_ok :: "ustr \<Rightarrow> bool" where
  "bracketed_netloc_ok netloc =
     (case rpartition_at 64 netloc of (_, _, hostinfo) \<Rightarrow>
        (case partition_at 91 hostinfo of (pre, have_open, bracketed) \<Rightarrow>
           if have_open
           then (case partition_at 93 bracketed of (hostname, _, port) \<Rightarrow>
                   pre = [] \<and> (port = [] \<or> starts_with [58] port) \<and> bracketed_host_ok hostname)
           else bracketed_host_ok (fst (partition_at 58 hostinfo))))"

text \<open>\<open>_checknetloc\<close>.\<close>

definition netloc_nfkc_ok :: "unicode_db \<Rightarrow> ustr \<Rightarrow> bool" where
  "netloc_nfkc_ok db netloc =
     (is_ascii netloc \<or>
      (let n = filter (\<lambda>c. c \<notin> {64, 58, 35, 63}) netloc; n2 = uni_nfkc db n in
       n = n2 \<or> set n2 \<inter> {47, 63, 35, 64, 58} = {}))"

definition netloc_ok :: "unicode_db \<Rightarrow> ustr \<Rightarrow> bool" where
  "netloc_ok db netloc =
     ((91 \<in> set netloc) = (93 \<in> set netloc) \<and>
      (91 \<in> set netloc \<longrightarrow> bracketed_netloc_ok netloc) \<and> netloc_nfkc_ok db netloc)"

text \<open>The scheme prefix and the rest.\<close>

definition split_scheme :: "ustr \<Rightarrow> ustr \<times> ustr" where
  "split_scheme url =
     (let pre = takeWhile (\<lambda>c. c \<noteq> 58) url in
      if 58 \<in> set url \<and> pre \<noteq> [] \<and> ascii_alpha (hd pre) \<and> list_all scheme_char pre
      then (map ascii_lower pre, drop (length pre + 1) url)
      else ([], url))"

definition urlsplit :: "unicode_db \<Rightarrow> ustr \<Rightarrow> split_result result" where
  "urlsplit db value =
     (let url0 = filter (\<lambda>c. c \<notin> {9, 10, 13}) (dropWhile (\<lambda>c. c \<le> 32) value);
          (scheme, url1) = split_scheme url0;
          has_netloc = starts_with [47, 47] url1;
          netloc = (if has_netloc then takeWhile (\<lambda>c. c \<notin> {47, 63, 35}) (drop 2 url1) else []);
          url2 = (if has_netloc then dropWhile (\<lambda>c. c \<notin> {47, 63, 35}) (drop 2 url1) else url1);
          (url3, _, fragment) = partition_at 35 url2;
          (path, _, query) = partition_at 63 url3
      in if netloc_ok db netloc
         then Inr \<lparr>sp_scheme = scheme, sp_netloc = netloc, sp_path = path, sp_query = query,
                   sp_fragment = fragment\<rparr>
         else Inl (ValueError ''netloc''))"

section \<open>Attributes of the result\<close>

text \<open>\<open>_userinfo\<close>; an absent part is \<open>None\<close>.\<close>

definition sp_username :: "split_result \<Rightarrow> ustr option" where
  "sp_username p =
     (case rpartition_at 64 (sp_netloc p) of (userinfo, have_info, _) \<Rightarrow>
        if have_info then Some (fst (partition_at 58 userinfo)) else None)"

definition sp_password :: "split_result \<Rightarrow> ustr option" where
  "sp_password p =
     (case rpartition_at 64 (sp_netloc p) of (userinfo, have_info, _) \<Rightarrow>
        if have_info
        then (case partition_at 58 userinfo of (_, have_password, password) \<Rightarrow>
                if have_password then Some password else None)
        else None)"

text \<open>\<open>_hostinfo\<close>: the host and the port text, which may be empty.\<close>

definition hostinfo :: "ustr \<Rightarrow> ustr \<times> ustr" where
  "hostinfo netloc =
     (case rpartition_at 64 netloc of (_, _, hi) \<Rightarrow>
        (case partition_at 91 hi of (_, have_open, bracketed) \<Rightarrow>
           if have_open
           then (case partition_at 93 bracketed of (hostname, _, rest) \<Rightarrow>
                   (hostname, snd (snd (partition_at 58 rest))))
           else (case partition_at 58 hi of (hostname, _, port) \<Rightarrow> (hostname, port))))"

definition sp_hostname :: "unicode_db \<Rightarrow> split_result \<Rightarrow> ustr option" where
  "sp_hostname db p =
     (let h = fst (hostinfo (sp_netloc p)) in
      if h = [] then None
      else case partition_at 37 h of (host, percent, zone) \<Rightarrow>
        Some (str_lower db host @ (if percent then [37] else []) @ zone))"

text \<open>The \<open>port\<close> property; the error is a \<open>ValueError\<close>.\<close>

definition sp_port :: "split_result \<Rightarrow> nat option result" where
  "sp_port p =
     (let port = snd (hostinfo (sp_netloc p)) in
      if port = [] then Inr None
      else if \<not> list_all ascii_digit port then Inl (ValueError ''port'')
      else if 65535 < decimal_value port then Inl (ValueError ''port'')
      else Inr (Some (decimal_value port)))"

section \<open>urlunsplit\<close>

definition uses_netloc :: "ustr list" where
  "uses_netloc = map u ['''', ''ftp'', ''http'', ''gopher'', ''nntp'', ''telnet'', ''imap'', ''wais'',
     ''file'', ''mms'', ''https'', ''shttp'', ''snews'', ''prospero'', ''rtsp'', ''rtsps'', ''rtspu'',
     ''rsync'', ''svn'', ''svn+ssh'', ''sftp'', ''nfs'', ''git'', ''git+ssh'', ''ws'', ''wss'',
     ''itms-services'']"

definition urlunsplit :: "split_result \<Rightarrow> ustr" where
  "urlunsplit p =
     (let url0 = sp_path p;
          url1 = (if sp_netloc p \<noteq> [] \<or>
                     (sp_scheme p \<noteq> [] \<and> sp_scheme p \<in> set uses_netloc \<and> \<not> starts_with [47, 47] url0)
                  then [47, 47] @ sp_netloc p @
                       (if url0 \<noteq> [] \<and> \<not> starts_with [47] url0 then [47] else []) @ url0
                  else url0);
          url2 = (if sp_scheme p \<noteq> [] then sp_scheme p @ [58] @ url1 else url1);
          url3 = (if sp_query p \<noteq> [] then url2 @ [63] @ sp_query p else url2)
      in if sp_fragment p \<noteq> [] then url3 @ [35] @ sp_fragment p else url3)"

section \<open>The idna codec\<close>

text \<open>\<open>ToASCII\<close>: the Unicode steps on a non-ASCII label are the parameter's.\<close>

definition to_ascii :: "unicode_db \<Rightarrow> ustr \<Rightarrow> ustr option" where
  "to_ascii db label =
     (if is_ascii label then (if 0 < length label \<and> length label < 64 then Some label else None)
      else uni_to_ascii db label)"

fun join_with :: "nat \<Rightarrow> ustr list \<Rightarrow> ustr" where
  "join_with c [] = []"
| "join_with c [x] = x"
| "join_with c (x # y # xs) = x @ [c] @ join_with c (y # xs)"

text \<open>\<open>Codec.encode\<close>: an ASCII name is returned as it is; otherwise the name is split at the four
  full stops of IDNA and every label is converted. A trailing full stop is kept.\<close>

definition idna_encode :: "unicode_db \<Rightarrow> ustr \<Rightarrow> ustr option" where
  "idna_encode db s =
     (if s = [] then Some []
      else if is_ascii s
        then (let labels = split_at {46} s in
              if list_all (\<lambda>l. 0 < length l \<and> length l < 64) (butlast labels) \<and> length (last labels) < 64
              then Some s else None)
      else
        (let labels = split_at {0x2E, 0x3002, 0xFF0E, 0xFF61} s;
             trailing = (last labels = []);
             labels' = (if trailing then butlast labels else labels);
             converted = map (to_ascii db) labels'
         in if None \<in> set converted then None
            else Some (join_with 46 (map the converted) @ (if trailing then [46] else []))))"

section \<open>fnmatchcase\<close>

text \<open>Shell patterns with \<open>*\<close> and \<open>?\<close>. Character classes are not part of this definition: the
  patterns it is applied to have no bracket (see the lemmas on normalized paths).\<close>

fun fnmatchcase :: "ustr \<Rightarrow> ustr \<Rightarrow> bool" where
  "fnmatchcase name [] = (name = [])"
| "fnmatchcase [] (p # ps) = (p = 42 \<and> fnmatchcase [] ps)"
| "fnmatchcase (c # name) (p # ps) =
     (if p = 42 then fnmatchcase (c # name) ps \<or> fnmatchcase name (p # ps)
      else (p = 63 \<or> p = c) \<and> fnmatchcase name ps)"

end
