(* ===== verification/Scope_Matching.thy ===== *)
theory Scope_Matching
  imports Url_Parsing
begin

text \<open>
  Conservative URL scope matching, \<^verbatim>\<open>src/src/pajin/policy/scope.py\<close>. Every raise of the source is
  an \<open>Inl\<close>; \<open>InvalidScopeURL\<close> carries the message. Text that cannot be encoded in UTF-8 (a lone
  surrogate) leaves these functions as a \<open>UnicodeEncodeError\<close>.
\<close>

section \<open>Percent escapes\<close>

text \<open>\<open>_INVALID_PERCENT_ESCAPE.search\<close>, \<open>_VALID_PERCENT_ESCAPE.search\<close> and the bytes of
  \<open>_VALID_PERCENT_ESCAPE.finditer\<close>.\<close>

fun has_invalid_escape :: "ustr \<Rightarrow> bool" where
  "has_invalid_escape [] = False"
| "has_invalid_escape (c # s) = (c = 37 \<and> \<not> two_hex s \<or> has_invalid_escape s)"

fun has_valid_escape :: "ustr \<Rightarrow> bool" where
  "has_valid_escape [] = False"
| "has_valid_escape (c # s) = (c = 37 \<and> two_hex s \<or> has_valid_escape s)"

fun escape_values :: "ustr \<Rightarrow> nat list" where
  "escape_values [] = []"
| "escape_values (c # s) =
     (if c = 37 \<and> two_hex s then escape_byte s # escape_values (drop 2 s) else escape_values s)"

text \<open>\<open>_URI_UNRESERVED\<close>.\<close>

definition uri_unreserved :: "nat \<Rightarrow> bool" where
  "uri_unreserved c = (ascii_alpha c \<or> ascii_digit c \<or> c \<in> {45, 46, 95, 126})"

section \<open>Paths\<close>

definition contains_control_characters :: "ustr \<Rightarrow> bool" where
  "contains_control_characters value = list_ex (\<lambda>c. c < 0x20 \<or> c = 0x7F) value"

definition slash_count :: "ustr \<Rightarrow> nat" where
  "slash_count path = count_list path 47"

definition dot_segment :: "ustr \<Rightarrow> bool" where
  "dot_segment segment = (fst (partition_at 59 segment) \<in> {[46], [46, 46]})"

text \<open>\<open>_validate_path_representation\<close>.\<close>

definition validate_path_representation :: "ustr \<Rightarrow> nat \<Rightarrow> unit result" where
  "validate_path_representation path raw_slash_count =
     (if contains_control_characters path then Inl (InvalidScopeURL ''URL path contains control characters'')
      else if 92 \<in> set path then Inl (InvalidScopeURL ''URL path contains an ambiguous backslash'')
      else if slash_count path \<noteq> raw_slash_count then Inl (InvalidScopeURL ''URL path contains an encoded slash'')
      else if list_ex dot_segment (split_at {47} path) then Inl (InvalidScopeURL ''URL path contains a dot segment'')
      else Inr ())"

definition path_safe :: "bool \<Rightarrow> nat list" where
  "path_safe pattern =
     (if pattern then u ''/:@-._~!$&'' @ [39] @ u ''()*+,;='' else u ''/:@-._~!$&'' @ [39] @ u ''()+,;='')"

text \<open>\<open>_normalize_path\<close>.\<close>

definition normalize_path :: "ustr \<Rightarrow> bool \<Rightarrow> ustr result" where
  "normalize_path path pattern =
     (if has_invalid_escape path
      then Inl (InvalidScopeURL ''URL path contains a malformed percent escape'')
      else if pattern \<and> list_ex (\<lambda>b. b \<in> {42, 63, 91, 93}) (escape_values path)
      then Inl (InvalidScopeURL ''scope path cannot percent-encode glob metacharacters'')
      else case validate_path_representation path (slash_count path) of
        Inl e \<Rightarrow> Inl e
      | Inr _ \<Rightarrow>
        (case unquote path of
           None \<Rightarrow> Inl (InvalidScopeURL ''URL path contains invalid percent-encoded text'')
         | Some repr \<Rightarrow>
             (case validate_path_representation repr (slash_count path) of
                Inl e \<Rightarrow> Inl e
              | Inr _ \<Rightarrow>
                  (if has_valid_escape repr
                   then Inl (InvalidScopeURL ''URL path contains nested percent encoding'')
                   else quote (path_safe pattern) repr))))"

section \<open>Authorities\<close>

text \<open>\<open>_url_port\<close>.\<close>

definition url_port :: "split_result \<Rightarrow> nat option result" where
  "url_port parsed =
     (case sp_port parsed of
        Inl _ \<Rightarrow> Inl (InvalidScopeURL ''URL port is invalid'')
      | Inr port \<Rightarrow>
          (if port = Some 0 then Inl (InvalidScopeURL ''URL port 0 is not allowed'') else Inr port))"

text \<open>\<open>_canonical_hostname\<close>.\<close>

definition canonical_hostname :: "unicode_db \<Rightarrow> ustr \<Rightarrow> bool \<Rightarrow> ustr result" where
  "canonical_hostname db hostname pattern =
     (if 37 \<in> set hostname \<or> ends_with [46, 46] hostname
      then Inl (InvalidScopeURL ''URL hostname contains an ambiguous representation'')
      else
        (let rooted = (if ends_with [46] hostname then butlast hostname else hostname);
             wildcard = (pattern \<and> starts_with [42, 46] rooted);
             suffix = (if wildcard then drop 2 rooted else rooted)
         in if suffix = [] then Inl (InvalidScopeURL ''URL hostname is required'')
            else case idna_encode db suffix of
              None \<Rightarrow> Inl (InvalidScopeURL ''URL hostname is not valid IDNA text'')
            | Some encoded \<Rightarrow>
                (let canonical = map ascii_lower encoded in
                 if 253 < length canonical then Inl (InvalidScopeURL ''URL hostname is too long'')
                 else Inr (if wildcard then [42, 46] @ canonical else canonical))))"

section \<open>Queries\<close>

text \<open>\<open>_VALID_PERCENT_ESCAPE.sub(normalize_escape, query)\<close>.\<close>

fun normalize_escapes :: "ustr \<Rightarrow> ustr" where
  "normalize_escapes [] = []"
| "normalize_escapes (c # s) =
     (if c = 37 \<and> two_hex s
      then (if uri_unreserved (escape_byte s) then [escape_byte s]
            else 37 # map ascii_upper (take 2 s)) @ normalize_escapes (drop 2 s)
      else c # normalize_escapes s)"

definition query_safe :: "nat list" where
  "query_safe = u ''!$&'' @ [39] @ u ''()*+,;=:@/?-._~%''"

text \<open>\<open>_normalize_query\<close>; decoding bytes as Latin-1 keeps their numbers.\<close>

definition normalize_query :: "ustr \<Rightarrow> ustr result" where
  "normalize_query query =
     (if query = [] then Inr []
      else if has_invalid_escape query
      then Inl (InvalidScopeURL ''URL query contains a malformed percent escape'')
      else case unquote_to_bytes query of
        Inl e \<Rightarrow> Inl e
      | Inr decoded \<Rightarrow>
          (if has_valid_escape decoded
           then Inl (InvalidScopeURL ''URL query contains nested percent encoding'')
           else quote query_safe (normalize_escapes query)))"

section \<open>URLs\<close>

text \<open>\<open>_parse_url\<close>.\<close>

definition truthy :: "ustr option \<Rightarrow> bool" where
  "truthy x = (x \<noteq> None \<and> x \<noteq> Some [])"

definition wildcard_host_ok :: "ustr \<Rightarrow> bool" where
  "wildcard_host_ok hostname =
     (count_list hostname 42 = 0 \<or> count_list hostname 42 = 1 \<and> starts_with [42, 46] hostname)"

definition parse_url :: "unicode_db \<Rightarrow> ustr \<Rightarrow> bool \<Rightarrow> split_result result" where
  "parse_url db value pattern =
     (if contains_control_characters value then Inl (InvalidScopeURL ''URL contains control characters'')
      else case urlsplit db value of
        Inl _ \<Rightarrow> Inl (InvalidScopeURL ''URL authority is invalid'')
      | Inr parsed \<Rightarrow>
        (if sp_scheme parsed \<notin> {u ''http'', u ''https''}
         then Inl (InvalidScopeURL ''URL scheme must be HTTP or HTTPS'')
         else if truthy (sp_username parsed) \<or> truthy (sp_password parsed)
         then Inl (InvalidScopeURL ''credentials in URL authority are not allowed'')
         else case sp_hostname db parsed of
           None \<Rightarrow> Inl (InvalidScopeURL ''URL hostname is required'')
         | Some hostname \<Rightarrow>
           (if hostname = [] then Inl (InvalidScopeURL ''URL hostname is required'')
            else if sp_fragment parsed \<noteq> []
            then Inl (InvalidScopeURL ''URL fragments are not part of an enforceable scope'')
            else if pattern \<and> \<not> wildcard_host_ok hostname
            then Inl (InvalidScopeURL (''only a single leading '' @ [CHR 0x27] @ ''*.'' @ [CHR 0x27] @ '' hostname wildcard is allowed''))
            else if \<not> pattern \<and> 42 \<in> set value
            then Inl (InvalidScopeURL ''requested target URL cannot contain wildcards'')
            else case canonical_hostname db hostname pattern of
              Inl e \<Rightarrow> Inl e
            | Inr _ \<Rightarrow>
              (case url_port parsed of
                 Inl e \<Rightarrow> Inl e
               | Inr _ \<Rightarrow>
                 (case normalize_path (if sp_path parsed = [] then [47] else sp_path parsed) pattern of
                    Inl e \<Rightarrow> Inl e
                  | Inr path \<Rightarrow>
                    (case normalize_query (sp_query parsed) of
                       Inl e \<Rightarrow> Inl e
                     | Inr query \<Rightarrow> Inr (parsed\<lparr>sp_path := path, sp_query := query\<rparr>)))))))"

text \<open>\<open>_authority\<close>; the canonical host name is ASCII, so lower-casing is the ASCII one.\<close>

definition authority :: "unicode_db \<Rightarrow> ustr \<Rightarrow> nat option \<Rightarrow> nat \<Rightarrow> ustr" where
  "authority db hostname port default_port =
     (let host0 = str_lower db hostname;
          host = (if 58 \<in> set host0 \<and> \<not> starts_with [91] host0 then [91] @ host0 @ [93] else host0)
      in case port of
           None \<Rightarrow> host
         | Some p \<Rightarrow> if p = default_port then host else host @ [58] @ decimal p)"

definition default_port :: "split_result \<Rightarrow> nat" where
  "default_port parsed = (if sp_scheme parsed = u ''https'' then 443 else 80)"

text \<open>\<open>normalize_target_url\<close> and \<open>normalize_scope_pattern\<close>, which differ in the \<open>pattern\<close> flag.
  A host name that \<open>_parse_url\<close> accepted is present.\<close>

definition normalize_url :: "unicode_db \<Rightarrow> bool \<Rightarrow> ustr \<Rightarrow> ustr result" where
  "normalize_url db pattern value =
     (case parse_url db value pattern of
        Inl e \<Rightarrow> Inl e
      | Inr parsed \<Rightarrow>
        (case canonical_hostname db (the (sp_hostname db parsed)) pattern of
           Inl e \<Rightarrow> Inl e
         | Inr hostname \<Rightarrow>
           (case url_port parsed of
              Inl e \<Rightarrow> Inl e
            | Inr port \<Rightarrow>
                Inr (urlunsplit
                  \<lparr>sp_scheme = sp_scheme parsed,
                   sp_netloc = authority db hostname port (default_port parsed),
                   sp_path = (if sp_path parsed = [] then [47] else sp_path parsed),
                   sp_query = sp_query parsed, sp_fragment = []\<rparr>))))"

definition normalize_target_url :: "unicode_db \<Rightarrow> ustr \<Rightarrow> ustr result" where
  "normalize_target_url db value = normalize_url db False value"

definition normalize_scope_pattern :: "unicode_db \<Rightarrow> ustr \<Rightarrow> ustr result" where
  "normalize_scope_pattern db value = normalize_url db True value"

section \<open>Matching\<close>

text \<open>The host test of \<open>scope_matches\<close>.\<close>

definition host_matches :: "ustr \<Rightarrow> ustr \<Rightarrow> bool" where
  "host_matches scope_host target_host =
     (if starts_with [42, 46] scope_host
      then (let suffix = drop 1 scope_host in
            ends_with suffix target_host \<and> target_host \<noteq> drop 1 suffix)
      else scope_host = target_host)"

definition effective_port :: "split_result \<Rightarrow> nat option \<Rightarrow> nat" where
  "effective_port parsed port = (case port of None \<Rightarrow> default_port parsed | Some p \<Rightarrow> p)"

definition or_slash :: "ustr \<Rightarrow> ustr" where
  "or_slash path = (if path = [] then [47] else path)"

definition scope_matches :: "unicode_db \<Rightarrow> ustr \<Rightarrow> ustr \<Rightarrow> bool result" where
  "scope_matches db pattern target =
     (case parse_url db pattern True of
        Inl e \<Rightarrow> Inl e
      | Inr scope_url \<Rightarrow>
        (case normalize_target_url db target of
           Inl e \<Rightarrow> Inl e
         | Inr normalized \<Rightarrow>
           (case parse_url db normalized False of
              Inl e \<Rightarrow> Inl e
            | Inr target_url \<Rightarrow>
              (if sp_scheme scope_url \<noteq> sp_scheme target_url then Inr False
               else case canonical_hostname db (the (sp_hostname db scope_url)) True of
                 Inl e \<Rightarrow> Inl e
               | Inr scope_host \<Rightarrow>
                 (case canonical_hostname db (the (sp_hostname db target_url)) False of
                    Inl e \<Rightarrow> Inl e
                  | Inr target_host \<Rightarrow>
                    (if \<not> host_matches scope_host target_host then Inr False
                     else case url_port scope_url of
                       Inl e \<Rightarrow> Inl e
                     | Inr scope_port \<Rightarrow>
                       (case url_port target_url of
                          Inl e \<Rightarrow> Inl e
                        | Inr target_port \<Rightarrow>
                            (if effective_port scope_url scope_port \<noteq> effective_port target_url target_port
                             then Inr False
                             else if \<not> fnmatchcase (or_slash (sp_path target_url)) (or_slash (sp_path scope_url))
                             then Inr False
                             else Inr (sp_query scope_url = [] \<or> sp_query scope_url = sp_query target_url)))))))))"

section \<open>Auxiliary notions for the proofs\<close>

text \<open>The characters a quoted character becomes.\<close>

definition quote_char :: "nat list \<Rightarrow> nat \<Rightarrow> ustr" where
  "quote_char safe c = concat (map (quote_byte safe) (the (utf8_char c)))"

definition quoted_char :: "nat list \<Rightarrow> nat \<Rightarrow> bool" where
  "quoted_char safe c = (c = 37 \<or> always_safe c \<or> c \<in> set safe)"

text \<open>A delimiter that is kept, and is no hexadecimal digit, appears in the quoted text only where it
  stood in the text.\<close>

definition kept_delim :: "nat list \<Rightarrow> nat \<Rightarrow> bool" where
  "kept_delim safe d = (d < 128 \<and> d \<in> set safe \<and> d \<noteq> 37 \<and> \<not> is_hex d)"

text \<open>The identity tables, right for the characters the examples below use.\<close>

definition identity_db :: unicode_db where
  "identity_db = \<lparr>uni_lower = (\<lambda>s. s), uni_nfkc = (\<lambda>s. s), uni_to_ascii = (\<lambda>_. None)\<rparr>"

text \<open>The documented result of the codec's label conversion.\<close>

definition ascii_labels :: "unicode_db \<Rightarrow> bool" where
  "ascii_labels db = (\<forall>l r. uni_to_ascii db l = Some r \<longrightarrow> is_ascii r)"

section \<open>Text that is quoted character by character\<close>

lemma quote_chars:
  "quote safe s = Inr q \<Longrightarrow> q = concat (map (quote_char safe) s) \<and> (\<forall>c \<in> set s. utf8_char c \<noteq> None)"
  by (induction s arbitrary: q) (auto simp: quote_def quote_char_def split: option.splits)

lemma quote_char_kept:
  "c < 128 \<Longrightarrow> always_safe c \<or> c \<in> set safe \<Longrightarrow> quote_char safe c = [c]"
  by (simp add: quote_char_def utf8_char_def quote_byte_def)

lemma hex_upper_range: "n < 16 \<Longrightarrow> 48 \<le> hex_upper n \<and> hex_upper n \<le> 57 \<or> 65 \<le> hex_upper n \<and> hex_upper n \<le> 70"
  by (auto simp: hex_upper_def)

lemma hex_upper_safe: "n < 16 \<Longrightarrow> always_safe (hex_upper n)"
  by (auto simp: hex_upper_def always_safe_def ascii_alpha_def ascii_digit_def)

lemma quote_byte_range:
  assumes "b < 256" and "x \<in> set (quote_byte safe b)"
  shows "quoted_char safe x"
proof -
  have "b div 16 < 16" "b mod 16 < 16" using assms(1) by auto
  then have "always_safe (hex_upper (b div 16))" "always_safe (hex_upper (b mod 16))"
    by (simp_all add: hex_upper_safe)
  then show ?thesis using assms(2) by (auto simp: quoted_char_def quote_byte_def split: if_splits)
qed

lemma quote_range: "quote safe s = Inr q \<Longrightarrow> x \<in> set q \<Longrightarrow> quoted_char safe x"
  by (auto simp: quote_def intro: quote_byte_range [OF utf8_encode_bytes] split: option.splits)

lemma quote_no_invalid_escape:
  assumes "37 \<notin> set safe"
  shows "(\<forall>b \<in> set bs. b < 256) \<Longrightarrow> \<not> has_invalid_escape (concat (map (quote_byte safe) bs))"
proof (induction bs)
  case Nil
  then show ?case by simp
next
  case (Cons b bs)
  then have b: "b < 256" by simp
  show ?case
  proof (cases "always_safe b \<or> b \<in> set safe")
    case True
    then have "b \<noteq> 37" using assms by (auto simp: always_safe_def ascii_alpha_def ascii_digit_def)
    then show ?thesis using True Cons by (simp add: quote_byte_def)
  next
    case False
    have "b div 16 < 16" "b mod 16 < 16" using b by auto
    then show ?thesis
      using False Cons hex_upper_range [of "b div 16"] hex_upper_range [of "b mod 16"]
      by (auto simp: quote_byte_def two_hex_def hex_upper_hex)
  qed
qed

lemma utf8_char_delim:
  "d < 128 \<Longrightarrow> utf8_char c = Some bs \<Longrightarrow> d \<in> set bs \<Longrightarrow> c = d"
  by (auto simp: utf8_char_def split: if_splits)

lemma quote_char_delim:
  assumes "kept_delim safe d" and "utf8_char c \<noteq> None" and "d \<in> set (quote_char safe c)"
  shows "c = d"
proof -
  obtain bs where bs: "utf8_char c = Some bs" using assms(2) by auto
  then obtain b where b: "b \<in> set bs" "d \<in> set (quote_byte safe b)"
    using assms(3) by (auto simp: quote_char_def)
  have "b < 256" using utf8_char_bytes [OF bs b(1)] .
  then have "b div 16 < 16" "b mod 16 < 16" by auto
  then have "d = b"
    using b(2) assms(1) hex_upper_hex [of "b div 16"] hex_upper_hex [of "b mod 16"]
    by (auto simp: kept_delim_def quote_byte_def split: if_splits)
  then show ?thesis using utf8_char_delim [OF _ bs] b(1) assms(1) by (auto simp: kept_delim_def)
qed

lemma quote_char_self: "kept_delim safe d \<Longrightarrow> quote_char safe d = [d]"
  by (simp add: kept_delim_def quote_char_kept)

lemma takeWhile_quote:
  assumes "kept_delim safe d" and "\<forall>c \<in> set s. utf8_char c \<noteq> None"
  shows "takeWhile (\<lambda>x. x \<noteq> d) (concat (map (quote_char safe) s)) =
    concat (map (quote_char safe) (takeWhile (\<lambda>x. x \<noteq> d) s))"
  using assms(2)
proof (induction s)
  case Nil
  then show ?case by simp
next
  case (Cons c s)
  show ?case
  proof (cases "c = d")
    case True
    then show ?thesis using assms(1) by (simp add: quote_char_self)
  next
    case False
    then have "\<forall>x \<in> set (quote_char safe c). x \<noteq> d"
      using quote_char_delim [OF assms(1), of c] Cons.prems by auto
    then show ?thesis using False Cons by (simp add: takeWhile_append2)
  qed
qed

lemma count_quote:
  assumes "kept_delim safe d" and "\<forall>c \<in> set s. utf8_char c \<noteq> None"
  shows "count_list (concat (map (quote_char safe) s)) d = count_list s d"
  using assms(2)
proof (induction s)
  case (Cons c s)
  show ?case
  proof (cases "c = d")
    case True
    then show ?thesis using assms(1) Cons by (simp add: quote_char_self)
  next
    case False
    then have "d \<notin> set (quote_char safe c)"
      using quote_char_delim [OF assms(1), of c] Cons.prems by auto
    then show ?thesis using False Cons by simp
  qed
qed simp

lemma split_at_Nil [simp]: "split_at cs s \<noteq> []"
  by (induction s) (auto split: list.splits)

lemma split_at_no_delim: "d \<notin> set xs \<Longrightarrow>
  split_at {d} (xs @ ys) = (case split_at {d} ys of [] \<Rightarrow> [xs] | z # zs \<Rightarrow> (xs @ z) # zs)"
  by (induction xs) (auto split: list.splits)

lemma split_at_set: "seg \<in> set (split_at cs s) \<Longrightarrow> set seg \<subseteq> set s"
  by (induction s arbitrary: seg) (fastforce split: list.splits if_splits)+

lemma split_at_quote:
  assumes "kept_delim safe d" and "\<forall>c \<in> set s. utf8_char c \<noteq> None"
  shows "split_at {d} (concat (map (quote_char safe) s)) =
    map (\<lambda>seg. concat (map (quote_char safe) seg)) (split_at {d} s)"
  using assms(2)
proof (induction s)
  case (Cons c s)
  show ?case
  proof (cases "c = d")
    case True
    then show ?thesis using assms(1) Cons by (simp add: quote_char_self)
  next
    case False
    then have "d \<notin> set (quote_char safe c)"
      using quote_char_delim [OF assms(1), of c] Cons.prems by auto
    then show ?thesis using False Cons by (auto simp: split_at_no_delim split: list.splits)
  qed
qed simp


section \<open>Normalized paths\<close>

lemma path_safe_facts:
  "37 \<notin> set (path_safe p)" "is_ascii (path_safe p)" "kept_delim (path_safe p) 47"
  "kept_delim (path_safe p) 59"
  by (auto simp: path_safe_def u_def kept_delim_def is_hex_def is_ascii_def)

lemma quoted_path_char: "quoted_char (path_safe p) c \<Longrightarrow> \<not> (c < 0x20 \<or> c = 0x7F) \<and> c \<noteq> 92 \<and> c \<noteq> 91 \<and> c \<noteq> 63"
  by (auto simp: quoted_char_def path_safe_def u_def always_safe_def ascii_alpha_def ascii_digit_def split: if_splits)

lemma quote_dot_segment:
  assumes "\<forall>c \<in> set seg. utf8_char c \<noteq> None"
  shows "dot_segment (concat (map (quote_char (path_safe p)) seg)) \<longleftrightarrow> dot_segment seg"
proof -
  let ?q = "\<lambda>s. concat (map (quote_char (path_safe p)) s)"
  let ?t = "takeWhile (\<lambda>x. x \<noteq> 59) seg"
  have enc: "\<forall>c \<in> set ?t. utf8_char c \<noteq> None" using assms by (blast dest: set_takeWhileD)
  have quoted: "quote (path_safe p) s = Inr (?q s)" if "\<forall>c \<in> set s. utf8_char c \<noteq> None" for s
    using that by (induction s) (auto simp: quote_def quote_char_def split: option.splits)
  have inj: "?q ?t = ?q s \<longleftrightarrow> ?t = s" if "\<forall>c \<in> set s. utf8_char c \<noteq> None" for s
    using unquote_quote [OF quoted [OF enc] path_safe_facts(1,2)]
      unquote_quote [OF quoted [OF that] path_safe_facts(1,2)] by (metis option.inject)
  have dots: "quote_char (path_safe p) 46 = [46]"
    by (simp add: quote_char_kept always_safe_def)
  have "?q ?t = [46] \<longleftrightarrow> ?t = [46]" "?q ?t = [46, 46] \<longleftrightarrow> ?t = [46, 46]"
    using inj [of "[46]"] inj [of "[46, 46]"] by (simp_all add: dots utf8_char_def)
  then show ?thesis
    by (simp add: dot_segment_def partition_at_def takeWhile_quote [OF path_safe_facts(4) assms])
qed

lemma quote_validates:
  assumes "quote (path_safe p) s = Inr q" and "validate_path_representation s n = Inr ()"
  shows "validate_path_representation q n = Inr ()"
proof -
  have q: "q = concat (map (quote_char (path_safe p)) s)" "\<forall>c \<in> set s. utf8_char c \<noteq> None"
    using quote_chars [OF assms(1)] by auto
  have s: "slash_count s = n" "\<not> list_ex dot_segment (split_at {47} s)"
    using assms(2) by (auto simp: validate_path_representation_def split: if_splits)
  have "slash_count q = n"
    using s(1) count_quote [OF path_safe_facts(3) q(2)] by (simp add: slash_count_def q(1))
  moreover have "\<not> contains_control_characters q" "92 \<notin> set q"
    using quote_range [OF assms(1)] quoted_path_char
    by (auto simp: contains_control_characters_def list_ex_iff)
  moreover have "dot_segment (concat (map (quote_char (path_safe p)) seg)) \<longleftrightarrow> dot_segment seg"
    if "seg \<in> set (split_at {47} s)" for seg
    using quote_dot_segment [of seg p] split_at_set [OF that] q(2) by blast
  then have "\<not> list_ex dot_segment (split_at {47} q)"
    using s(2) unfolding q(1) split_at_quote [OF path_safe_facts(3) q(2)] by (auto simp: list_ex_iff)
  ultimately show ?thesis by (simp add: validate_path_representation_def)
qed

lemma normalize_path_Inr:
  assumes "normalize_path path p = Inr q"
  obtains s where "unquote path = Some s" and "quote (path_safe p) s = Inr q"
    and "validate_path_representation s (slash_count path) = Inr ()" and "\<not> has_valid_escape s"
  using assms by (auto simp: normalize_path_def split: if_splits sum.splits option.splits)

lemma quote_valid_escapes:
  assumes "quote (path_safe p) s = Inr q"
  shows "\<not> has_invalid_escape q"
proof -
  obtain bs where "utf8_encode s = Some bs" "q = concat (map (quote_byte (path_safe p)) bs)"
    using assms by (auto simp: quote_def split: option.splits)
  then show ?thesis
    using quote_no_invalid_escape [OF path_safe_facts(1)] utf8_encode_bytes by blast
qed

lemma normalize_path_stable:
  assumes "normalize_path path False = Inr q"
  shows "normalize_path q False = Inr q"
proof -
  obtain s where s: "unquote path = Some s" "quote (path_safe False) s = Inr q"
    "validate_path_representation s (slash_count path) = Inr ()" "\<not> has_valid_escape s"
    using normalize_path_Inr [OF assms] .
  have v: "validate_path_representation q (slash_count path) = Inr ()"
    using quote_validates [OF s(2,3)] .
  then have "slash_count q = slash_count path"
    by (simp add: validate_path_representation_def split: if_splits)
  then show ?thesis
    using v s unquote_quote [OF s(2) path_safe_facts(1,2)] quote_valid_escapes [OF s(2)]
    by (simp add: normalize_path_def)
qed

lemma normalize_path_eq_iff:
  assumes "normalize_path path p = Inr q" and "normalize_path path' p = Inr q'"
  shows "q = q' \<longleftrightarrow> unquote path = unquote path'"
proof -
  obtain s where s: "unquote path = Some s" "quote (path_safe p) s = Inr q"
    using normalize_path_Inr [OF assms(1)] by metis
  obtain s' where s': "unquote path' = Some s'" "quote (path_safe p) s' = Inr q'"
    using normalize_path_Inr [OF assms(2)] by metis
  show ?thesis
    using s s' unquote_quote [OF s(2) path_safe_facts(1,2)] unquote_quote [OF s'(2) path_safe_facts(1,2)]
    by auto
qed

section \<open>Hosts\<close>

lemma host_matches_iff:
  "host_matches scope_host target_host \<longleftrightarrow>
     (if starts_with [42, 46] scope_host
      then \<exists>pre. target_host = pre @ 46 # drop 2 scope_host
      else scope_host = target_host)"
proof (cases "starts_with [42, 46] scope_host")
  case True
  then obtain suf where suf: "scope_host = 42 # 46 # suf"
    by (cases scope_host rule: list.exhaust; cases "tl scope_host") (auto simp: starts_with_def)
  have "ends_with (46 # suf) target_host \<longleftrightarrow> (\<exists>pre. target_host = pre @ 46 # suf)"
  proof
    assume "ends_with (46 # suf) target_host"
    then show "\<exists>pre. target_host = pre @ 46 # suf"
      by (metis append_take_drop_id ends_with_def)
  qed (auto simp: ends_with_def)
  then show ?thesis using suf by (auto simp: host_matches_def starts_with_def)
qed (simp add: host_matches_def)

lemma parse_url_path:
  assumes "parse_url db value p = Inr parsed"
  obtains raw where "normalize_path raw p = Inr (sp_path parsed)" and "sp_hostname db parsed \<noteq> None"
    and "sp_scheme parsed \<in> {u ''http'', u ''https''}"
proof -
  have host: "sp_hostname db (r\<lparr>sp_path := a, sp_query := b\<rparr>) = sp_hostname db r" for r a b
    by (simp add: sp_hostname_def)
  show ?thesis
    using assms that by (auto simp: parse_url_def host split: if_splits sum.splits option.splits)
qed

section \<open>Properties\<close>

text \<open>Normalizing the path of a concrete target is idempotent: the audit form of a path is its own
  normal form, for every path the normalization accepts.\<close>

theorem normalized_path_is_stable:
  assumes "normalize_path path False = Inr q"
  shows "normalize_path q False = Inr q"
  using normalize_path_stable [OF assms] .

theorem normalized_path_is_stable_witness:
  "normalize_path (u ''/a%20b/%C3%a9%2A'') False = Inr (u ''/a%20b/%C3%A9%2A'') \<and>
   normalize_path (u ''/a%20b/%C3%A9%2A'') False = Inr (u ''/a%20b/%C3%A9%2A'')"
proof -
  have "normalize_path (u ''/a%20b/%C3%a9%2A'') False = Inr (u ''/a%20b/%C3%A9%2A'')"
    by code_simp
  then show ?thesis using normalized_path_is_stable by blast
qed

text \<open>C24. Percent-encoding cannot hide a path: two accepted spellings, of targets or of patterns, have
  the same normal form exactly when they decode to the same text.\<close>

theorem path_spellings_agree:
  assumes "normalize_path path p = Inr q" and "normalize_path path' p = Inr q'"
  shows "q = q' \<longleftrightarrow> unquote path = unquote path'"
  using normalize_path_eq_iff [OF assms] .

theorem path_spellings_agree_witness:
  "unquote (u ''/%61dmin'') = unquote (u ''/admin'') \<and>
   normalize_path (u ''/%61dmin'') False = normalize_path (u ''/admin'') False"
proof -
  have "normalize_path (u ''/%61dmin'') False = Inr (u ''/admin'')"
    "normalize_path (u ''/admin'') False = Inr (u ''/admin'')"
    by code_simp+
  then show ?thesis using path_spellings_agree by (metis (no_types, lifting))
qed

text \<open>C23. A match confines the target: when \<open>scope_matches\<close> says yes, the target has the rule's scheme
  and effective port; its canonical host is the rule's host or, for a rule \<open>*.suffix\<close>, a name that
  ends in \<open>.suffix\<close> (never the suffix itself); and its path matches the rule's path and contains no
  dot segment, no backslash and no control character, before or after percent-decoding.\<close>

theorem scope_match_is_confined:
  assumes "scope_matches db pattern target = Inr True"
  shows "\<exists>s t sh th sp tp r. parse_url db pattern True = Inr s \<and>
    (\<exists>n. normalize_target_url db target = Inr n \<and> parse_url db n False = Inr t) \<and>
    sp_scheme s = sp_scheme t \<and>
    url_port s = Inr sp \<and> url_port t = Inr tp \<and> effective_port s sp = effective_port t tp \<and>
    canonical_hostname db (the (sp_hostname db s)) True = Inr sh \<and>
    canonical_hostname db (the (sp_hostname db t)) False = Inr th \<and>
    (if starts_with [42, 46] sh then \<exists>pre. th = pre @ 46 # drop 2 sh else sh = th) \<and>
    fnmatchcase (or_slash (sp_path t)) (or_slash (sp_path s)) \<and>
    unquote (sp_path t) = Some r \<and>
    validate_path_representation (sp_path t) (slash_count (sp_path t)) = Inr () \<and>
    validate_path_representation r (slash_count (sp_path t)) = Inr ()"
proof -
  obtain s n t sh th sp tp where m: "parse_url db pattern True = Inr s"
    "normalize_target_url db target = Inr n" "parse_url db n False = Inr t" "sp_scheme s = sp_scheme t"
    "canonical_hostname db (the (sp_hostname db s)) True = Inr sh"
    "canonical_hostname db (the (sp_hostname db t)) False = Inr th" "host_matches sh th"
    "url_port s = Inr sp" "url_port t = Inr tp" "effective_port s sp = effective_port t tp"
    "fnmatchcase (or_slash (sp_path t)) (or_slash (sp_path s))"
    using assms unfolding scope_matches_def by (auto split: sum.splits if_splits)
  obtain raw where "normalize_path raw False = Inr (sp_path t)"
    using parse_url_path [OF m(3)] by metis
  then have "normalize_path (sp_path t) False = Inr (sp_path t)" by (rule normalize_path_stable)
  then obtain r where "unquote (sp_path t) = Some r"
    "validate_path_representation (sp_path t) (slash_count (sp_path t)) = Inr ()"
    "validate_path_representation r (slash_count (sp_path t)) = Inr ()"
    by (auto simp: normalize_path_def split: if_splits sum.splits option.splits)
  then show ?thesis using m host_matches_iff [of sh th] by blast
qed

theorem scope_match_is_confined_witness:
  "scope_matches identity_db (u ''https://*.b.test/api/**'') (u ''https://X.b.test/api/%63hat'') = Inr True \<and>
   (\<exists>s. parse_url identity_db (u ''https://*.b.test/api/**'') True = Inr s \<and>
      (\<exists>sh. canonical_hostname identity_db (the (sp_hostname identity_db s)) True = Inr sh))"
proof -
  have "scope_matches identity_db (u ''https://*.b.test/api/**'') (u ''https://X.b.test/api/%63hat'') = Inr True"
    by code_simp
  then show ?thesis using scope_match_is_confined by blast
qed

section \<open>Rules that never match\<close>

text \<open>The same host, normalized twice, gives two different results.\<close>

lemma ideographic_stop_not_stable:
  "normalize_target_url identity_db (u ''http://a'' @ [0x3002] @ u ''/'') = Inr (u ''http://a./'')"
  "normalize_target_url identity_db (u ''http://a./'') = Inr (u ''http://a/'')"
  by code_simp+

text \<open>Brackets in the path of a rule are percent-encoded before the match, so a character class
  matches only its own text.\<close>

lemma bracket_rule_is_literal:
  "scope_matches identity_db (u ''http://a/[xy]'') (u ''http://a/x'') = Inr False"
  "scope_matches identity_db (u ''http://a/[xy]'') (u ''http://a/[xy]'') = Inr True"
  by code_simp+

lemma normalized_path_no_class: "normalize_path path p = Inr q \<Longrightarrow> 91 \<notin> set q \<and> 63 \<notin> set q"
  by (erule normalize_path_Inr) (metis quote_range quoted_path_char)

section \<open>Normalized URLs are ASCII\<close>

lemma is_ascii_simps [simp]: "is_ascii []" "is_ascii (c # s) \<longleftrightarrow> c < 128 \<and> is_ascii s"
  "is_ascii (s @ t) \<longleftrightarrow> is_ascii s \<and> is_ascii t"
  by (simp_all add: is_ascii_def)

lemma is_ascii_subset: "is_ascii s \<Longrightarrow> set t \<subseteq> set s \<Longrightarrow> is_ascii t"
  by (auto simp: is_ascii_def list_all_iff)

lemma is_ascii_lower: "is_ascii s \<Longrightarrow> is_ascii (map ascii_lower s)"
  by (auto simp: is_ascii_def list_all_iff ascii_lower_def)

lemma is_ascii_decimal: "is_ascii (decimal n)"
proof (induction n rule: decimal.induct)
  case (1 n)
  then show ?case by (subst decimal.simps) auto
qed

lemma is_ascii_join: "(\<forall>l \<in> set ls. is_ascii l) \<Longrightarrow> c < 128 \<Longrightarrow> is_ascii (join_with c ls)"
  by (induction c ls rule: join_with.induct) auto

lemma to_ascii_ascii: "ascii_labels db \<Longrightarrow> to_ascii db l = Some r \<Longrightarrow> is_ascii r"
  by (auto simp: to_ascii_def ascii_labels_def split: if_splits)

lemma converted_ascii:
  assumes "ascii_labels db" and "None \<notin> set (map (to_ascii db) ls)"
  shows "is_ascii (join_with 46 (map the (map (to_ascii db) ls)))"
proof -
  have "is_ascii (the (to_ascii db l))" if "l \<in> set ls" for l
    using assms(2) that to_ascii_ascii [OF assms(1), of l] by (cases "to_ascii db l") force+
  then show ?thesis by (auto intro!: is_ascii_join)
qed

lemma idna_ascii: "ascii_labels db \<Longrightarrow> idna_encode db s = Some t \<Longrightarrow> is_ascii t"
  using converted_ascii [of db "butlast (split_at {0x2E, 0x3002, 0xFF0E, 0xFF61} s)"]
    converted_ascii [of db "split_at {0x2E, 0x3002, 0xFF0E, 0xFF61} s"]
  by (auto simp: idna_encode_def Let_def split: if_splits)

lemma canonical_hostname_ascii:
  "ascii_labels db \<Longrightarrow> canonical_hostname db h p = Inr c \<Longrightarrow> is_ascii c"
  by (auto simp: canonical_hostname_def Let_def intro!: is_ascii_lower dest: idna_ascii
      split: if_splits option.splits)

lemma authority_ascii: "is_ascii h \<Longrightarrow> is_ascii (authority db h port d)"
  by (auto simp: authority_def Let_def str_lower_def is_ascii_lower is_ascii_decimal split: option.splits)

lemma query_safe_ascii: "is_ascii query_safe"
  by code_simp

lemma normalize_query_ascii: "normalize_query q = Inr r \<Longrightarrow> is_ascii r"
  by (auto simp: normalize_query_def dest: quote_ascii [OF _ query_safe_ascii] split: if_splits sum.splits)

lemma normalize_path_ascii: "normalize_path p b = Inr q \<Longrightarrow> is_ascii q"
  by (erule normalize_path_Inr) (rule quote_ascii [OF _ path_safe_facts(2)])

lemma parse_url_ascii:
  assumes "parse_url db v p = Inr parsed"
  shows "is_ascii (sp_scheme parsed)" "is_ascii (sp_path parsed)" "is_ascii (sp_query parsed)"
proof -
  have "is_ascii (u ''http'')" "is_ascii (u ''https'')" by code_simp+
  then show "is_ascii (sp_scheme parsed)" "is_ascii (sp_path parsed)" "is_ascii (sp_query parsed)"
    using assms
    by (auto simp: parse_url_def dest: normalize_path_ascii normalize_query_ascii
        split: if_splits sum.splits option.splits)
qed

lemma urlunsplit_ascii:
  "is_ascii (sp_scheme p) \<Longrightarrow> is_ascii (sp_netloc p) \<Longrightarrow> is_ascii (sp_path p) \<Longrightarrow> is_ascii (sp_query p) \<Longrightarrow>
   is_ascii (sp_fragment p) \<Longrightarrow> is_ascii (urlunsplit p)"
  by (auto simp: urlunsplit_def Let_def)

lemma normalize_url_ascii:
  assumes "ascii_labels db" and "normalize_url db p v = Inr n"
  shows "is_ascii n"
proof -
  obtain parsed h port where parsed: "parse_url db v p = Inr parsed"
    "canonical_hostname db (the (sp_hostname db parsed)) p = Inr h"
    "n = urlunsplit \<lparr>sp_scheme = sp_scheme parsed, sp_netloc = authority db h port (default_port parsed),
        sp_path = (if sp_path parsed = [] then [47] else sp_path parsed), sp_query = sp_query parsed,
        sp_fragment = []\<rparr>"
    using assms(2) by (auto simp: normalize_url_def split: sum.splits)
  show ?thesis
    unfolding parsed(3)
    using parse_url_ascii [OF parsed(1)] canonical_hostname_ascii [OF assms(1) parsed(2)]
    by (intro urlunsplit_ascii) (auto intro: authority_ascii)
qed

section \<open>Hosts of normalized targets\<close>

lemma partition_at_subset:
  "set (fst (partition_at c s)) \<subseteq> set s" "set (snd (snd (partition_at c s))) \<subseteq> set s"
  by (auto simp: partition_at_def dest: set_takeWhileD set_dropWhileD in_set_dropD)

lemma rpartition_at_subset: "set (snd (snd (rpartition_at c s))) \<subseteq> set s"
  by (auto simp: rpartition_at_def dest: set_takeWhileD)

lemma hostinfo_subset: "set (fst (hostinfo n)) \<subseteq> set n"
proof -
  obtain a b hi where r: "rpartition_at 64 n = (a, b, hi)" by (metis prod.exhaust)
  obtain x have_open br where br: "partition_at 91 hi = (x, have_open, br)" by (metis prod.exhaust)
  have "set hi \<subseteq> set n" "set br \<subseteq> set hi"
    using rpartition_at_subset [of 64 n] partition_at_subset(2) [of 91 hi] r br by auto
  moreover have "fst (hostinfo n) = fst (partition_at 93 br) \<or> fst (hostinfo n) = fst (partition_at 58 hi)"
    by (simp add: hostinfo_def r br split: prod.splits)
  ultimately show ?thesis
    using partition_at_subset(1) [of 93 br] partition_at_subset(1) [of 58 hi] by (metis order_trans)
qed

lemma sp_hostname_ascii:
  assumes "is_ascii (sp_netloc p)" and "sp_hostname db p = Some h"
  shows "is_ascii h"
proof -
  let ?h = "fst (hostinfo (sp_netloc p))"
  have "is_ascii ?h" using is_ascii_subset [OF assms(1) hostinfo_subset] .
  then have "is_ascii (fst (partition_at 37 ?h))" "is_ascii (snd (snd (partition_at 37 ?h)))"
    using is_ascii_subset partition_at_subset by blast+
  then show ?thesis
    using assms(2) by (auto simp: sp_hostname_def Let_def str_lower_def is_ascii_lower split: if_splits prod.splits)
qed

lemma urlsplit_netloc_subset: "urlsplit db v = Inr p \<Longrightarrow> set (sp_netloc p) \<subseteq> set v"
proof -
  assume *: "urlsplit db v = Inr p"
  have sub: "set (snd (split_scheme s)) \<subseteq> set s" for s
    by (auto simp: split_scheme_def Let_def dest: in_set_dropD)
  show ?thesis
    using * sub [of "filter (\<lambda>c. c \<notin> {9, 10, 13}) (dropWhile (\<lambda>c. c \<le> 32) v)"]
    by (fastforce simp: urlsplit_def Let_def split: prod.splits if_splits
        dest: set_takeWhileD set_dropWhileD in_set_dropD)
qed

lemma parse_url_netloc: "parse_url db v p = Inr parsed \<Longrightarrow> set (sp_netloc parsed) \<subseteq> set v"
  using urlsplit_netloc_subset
  by (fastforce simp: parse_url_def split: if_splits sum.splits option.splits)

lemma ends_with_stop: "ends_with [46] s \<longleftrightarrow> s \<noteq> [] \<and> last s = 46"
  by (cases s rule: rev_cases) (auto simp: ends_with_def)

text \<open>An ASCII host name loses its trailing full stop.\<close>

lemma canonical_no_trailing_stop:
  assumes "canonical_hostname db h False = Inr c" and "is_ascii h"
  shows "\<not> ends_with [46] c"
proof -
  let ?rooted = "if ends_with [46] h then butlast h else h"
  have "is_ascii ?rooted" using assms(2) is_ascii_subset by (auto dest: in_set_butlastD)
  then have c: "c = map ascii_lower ?rooted" "\<not> ends_with [46, 46] h"
    using assms(1) by (auto simp: canonical_hostname_def idna_encode_def Let_def split: if_splits option.splits)
  have twice: "ends_with [46, 46] (s @ [46, 46])" for s
    by (simp add: ends_with_def)
  have "\<not> ends_with [46] ?rooted"
  proof
    assume *: "ends_with [46] ?rooted"
    then have "ends_with [46] h" "ends_with [46] (butlast h)" by (auto split: if_splits)
    then have "h = butlast (butlast h) @ [46, 46]"
      unfolding ends_with_stop by (metis append.assoc append_Cons append_Nil append_butlast_last_id)
    then show False using c(2) twice by metis
  qed
  then show ?thesis
    unfolding c ends_with_stop by (auto simp: last_map ascii_lower_def split: if_splits)
qed

lemma target_host_no_trailing_stop:
  assumes "ascii_labels db" "normalize_target_url db target = Inr n" "parse_url db n False = Inr t"
    "canonical_hostname db (the (sp_hostname db t)) False = Inr th"
  shows "\<not> ends_with [46] th"
proof -
  have "is_ascii n" using normalize_url_ascii [OF assms(1)] assms(2) by (simp add: normalize_target_url_def)
  then have "is_ascii (sp_netloc t)" using is_ascii_subset parse_url_netloc [OF assms(3)] by blast
  moreover have "sp_hostname db t \<noteq> None" using parse_url_path [OF assms(3)] by metis
  ultimately have "is_ascii (the (sp_hostname db t))" using sp_hostname_ascii by auto
  then show ?thesis using canonical_no_trailing_stop [OF assms(4)] by blast
qed

text \<open>C40. A scope rule whose canonical host ends in a full stop matches no target at all. The codec
  writes a full stop for a trailing ideographic one, after the ASCII full stop was looked for, so a
  rule for such a host, a deny rule included, is accepted and then never applies, while every target
  is canonicalized twice and loses the full stop.\<close>

theorem trailing_stop_rule_never_matches:
  assumes "ascii_labels db" and "parse_url db pattern True = Inr s"
    and "canonical_hostname db (the (sp_hostname db s)) True = Inr sh" and "ends_with [46] sh"
  shows "scope_matches db pattern target \<noteq> Inr True"
proof
  assume *: "scope_matches db pattern target = Inr True"
  then obtain n t th where t: "normalize_target_url db target = Inr n" "parse_url db n False = Inr t"
    "canonical_hostname db (the (sp_hostname db t)) False = Inr th" "host_matches sh th"
    using assms(2,3) unfolding scope_matches_def by (auto split: sum.splits if_splits)
  have "\<not> ends_with [46] th" using target_host_no_trailing_stop [OF assms(1) t(1-3)] .
  moreover have "ends_with [46] th"
    using t(4) assms(4) unfolding host_matches_iff
    by (cases "drop 2 sh = []") (auto simp: ends_with_stop last_drop split: if_splits)
  ultimately show False by contradiction
qed

theorem trailing_stop_rule_never_matches_witness:
  "scope_matches identity_db (u ''http://a'' @ [0x3002] @ u ''/*'') (u ''http://a/x'') \<noteq> Inr True \<and>
   scope_matches identity_db (u ''http://a./*'') (u ''http://a/x'') = Inr True"
proof -
  have "ascii_labels identity_db" by (simp add: ascii_labels_def identity_db_def)
  moreover have "parse_url identity_db (u ''http://a'' @ [0x3002] @ u ''/*'') True =
      Inr (projr (parse_url identity_db (u ''http://a'' @ [0x3002] @ u ''/*'') True))"
    "canonical_hostname identity_db (the (sp_hostname identity_db
       (projr (parse_url identity_db (u ''http://a'' @ [0x3002] @ u ''/*'') True)))) True = Inr [97, 46]"
    by code_simp+
  moreover have "ends_with [46] [97, 46]" by (simp add: ends_with_def)
  ultimately have "scope_matches identity_db (u ''http://a'' @ [0x3002] @ u ''/*'') (u ''http://a/x'') \<noteq> Inr True"
    by (rule trailing_stop_rule_never_matches)
  moreover have "scope_matches identity_db (u ''http://a./*'') (u ''http://a/x'') = Inr True"
    by code_simp
  ultimately show ?thesis by blast
qed

end
