(* ===== verification/Policy_Engine.thy ===== *)
theory Policy_Engine
  imports Campaign_Models Scope_Matching
begin

text \<open>
  The deterministic policy engine in front of every tool execution,
  \<^verbatim>\<open>src/src/pajin/policy/engine.py\<close>. Each \<open>_..._decision\<close> method gives \<open>None\<close> to continue or a
  denial; an exception it lets through is an \<open>Inl\<close>, which \<open>evaluate_tool_request\<close> turns into a
  denial. The time zone database, the host's local zone and the Unicode tables are parameters.
\<close>

section \<open>Decisions\<close>

record policy_decision =
  allowed :: bool
  decision_reason :: string
  decision_policy :: string

definition deny :: "string \<Rightarrow> string \<Rightarrow> policy_decision" where
  "deny reason policy = \<lparr>allowed = False, decision_reason = reason, decision_policy = policy\<rparr>"

definition allow :: policy_decision where
  "allow = \<lparr>allowed = True, decision_reason = ''all policy checks passed'', decision_policy = ''allow''\<rparr>"

text \<open>What stands outside the repository: time zones, the local zone, Unicode tables, and the reading
  of \<open>datetime.now(UTC)\<close>.\<close>

record policy_env =
  env_zones :: zone_db
  env_local_zone :: "int \<Rightarrow> int"
  env_unicode :: unicode_db
  env_now :: instant

text \<open>The \<open>now\<close> argument: absent, a datetime, or some other object.\<close>

datatype now_argument = NowAbsent | NowDatetime py_datetime | NowOther

section \<open>The generator expressions\<close>

text \<open>\<open>any(f(x) for x in xs)\<close> where \<open>f\<close> may raise.\<close>

fun py_any :: "('a \<Rightarrow> bool result) \<Rightarrow> 'a list \<Rightarrow> bool result" where
  "py_any f [] = Inr False"
| "py_any f (x # xs) = (case f x of Inl e \<Rightarrow> Inl e | Inr True \<Rightarrow> Inr True | Inr False \<Rightarrow> py_any f xs)"

text \<open>\<open>', '.join(sorted(s))\<close>.\<close>

fun join_comma :: "string list \<Rightarrow> string" where
  "join_comma [] = []"
| "join_comma [x] = x"
| "join_comma (x # y # xs) = x @ '', '' @ join_comma (y # xs)"

section \<open>The checks\<close>

text \<open>\<open>_snapshot_inputs\<close>: an argument of a wrong type is \<open>None\<close>. The deep copies of validated
  models are the values themselves.\<close>

definition snapshot_inputs ::
  "campaign_manifest option \<Rightarrow> capability_grant option \<Rightarrow> tool_request option \<Rightarrow> tool_spec option \<Rightarrow>
   (campaign_manifest \<times> capability_grant \<times> tool_request \<times> tool_spec) option" where
  "snapshot_inputs c g r t =
     (case (c, g, r, t) of
        (Some c', Some g', Some r', Some t') \<Rightarrow> Some (c', g', r', t')
      | _ \<Rightarrow> None)"

text \<open>\<open>_aware_utc\<close> and \<open>_evaluation_time\<close>.\<close>

definition aware_utc :: "py_datetime \<Rightarrow> instant result" where
  "aware_utc d =
     (case utcoffset d of
        None \<Rightarrow> Inl (ValueError ''timestamp must include a UTC offset'')
      | Some off \<Rightarrow> (if in_datetime_range (wall d - off) then Inr (wall d - off) else Inl OverflowError))"

definition evaluation_time :: "policy_env \<Rightarrow> now_argument \<Rightarrow> instant option" where
  "evaluation_time env now =
     (case now of
        NowAbsent \<Rightarrow> (case aware_utc (utc_datetime (env_now env)) of Inl _ \<Rightarrow> None | Inr t \<Rightarrow> Some t)
      | NowDatetime d \<Rightarrow> (case aware_utc d of Inl _ \<Rightarrow> None | Inr t \<Rightarrow> Some t)
      | NowOther \<Rightarrow> None)"

definition authorization_caught :: "exn \<Rightarrow> bool" where
  "authorization_caught e = (e = OverflowError \<or> is_type_error e \<or> is_value_error e)"

text \<open>\<open>_authorization_decision\<close>.\<close>

definition authorization_decision ::
  "policy_env \<Rightarrow> campaign_manifest \<Rightarrow> instant \<Rightarrow> policy_decision option result" where
  "authorization_decision env c t =
     (let windows = testing_windows (spec_rules_of_engagement (campaign_spec c));
          evaluated =
            (case authorization_is_active (spec_authorization (campaign_spec c)) (Some (utc_datetime t)) (env_now env) of
               Inl e \<Rightarrow> Inl e
             | Inr active \<Rightarrow>
                 (if windows = [] then Inr (active, True)
                  else case py_any (\<lambda>w. window_is_active (env_zones env) (env_local_zone env) w
                                          (Some (utc_datetime t)) (env_now env)) windows of
                    Inl e \<Rightarrow> Inl e
                  | Inr window_active \<Rightarrow> Inr (active, window_active)))
      in case evaluated of
           Inl e \<Rightarrow>
             (if authorization_caught e
              then Inr (Some (deny ''authorization evaluation timestamp is invalid'' ''authorization''))
              else Inl e)
         | Inr (active, window_active) \<Rightarrow>
             (if \<not> active then Inr (Some (deny ''campaign authorization is not active'' ''authorization''))
              else if \<not> window_active
              then Inr (Some (deny ''request is outside the approved testing window'' ''testing-window''))
              else Inr None))"

text \<open>\<open>_grant_decision\<close>; the grant's stored timestamps are aware and in range, so \<open>_aware_utc\<close> of
  them is the instant itself.\<close>

definition grant_decision ::
  "campaign_manifest \<Rightarrow> capability_grant \<Rightarrow> tool_request \<Rightarrow> instant \<Rightarrow> policy_decision option" where
  "grant_decision c g r t =
     (if grant_campaign g \<noteq> metadata_name c \<or> grant_subject g \<noteq> request_agent_id r
      then Some (deny ''capability grant does not belong to this agent and campaign'' ''grant'')
      else if t < grant_issued_at g then Some (deny ''capability grant is not active yet'' ''grant'')
      else if grant_expires_at g \<le> t then Some (deny ''capability grant has expired'' ''grant'')
      else None)"

text \<open>\<open>_capability_decision\<close>; \<open>type(used_calls) is not int\<close> also refuses a boolean.\<close>

definition capability_decision ::
  "campaign_manifest \<Rightarrow> capability_grant \<Rightarrow> tool_request \<Rightarrow> py_num \<Rightarrow> policy_decision option" where
  "capability_decision c g r used =
     (if request_tool_id r \<notin> grant_tools g
      then Some (deny ''tool is not included in capability grant'' ''capability'')
      else if request_target r \<notin> grant_targets g
      then Some (deny ''target is not included in capability grant'' ''capability'')
      else case used of
        PyInt n \<Rightarrow>
          (if n < 0 then Some (deny ''tool-call usage is invalid'' ''budget'')
           else if min (grant_max_calls g) (max_tool_calls (spec_budgets (campaign_spec c))) \<le> n
           then Some (deny ''tool-call budget exhausted'' ''budget'')
           else None)
      | _ \<Rightarrow> Some (deny ''tool-call usage is invalid'' ''budget''))"

text \<open>\<open>_tool_contract_decision\<close>.\<close>

definition tool_contract_decision ::
  "campaign_manifest \<Rightarrow> capability_grant \<Rightarrow> tool_request \<Rightarrow> tool_spec \<Rightarrow> policy_decision option" where
  "tool_contract_decision c g r t =
     (let roe = spec_rules_of_engagement (campaign_spec c);
          categories = allowed_tool_categories roe
      in if tool_id t \<noteq> request_tool_id r
         then Some (deny ''tool specification does not match requested tool'' ''tool'')
         else if tool_risk_tier t > grant_max_risk_tier g
         then Some (deny ''tool risk exceeds capability grant'' ''risk'')
         else if tool_risk_tier t > roe_max_tool_risk_tier roe
         then Some (deny ''tool risk exceeds campaign rules of engagement'' ''risk'')
         else if request_method r \<notin> allowed_methods roe
         then Some (deny ''HTTP method is not allowed by rules of engagement'' ''method'')
         else if categories \<noteq> {} \<and> \<not> tool_categories t \<subseteq> categories
         then Some (deny (''tool categories are not allowlisted: '' @
                      join_comma (sorted_list_of_set (tool_categories t - categories)))
                    ''tool-category-allowlist'')
         else if tool_categories t \<inter> prohibit roe \<noteq> {}
         then Some (deny (''tool belongs to prohibited categories: '' @
                      join_comma (sorted_list_of_set (tool_categories t \<inter> prohibit roe)))
                    ''prohibited-action'')
         else None)"

text \<open>\<open>_scope_decision\<close>.\<close>

definition rule_matches :: "policy_env \<Rightarrow> tool_request \<Rightarrow> string \<Rightarrow> bool result" where
  "rule_matches env r rule = scope_matches (env_unicode env) (u rule) (u (request_target r))"

definition scope_decision ::
  "policy_env \<Rightarrow> campaign_manifest \<Rightarrow> tool_request \<Rightarrow> policy_decision option result" where
  "scope_decision env c r =
     (let rules = spec_scope (campaign_spec c);
          outcome =
            (case py_any (rule_matches env r) (scope_deny rules) of
               Inl e \<Rightarrow> Inl e
             | Inr True \<Rightarrow> Inr (Some (deny ''target matches an explicit deny rule'' ''scope-deny''))
             | Inr False \<Rightarrow>
                 (case py_any (rule_matches env r) (scope_allow rules) of
                    Inl e \<Rightarrow> Inl e
                  | Inr True \<Rightarrow> Inr None
                  | Inr False \<Rightarrow> Inr (Some (deny ''target is outside the allow scope'' ''scope-allow''))))
      in case outcome of
           Inl (InvalidScopeURL m) \<Rightarrow> Inr (Some (deny ''scope could not be evaluated safely'' ''scope-invalid''))
         | _ \<Rightarrow> outcome)"

text \<open>\<open>evaluate_tool_request\<close>.\<close>

definition first_decision :: "policy_decision option result \<Rightarrow> policy_decision option result \<Rightarrow> policy_decision option result" where
  "first_decision a b = (case a of Inr None \<Rightarrow> b | _ \<Rightarrow> a)"

definition policy_checks ::
  "policy_env \<Rightarrow> campaign_manifest \<Rightarrow> capability_grant \<Rightarrow> tool_request \<Rightarrow> tool_spec \<Rightarrow> py_num \<Rightarrow> instant \<Rightarrow>
   policy_decision option result" where
  "policy_checks env c g r t used at_time =
     first_decision (authorization_decision env c at_time)
      (first_decision (Inr (grant_decision c g r at_time))
        (first_decision (Inr (capability_decision c g r used))
          (first_decision (Inr (tool_contract_decision c g r t))
            (scope_decision env c r))))"

definition evaluate_tool_request ::
  "policy_env \<Rightarrow> campaign_manifest option \<Rightarrow> capability_grant option \<Rightarrow> tool_request option \<Rightarrow>
   tool_spec option \<Rightarrow> py_num \<Rightarrow> now_argument \<Rightarrow> policy_decision" where
  "evaluate_tool_request env c g r t used now =
     (case snapshot_inputs c g r t of
        None \<Rightarrow> deny ''policy inputs could not be validated safely'' ''policy-input''
      | Some (c', g', r', t') \<Rightarrow>
        (case evaluation_time env now of
           None \<Rightarrow> deny ''authorization evaluation timestamp is invalid'' ''authorization''
         | Some at_time \<Rightarrow>
           (case policy_checks env c' g' r' t' used at_time of
              Inl _ \<Rightarrow> deny ''policy inputs could not be evaluated safely'' ''policy-input''
            | Inr (Some decision) \<Rightarrow> decision
            | Inr None \<Rightarrow> allow)))"

section \<open>What a permitted request satisfies\<close>

definition windows_open :: "policy_env \<Rightarrow> campaign_manifest \<Rightarrow> instant \<Rightarrow> bool" where
  "windows_open env c t =
     (let windows = testing_windows (spec_rules_of_engagement (campaign_spec c)) in
      windows = [] \<or>
      py_any (\<lambda>w. window_is_active (env_zones env) (env_local_zone env) w (Some (utc_datetime t)) (env_now env))
        windows = Inr True)"

definition request_within_policy ::
  "policy_env \<Rightarrow> campaign_manifest \<Rightarrow> capability_grant \<Rightarrow> tool_request \<Rightarrow> tool_spec \<Rightarrow> int \<Rightarrow> instant \<Rightarrow> bool" where
  "request_within_policy env c g r t n at_time =
     (let roe = spec_rules_of_engagement (campaign_spec c); a = spec_authorization (campaign_spec c) in
      approved_at a \<le> at_time \<and> at_time < auth_expires_at a \<and> windows_open env c at_time \<and>
      grant_campaign g = metadata_name c \<and> grant_subject g = request_agent_id r \<and>
      grant_issued_at g \<le> at_time \<and> at_time < grant_expires_at g \<and>
      request_tool_id r \<in> grant_tools g \<and> request_target r \<in> grant_targets g \<and>
      0 \<le> n \<and> n < grant_max_calls g \<and> n < max_tool_calls (spec_budgets (campaign_spec c)) \<and>
      tool_id t = request_tool_id r \<and>
      tool_risk_tier t \<le> grant_max_risk_tier g \<and> tool_risk_tier t \<le> roe_max_tool_risk_tier roe \<and>
      request_method r \<in> allowed_methods roe \<and>
      (allowed_tool_categories roe = {} \<or> tool_categories t \<subseteq> allowed_tool_categories roe) \<and>
      tool_categories t \<inter> prohibit roe = {} \<and>
      (\<forall>rule \<in> set (scope_deny (spec_scope (campaign_spec c))). rule_matches env r rule = Inr False) \<and>
      py_any (rule_matches env r) (scope_allow (spec_scope (campaign_spec c))) = Inr True)"

section \<open>Sample inputs\<close>

definition sample_env :: policy_env where
  "sample_env = \<lparr>env_zones = (\<lambda>_. None), env_local_zone = (\<lambda>_. 0), env_unicode = identity_db, env_now = seconds 5\<rparr>"

definition sample_request :: "string \<Rightarrow> tool_request" where
  "sample_request url = \<lparr>request_id = ''tool_1'', request_agent_id = ''agent'', request_tool_id = ''http.get'',
     request_target = url, request_method = ''GET'', request_arguments = JObj []\<rparr>"

definition sample_tool :: tool_spec where
  "sample_tool = \<lparr>tool_id = ''http.get'', tool_version = ''1'', tool_description = ''d'', tool_risk_tier = T1,
     tool_categories = {''web''}, tool_evidence_types = {}, tool_network_access = True,
     tool_network_request_cost = 1, tool_parallel_safe = False\<rparr>"

definition sample_grant :: capability_grant where
  "sample_grant = \<lparr>grant_id = ''g'', parent_grant_id = None, grant_subject = ''agent'', grant_campaign = ''demo'',
     grant_tools = {''http.get''}, grant_targets = {''http://a.test/x'', ''http://a.test/%61dmin''},
     grant_max_risk_tier = T2, grant_max_calls = 5, grant_expires_at = seconds 900, grant_delegable = False,
     grant_issued_at = 0, grant_depth = 0\<rparr>"

section \<open>Lemmas\<close>

lemma py_any_False: "py_any f xs = Inr False \<longleftrightarrow> (\<forall>x \<in> set xs. f x = Inr False)"
  by (induction xs) (auto split: sum.splits bool.splits)

lemma py_any_TrueD: "py_any f xs = Inr True \<Longrightarrow> \<exists>x \<in> set xs. f x = Inr True"
  by (induction xs) (auto split: sum.splits bool.splits)

lemma deny_simps [simp]: "allowed (deny r p) = False" "deny r p \<noteq> allow" "allowed allow"
  by (simp_all add: deny_def allow_def)

lemma first_decision_None:
  "first_decision a b = Inr None \<longleftrightarrow> a = Inr None \<and> b = Inr None"
  by (auto simp: first_decision_def split: sum.splits option.splits)

lemma first_decision_Some:
  "first_decision a b = Inr (Some d) \<Longrightarrow> a = Inr (Some d) \<or> b = Inr (Some d)"
  by (auto simp: first_decision_def split: sum.splits option.splits)

lemma authorization_decision_None:
  assumes "in_datetime_range t"
  shows "authorization_decision env c t = Inr None \<longleftrightarrow>
    approved_at (spec_authorization (campaign_spec c)) \<le> t \<and>
    t < auth_expires_at (spec_authorization (campaign_spec c)) \<and> windows_open env c t"
  using assms
  by (auto simp: authorization_decision_def windows_open_def authorization_is_active_def Let_def
      split: sum.splits if_splits)

lemma grant_decision_None:
  "grant_decision c g r t = None \<longleftrightarrow> grant_campaign g = metadata_name c \<and>
     grant_subject g = request_agent_id r \<and> grant_issued_at g \<le> t \<and> t < grant_expires_at g"
  by (auto simp: grant_decision_def)

lemma capability_decision_None:
  "capability_decision c g r used = None \<longleftrightarrow> request_tool_id r \<in> grant_tools g \<and>
     request_target r \<in> grant_targets g \<and>
     (\<exists>n. used = PyInt n \<and> 0 \<le> n \<and> n < grant_max_calls g \<and> n < max_tool_calls (spec_budgets (campaign_spec c)))"
  by (auto simp: capability_decision_def split: py_num.splits)

lemma tool_contract_decision_None:
  "tool_contract_decision c g r t = None \<longleftrightarrow>
     (let roe = spec_rules_of_engagement (campaign_spec c) in
      tool_id t = request_tool_id r \<and>
      tool_risk_tier t \<le> grant_max_risk_tier g \<and> tool_risk_tier t \<le> roe_max_tool_risk_tier roe \<and>
      request_method r \<in> allowed_methods roe \<and>
      (allowed_tool_categories roe = {} \<or> tool_categories t \<subseteq> allowed_tool_categories roe) \<and>
      tool_categories t \<inter> prohibit roe = {})"
  by (auto simp: tool_contract_decision_def Let_def not_less split: if_splits)

lemma scope_decision_None:
  "scope_decision env c r = Inr None \<longleftrightarrow>
     (\<forall>rule \<in> set (scope_deny (spec_scope (campaign_spec c))). rule_matches env r rule = Inr False) \<and>
     py_any (rule_matches env r) (scope_allow (spec_scope (campaign_spec c))) = Inr True"
  unfolding py_any_False [symmetric]
  by (auto simp: scope_decision_def Let_def split: sum.splits bool.splits exn.splits)

text \<open>Every decision a check makes is a denial.\<close>

lemma authorization_decision_denies: "authorization_decision env c t = Inr (Some d) \<Longrightarrow> \<not> allowed d"
  by (auto simp: authorization_decision_def Let_def split: sum.splits if_splits)

lemma grant_decision_denies: "grant_decision c g r t = Some d \<Longrightarrow> \<not> allowed d"
  by (auto simp: grant_decision_def split: if_splits)

lemma capability_decision_denies: "capability_decision c g r used = Some d \<Longrightarrow> \<not> allowed d"
  by (auto simp: capability_decision_def split: if_splits py_num.splits)

lemma tool_contract_decision_denies: "tool_contract_decision c g r t = Some d \<Longrightarrow> \<not> allowed d"
  by (auto simp: tool_contract_decision_def Let_def split: if_splits)

lemma scope_decision_denies: "scope_decision env c r = Inr (Some d) \<Longrightarrow> \<not> allowed d"
  by (auto simp: scope_decision_def Let_def split: sum.splits bool.splits exn.splits)

lemma policy_checks_denies: "policy_checks env c g r t used at_time = Inr (Some d) \<Longrightarrow> \<not> allowed d"
  unfolding policy_checks_def
  by (auto dest!: first_decision_Some dest: authorization_decision_denies grant_decision_denies
      capability_decision_denies tool_contract_decision_denies scope_decision_denies)

lemma policy_checks_None:
  assumes "in_datetime_range at_time"
  shows "policy_checks env c g r t used at_time = Inr None \<longleftrightarrow>
    (\<exists>n. used = PyInt n \<and> request_within_policy env c g r t n at_time)"
  unfolding policy_checks_def first_decision_None authorization_decision_None [OF assms] sum.inject
    grant_decision_None capability_decision_None tool_contract_decision_None scope_decision_None
    request_within_policy_def Let_def
  by blast

lemma evaluation_time_range: "evaluation_time env now = Some t \<Longrightarrow> in_datetime_range t"
  by (auto simp: evaluation_time_def aware_utc_def split: now_argument.splits sum.splits option.splits if_splits)

section \<open>Properties\<close>

text \<open>C21. The engine permits a request exactly when every rule of the campaign and of the grant holds:
  the authorization and a testing window are open at the evaluation time, the grant belongs to the
  agent and the campaign and is live, it names the tool and the target, calls are left in the grant
  and in the campaign, the tool is the requested one and within both risk ceilings, the method and
  categories are permitted, every deny rule was evaluated and does not match, and an allow rule
  matches. Every other outcome, including any exception inside a check, is a denial.\<close>

theorem permitted_iff_within_policy:
  "allowed (evaluate_tool_request env c g r t used now) \<longleftrightarrow>
     (\<exists>c' g' r' t' n at_time. c = Some c' \<and> g = Some g' \<and> r = Some r' \<and> t = Some t' \<and>
        used = PyInt n \<and> evaluation_time env now = Some at_time \<and>
        request_within_policy env c' g' r' t' n at_time)"
proof (cases "\<exists>c' g' r' t' at_time. c = Some c' \<and> g = Some g' \<and> r = Some r' \<and> t = Some t' \<and>
    evaluation_time env now = Some at_time")
  case False
  then show ?thesis
    by (auto simp: evaluate_tool_request_def snapshot_inputs_def split: option.splits)
next
  case True
  then obtain c' g' r' t' at_time where eqs: "c = Some c'" "g = Some g'" "r = Some r'" "t = Some t'"
    "evaluation_time env now = Some at_time" by blast
  have "allowed (evaluate_tool_request env c g r t used now) \<longleftrightarrow>
      policy_checks env c' g' r' t' used at_time = Inr None"
    using policy_checks_denies [of env c' g' r' t' used at_time]
    by (auto simp: evaluate_tool_request_def snapshot_inputs_def eqs split: sum.splits option.splits)
  then show ?thesis
    using policy_checks_None [OF evaluation_time_range [OF eqs(5)]] eqs by simp
qed

text \<open>The conditions can hold: a request of the sample campaign that the engine permits, and the same
  request on a denied path.\<close>

lemma sample_decisions:
  "evaluate_tool_request sample_env (Some sample_campaign) (Some sample_grant)
     (Some (sample_request ''http://a.test/x'')) (Some sample_tool) (PyInt 0) NowAbsent = allow"
  "decision_policy (evaluate_tool_request sample_env (Some sample_campaign) (Some sample_grant)
     (Some (sample_request ''http://a.test/%61dmin'')) (Some sample_tool) (PyInt 0) NowAbsent) = ''scope-deny''"
  by code_simp+

end
