(* ===== verification/Float64.thy ===== *)
theory Float64
  imports Pajin_Prelude
begin

text \<open>
  Python's \<open>float\<close> where the sources compute with it: a finite double is the rational it denotes, and
  an arithmetic result is rounded to the nearest double, ties to even. Results that the sources keep
  are far below the overflow threshold; a larger exact sum, which Python makes an infinity, stays an
  unbounded rational here and is refused by the same comparison.
\<close>

section \<open>Rounding\<close>

definition pow2 :: "int \<Rightarrow> rat" where
  "pow2 k = (if 0 \<le> k then 2 ^ nat k else 1 / 2 ^ nat (- k))"

text \<open>The number of binary digits of a natural number.\<close>

fun nbits :: "nat \<Rightarrow> nat" where
  "nbits n = (if n = 0 then 0 else 1 + nbits (n div 2))"

declare nbits.simps [simp del]

text \<open>The exponent of the leading binary digit of a positive rational.\<close>

definition ilog2 :: "rat \<Rightarrow> int" where
  "ilog2 x =
     (let (a, b) = quotient_of x;
          k = int (nbits (nat a)) - int (nbits (nat b))
      in if x < pow2 k then k - 1 else k)"

definition round_even :: "rat \<Rightarrow> int" where
  "round_even x =
     (let n = \<lfloor>x\<rfloor>; d = x - of_int n in
      if d < 1 / 2 then n else if 1 / 2 < d then n + 1 else if even n then n else n + 1)"

text \<open>The exponent of the last binary digit a double near \<open>x\<close> has: 53 digits, and none below the
  smallest subnormal.\<close>

definition ulp_exp :: "rat \<Rightarrow> int" where
  "ulp_exp x = max (ilog2 x - 52) (- 1074)"

definition fl_pos :: "rat \<Rightarrow> rat" where
  "fl_pos x = of_int (round_even (x / pow2 (ulp_exp x))) * pow2 (ulp_exp x)"

definition fl :: "rat \<Rightarrow> rat" where
  "fl x = (if x = 0 then 0 else if 0 < x then fl_pos x else - fl_pos (- x))"

text \<open>The rationals a double denotes, without an upper bound on the exponent.\<close>

definition representable :: "rat \<Rightarrow> bool" where
  "representable v = (\<exists>m e. v = of_int m * pow2 e \<and> \<bar>m\<bar> \<le> 2 ^ 53 \<and> - 1074 \<le> e)"

section \<open>What the clients rely on\<close>

text \<open>The contract of a rounding: monotone, exact on the representable values, and always
  representable.\<close>

locale rounding =
  fixes rnd :: "rat \<Rightarrow> rat" and rep :: "rat \<Rightarrow> bool"
  assumes rnd_mono: "x \<le> y \<Longrightarrow> rnd x \<le> rnd y"
    and rnd_exact: "rep x \<Longrightarrow> rnd x = x"
    and rnd_rep: "rep (rnd x)"
    and rep_zero: "rep 0"
begin

lemma rnd_zero [simp]: "rnd 0 = 0"
  by (rule rnd_exact [OF rep_zero])

lemma rnd_nonneg: "0 \<le> x \<Longrightarrow> 0 \<le> rnd x"
  using rnd_mono [of 0 x] by simp

lemma rnd_idem [simp]: "rnd (rnd x) = rnd x"
  by (rule rnd_exact [OF rnd_rep])

lemma rnd_sub_le: "rep c \<Longrightarrow> 0 \<le> x \<Longrightarrow> rnd (c - x) \<le> c"
  using rnd_mono [of "c - x" c] by (simp add: rnd_exact)

lemma rnd_add_ge: "rep c \<Longrightarrow> 0 \<le> x \<Longrightarrow> c \<le> rnd (c + x)"
  using rnd_mono [of c "c + x"] by (simp add: rnd_exact)

end

section \<open>Powers of two\<close>

lemma pow2_powi: "pow2 k = 2 powi k"
  by (simp add: pow2_def power_int_def inverse_eq_divide power_divide)

lemma pow2_pos [simp]: "0 < pow2 k"
  by (simp add: pow2_powi zero_less_power_int)

lemma pow2_add: "pow2 (a + b) = pow2 a * pow2 b"
  by (simp add: pow2_powi power_int_add)

lemma pow2_diff: "pow2 (a - b) = pow2 a / pow2 b"
  by (simp add: pow2_powi power_int_diff)

lemma pow2_nat: "pow2 (int n) = 2 ^ n"
  by (simp add: pow2_def)

lemma pow2_mono: "a < b \<Longrightarrow> pow2 a < pow2 b"
  by (simp add: pow2_powi power_int_strict_increasing)

lemma pow2_less_iff [simp]: "pow2 a < pow2 b \<longleftrightarrow> a < b"
  by (metis pow2_mono linorder_neqE not_less_iff_gr_or_eq)

lemma pow2_le_iff [simp]: "pow2 a \<le> pow2 b \<longleftrightarrow> a \<le> b"
  by (simp add: linorder_not_less [symmetric])

lemma pow2_int: "0 \<le> k \<Longrightarrow> pow2 k = of_int (2 ^ nat k)"
  by (simp add: pow2_def)

lemma nbits_bounds: "0 < n \<Longrightarrow> 0 < nbits n \<and> 2 ^ (nbits n - 1) \<le> n \<and> n < 2 ^ nbits n"
proof (induction n rule: nbits.induct)
  case (1 n)
  show ?case
  proof (cases "n div 2 = 0")
    case True
    then show ?thesis using 1 by (subst (1 2 3) nbits.simps) (auto simp: nbits.simps [of 0])
  next
    case False
    then have IH: "2 ^ (nbits (n div 2) - 1) \<le> n div 2" "n div 2 < 2 ^ nbits (n div 2)" "0 < nbits (n div 2)"
      using 1 by auto
    have "2 * 2 ^ (nbits (n div 2) - 1) = (2::nat) ^ nbits (n div 2)"
      using IH(3) by (metis One_nat_def Suc_pred power_Suc)
    then have "2 ^ nbits (n div 2) \<le> n" "n < 2 * 2 ^ nbits (n div 2)"
      using IH(1,2) by linarith+
    then show ?thesis using 1 by (simp add: nbits.simps [of n])
  qed
qed

lemma nbits_rat:
  assumes "0 < a"
  shows "pow2 (int (nbits (nat a)) - 1) \<le> of_int a" "of_int a < pow2 (int (nbits (nat a)))"
proof -
  have n: "0 < nbits (nat a)" "2 ^ (nbits (nat a) - 1) \<le> nat a" "nat a < 2 ^ nbits (nat a)"
    using nbits_bounds [of "nat a"] assms by auto
  have "(of_nat (2 ^ (nbits (nat a) - 1)) :: rat) \<le> of_nat (nat a)" "(of_nat (nat a) :: rat) < of_nat (2 ^ nbits (nat a))"
    using n(2,3) by (simp_all only: of_nat_le_iff of_nat_less_iff)
  moreover have "(of_nat (nat a) :: rat) = of_int a" using assms by simp
  moreover have "pow2 (int (nbits (nat a)) - 1) = 2 ^ (nbits (nat a) - 1)"
    using n(1) pow2_nat [of "nbits (nat a) - 1"] by (simp add: of_nat_diff)
  ultimately show "pow2 (int (nbits (nat a)) - 1) \<le> of_int a" "of_int a < pow2 (int (nbits (nat a)))"
    by (simp_all only: pow2_nat of_nat_power of_nat_numeral)
qed

lemma ilog2_bounds:
  assumes "0 < x"
  shows "pow2 (ilog2 x) \<le> x" "x < pow2 (ilog2 x + 1)"
proof -
  obtain a b where q: "quotient_of x = (a, b)" by fastforce
  have b: "0 < b" using quotient_of_denom_pos [OF q] .
  have x: "x = of_int a / of_int b" using quotient_of_div [OF q] .
  have a: "0 < a" using assms b unfolding x by (simp add: zero_less_divide_iff)
  define k where "k = int (nbits (nat a)) - int (nbits (nat b))"
  have "x < pow2 (int (nbits (nat a))) / pow2 (int (nbits (nat b)) - 1)"
    unfolding x using nbits_rat [OF a] nbits_rat [OF b] a b
    by (intro frac_less) auto
  then have hi: "x < pow2 (k + 1)"
    by (simp add: pow2_diff [symmetric] k_def algebra_simps)
  have "pow2 (int (nbits (nat a)) - 1) / pow2 (int (nbits (nat b))) \<le> x"
    unfolding x using nbits_rat [OF a] nbits_rat [OF b] a b
    by (intro frac_le) auto
  then have lo: "pow2 (k - 1) \<le> x"
    by (simp add: pow2_diff [symmetric] k_def algebra_simps)
  have "ilog2 x = (if x < pow2 k then k - 1 else k)"
    by (simp add: ilog2_def q k_def)
  then show "pow2 (ilog2 x) \<le> x" "x < pow2 (ilog2 x + 1)"
    using lo hi by auto
qed

lemma ilog2_mono: "0 < x \<Longrightarrow> x \<le> y \<Longrightarrow> ilog2 x \<le> ilog2 y"
  using ilog2_bounds [of x] ilog2_bounds [of y] pow2_less_iff [of "ilog2 x" "ilog2 y + 1"] by linarith

lemma ilog2_less: "0 < x \<Longrightarrow> x < pow2 k \<Longrightarrow> ilog2 x < k"
  using ilog2_bounds(1) [of x] pow2_less_iff [of "ilog2 x" k] by linarith

section \<open>Rounding to an integer\<close>

lemma round_even_int [simp]: "round_even (of_int n) = n"
  by (simp add: round_even_def)

lemma round_even_mono:
  assumes "x \<le> y"
  shows "round_even x \<le> round_even y"
proof (cases "\<lfloor>x\<rfloor> = \<lfloor>y\<rfloor>")
  case True
  then show ?thesis using assms by (auto simp: round_even_def Let_def)
next
  case False
  then have "\<lfloor>x\<rfloor> + 1 \<le> \<lfloor>y\<rfloor>" using floor_mono [OF assms] by linarith
  moreover have "round_even x \<le> \<lfloor>x\<rfloor> + 1" "\<lfloor>y\<rfloor> \<le> round_even y"
    by (auto simp: round_even_def Let_def)
  ultimately show ?thesis by linarith
qed

section \<open>Rounding to a double\<close>

lemma ulp_exp_mono: "0 < x \<Longrightarrow> x \<le> y \<Longrightarrow> ulp_exp x \<le> ulp_exp y"
  using ilog2_mono [of x y] by (simp add: ulp_exp_def)

lemma round_even_le_int: "x \<le> of_int n \<Longrightarrow> round_even x \<le> n"
  using round_even_mono [of x "of_int n"] by simp

lemma round_even_ge_int: "of_int n \<le> x \<Longrightarrow> n \<le> round_even x"
  using round_even_mono [of "of_int n" x] by simp

lemma fl_pos_nonneg: "0 < x \<Longrightarrow> 0 \<le> fl_pos x"
  using round_even_ge_int [of 0 "x / pow2 (ulp_exp x)"] by (simp add: fl_pos_def less_imp_le)

text \<open>A power of two that is a multiple of the last digit bounds the rounded value.\<close>

lemma fl_pos_le_pow2:
  assumes "x \<le> pow2 k" and "ulp_exp x \<le> k"
  shows "fl_pos x \<le> pow2 k"
proof -
  have "x / pow2 (ulp_exp x) \<le> pow2 (k - ulp_exp x)"
    using assms(1) by (simp add: pow2_diff divide_right_mono less_imp_le)
  then have "round_even (x / pow2 (ulp_exp x)) \<le> 2 ^ nat (k - ulp_exp x)"
    using assms(2) by (intro round_even_le_int) (simp add: pow2_int)
  then have "(of_int (round_even (x / pow2 (ulp_exp x))) :: rat) \<le> of_int (2 ^ nat (k - ulp_exp x))"
    by (simp only: of_int_le_iff)
  also have "\<dots> = pow2 k / pow2 (ulp_exp x)"
    using assms(2) pow2_int [of "k - ulp_exp x"] by (simp add: pow2_diff)
  finally show ?thesis by (simp add: fl_pos_def pos_le_divide_eq)
qed

lemma fl_pos_ge_pow2:
  assumes "pow2 k \<le> x" and "ulp_exp x \<le> k"
  shows "pow2 k \<le> fl_pos x"
proof -
  have "pow2 (k - ulp_exp x) \<le> x / pow2 (ulp_exp x)"
    using assms(1) by (simp add: pow2_diff divide_right_mono less_imp_le)
  then have "2 ^ nat (k - ulp_exp x) \<le> round_even (x / pow2 (ulp_exp x))"
    using assms(2) by (intro round_even_ge_int) (simp add: pow2_int)
  then have "(of_int (2 ^ nat (k - ulp_exp x)) :: rat) \<le> of_int (round_even (x / pow2 (ulp_exp x)))"
    by (simp only: of_int_le_iff)
  moreover have "(of_int (2 ^ nat (k - ulp_exp x)) :: rat) = pow2 k / pow2 (ulp_exp x)"
    using assms(2) pow2_int [of "k - ulp_exp x"] by (simp add: pow2_diff)
  ultimately have "pow2 k / pow2 (ulp_exp x) \<le> of_int (round_even (x / pow2 (ulp_exp x)))"
    by (simp only:)
  then show ?thesis by (simp add: fl_pos_def pos_divide_le_eq)
qed

lemma fl_pos_mono:
  assumes "0 < x" and "x \<le> y"
  shows "fl_pos x \<le> fl_pos y"
proof (cases "ulp_exp x = ulp_exp y")
  case True
  have "round_even (x / pow2 (ulp_exp y)) \<le> round_even (y / pow2 (ulp_exp y))"
    using assms(2) by (intro round_even_mono divide_right_mono) (simp_all add: less_imp_le)
  then show ?thesis by (simp add: fl_pos_def True mult_right_mono less_imp_le)
next
  case False
  then have less: "ulp_exp x < ulp_exp y" using ulp_exp_mono [OF assms] by simp
  then have y: "ulp_exp y = ilog2 y - 52" "ilog2 x < ilog2 y" by (auto simp: ulp_exp_def)
  have "x \<le> pow2 (ilog2 y)"
    using ilog2_bounds(2) [OF assms(1)] pow2_le_iff [of "ilog2 x + 1" "ilog2 y"] y(2) by linarith
  then have "fl_pos x \<le> pow2 (ilog2 y)"
    by (rule fl_pos_le_pow2) (use less y in linarith)
  also have "\<dots> \<le> fl_pos y"
    using ilog2_bounds(1) [of y] assms y by (intro fl_pos_ge_pow2) auto
  finally show ?thesis .
qed

lemma fl_minus: "fl (- x) = - fl x"
  by (simp add: fl_def)

lemma fl_mono:
  assumes "x \<le> y"
  shows "fl x \<le> fl y"
proof -
  consider "0 < x" | "x \<le> 0" "0 \<le> y" | "y < 0" using assms by linarith
  then show ?thesis
  proof cases
    case 1
    then show ?thesis using assms fl_pos_mono [OF 1 assms] by (simp add: fl_def)
  next
    case 2
    then show ?thesis using fl_pos_nonneg [of y] fl_pos_nonneg [of "- x"] by (auto simp: fl_def)
  next
    case 3
    then show ?thesis using assms fl_pos_mono [of "- y" "- x"] by (simp add: fl_def)
  qed
qed

section \<open>Representable values\<close>

lemma representable_minus: "representable v \<Longrightarrow> representable (- v)"
proof -
  assume "representable v"
  then obtain m e where "v = of_int m * pow2 e" "\<bar>m\<bar> \<le> 2 ^ 53" "- 1074 \<le> e"
    unfolding representable_def by blast
  then show ?thesis unfolding representable_def by (intro exI [of _ "- m"] exI [of _ e]) simp
qed

text \<open>The exponent can be chosen so that the digits are below the bound.\<close>

lemma representable_pos:
  assumes "representable v" and "0 < v"
  obtains m e where "v = of_int m * pow2 e" "0 < m" "m < 2 ^ 53" "- 1074 \<le> e"
proof -
  obtain m e where me: "v = of_int m * pow2 e" "\<bar>m\<bar> \<le> 2 ^ 53" "- 1074 \<le> e"
    using assms(1) unfolding representable_def by blast
  have "0 < m" using assms(2) me(1) pow2_pos [of e] by (simp add: zero_less_mult_iff)
  show ?thesis
  proof (cases "m = 2 ^ 53")
    case True
    have "v = of_int (2 ^ 52) * pow2 (e + 1)"
      using me(1) True by (simp add: pow2_add pow2_def [of 1])
    then show ?thesis using that me(3) by fastforce
  next
    case False
    then show ?thesis using that [of m e] me \<open>0 < m\<close> by simp
  qed
qed

lemma fl_pos_exact:
  assumes "representable v" and "0 < v"
  shows "fl_pos v = v"
proof -
  obtain m e where me: "v = of_int m * pow2 e" "0 < m" "m < 2 ^ 53" "- 1074 \<le> e"
    using representable_pos [OF assms] .
  have "(of_int m :: rat) < of_int (2 ^ 53)" using me(3) by (simp only: of_int_less_iff)
  then have "v < pow2 53 * pow2 e"
    unfolding me(1) by (intro mult_strict_right_mono) (simp_all add: pow2_def)
  then have "ilog2 v < e + 53"
    using assms(2) by (intro ilog2_less) (simp_all add: pow2_add mult.commute)
  then have le: "ulp_exp v \<le> e" using me(4) by (simp add: ulp_exp_def)
  have "pow2 e / pow2 (ulp_exp v) = of_int (2 ^ nat (e - ulp_exp v))"
    using pow2_int [of "e - ulp_exp v"] le by (simp only: pow2_diff [symmetric])
  then have "v / pow2 (ulp_exp v) = of_int (m * 2 ^ nat (e - ulp_exp v))"
    by (metis me(1) of_int_mult times_divide_eq_right)
  then show ?thesis
    unfolding fl_pos_def by (simp only: round_even_int) (metis divide_eq_eq less_irrefl pow2_pos)
qed

lemma fl_exact: "representable v \<Longrightarrow> fl v = v"
  using fl_pos_exact [of v] fl_pos_exact [of "- v"] representable_minus [of v]
  by (auto simp: fl_def)

lemma representable_zero: "representable 0"
  unfolding representable_def by (intro exI [of _ 0]) simp

lemma representable_fl_pos:
  assumes "0 < x"
  shows "representable (fl_pos x)"
proof -
  have "x < pow2 (ilog2 x + 1)" using ilog2_bounds(2) [OF assms] .
  also have "\<dots> \<le> pow2 (ulp_exp x + 53)" by (simp add: ulp_exp_def)
  finally have "fl_pos x \<le> pow2 (ulp_exp x + 53)"
    by (intro fl_pos_le_pow2) auto
  then have "(of_int (round_even (x / pow2 (ulp_exp x))) :: rat) \<le> of_int (2 ^ 53)"
    by (simp add: fl_pos_def pow2_add mult.commute pow2_def [of 53])
  then have "round_even (x / pow2 (ulp_exp x)) \<le> 2 ^ 53" by (simp only: of_int_le_iff)
  moreover have "0 \<le> round_even (x / pow2 (ulp_exp x))"
    using assms by (intro round_even_ge_int) (simp add: less_imp_le)
  ultimately show ?thesis
    unfolding representable_def fl_pos_def
    by (intro exI [of _ "round_even (x / pow2 (ulp_exp x))"] exI [of _ "ulp_exp x"]) (simp add: ulp_exp_def)
qed

lemma representable_fl: "representable (fl x)"
  using representable_fl_pos [of x] representable_fl_pos [of "- x"] representable_zero
    representable_minus [of "fl_pos (- x)"] by (auto simp: fl_def)

interpretation double: rounding fl representable
  by unfold_locales (auto intro: fl_mono fl_exact representable_fl representable_zero)

lemma representable_int: "\<bar>n\<bar> \<le> 2 ^ 53 \<Longrightarrow> representable (of_int n)"
  unfolding representable_def by (intro exI [of _ n] exI [of _ 0]) (simp add: pow2_def)

end
