(* ===== verification/Budget_Control.thy ===== *)
theory Budget_Control
  imports Campaign_Models Float64
begin

text \<open>
  \<open>BudgetController\<close> and \<open>DualModelUsageBudget\<close> of \<^verbatim>\<open>src/src/pajin/runtime/control.py\<close>, for
  controllers that are not bound to a durable journal (\<open>_persistence\<close> is \<open>None\<close>): then
  \<open>budget_change\<close> only tests the \<open>_accounting_failed\<close> fence. Costs and durations are Python numbers,
  integers or doubles, with the rounding of their arithmetic written out. A method gives its result
  and the controller it leaves, since one method raises after a change.

  The readings of \<open>monotonic()\<close> and the identifiers and identities of new objects are arguments.
\<close>

section \<open>Python numbers\<close>

datatype py_real = CInt int | CFloat rat

fun real_val :: "py_real \<Rightarrow> rat" where
  "real_val (CInt n) = of_int n"
| "real_val (CFloat q) = q"

text \<open>\<open>float(x)\<close>.\<close>

fun as_double :: "py_real \<Rightarrow> rat" where
  "as_double (CInt n) = fl (of_int n)"
| "as_double (CFloat q) = q"

definition num_add :: "py_real \<Rightarrow> py_real \<Rightarrow> py_real" where
  "num_add a b = (case (a, b) of (CInt m, CInt n) \<Rightarrow> CInt (m + n) | _ \<Rightarrow> CFloat (fl (as_double a + as_double b)))"

definition num_sub :: "py_real \<Rightarrow> py_real \<Rightarrow> py_real" where
  "num_sub a b = (case (a, b) of (CInt m, CInt n) \<Rightarrow> CInt (m - n) | _ \<Rightarrow> CFloat (fl (as_double a - as_double b)))"

text \<open>\<open>max(0.0, x)\<close>.\<close>

definition max_zero :: "py_real \<Rightarrow> py_real" where
  "max_zero x = (if 0 < real_val x then x else CFloat 0)"

text \<open>An integer beyond this bound overflows when it is converted to a double.\<close>

definition float_overflow :: "int \<Rightarrow> bool" where
  "float_overflow n = (2 ^ 1024 - 2 ^ 970 \<le> \<bar>n\<bar>)"

text \<open>The \<open>type(...) in {int, float}\<close>, \<open>isfinite\<close> and sign tests of a cost, with the message for a
  wrong type; \<open>isfinite\<close> of a huge integer raises.\<close>

definition finite_number :: "string \<Rightarrow> py_num \<Rightarrow> py_real result" where
  "finite_number type_message x =
     (case x of
        PyInt n \<Rightarrow>
          (if float_overflow n then Inl OverflowError
           else if n < 0 then Inl (ValueError ''cost must be finite and non-negative'')
           else Inr (CInt n))
      | PyFloat q \<Rightarrow>
          (if q < 0 then Inl (ValueError ''cost must be finite and non-negative'') else Inr (CFloat q))
      | PyNonFinite \<Rightarrow> Inl (ValueError ''cost must be finite and non-negative'')
      | _ \<Rightarrow> Inl (ValueError type_message))"

section \<open>State\<close>

text \<open>Reservation objects; the first field is the object's identity.\<close>

record model_reservation =
  mr_ref :: nat
  mr_id :: string
  mr_prompt_tokens :: int
  mr_completion_tokens :: int
  mr_cost_usd :: py_real
  mr_tool_calls :: int
  mr_model_calls :: int

record tool_reservation =
  tr_ref :: nat
  tr_id :: string

record budget_controller =
  bc_budgets :: budgets
  bc_started :: rat
  agent_count :: int
  tool_calls :: int
  model_calls :: int
  model_prompt_tokens :: int
  model_completion_tokens :: int
  cost_usd :: py_real
  elapsed_offset :: py_real
  model_reservations :: "(string, model_reservation) dict"
  tool_reservations :: "(string, tool_reservation) dict"
  accounting_failed :: bool

text \<open>\<open>__post_init__\<close>; the revalidated budgets are the budgets.\<close>

definition new_budget_controller :: "budgets \<Rightarrow> rat \<Rightarrow> budget_controller" where
  "new_budget_controller b now =
     \<lparr>bc_budgets = b, bc_started = now, agent_count = 0, tool_calls = 0, model_calls = 0,
      model_prompt_tokens = 0, model_completion_tokens = 0, cost_usd = CFloat 0,
      elapsed_offset = CFloat 0, model_reservations = [], tool_reservations = [],
      accounting_failed = False\<rparr>"

section \<open>Duration\<close>

definition elapsed_seconds :: "budget_controller \<Rightarrow> rat \<Rightarrow> py_real" where
  "elapsed_seconds bc now = num_sub (num_add (elapsed_offset bc) (CFloat now)) (CFloat (bc_started bc))"

definition remaining_seconds :: "budget_controller \<Rightarrow> rat \<Rightarrow> py_real" where
  "remaining_seconds bc now =
     max_zero (num_sub (CInt (duration_seconds (bc_budgets bc))) (elapsed_seconds bc now))"

definition fenced :: exn where
  "fenced = BudgetPersistenceError ''budget accounting failed; dispatch is fenced''"

definition check_duration :: "budget_controller \<Rightarrow> rat \<Rightarrow> unit result" where
  "check_duration bc now =
     (if accounting_failed bc then Inl fenced
      else if real_val (remaining_seconds bc now) \<le> 0
      then Inl (BudgetExceeded ''maximum campaign duration exceeded'')
      else Inr ())"

text \<open>\<open>with budget_change(self)\<close> on an unbound controller.\<close>

definition budget_change ::
  "budget_controller \<Rightarrow> (budget_controller \<Rightarrow> 'a result \<times> budget_controller) \<Rightarrow> 'a result \<times> budget_controller" where
  "budget_change bc body = (if accounting_failed bc then (Inl fenced, bc) else body bc)"

section \<open>Agents and tools\<close>

definition reserve_agent :: "budget_controller \<Rightarrow> int \<Rightarrow> rat \<Rightarrow> unit result \<times> budget_controller" where
  "reserve_agent bc0 depth now = budget_change bc0 (\<lambda>bc.
     (case check_duration bc now of
        Inl e \<Rightarrow> (Inl e, bc)
      | Inr _ \<Rightarrow>
          (if depth > max_spawn_depth (bc_budgets bc)
           then (Inl (BudgetExceeded ''maximum agent spawn depth exceeded''), bc)
           else if agent_count bc \<ge> max_agents (bc_budgets bc)
           then (Inl (BudgetExceeded ''maximum agent count exceeded''), bc)
           else (Inr (), bc\<lparr>agent_count := agent_count bc + 1\<rparr>))))"

definition check_tool_call :: "budget_controller \<Rightarrow> rat \<Rightarrow> unit result" where
  "check_tool_call bc now =
     (case check_duration bc now of
        Inl e \<Rightarrow> Inl e
      | Inr _ \<Rightarrow>
          (if tool_calls bc \<ge> max_tool_calls (bc_budgets bc)
           then Inl (BudgetExceeded ''maximum tool-call budget exceeded'') else Inr ()))"

definition record_tool_call :: "budget_controller \<Rightarrow> unit result \<times> budget_controller" where
  "record_tool_call bc0 = budget_change bc0 (\<lambda>bc.
     (if tool_calls bc \<ge> max_tool_calls (bc_budgets bc)
      then (Inl (BudgetExceeded ''maximum tool-call budget exceeded''), bc)
      else (Inr (), bc\<lparr>tool_calls := tool_calls bc + 1\<rparr>)))"

definition reserve_tool_usage ::
  "budget_controller \<Rightarrow> nat \<Rightarrow> string \<Rightarrow> rat \<Rightarrow> tool_reservation result \<times> budget_controller" where
  "reserve_tool_usage bc0 ref rid now = budget_change bc0 (\<lambda>bc.
     (case check_tool_call bc now of
        Inl e \<Rightarrow> (Inl e, bc)
      | Inr _ \<Rightarrow>
          (let r = \<lparr>tr_ref = ref, tr_id = rid\<rparr> in
           (Inr r, bc\<lparr>tool_calls := tool_calls bc + 1,
                      tool_reservations := dict_set rid r (tool_reservations bc)\<rparr>))))"

definition tool_reservation_active :: "budget_controller \<Rightarrow> tool_reservation \<Rightarrow> bool" where
  "tool_reservation_active bc r =
     (case dict_get (tool_reservations bc) (tr_id r) of None \<Rightarrow> False | Some a \<Rightarrow> tr_ref a = tr_ref r)"

definition commit_tool_usage_reservation ::
  "budget_controller \<Rightarrow> tool_reservation \<Rightarrow> unit result \<times> budget_controller" where
  "commit_tool_usage_reservation bc0 r = budget_change bc0 (\<lambda>bc.
     (if \<not> tool_reservation_active bc r
      then (Inl (ValueError ''Tool usage reservation is not active on this budget''), bc)
      else (Inr (), bc\<lparr>tool_reservations := dict_del (tr_id r) (tool_reservations bc)\<rparr>)))"

definition release_tool_usage_reservation ::
  "budget_controller \<Rightarrow> tool_reservation \<Rightarrow> unit result \<times> budget_controller" where
  "release_tool_usage_reservation bc0 r = budget_change bc0 (\<lambda>bc.
     (if \<not> tool_reservation_active bc r
      then (Inl (ValueError ''Tool usage reservation is not active on this budget''), bc)
      else (Inr (), bc\<lparr>tool_reservations := dict_del (tr_id r) (tool_reservations bc),
                      tool_calls := tool_calls bc - 1\<rparr>)))"

section \<open>Costs and model usage\<close>

definition record_cost :: "budget_controller \<Rightarrow> py_num \<Rightarrow> unit result \<times> budget_controller" where
  "record_cost bc0 amount = budget_change bc0 (\<lambda>bc.
     (case finite_number ''cost must be a finite JSON number'' amount of
        Inl e \<Rightarrow> (Inl e, bc)
      | Inr a \<Rightarrow>
          (if real_val (num_add (cost_usd bc) a) > max_cost_usd (bc_budgets bc)
           then (Inl (BudgetExceeded ''maximum campaign cost exceeded''), bc)
           else (Inr (), bc\<lparr>cost_usd := num_add (cost_usd bc) a\<rparr>))))"

definition check_model_call :: "budget_controller \<Rightarrow> rat \<Rightarrow> unit result" where
  "check_model_call bc now =
     (case check_duration bc now of
        Inl e \<Rightarrow> Inl e
      | Inr _ \<Rightarrow>
          (if model_calls bc \<ge> max_model_calls (bc_budgets bc)
           then Inl (BudgetExceeded ''maximum model-call budget exceeded'') else Inr ()))"

definition record_model_call :: "budget_controller \<Rightarrow> rat \<Rightarrow> unit result \<times> budget_controller" where
  "record_model_call bc0 now = budget_change bc0 (\<lambda>bc.
     (case check_model_call bc now of
        Inl e \<Rightarrow> (Inl e, bc)
      | Inr _ \<Rightarrow> (Inr (), bc\<lparr>model_calls := model_calls bc + 1\<rparr>)))"

text \<open>The token tests, and \<open>_check_model_usage_capacity\<close>, which gives the validated amounts.\<close>

definition token_counts :: "py_num \<Rightarrow> py_num \<Rightarrow> (int \<times> int) result" where
  "token_counts prompt completion =
     (case (prompt, completion) of
        (PyInt p, PyInt c) \<Rightarrow>
          (if p < 0 \<or> c < 0 then Inl (ValueError ''model token usage cannot be negative'') else Inr (p, c))
      | _ \<Rightarrow> Inl (ValueError ''model token usage must use JSON integers''))"

definition check_model_usage_capacity ::
  "budget_controller \<Rightarrow> py_num \<Rightarrow> py_num \<Rightarrow> py_num \<Rightarrow> (int \<times> int \<times> py_real) result" where
  "check_model_usage_capacity bc prompt completion cost =
     (case token_counts prompt completion of
        Inl e \<Rightarrow> Inl e
      | Inr (p, c) \<Rightarrow>
          (if model_prompt_tokens bc + model_completion_tokens bc + (p + c) > max_model_tokens (bc_budgets bc)
           then Inl (BudgetExceeded ''maximum model-token budget exceeded'')
           else case finite_number ''model cost usage must be a finite JSON number'' cost of
             Inl e \<Rightarrow> Inl e
           | Inr a \<Rightarrow>
               (if real_val (num_add (cost_usd bc) a) > max_cost_usd (bc_budgets bc)
                then Inl (BudgetExceeded ''maximum campaign cost exceeded'')
                else Inr (p, c, a))))"

definition record_model_usage ::
  "budget_controller \<Rightarrow> py_num \<Rightarrow> py_num \<Rightarrow> py_num \<Rightarrow> unit result \<times> budget_controller" where
  "record_model_usage bc0 prompt completion cost = budget_change bc0 (\<lambda>bc.
     (case check_model_usage_capacity bc prompt completion cost of
        Inl e \<Rightarrow> (Inl e, bc)
      | Inr (p, c, a) \<Rightarrow>
          (Inr (), bc\<lparr>model_prompt_tokens := model_prompt_tokens bc + p,
                     model_completion_tokens := model_completion_tokens bc + c,
                     cost_usd := num_add (cost_usd bc) a\<rparr>)))"

definition reserve_model_usage ::
  "budget_controller \<Rightarrow> nat \<Rightarrow> string \<Rightarrow> py_num \<Rightarrow> py_num \<Rightarrow> py_num \<Rightarrow> rat \<Rightarrow> rat \<Rightarrow>
   model_reservation result \<times> budget_controller" where
  "reserve_model_usage bc0 ref rid prompt completion cost now1 now2 = budget_change bc0 (\<lambda>bc.
     (case check_tool_call bc now1 of
        Inl e \<Rightarrow> (Inl e, bc)
      | Inr _ \<Rightarrow>
        (case check_model_call bc now2 of
           Inl e \<Rightarrow> (Inl e, bc)
         | Inr _ \<Rightarrow>
           (case check_model_usage_capacity bc prompt completion cost of
              Inl e \<Rightarrow> (Inl e, bc)
            | Inr (p, c, a) \<Rightarrow>
                (let r = \<lparr>mr_ref = ref, mr_id = rid, mr_prompt_tokens = p, mr_completion_tokens = c,
                          mr_cost_usd = a, mr_tool_calls = 1, mr_model_calls = 1\<rparr>
                 in (Inr r,
                     bc\<lparr>tool_calls := tool_calls bc + mr_tool_calls r,
                        model_calls := model_calls bc + mr_model_calls r,
                        model_prompt_tokens := model_prompt_tokens bc + p,
                        model_completion_tokens := model_completion_tokens bc + c,
                        cost_usd := num_add (cost_usd bc) a,
                        model_reservations := dict_set rid r (model_reservations bc)\<rparr>))))))"

definition model_reservation_active :: "budget_controller \<Rightarrow> model_reservation \<Rightarrow> bool" where
  "model_reservation_active bc r =
     (case dict_get (model_reservations bc) (mr_id r) of None \<Rightarrow> False | Some a \<Rightarrow> mr_ref a = mr_ref r)"

definition require_model_usage_reservation :: "budget_controller \<Rightarrow> model_reservation \<Rightarrow> unit result" where
  "require_model_usage_reservation bc r =
     (if model_reservation_active bc r then Inr ()
      else Inl (ValueError ''model usage reservation is not active on this budget''))"

definition commit_model_usage_reservation ::
  "budget_controller \<Rightarrow> model_reservation \<Rightarrow> unit result \<times> budget_controller" where
  "commit_model_usage_reservation bc0 r = budget_change bc0 (\<lambda>bc.
     (case require_model_usage_reservation bc r of
        Inl e \<Rightarrow> (Inl e, bc)
      | Inr _ \<Rightarrow> (Inr (), bc\<lparr>model_reservations := dict_del (mr_id r) (model_reservations bc)\<rparr>)))"

definition release_model_usage_reservation ::
  "budget_controller \<Rightarrow> model_reservation \<Rightarrow> unit result \<times> budget_controller" where
  "release_model_usage_reservation bc0 r = budget_change bc0 (\<lambda>bc.
     (case require_model_usage_reservation bc r of
        Inl e \<Rightarrow> (Inl e, bc)
      | Inr _ \<Rightarrow>
          (Inr (), bc\<lparr>model_reservations := dict_del (mr_id r) (model_reservations bc),
                     tool_calls := tool_calls bc - mr_tool_calls r,
                     model_calls := model_calls bc - mr_model_calls r,
                     model_prompt_tokens := model_prompt_tokens bc - mr_prompt_tokens r,
                     model_completion_tokens := model_completion_tokens bc - mr_completion_tokens r,
                     cost_usd := max_zero (num_sub (cost_usd bc) (mr_cost_usd r))\<rparr>)))"

text \<open>\<open>settle_model_usage\<close>: usage above the reservation keeps the whole reservation and raises.\<close>

definition settle_model_usage ::
  "budget_controller \<Rightarrow> model_reservation \<Rightarrow> py_num \<Rightarrow> py_num \<Rightarrow> py_num \<Rightarrow> unit result \<times> budget_controller" where
  "settle_model_usage bc0 r prompt completion cost = budget_change bc0 (\<lambda>bc.
     (case require_model_usage_reservation bc r of
        Inl e \<Rightarrow> (Inl e, bc)
      | Inr _ \<Rightarrow>
        (case token_counts prompt completion of
           Inl e \<Rightarrow> (Inl e, bc)
         | Inr (p, c) \<Rightarrow>
           (case finite_number ''model cost usage must be a finite JSON number'' cost of
              Inl e \<Rightarrow> (Inl e, bc)
            | Inr a \<Rightarrow>
              (if p > mr_prompt_tokens r \<or> c > mr_completion_tokens r \<or> real_val a > real_val (mr_cost_usd r)
               then (Inl (BudgetExceeded ''model usage exceeded its conservative reservation''),
                     snd (commit_model_usage_reservation bc r))
               else
                 (Inr (), bc\<lparr>model_reservations := dict_del (mr_id r) (model_reservations bc),
                     model_prompt_tokens := model_prompt_tokens bc - (mr_prompt_tokens r - p),
                     model_completion_tokens := model_completion_tokens bc - (mr_completion_tokens r - c),
                     cost_usd := max_zero (num_sub (cost_usd bc) (num_sub (mr_cost_usd r) a))\<rparr>))))))"

section \<open>Restoring persisted usage\<close>

definition is_number :: "py_num \<Rightarrow> bool" where
  "is_number x = (case x of PyInt _ \<Rightarrow> True | PyFloat _ \<Rightarrow> True | PyNonFinite \<Rightarrow> True | _ \<Rightarrow> False)"

text \<open>\<open>isfinite\<close> of an \<open>int\<close> or \<open>float\<close>.\<close>

definition require_finite :: "string \<Rightarrow> py_num \<Rightarrow> py_real result" where
  "require_finite message x =
     (case x of
        PyInt n \<Rightarrow> (if float_overflow n then Inl OverflowError else Inr (CInt n))
      | PyFloat q \<Rightarrow> Inr (CFloat q)
      | _ \<Rightarrow> Inl (ValueError message))"

fun first_non_int :: "(string \<times> py_num) list \<Rightarrow> string option" where
  "first_non_int [] = None"
| "first_non_int ((label, x) # rest) = (case x of PyInt _ \<Rightarrow> first_non_int rest | _ \<Rightarrow> Some label)"

definition int_of :: "py_num \<Rightarrow> int" where
  "int_of x = (case x of PyInt n \<Rightarrow> n | _ \<Rightarrow> 0)"

definition usage_pristine :: "budget_controller \<Rightarrow> bool" where
  "usage_pristine bc =
     (model_reservations bc = [] \<and> tool_reservations bc = [] \<and> tool_calls bc = 0 \<and> agent_count bc = 0 \<and>
      model_calls bc = 0 \<and> model_prompt_tokens bc = 0 \<and> model_completion_tokens bc = 0 \<and>
      real_val (cost_usd bc) = 0 \<and> real_val (elapsed_offset bc) = 0)"

definition restore_usage ::
  "budget_controller \<Rightarrow> py_num \<Rightarrow> py_num \<Rightarrow> py_num \<Rightarrow> py_num \<Rightarrow> py_num \<Rightarrow> py_num \<Rightarrow> py_num \<Rightarrow> rat \<Rightarrow>
   unit result \<times> budget_controller" where
  "restore_usage bc agents tools models prompt completion cost elapsed now =
     (if accounting_failed bc
      then (Inl (BudgetPersistenceError ''a bound budget cannot accept caller-restored usage''), bc)
      else if \<not> usage_pristine bc
      then (Inl (ValueError ''budget usage can be restored only before execution''), bc)
      else case first_non_int [(''agent count'', agents), (''tool-call count'', tools),
               (''model-call count'', models), (''model prompt tokens'', prompt),
               (''model completion tokens'', completion)] of
        Some label \<Rightarrow> (Inl (ValueError (''restored '' @ label @ '' must use a JSON integer'')), bc)
      | None \<Rightarrow>
        (if \<not> is_number cost then (Inl (ValueError ''restored cost must be a finite JSON number''), bc)
         else if \<not> is_number elapsed
         then (Inl (ValueError ''restored duration must be a finite JSON number''), bc)
         else case require_finite ''restored cost must be a finite JSON number'' cost of
           Inl e \<Rightarrow> (Inl e, bc)
         | Inr c \<Rightarrow>
           (case require_finite ''restored duration must be a finite JSON number'' elapsed of
              Inl e \<Rightarrow> (Inl e, bc)
            | Inr el \<Rightarrow>
              (if \<not> (0 \<le> int_of agents \<and> int_of agents \<le> max_agents (bc_budgets bc))
               then (Inl (BudgetExceeded ''restored agent usage exceeds campaign budget''), bc)
               else if \<not> (0 \<le> int_of tools \<and> int_of tools \<le> max_tool_calls (bc_budgets bc))
               then (Inl (BudgetExceeded ''restored tool-call usage exceeds campaign budget''), bc)
               else if \<not> (0 \<le> int_of models \<and> int_of models \<le> max_model_calls (bc_budgets bc))
               then (Inl (BudgetExceeded ''restored model-call usage exceeds campaign budget''), bc)
               else if int_of prompt < 0 \<or> int_of completion < 0
               then (Inl (ValueError ''restored model token usage cannot be negative''), bc)
               else if int_of prompt + int_of completion > max_model_tokens (bc_budgets bc)
               then (Inl (BudgetExceeded ''restored model-token usage exceeds campaign budget''), bc)
               else if \<not> (0 \<le> real_val c \<and> real_val c \<le> max_cost_usd (bc_budgets bc))
               then (Inl (BudgetExceeded ''restored cost exceeds campaign budget''), bc)
               else if \<not> (0 \<le> real_val el \<and> real_val el < of_int (duration_seconds (bc_budgets bc)))
               then (Inl (BudgetExceeded ''restored duration exceeds campaign budget''), bc)
               else (Inr (), bc\<lparr>agent_count := int_of agents, tool_calls := int_of tools,
                       model_calls := int_of models, model_prompt_tokens := int_of prompt,
                       model_completion_tokens := int_of completion, cost_usd := c,
                       elapsed_offset := el, bc_started := now\<rparr>)))))"

section \<open>Histories of one controller\<close>

text \<open>A \<open>float\<close> object denotes a double.\<close>

definition arg_ok :: "py_num \<Rightarrow> bool" where
  "arg_ok x = (case x of PyFloat q \<Rightarrow> representable q | _ \<Rightarrow> True)"

text \<open>A caller's reservation that has the identity of a stored one is that object.\<close>

definition same_object :: "budget_controller \<Rightarrow> model_reservation \<Rightarrow> bool" where
  "same_object bc mr =
     (\<forall>a. dict_get (model_reservations bc) (mr_id mr) = Some a \<longrightarrow> mr_ref a = mr_ref mr \<longrightarrow> a = mr)"

text \<open>One call of a method, whether it returns or raises. The identifiers of new reservations are
  \<open>uuid4\<close> values, assumed not in use.\<close>

inductive budget_step :: "budget_controller \<Rightarrow> string \<Rightarrow> budget_controller \<Rightarrow> bool" where
  "reserve_agent bc depth now = (res, bc') \<Longrightarrow> budget_step bc ''reserve_agent'' bc'"
| "record_tool_call bc = (res, bc') \<Longrightarrow> budget_step bc ''record_tool_call'' bc'"
| "reserve_tool_usage bc ref rid now = (tres, bc') \<Longrightarrow> dict_get (tool_reservations bc) rid = None \<Longrightarrow>
   budget_step bc ''reserve_tool_usage'' bc'"
| "commit_tool_usage_reservation bc tr = (res, bc') \<Longrightarrow> budget_step bc ''commit_tool_usage_reservation'' bc'"
| "release_tool_usage_reservation bc tr = (res, bc') \<Longrightarrow> budget_step bc ''release_tool_usage_reservation'' bc'"
| "record_cost bc cost = (res, bc') \<Longrightarrow> arg_ok cost \<Longrightarrow> budget_step bc ''record_cost'' bc'"
| "record_model_call bc now = (res, bc') \<Longrightarrow> budget_step bc ''record_model_call'' bc'"
| "record_model_usage bc p c cost = (res, bc') \<Longrightarrow> arg_ok cost \<Longrightarrow> budget_step bc ''record_model_usage'' bc'"
| "reserve_model_usage bc ref rid p c cost now1 now2 = (mres, bc') \<Longrightarrow> arg_ok cost \<Longrightarrow>
   dict_get (model_reservations bc) rid = None \<Longrightarrow> budget_step bc ''reserve_model_usage'' bc'"
| "settle_model_usage bc mr p c cost = (res, bc') \<Longrightarrow> arg_ok cost \<Longrightarrow>
   same_object bc mr \<Longrightarrow> budget_step bc ''settle_model_usage'' bc'"
| "commit_model_usage_reservation bc mr = (res, bc') \<Longrightarrow> budget_step bc ''commit_model_usage_reservation'' bc'"
| "release_model_usage_reservation bc mr = (res, bc') \<Longrightarrow>
   same_object bc mr \<Longrightarrow> budget_step bc ''release_model_usage_reservation'' bc'"
| "restore_usage bc n1 n2 n3 n4 n5 cost el now = (res, bc') \<Longrightarrow> arg_ok cost \<Longrightarrow>
   budget_step bc ''restore_usage'' bc'"

section \<open>The accounting invariant\<close>

definition num_ok :: "py_real \<Rightarrow> bool" where
  "num_ok x = (case x of CInt _ \<Rightarrow> True | CFloat q \<Rightarrow> representable q)"

definition reservation_ok :: "string \<Rightarrow> model_reservation \<Rightarrow> bool" where
  "reservation_ok k r = (mr_id r = k \<and> 0 \<le> mr_prompt_tokens r \<and> 0 \<le> mr_completion_tokens r \<and>
     0 \<le> real_val (mr_cost_usd r) \<and> num_ok (mr_cost_usd r) \<and> mr_tool_calls r = 1 \<and> mr_model_calls r = 1)"

definition reservations_ok :: "budget_controller \<Rightarrow> bool" where
  "reservations_ok bc = (dict_ok (model_reservations bc) \<and> dict_ok (tool_reservations bc) \<and>
     (\<forall>k r. (k, r) \<in> set (model_reservations bc) \<longrightarrow> reservation_ok k r))"

text \<open>Every counter is within its limit and covers the reservations that are still in flight.\<close>

definition counters_ok :: "budget_controller \<Rightarrow> bool" where
  "counters_ok bc =
     (0 \<le> agent_count bc \<and> agent_count bc \<le> max_agents (bc_budgets bc) \<and>
      dict_sum (\<lambda>_. 1) (tool_reservations bc) + dict_sum (\<lambda>_. 1) (model_reservations bc) \<le> tool_calls bc \<and>
      tool_calls bc \<le> max_tool_calls (bc_budgets bc) \<and>
      dict_sum (\<lambda>_. 1) (model_reservations bc) \<le> model_calls bc \<and>
      model_calls bc \<le> max_model_calls (bc_budgets bc) \<and>
      dict_sum mr_prompt_tokens (model_reservations bc) \<le> model_prompt_tokens bc \<and>
      dict_sum mr_completion_tokens (model_reservations bc) \<le> model_completion_tokens bc \<and>
      model_prompt_tokens bc + model_completion_tokens bc \<le> max_model_tokens (bc_budgets bc))"

definition cost_ok :: "budget_controller \<Rightarrow> bool" where
  "cost_ok bc = (num_ok (cost_usd bc) \<and> 0 \<le> real_val (cost_usd bc) \<and>
     real_val (cost_usd bc) \<le> max_cost_usd (bc_budgets bc))"

definition budget_ok :: "budget_controller \<Rightarrow> bool" where
  "budget_ok bc = (valid_budgets (bc_budgets bc) \<and> reservations_ok bc \<and> counters_ok bc \<and> cost_ok bc)"

definition sample_budgets :: budgets where
  "sample_budgets = spec_budgets (campaign_spec sample_campaign)"

definition sample_bc :: budget_controller where
  "sample_bc = snd (reserve_model_usage (new_budget_controller sample_budgets 0) 7 ''r'' (PyInt 10) (PyInt 20)
     (PyFloat (1 / 2)) 0 0)"

definition sample_mr :: model_reservation where
  "sample_mr = \<lparr>mr_ref = 7, mr_id = ''r'', mr_prompt_tokens = 10, mr_completion_tokens = 20,
     mr_cost_usd = CFloat (1 / 2), mr_tool_calls = 1, mr_model_calls = 1\<rparr>"

section \<open>Numbers\<close>

lemma as_double_fl: "num_ok x \<Longrightarrow> as_double x = fl (real_val x)"
  by (cases x) (auto simp: num_ok_def double.rnd_exact)

lemma num_ok_add: "num_ok (num_add a b)" and num_ok_sub: "num_ok (num_sub a b)"
  by (auto simp: num_ok_def num_add_def num_sub_def double.rnd_rep split: py_real.splits)

lemma as_double_nonneg: "num_ok x \<Longrightarrow> 0 \<le> real_val x \<Longrightarrow> 0 \<le> as_double x"
  by (simp add: as_double_fl double.rnd_nonneg)

lemma num_add_nonneg:
  "num_ok a \<Longrightarrow> num_ok b \<Longrightarrow> 0 \<le> real_val a \<Longrightarrow> 0 \<le> real_val b \<Longrightarrow> 0 \<le> real_val (num_add a b)"
  using as_double_nonneg [of a] as_double_nonneg [of b]
  by (cases a; cases b) (auto simp: num_add_def intro!: double.rnd_nonneg)

lemma num_sub_nonneg:
  assumes "num_ok a" "num_ok b" "real_val b \<le> real_val a"
  shows "0 \<le> real_val (num_sub a b)"
proof -
  have "as_double b \<le> as_double a" using assms by (simp add: as_double_fl double.rnd_mono)
  then show ?thesis
    using assms(3) by (cases a; cases b) (auto simp: num_sub_def intro!: double.rnd_nonneg)
qed

text \<open>Subtracting never raises a cost, because small integers are exact doubles.\<close>

lemma num_sub_le:
  assumes "num_ok c" "0 \<le> real_val c" "real_val c \<le> 10000" "num_ok x" "0 \<le> real_val x"
  shows "real_val (num_sub c x) \<le> real_val c"
proof -
  have rep: "representable (real_val c)"
  proof (cases c)
    case (CInt n)
    then have "\<bar>n\<bar> \<le> 2 ^ 53" using assms(2,3) by simp
    then show ?thesis using representable_int CInt by simp
  qed (use assms(1) in \<open>simp add: num_ok_def\<close>)
  have "as_double c = real_val c" using assms(1) rep by (simp add: as_double_fl double.rnd_exact)
  then show ?thesis
    using double.rnd_sub_le [OF rep as_double_nonneg [OF assms(4,5)]] assms(5)
    by (cases c; cases x) (auto simp: num_sub_def)
qed

lemma max_zero_bounds: "0 \<le> real_val (max_zero x)" "real_val x \<le> b \<Longrightarrow> 0 \<le> b \<Longrightarrow> real_val (max_zero x) \<le> b"
  by (auto simp: max_zero_def)

lemma num_ok_max_zero: "num_ok x \<Longrightarrow> num_ok (max_zero x)"
  by (simp add: max_zero_def num_ok_def representable_zero)

lemma finite_number_Inr: "finite_number m x = Inr a \<Longrightarrow> arg_ok x \<Longrightarrow> num_ok a \<and> 0 \<le> real_val a"
  by (auto simp: finite_number_def arg_ok_def num_ok_def split: py_num.splits if_splits)

lemma token_counts_Inr: "token_counts p c = Inr (a, b) \<Longrightarrow> 0 \<le> a \<and> 0 \<le> b"
  by (auto simp: token_counts_def split: py_num.splits if_splits)

lemma refund_cost:
  assumes "cost_ok bc" "valid_budgets (bc_budgets bc)" "num_ok x" "0 \<le> real_val x"
  shows "num_ok (max_zero (num_sub (cost_usd bc) x)) \<and> 0 \<le> real_val (max_zero (num_sub (cost_usd bc) x)) \<and>
    real_val (max_zero (num_sub (cost_usd bc) x)) \<le> real_val (cost_usd bc)"
proof -
  have "real_val (cost_usd bc) \<le> 10000" using assms(1,2) by (auto simp: cost_ok_def valid_budgets_def)
  then show ?thesis
    using num_sub_le [of "cost_usd bc" x] assms
    by (auto simp: cost_ok_def num_ok_max_zero num_ok_sub intro!: max_zero_bounds)
qed

section \<open>The invariant is kept\<close>

lemma capacity_Inr:
  assumes "check_model_usage_capacity bc p c cost = Inr (a, b, x)" and "arg_ok cost"
  shows "0 \<le> a" "0 \<le> b" "num_ok x" "0 \<le> real_val x"
    "model_prompt_tokens bc + model_completion_tokens bc + (a + b) \<le> max_model_tokens (bc_budgets bc)"
    "real_val (num_add (cost_usd bc) x) \<le> max_cost_usd (bc_budgets bc)"
  using assms token_counts_Inr finite_number_Inr
  by (fastforce simp: check_model_usage_capacity_def split: sum.splits if_splits)+

lemma budget_change_ok:
  assumes "budget_ok bc" and "budget_change bc body = (res, bc')" 
    and "\<And>r b. budget_ok bc \<Longrightarrow> body bc = (r, b) \<Longrightarrow> budget_ok b"
  shows "budget_ok bc'"
  using assms by (auto simp: budget_change_def split: if_splits)

lemma reserve_agent_ok: "budget_ok bc \<Longrightarrow> reserve_agent bc d now = (res, bc') \<Longrightarrow> budget_ok bc'"
  unfolding reserve_agent_def
  by (erule (1) budget_change_ok)
    (auto simp: budget_ok_def reservations_ok_def counters_ok_def cost_ok_def split: sum.splits if_splits)

lemma record_tool_call_ok: "budget_ok bc \<Longrightarrow> record_tool_call bc = (res, bc') \<Longrightarrow> budget_ok bc'"
  unfolding record_tool_call_def
  by (erule (1) budget_change_ok)
    (auto simp: budget_ok_def reservations_ok_def counters_ok_def cost_ok_def split: sum.splits if_splits)

lemma record_model_call_ok: "budget_ok bc \<Longrightarrow> record_model_call bc now = (res, bc') \<Longrightarrow> budget_ok bc'"
  unfolding record_model_call_def
  by (erule (1) budget_change_ok)
    (auto simp: budget_ok_def reservations_ok_def counters_ok_def cost_ok_def check_model_call_def
      split: sum.splits if_splits)

lemma reserve_tool_usage_ok:
  "budget_ok bc \<Longrightarrow> reserve_tool_usage bc ref rid now = (res, bc') \<Longrightarrow>
   dict_get (tool_reservations bc) rid = None \<Longrightarrow> budget_ok bc'"
  unfolding reserve_tool_usage_def
  by (erule (1) budget_change_ok)
    (auto simp: budget_ok_def reservations_ok_def counters_ok_def cost_ok_def check_tool_call_def Let_def
      dict_sum_set_fresh split: sum.splits if_splits)

lemma tool_reservation_activeD:
  "tool_reservation_active bc r \<Longrightarrow> \<exists>a. dict_get (tool_reservations bc) (tr_id r) = Some a"
  by (auto simp: tool_reservation_active_def split: option.splits)

lemma commit_tool_ok:
  "budget_ok bc \<Longrightarrow> commit_tool_usage_reservation bc r = (res, bc') \<Longrightarrow> budget_ok bc'"
  unfolding commit_tool_usage_reservation_def
  by (erule (1) budget_change_ok)
    (auto simp: budget_ok_def reservations_ok_def counters_ok_def cost_ok_def dict_sum_del
      dest!: tool_reservation_activeD split: if_splits)

lemma release_tool_ok:
  "budget_ok bc \<Longrightarrow> release_tool_usage_reservation bc r = (res, bc') \<Longrightarrow> budget_ok bc'"
  unfolding release_tool_usage_reservation_def
  by (erule (1) budget_change_ok)
    (auto simp: budget_ok_def reservations_ok_def counters_ok_def cost_ok_def dict_sum_del
      dest!: tool_reservation_activeD split: if_splits)

lemma add_cost_ok:
  assumes "cost_ok bc" "num_ok x" "0 \<le> real_val x"
    "real_val (num_add (cost_usd bc) x) \<le> max_cost_usd (bc_budgets bc)"
  shows "num_ok (num_add (cost_usd bc) x) \<and> 0 \<le> real_val (num_add (cost_usd bc) x) \<and>
    real_val (num_add (cost_usd bc) x) \<le> max_cost_usd (bc_budgets bc)"
  using assms num_add_nonneg [of "cost_usd bc" x] by (auto simp: cost_ok_def num_ok_add)

lemma record_cost_ok:
  assumes "budget_ok bc" "record_cost bc amount = (res, bc')" "arg_ok amount"
  shows "budget_ok bc'"
  using assms(1,2) unfolding record_cost_def
proof (rule budget_change_ok)
  fix r b
  assume ok: "budget_ok bc"
    and body: "(case finite_number ''cost must be a finite JSON number'' amount of
        Inl e \<Rightarrow> (Inl e, bc)
      | Inr a \<Rightarrow>
          (if real_val (num_add (cost_usd bc) a) > max_cost_usd (bc_budgets bc)
           then (Inl (BudgetExceeded ''maximum campaign cost exceeded''), bc)
           else (Inr (), bc\<lparr>cost_usd := num_add (cost_usd bc) a\<rparr>))) = (r, b)"
  then consider "b = bc"
    | a where "finite_number ''cost must be a finite JSON number'' amount = Inr a"
      "\<not> real_val (num_add (cost_usd bc) a) > max_cost_usd (bc_budgets bc)"
      "b = bc\<lparr>cost_usd := num_add (cost_usd bc) a\<rparr>"
    by (auto split: sum.splits if_splits)
  then show "budget_ok b"
  proof cases
    case 2
    then show ?thesis
      using ok add_cost_ok [of bc a] finite_number_Inr [OF 2(1) assms(3)]
      by (simp add: budget_ok_def reservations_ok_def counters_ok_def cost_ok_def not_less)
  qed (use ok in simp)
qed

lemma record_model_usage_ok:
  assumes "budget_ok bc" "record_model_usage bc p c cost = (res, bc')" "arg_ok cost"
  shows "budget_ok bc'"
proof (cases "accounting_failed bc \<or> (\<exists>e. check_model_usage_capacity bc p c cost = Inl e)")
  case True
  then show ?thesis using assms(1,2) by (auto simp: record_model_usage_def budget_change_def split: if_splits)
next
  case False
  then obtain a b x where cap: "check_model_usage_capacity bc p c cost = Inr (a, b, x)"
    by (cases "check_model_usage_capacity bc p c cost") auto
  note capacity_Inr [OF cap assms(3)]
  then show ?thesis
    using assms(1,2) False cap add_cost_ok [of bc x]
    by (auto simp: record_model_usage_def budget_change_def budget_ok_def reservations_ok_def
        counters_ok_def cost_ok_def)
qed

lemma reserve_model_usage_ok:
  assumes "budget_ok bc" "reserve_model_usage bc ref rid p c cost n1 n2 = (res, bc')" "arg_ok cost"
    "dict_get (model_reservations bc) rid = None"
  shows "budget_ok bc'"
proof (cases "bc' = bc")
  case False
  then obtain a b x where cap: "check_model_usage_capacity bc p c cost = Inr (a, b, x)"
    and tool: "tool_calls bc < max_tool_calls (bc_budgets bc)"
    and model: "model_calls bc < max_model_calls (bc_budgets bc)"
    and bc': "bc' = bc\<lparr>tool_calls := tool_calls bc + 1, model_calls := model_calls bc + 1,
      model_prompt_tokens := model_prompt_tokens bc + a,
      model_completion_tokens := model_completion_tokens bc + b, cost_usd := num_add (cost_usd bc) x,
      model_reservations := dict_set rid \<lparr>mr_ref = ref, mr_id = rid, mr_prompt_tokens = a,
        mr_completion_tokens = b, mr_cost_usd = x, mr_tool_calls = 1, mr_model_calls = 1\<rparr> (model_reservations bc)\<rparr>"
    using assms(2)
    by (auto simp: reserve_model_usage_def budget_change_def check_tool_call_def check_model_call_def Let_def
        split: if_splits sum.splits)
  note caps = capacity_Inr [OF cap assms(3)]
  have res: "reservations_ok bc'"
    using assms(1,4) caps unfolding bc'
    by (auto simp: budget_ok_def reservations_ok_def dict_set_fresh reservation_ok_def dict_ok_def
        dest: map_of_eq_None_iff [THEN iffD1])
  show ?thesis
    using assms(1) res add_cost_ok [of bc x] caps tool model
    by (auto simp: bc' budget_ok_def counters_ok_def cost_ok_def dict_sum_set_fresh [OF assms(4)])
qed (use assms(1) in simp)

lemma active_reservation:
  assumes "reservations_ok bc" "model_reservation_active bc r" "same_object bc r"
  shows "dict_get (model_reservations bc) (mr_id r) = Some r" "reservation_ok (mr_id r) r"
proof -
  show get: "dict_get (model_reservations bc) (mr_id r) = Some r"
    using assms(2,3) by (auto simp: model_reservation_active_def same_object_def split: option.splits)
  show "reservation_ok (mr_id r) r"
    using assms(1) dict_get_in_set [of "model_reservations bc" "mr_id r" r] get
    by (auto simp: reservations_ok_def)
qed

lemma reservations_ok_del:
  "reservations_ok bc \<Longrightarrow> reservations_ok (bc\<lparr>model_reservations := dict_del k (model_reservations bc)\<rparr>)"
  using dict_del_subset [of k "model_reservations bc"] by (auto simp: reservations_ok_def)

lemma model_sum_ge:
  assumes "reservations_ok bc" "dict_get (model_reservations bc) k = Some r"
  shows "mr_prompt_tokens r \<le> dict_sum mr_prompt_tokens (model_reservations bc)"
    "mr_completion_tokens r \<le> dict_sum mr_completion_tokens (model_reservations bc)"
  using assms by (auto simp: reservations_ok_def reservation_ok_def intro!: dict_sum_ge)

lemma commit_model_ok:
  assumes "budget_ok bc" "commit_model_usage_reservation bc r = (res, bc')"
  shows "budget_ok bc'"
proof (cases "bc' = bc")
  case False
  then obtain a where bc': "bc' = bc\<lparr>model_reservations := dict_del (mr_id r) (model_reservations bc)\<rparr>"
    and a: "dict_get (model_reservations bc) (mr_id r) = Some a"
    using assms(2)
    by (auto simp: commit_model_usage_reservation_def budget_change_def require_model_usage_reservation_def
        model_reservation_active_def split: if_splits option.splits)
  have ok: "reservations_ok bc" using assms(1) by (simp add: budget_ok_def)
  then have pos: "0 \<le> mr_prompt_tokens a" "0 \<le> mr_completion_tokens a"
    using dict_get_in_set [of "model_reservations bc" "mr_id r" a] a
    by (auto simp: reservations_ok_def reservation_ok_def)
  have "reservations_ok bc'" using reservations_ok_del [OF ok] bc' by simp
  then show ?thesis
    using assms(1) pos ok a
    by (auto simp: bc' budget_ok_def counters_ok_def cost_ok_def reservations_ok_def dict_sum_del)
qed (use assms(1) in simp)

lemma release_model_ok:
  assumes "budget_ok bc" "release_model_usage_reservation bc r = (res, bc')" "same_object bc r"
  shows "budget_ok bc'"
proof (cases "bc' = bc")
  case False
  then have active: "model_reservation_active bc r" and bc': "bc' = bc\<lparr>model_reservations := dict_del (mr_id r) (model_reservations bc),
      tool_calls := tool_calls bc - mr_tool_calls r, model_calls := model_calls bc - mr_model_calls r,
      model_prompt_tokens := model_prompt_tokens bc - mr_prompt_tokens r,
      model_completion_tokens := model_completion_tokens bc - mr_completion_tokens r,
      cost_usd := max_zero (num_sub (cost_usd bc) (mr_cost_usd r))\<rparr>"
    using assms(2)
    by (auto simp: release_model_usage_reservation_def budget_change_def require_model_usage_reservation_def
        split: if_splits)
  have ok: "reservations_ok bc" and v: "valid_budgets (bc_budgets bc)" "cost_ok bc"
    using assms(1) by (simp_all add: budget_ok_def)
  note r = active_reservation [OF ok active assms(3)]
  have "reservations_ok bc'" using reservations_ok_del [OF ok, of "mr_id r"] bc' by (simp add: reservations_ok_def)
  moreover have "cost_ok bc'"
    using refund_cost [OF v(2,1), of "mr_cost_usd r"] r(2) v(2)
    by (auto simp: bc' cost_ok_def reservation_ok_def)
  moreover have "counters_ok bc'"
    using assms(1) ok r dict_sum_del [of "model_reservations bc" "mr_id r" r] model_sum_ge [OF ok r(1)]
    by (auto simp: bc' budget_ok_def counters_ok_def reservations_ok_def reservation_ok_def)
  ultimately show ?thesis using v(1) by (simp add: budget_ok_def bc')
qed (use assms(1) in simp)

lemma settle_cases:
  assumes "settle_model_usage bc r p c cost = (res, bc')" "bc' \<noteq> bc"
  obtains (over) "bc' = snd (commit_model_usage_reservation bc r)"
    | (settled) a b x where "model_reservation_active bc r" "token_counts p c = Inr (a, b)"
      "finite_number ''model cost usage must be a finite JSON number'' cost = Inr x"
      "a \<le> mr_prompt_tokens r" "b \<le> mr_completion_tokens r" "real_val x \<le> real_val (mr_cost_usd r)"
      "bc' = bc\<lparr>model_reservations := dict_del (mr_id r) (model_reservations bc),
         model_prompt_tokens := model_prompt_tokens bc - (mr_prompt_tokens r - a),
         model_completion_tokens := model_completion_tokens bc - (mr_completion_tokens r - b),
         cost_usd := max_zero (num_sub (cost_usd bc) (num_sub (mr_cost_usd r) x))\<rparr>"
proof -
  have f: "\<not> accounting_failed bc" "model_reservation_active bc r"
    using assms by (auto simp: settle_model_usage_def budget_change_def require_model_usage_reservation_def
        split: if_splits)
  obtain a b where tok: "token_counts p c = Inr (a, b)"
    using assms f by (cases "token_counts p c")
      (auto simp: settle_model_usage_def budget_change_def require_model_usage_reservation_def)
  obtain x where x: "finite_number ''model cost usage must be a finite JSON number'' cost = Inr x"
    using assms f tok by (cases "finite_number ''model cost usage must be a finite JSON number'' cost")
      (auto simp: settle_model_usage_def budget_change_def require_model_usage_reservation_def)
  show ?thesis
  proof (cases "a > mr_prompt_tokens r \<or> b > mr_completion_tokens r \<or> real_val x > real_val (mr_cost_usd r)")
    case True
    then show ?thesis using assms(1) f tok x over
      by (simp add: settle_model_usage_def budget_change_def require_model_usage_reservation_def)
  next
    case False
    then show ?thesis using assms(1) f tok x settled
      by (simp add: settle_model_usage_def budget_change_def require_model_usage_reservation_def not_less)
  qed
qed

lemma settle_model_ok:
  assumes "budget_ok bc" "settle_model_usage bc r p c cost = (res, bc')" "arg_ok cost" "same_object bc r"
  shows "budget_ok bc'"
proof (cases "bc' = bc")
  case False
  with assms(2) show ?thesis
  proof (cases rule: settle_cases)
    case over
    then show ?thesis using commit_model_ok [OF assms(1)] by (metis prod.collapse)
  next
    case (settled a b x)
    have ok: "reservations_ok bc" and v: "valid_budgets (bc_budgets bc)" "cost_ok bc"
      using assms(1) by (simp_all add: budget_ok_def)
    note r = active_reservation [OF ok settled(1) assms(4)]
    note x = finite_number_Inr [OF settled(3) assms(3)] token_counts_Inr [OF settled(2)]
    have "reservations_ok bc'"
      using reservations_ok_del [OF ok, of "mr_id r"] settled(7) by (simp add: reservations_ok_def)
    moreover have "cost_ok bc'"
      using refund_cost [OF v(2,1) num_ok_sub num_sub_nonneg, of "mr_cost_usd r" x] r(2) v(2) x settled(6)
      by (auto simp: settled(7) cost_ok_def reservation_ok_def)
    moreover have "counters_ok bc'"
      using assms(1) ok r x settled(4,5) dict_sum_del [of "model_reservations bc" "mr_id r" r]
        model_sum_ge [OF ok r(1)]
      by (auto simp: settled(7) budget_ok_def counters_ok_def reservations_ok_def reservation_ok_def)
    ultimately show ?thesis using v(1) by (simp add: budget_ok_def settled(7))
  qed
qed (use assms(1) in simp)

lemma require_finite_Inr: "require_finite m x = Inr a \<Longrightarrow> arg_ok x \<Longrightarrow> num_ok a"
  by (auto simp: require_finite_def arg_ok_def num_ok_def split: py_num.splits if_splits)

lemma restore_usage_ok:
  assumes "budget_ok bc" "restore_usage bc n1 n2 n3 n4 n5 cost el now = (res, bc')" "arg_ok cost"
  shows "budget_ok bc'"
proof (cases "bc' = bc")
  case False
  then obtain c e where c: "require_finite ''restored cost must be a finite JSON number'' cost = Inr c"
    and pristine: "usage_pristine bc"
    and bounds: "0 \<le> int_of n1" "int_of n1 \<le> max_agents (bc_budgets bc)"
      "0 \<le> int_of n2" "int_of n2 \<le> max_tool_calls (bc_budgets bc)"
      "0 \<le> int_of n3" "int_of n3 \<le> max_model_calls (bc_budgets bc)" "0 \<le> int_of n4" "0 \<le> int_of n5"
      "int_of n4 + int_of n5 \<le> max_model_tokens (bc_budgets bc)"
      "0 \<le> real_val c" "real_val c \<le> max_cost_usd (bc_budgets bc)"
    and bc': "bc' = bc\<lparr>agent_count := int_of n1, tool_calls := int_of n2, model_calls := int_of n3,
      model_prompt_tokens := int_of n4, model_completion_tokens := int_of n5, cost_usd := c,
      elapsed_offset := e, bc_started := now\<rparr>"
    using assms(2) unfolding restore_usage_def
    by (auto simp: not_less not_le split: if_splits option.splits sum.splits)
  have "model_reservations bc = []" "tool_reservations bc = []"
    using pristine by (simp_all add: usage_pristine_def)
  then show ?thesis
    using assms(1) bounds require_finite_Inr [OF c assms(3)]
    by (auto simp: bc' budget_ok_def reservations_ok_def counters_ok_def cost_ok_def dict_sum_def)
qed (use assms(1) in simp)

lemma budget_step_ok: "budget_ok bc \<Longrightarrow> budget_step bc l bc' \<Longrightarrow> budget_ok bc'"
  by (erule budget_step.cases)
    (blast intro: reserve_agent_ok record_tool_call_ok reserve_tool_usage_ok commit_tool_ok
      release_tool_ok record_cost_ok record_model_call_ok record_model_usage_ok reserve_model_usage_ok
      settle_model_ok commit_model_ok release_model_ok restore_usage_ok)+

interpretation budget_runs: transition_invariant budget_step budget_ok
  by unfold_locales (rule budget_step_ok)

lemma new_budget_ok: "valid_budgets b \<Longrightarrow> budget_ok (new_budget_controller b now)"
  by (auto simp: new_budget_controller_def budget_ok_def reservations_ok_def counters_ok_def cost_ok_def
      num_ok_def representable_zero valid_budgets_def dict_sum_def)

lemma budget_change_budgets:
  assumes "budget_change bc body = (res, bc')" "\<And>r b. body bc = (r, b) \<Longrightarrow> bc_budgets b = bc_budgets bc"
  shows "bc_budgets bc' = bc_budgets bc"
  using assms by (auto simp: budget_change_def split: if_splits)

lemma commit_model_budgets: "bc_budgets (snd (commit_model_usage_reservation bc r)) = bc_budgets bc"
  by (auto simp: commit_model_usage_reservation_def budget_change_def split: sum.splits)

lemma settle_budgets: "settle_model_usage bc r p c cost = (res, bc') \<Longrightarrow> bc_budgets bc' = bc_budgets bc"
  by (cases "bc' = bc") (auto elim!: settle_cases simp: commit_model_budgets)

lemma reserve_model_budgets:
  "reserve_model_usage bc ref rid p c cost n1 n2 = (res, bc') \<Longrightarrow> bc_budgets bc' = bc_budgets bc"
  unfolding reserve_model_usage_def
  by (erule budget_change_budgets) (auto simp: Let_def split: sum.splits)

lemma restore_budgets:
  "restore_usage bc n1 n2 n3 n4 n5 cost el now = (res, bc') \<Longrightarrow> bc_budgets bc' = bc_budgets bc"
  unfolding restore_usage_def by (auto split: if_splits option.splits sum.splits)

lemma simple_budgets:
  "reserve_agent bc depth now = (res, bc') \<Longrightarrow> bc_budgets bc' = bc_budgets bc"
  "record_tool_call bc = (res, bc') \<Longrightarrow> bc_budgets bc' = bc_budgets bc"
  "reserve_tool_usage bc ref rid now = (tres, bc') \<Longrightarrow> bc_budgets bc' = bc_budgets bc"
  "commit_tool_usage_reservation bc tr = (res, bc') \<Longrightarrow> bc_budgets bc' = bc_budgets bc"
  "release_tool_usage_reservation bc tr = (res, bc') \<Longrightarrow> bc_budgets bc' = bc_budgets bc"
  "record_cost bc cost = (res, bc') \<Longrightarrow> bc_budgets bc' = bc_budgets bc"
  "record_model_call bc now = (res, bc') \<Longrightarrow> bc_budgets bc' = bc_budgets bc"
  "record_model_usage bc p c cost = (res, bc') \<Longrightarrow> bc_budgets bc' = bc_budgets bc"
  "commit_model_usage_reservation bc mr = (res, bc') \<Longrightarrow> bc_budgets bc' = bc_budgets bc"
  "release_model_usage_reservation bc mr = (res, bc') \<Longrightarrow> bc_budgets bc' = bc_budgets bc"
  unfolding reserve_agent_def record_tool_call_def reserve_tool_usage_def commit_tool_usage_reservation_def
    release_tool_usage_reservation_def record_cost_def record_model_call_def record_model_usage_def
    commit_model_usage_reservation_def release_model_usage_reservation_def
  by (erule budget_change_budgets; auto simp: Let_def split: sum.splits if_splits)+

lemma budget_step_budgets: "budget_step bc l bc' \<Longrightarrow> bc_budgets bc' = bc_budgets bc"
  by (erule budget_step.cases)
    (blast intro: simple_budgets reserve_model_budgets settle_budgets restore_budgets)+

lemma budget_run_budgets: "steps budget_step bc es bc' \<Longrightarrow> bc_budgets bc' = bc_budgets bc"
  by (induction rule: steps.induct) (auto dest: budget_step_budgets)

lemma budget_run_ok:
  "valid_budgets b \<Longrightarrow> steps budget_step (new_budget_controller b now) es bc \<Longrightarrow>
   budget_ok bc \<and> bc_budgets bc = b"
  using budget_runs.run_inv new_budget_ok budget_run_budgets by (fastforce simp: new_budget_controller_def)

section \<open>A sample history\<close>

lemma sample_bc_eq: "sample_bc = (new_budget_controller sample_budgets 0)
    \<lparr>tool_calls := 1, model_calls := 1, model_prompt_tokens := 10, model_completion_tokens := 20,
     cost_usd := CFloat (1 / 2), model_reservations := [(''r'', sample_mr)]\<rparr>"
  by code_simp

lemma sample_budgets_valid: "valid_budgets sample_budgets"
  by code_simp

lemma representable_half: "representable (1 / 2)"
  unfolding representable_def by (intro exI [of _ 1] exI [of _ "- 1"]) (simp add: pow2_def)

lemma sample_bc_run: "steps budget_step (new_budget_controller sample_budgets 0) [''reserve_model_usage''] sample_bc"
proof -
  have "budget_step (new_budget_controller sample_budgets 0) ''reserve_model_usage'' sample_bc"
    unfolding sample_bc_def
    by (rule budget_step.intros(9) [OF prod.collapse [symmetric]])
      (simp_all add: arg_ok_def representable_half new_budget_controller_def)
  then show ?thesis using steps_single [of budget_step] by blast
qed

lemma sample_mr_active: "model_reservation_active sample_bc sample_mr" "same_object sample_bc sample_mr"
  by (simp_all add: sample_bc_eq sample_mr_def model_reservation_active_def same_object_def)

section \<open>Properties\<close>

text \<open>C22. No history of a controller exceeds its budgets: whatever methods are called, in any order
  and with any outcome, the agents, tool calls, model calls, tokens and cost charged stay between zero
  and the campaign's limits, under the rounding of double arithmetic.\<close>

theorem budget_is_never_exceeded:
  assumes "valid_budgets b" and "steps budget_step (new_budget_controller b now) es bc"
  shows "0 \<le> agent_count bc \<and> agent_count bc \<le> max_agents b \<and>
    0 \<le> tool_calls bc \<and> tool_calls bc \<le> max_tool_calls b \<and>
    0 \<le> model_calls bc \<and> model_calls bc \<le> max_model_calls b \<and>
    0 \<le> model_prompt_tokens bc \<and> 0 \<le> model_completion_tokens bc \<and>
    model_prompt_tokens bc + model_completion_tokens bc \<le> max_model_tokens b \<and>
    0 \<le> real_val (cost_usd bc) \<and> real_val (cost_usd bc) \<le> max_cost_usd b"
proof -
  have ok: "budget_ok bc" and b: "bc_budgets bc = b" using budget_run_ok [OF assms] by auto
  have "0 \<le> dict_sum (\<lambda>_. 1) (tool_reservations bc)" "0 \<le> dict_sum (\<lambda>_. 1) (model_reservations bc)"
    by (auto intro: dict_sum_nonneg)
  moreover have "0 \<le> dict_sum mr_prompt_tokens (model_reservations bc)"
    "0 \<le> dict_sum mr_completion_tokens (model_reservations bc)"
    using ok by (auto simp: budget_ok_def reservations_ok_def reservation_ok_def intro!: dict_sum_nonneg)
  ultimately show ?thesis using ok b by (auto simp: budget_ok_def counters_ok_def cost_ok_def)
qed

theorem budget_is_never_exceeded_witness:
  "tool_calls sample_bc = 1 \<and> 0 < real_val (cost_usd sample_bc) \<and>
   real_val (cost_usd sample_bc) \<le> max_cost_usd sample_budgets"
  using budget_is_never_exceeded [OF sample_budgets_valid sample_bc_run] by (simp add: sample_bc_eq)

text \<open>Releasing an active model reservation returns exactly what it charged: one tool call, one
  model call and its tokens come back, no counter becomes negative, the cost does not grow and stays
  non-negative; and the same reservation cannot be released or committed again.\<close>

theorem release_returns_the_charge:
  assumes "valid_budgets b" and "steps budget_step (new_budget_controller b now) es bc"
    and "\<not> accounting_failed bc" and "model_reservation_active bc r" and "same_object bc r"
  shows "\<exists>bc'. release_model_usage_reservation bc r = (Inr (), bc') \<and>
    tool_calls bc' = tool_calls bc - 1 \<and> 0 \<le> tool_calls bc' \<and>
    model_calls bc' = model_calls bc - 1 \<and> 0 \<le> model_calls bc' \<and>
    model_prompt_tokens bc' = model_prompt_tokens bc - mr_prompt_tokens r \<and> 0 \<le> model_prompt_tokens bc' \<and>
    model_completion_tokens bc' = model_completion_tokens bc - mr_completion_tokens r \<and>
    0 \<le> model_completion_tokens bc' \<and>
    0 \<le> real_val (cost_usd bc') \<and> real_val (cost_usd bc') \<le> real_val (cost_usd bc) \<and>
    \<not> is_ok (fst (release_model_usage_reservation bc' r)) \<and>
    \<not> is_ok (fst (commit_model_usage_reservation bc' r))"
proof -
  have ok: "budget_ok bc" using budget_run_ok [OF assms(1,2)] by simp
  then have res: "reservations_ok bc" "cost_ok bc" "valid_budgets (bc_budgets bc)" by (simp_all add: budget_ok_def)
  note r = active_reservation [OF res(1) assms(4,5)]
  have one: "1 \<le> dict_sum (\<lambda>_. 1) (model_reservations bc)"
    using dict_sum_ge [of "model_reservations bc" "mr_id r" r "\<lambda>_. 1"] r(1) res(1) by (simp add: reservations_ok_def)
  have tools: "0 \<le> dict_sum (\<lambda>_. 1) (tool_reservations bc)" by (auto intro: dict_sum_nonneg)
  show ?thesis
    using assms(3,4) ok one tools r model_sum_ge [OF res(1) r(1)] refund_cost [OF res(2,3), of "mr_cost_usd r"]
    by (auto simp: release_model_usage_reservation_def commit_model_usage_reservation_def budget_change_def
        require_model_usage_reservation_def model_reservation_active_def reservation_ok_def budget_ok_def
        counters_ok_def is_ok_def dict_simps)
qed

theorem release_returns_the_charge_witness:
  "\<exists>bc'. release_model_usage_reservation sample_bc sample_mr = (Inr (), bc') \<and> tool_calls bc' = 0 \<and>
     model_prompt_tokens bc' = 0"
proof -
  have "\<not> accounting_failed sample_bc" "tool_calls sample_bc = 1"
    "model_prompt_tokens sample_bc = mr_prompt_tokens sample_mr"
    by (simp_all add: sample_bc_eq sample_mr_def new_budget_controller_def)
  then show ?thesis
    using release_returns_the_charge [OF sample_budgets_valid sample_bc_run _ sample_mr_active]
    by auto
qed

text \<open>Settlement is conservative: usage within an active reservation replaces it by the exact token
  counts and never raises the cost; usage above it in any respect raises, and the whole reserved
  charge stays spent. Either way the reservation is gone.\<close>

theorem settlement_is_conservative:
  assumes "valid_budgets b" and "steps budget_step (new_budget_controller b now) es bc"
    and "\<not> accounting_failed bc" and "model_reservation_active bc r" and "same_object bc r"
    and "0 \<le> p" and "0 \<le> c" and "0 \<le> q" and "representable q"
  shows "\<exists>res bc'. settle_model_usage bc r (PyInt p) (PyInt c) (PyFloat q) = (res, bc') \<and>
    \<not> model_reservation_active bc' r \<and> tool_calls bc' = tool_calls bc \<and> model_calls bc' = model_calls bc \<and>
    (if p \<le> mr_prompt_tokens r \<and> c \<le> mr_completion_tokens r \<and> q \<le> real_val (mr_cost_usd r)
     then res = Inr () \<and>
       model_prompt_tokens bc' = model_prompt_tokens bc - mr_prompt_tokens r + p \<and>
       model_completion_tokens bc' = model_completion_tokens bc - mr_completion_tokens r + c \<and>
       0 \<le> real_val (cost_usd bc') \<and> real_val (cost_usd bc') \<le> real_val (cost_usd bc)
     else res = Inl (BudgetExceeded ''model usage exceeded its conservative reservation'') \<and>
       model_prompt_tokens bc' = model_prompt_tokens bc \<and>
       model_completion_tokens bc' = model_completion_tokens bc \<and> cost_usd bc' = cost_usd bc)"
proof -
  have ok: "budget_ok bc" using budget_run_ok [OF assms(1,2)] by simp
  then have res: "reservations_ok bc" "cost_ok bc" "valid_budgets (bc_budgets bc)" by (simp_all add: budget_ok_def)
  have active: "require_model_usage_reservation bc r = Inr ()"
    using assms(4) by (simp add: require_model_usage_reservation_def)
  have counts: "token_counts (PyInt p) (PyInt c) = Inr (p, c)" "finite_number m (PyFloat q) = Inr (CFloat q)" for m
    using assms(6-8) by (simp_all add: token_counts_def finite_number_def)
  have gone: "dict_get (dict_del (mr_id r) (model_reservations bc)) (mr_id r) = None" by (simp add: dict_simps)
  have r: "num_ok (mr_cost_usd r)"
    using active_reservation(2) [OF res(1) assms(4,5)] by (simp add: reservation_ok_def)
  have refund: "q \<le> real_val (mr_cost_usd r) \<Longrightarrow>
      0 \<le> real_val (max_zero (num_sub (cost_usd bc) (num_sub (mr_cost_usd r) (CFloat q)))) \<and>
      real_val (max_zero (num_sub (cost_usd bc) (num_sub (mr_cost_usd r) (CFloat q)))) \<le> real_val (cost_usd bc)"
    using refund_cost [OF res(2,3) num_ok_sub num_sub_nonneg, of "mr_cost_usd r" "CFloat q"] r assms(9)
    by (simp add: num_ok_def)
  show ?thesis
    unfolding settle_model_usage_def budget_change_def
    using assms(3) refund
    by (auto simp: active counts gone model_reservation_active_def commit_model_usage_reservation_def budget_change_def)
qed

theorem settlement_is_conservative_witness:
  "\<exists>bc'. settle_model_usage sample_bc sample_mr (PyInt 4) (PyInt 20) (PyFloat 0) = (Inr (), bc') \<and>
     model_prompt_tokens bc' = 4 \<and> \<not> model_reservation_active bc' sample_mr"
proof -
  have "\<not> accounting_failed sample_bc" "model_prompt_tokens sample_bc = 10"
    "mr_prompt_tokens sample_mr = 10" "mr_completion_tokens sample_mr = 20" "mr_cost_usd sample_mr = CFloat (1 / 2)"
    by (simp_all add: sample_bc_eq sample_mr_def new_budget_controller_def)
  then show ?thesis
    using settlement_is_conservative [OF sample_budgets_valid sample_bc_run _ sample_mr_active, of 4 20 0]
    by (auto simp: representable_zero)
qed

end
