(* ===== verification/Dual_Budget.thy ===== *)
theory Dual_Budget
  imports Budget_Control
begin

text \<open>
  \<open>DualModelUsageBudget\<close> of \<^verbatim>\<open>src/src/pajin/runtime/control.py\<close>: one reservation charged to the
  Campaign controller and to a dedicated one, both or neither. The object order of the two locks does
  not matter to a sequential history and is left out; both controllers are distinct and unbound.
\<close>

section \<open>State and operations\<close>

record dual_reservation =
  du_ref :: nat
  du_id :: string
  du_prompt_tokens :: int
  du_completion_tokens :: int
  du_cost_usd :: py_real
  du_tool_calls :: int
  du_model_calls :: int

record dual_budget =
  campaign_budget :: budget_controller
  dedicated_budget :: budget_controller
  dual_reservations :: "(string, dual_reservation \<times> model_reservation \<times> model_reservation) dict"

definition dual_remaining_seconds :: "dual_budget \<Rightarrow> rat \<Rightarrow> rat \<Rightarrow> py_real" where
  "dual_remaining_seconds d n1 n2 =
     (let a = remaining_seconds (campaign_budget d) n1; b = remaining_seconds (dedicated_budget d) n2 in
      if real_val b < real_val a then b else a)"

definition dual_check_tool_call :: "dual_budget \<Rightarrow> rat \<Rightarrow> rat \<Rightarrow> unit result" where
  "dual_check_tool_call d n1 n2 =
     (case check_tool_call (campaign_budget d) n1 of
        Inl e \<Rightarrow> Inl e | Inr _ \<Rightarrow> check_tool_call (dedicated_budget d) n2)"

definition dual_check_model_call :: "dual_budget \<Rightarrow> rat \<Rightarrow> rat \<Rightarrow> unit result" where
  "dual_check_model_call d n1 n2 =
     (case check_model_call (campaign_budget d) n1 of
        Inl e \<Rightarrow> Inl e | Inr _ \<Rightarrow> check_model_call (dedicated_budget d) n2)"

text \<open>\<open>with budget_change(first, second)\<close>.\<close>

definition dual_change ::
  "dual_budget \<Rightarrow> (dual_budget \<Rightarrow> 'a result \<times> dual_budget) \<Rightarrow> 'a result \<times> dual_budget" where
  "dual_change d body =
     (if accounting_failed (campaign_budget d) \<or> accounting_failed (dedicated_budget d)
      then (Inl fenced, d) else body d)"

text \<open>The new objects of one reservation: identities and identifiers of the dual, the Campaign and
  the dedicated reservation, and the four clock readings.\<close>

record dual_fresh =
  dual_ref :: nat
  dual_rid :: string
  camp_ref :: nat
  camp_rid :: string
  ded_ref :: nat
  ded_rid :: string
  times :: "rat \<times> rat \<times> rat \<times> rat"

definition dual_reserve_model_usage ::
  "dual_budget \<Rightarrow> dual_fresh \<Rightarrow> py_num \<Rightarrow> py_num \<Rightarrow> py_num \<Rightarrow> dual_reservation result \<times> dual_budget" where
  "dual_reserve_model_usage d0 f prompt completion cost = dual_change d0 (\<lambda>d.
     (case times f of (n1, n2, n3, n4) \<Rightarrow>
      (case reserve_model_usage (campaign_budget d) (camp_ref f) (camp_rid f) prompt completion cost n1 n2 of
         (Inl e, camp) \<Rightarrow> (Inl e, d\<lparr>campaign_budget := camp\<rparr>)
       | (Inr cr, camp) \<Rightarrow>
         (case reserve_model_usage (dedicated_budget d) (ded_ref f) (ded_rid f) prompt completion cost n3 n4 of
            (Inl e, ded) \<Rightarrow>
              (case release_model_usage_reservation camp cr of
                 (Inl e', camp') \<Rightarrow> (Inl e', d\<lparr>campaign_budget := camp', dedicated_budget := ded\<rparr>)
               | (Inr _, camp') \<Rightarrow> (Inl e, d\<lparr>campaign_budget := camp', dedicated_budget := ded\<rparr>))
          | (Inr dr, ded) \<Rightarrow>
              (let r = \<lparr>du_ref = dual_ref f, du_id = dual_rid f, du_prompt_tokens = mr_prompt_tokens cr,
                        du_completion_tokens = mr_completion_tokens cr, du_cost_usd = mr_cost_usd cr,
                        du_tool_calls = mr_tool_calls cr, du_model_calls = mr_model_calls cr\<rparr>
               in (Inr r, d\<lparr>campaign_budget := camp, dedicated_budget := ded,
                           dual_reservations := dict_set (dual_rid f) (r, cr, dr) (dual_reservations d)\<rparr>))))))"

text \<open>\<open>_require_reservation\<close>.\<close>

definition require_dual_reservation ::
  "dual_budget \<Rightarrow> dual_reservation \<Rightarrow> (model_reservation \<times> model_reservation) result" where
  "require_dual_reservation d r =
     (case dict_get (dual_reservations d) (du_id r) of
        None \<Rightarrow> Inl (ValueError ''dual model usage reservation is not active'')
      | Some (a, cr, dr) \<Rightarrow>
          (if du_ref a = du_ref r then Inr (cr, dr)
           else Inl (ValueError ''dual model usage reservation is not active'')))"

text \<open>\<open>commit\<close> and \<open>release\<close> share their shape; \<open>op\<close> is the method of the two controllers.\<close>

definition dual_finish ::
  "(budget_controller \<Rightarrow> model_reservation \<Rightarrow> unit result \<times> budget_controller) \<Rightarrow>
   dual_budget \<Rightarrow> dual_reservation \<Rightarrow> unit result \<times> dual_budget" where
  "dual_finish op d0 r = dual_change d0 (\<lambda>d.
     (case require_dual_reservation d r of
        Inl e \<Rightarrow> (Inl e, d)
      | Inr (cr, dr) \<Rightarrow>
        (case require_model_usage_reservation (campaign_budget d) cr of
           Inl e \<Rightarrow> (Inl e, d)
         | Inr _ \<Rightarrow>
           (case require_model_usage_reservation (dedicated_budget d) dr of
              Inl e \<Rightarrow> (Inl e, d)
            | Inr _ \<Rightarrow>
              (case op (campaign_budget d) cr of
                 (Inl e, camp) \<Rightarrow> (Inl e, d\<lparr>campaign_budget := camp\<rparr>)
               | (Inr _, camp) \<Rightarrow>
                 (case op (dedicated_budget d) dr of
                    (Inl e, ded) \<Rightarrow> (Inl e, d\<lparr>campaign_budget := camp, dedicated_budget := ded\<rparr>)
                  | (Inr _, ded) \<Rightarrow>
                      (Inr (), d\<lparr>campaign_budget := camp, dedicated_budget := ded,
                               dual_reservations := dict_del (du_id r) (dual_reservations d)\<rparr>)))))))"

definition dual_commit_model_usage_reservation ::
  "dual_budget \<Rightarrow> dual_reservation \<Rightarrow> unit result \<times> dual_budget" where
  "dual_commit_model_usage_reservation = dual_finish commit_model_usage_reservation"

definition dual_release_model_usage_reservation ::
  "dual_budget \<Rightarrow> dual_reservation \<Rightarrow> unit result \<times> dual_budget" where
  "dual_release_model_usage_reservation = dual_finish release_model_usage_reservation"

section \<open>The account interface\<close>

text \<open>What the dual budget relies on of each controller: a refused reservation changes nothing, an accepted one
  is \<open>charge\<close>, and it can be released at once, which leaves \<open>undone\<close>.\<close>

locale usage_account =
  fixes reserve :: "'s \<Rightarrow> 'q \<Rightarrow> 'r result \<times> 's"
    and release :: "'s \<Rightarrow> 'r \<Rightarrow> unit result \<times> 's"
    and charge :: "'s \<Rightarrow> 'r \<Rightarrow> 's"
    and undone :: "'s \<Rightarrow> 'r \<Rightarrow> 's"
    and admissible :: "'s \<Rightarrow> 'q \<Rightarrow> bool"
  assumes refused: "reserve s q = (Inl e, s') \<Longrightarrow> s' = s"
    and accepted: "reserve s q = (Inr r, s') \<Longrightarrow> s' = charge s r"
    and release_undoes: "admissible s q \<Longrightarrow> reserve s q = (Inr r, s') \<Longrightarrow> release s' r = (Inr (), undone s r)"
begin

text \<open>Reserving on one account and giving up.\<close>

lemma abandoned:
  assumes "admissible s q" and "reserve s q = (res, s')"
  shows "case res of Inl e \<Rightarrow> s' = s | Inr r \<Rightarrow> s' = charge s r \<and> release s' r = (Inr (), undone s r)"
  using assms refused accepted release_undoes by (auto split: sum.splits)

end

type_synonym model_request = "nat \<times> string \<times> py_num \<times> py_num \<times> py_num \<times> rat \<times> rat"

definition account_reserve ::
  "budget_controller \<Rightarrow> model_request \<Rightarrow> model_reservation result \<times> budget_controller" where
  "account_reserve bc q =
     (case q of (ref, rid, p, c, cost, n1, n2) \<Rightarrow> reserve_model_usage bc ref rid p c cost n1 n2)"

text \<open>The controller with one reservation more.\<close>

definition charged :: "budget_controller \<Rightarrow> model_reservation \<Rightarrow> budget_controller" where
  "charged bc r = bc\<lparr>tool_calls := tool_calls bc + 1, model_calls := model_calls bc + 1,
     model_prompt_tokens := model_prompt_tokens bc + mr_prompt_tokens r,
     model_completion_tokens := model_completion_tokens bc + mr_completion_tokens r,
     cost_usd := num_add (cost_usd bc) (mr_cost_usd r),
     model_reservations := dict_set (mr_id r) r (model_reservations bc)\<rparr>"

text \<open>The cost after an amount has been added and taken back, each step rounded to a double.\<close>

definition refunded :: "py_real \<Rightarrow> py_real \<Rightarrow> py_real" where
  "refunded c x = max_zero (num_sub (num_add c x) x)"

definition account_undone :: "budget_controller \<Rightarrow> model_reservation \<Rightarrow> budget_controller" where
  "account_undone bc r = bc\<lparr>cost_usd := refunded (cost_usd bc) (mr_cost_usd r)\<rparr>"

definition account_admissible :: "budget_controller \<Rightarrow> model_request \<Rightarrow> bool" where
  "account_admissible bc q = (dict_get (model_reservations bc) (fst (snd q)) = None)"

text \<open>A pair with a restored Campaign cost, whose dedicated side allows ten tokens.\<close>

definition sample_dual :: dual_budget where
  "sample_dual = \<lparr>campaign_budget = (new_budget_controller (spec_budgets (campaign_spec sample_campaign)) 0)\<lparr>cost_usd := CInt 3\<rparr>,
     dedicated_budget = new_budget_controller ((spec_budgets (campaign_spec sample_campaign))\<lparr>max_model_tokens := 10\<rparr>) 0,
     dual_reservations = []\<rparr>"

definition sample_fresh :: dual_fresh where
  "sample_fresh = \<lparr>dual_ref = 1, dual_rid = ''d'', camp_ref = 2, camp_rid = ''c'', ded_ref = 3, ded_rid = ''x'',
     times = (0, 0, 0, 0)\<rparr>"

section \<open>The controllers are usage accounts\<close>

lemma reserve_model_refused:
  "reserve_model_usage bc ref rid p c cost n1 n2 = (Inl e, bc') \<Longrightarrow> bc' = bc"
  by (auto simp: reserve_model_usage_def budget_change_def Let_def split: if_splits sum.splits)

lemma reserve_model_accepted:
  assumes "reserve_model_usage bc ref rid p c cost n1 n2 = (Inr r, bc')"
  shows "mr_id r = rid" "mr_ref r = ref" "mr_tool_calls r = 1" "mr_model_calls r = 1" "\<not> accounting_failed bc"
    "bc' = charged bc r" "p = PyInt (mr_prompt_tokens r)" "c = PyInt (mr_completion_tokens r)"
    "finite_number ''model cost usage must be a finite JSON number'' cost = Inr (mr_cost_usd r)"
  using assms
  by (auto simp: reserve_model_usage_def budget_change_def Let_def check_model_usage_capacity_def charged_def
      token_counts_def split: if_splits sum.splits py_num.splits)

lemma dict_del_fresh: "dict_get d k = None \<Longrightarrow> dict_del k (dict_set k v d) = d"
  by (force simp: dict_set_fresh AList.delete_eq map_of_eq_None_iff filter_id_conv)

lemma release_after_reserve:
  assumes "dict_get (model_reservations bc) rid = None"
    and "reserve_model_usage bc ref rid p c cost n1 n2 = (Inr r, bc')"
  shows "release_model_usage_reservation bc' r = (Inr (), account_undone bc r)"
proof -
  note r = reserve_model_accepted [OF assms(2)]
  have "model_reservation_active bc' r"
    by (simp add: model_reservation_active_def r charged_def dict_simps)
  then show ?thesis
    using r assms(1)
    by (simp add: release_model_usage_reservation_def budget_change_def require_model_usage_reservation_def
        account_undone_def refunded_def charged_def dict_del_fresh)
qed

interpretation controller: usage_account account_reserve release_model_usage_reservation charged account_undone account_admissible
  by unfold_locales
    (auto simp: account_reserve_def account_admissible_def dest: reserve_model_refused reserve_model_accepted(6) release_after_reserve)

text \<open>The refund is exact when the sum is a double.\<close>

lemma refund_exact:
  assumes "representable (real_val c)" "representable (real_val x)" "representable (real_val c + real_val x)" "0 \<le> real_val c"
  shows "real_val (refunded c x) = real_val c"
proof -
  have "as_double c = real_val c" "as_double x = real_val x" using assms(1,2) by (cases c; cases x; simp add: double.rnd_exact)+
  then show ?thesis
    using assms by (cases c; cases x) (auto simp: refunded_def num_add_def num_sub_def max_zero_def double.rnd_exact)
qed

lemma cost_representable: "budget_ok bc \<Longrightarrow> representable (real_val (cost_usd bc)) \<and> 0 \<le> real_val (cost_usd bc)"
proof (cases "cost_usd bc")
  case (CInt n)
  assume "budget_ok bc"
  then have "0 \<le> real_val (cost_usd bc)" "real_val (cost_usd bc) \<le> 10000" by (auto simp: budget_ok_def cost_ok_def valid_budgets_def)
  then have "\<bar>n\<bar> \<le> 2 ^ 53" "0 \<le> n" using CInt by simp_all
  then show ?thesis using representable_int [of n] CInt by simp
qed (simp add: budget_ok_def cost_ok_def num_ok_def)

section \<open>Properties\<close>

text \<open>C25. A dual reservation is all or nothing. When it is refused, the dedicated budget and the pair are exactly as
  before, and so is the Campaign budget if it refused; if the dedicated budget refused, the Campaign budget is as before
  except for its cost, to which the amount was added and taken back in double arithmetic: this is the old cost whenever
  the sum is a double. When it is accepted, both budgets are charged one tool call, one model call, the same tokens and the
  same cost, each holds one new reservation, nothing else of them changes, and the pair records both reservations.\<close>

theorem dual_reservation_all_or_nothing:
  assumes "dict_get (model_reservations (campaign_budget d)) (camp_rid f) = None"
    and "dual_reserve_model_usage d f p c cost = (res, d')"
  shows "case res of
      Inl e \<Rightarrow> dedicated_budget d' = dedicated_budget d \<and> dual_reservations d' = dual_reservations d \<and>
        (campaign_budget d' = campaign_budget d \<or>
         (\<exists>x. finite_number ''model cost usage must be a finite JSON number'' cost = Inr x \<and>
            campaign_budget d' = (campaign_budget d)\<lparr>cost_usd := refunded (cost_usd (campaign_budget d)) x\<rparr> \<and>
            (budget_ok (campaign_budget d) \<and> representable (real_val x) \<and>
               representable (real_val (cost_usd (campaign_budget d)) + real_val x) \<longrightarrow>
             real_val (cost_usd (campaign_budget d')) = real_val (cost_usd (campaign_budget d)))))
    | Inr r \<Rightarrow> (\<exists>cr dr. dual_reservations d' = dict_set (dual_rid f) (r, cr, dr) (dual_reservations d) \<and>
        campaign_budget d' = charged (campaign_budget d) cr \<and> dedicated_budget d' = charged (dedicated_budget d) dr \<and>
        mr_id cr = camp_rid f \<and> mr_id dr = ded_rid f \<and> du_prompt_tokens r = mr_prompt_tokens cr \<and>
        du_completion_tokens r = mr_completion_tokens cr \<and> du_cost_usd r = mr_cost_usd cr \<and>
        (\<forall>m \<in> {cr, dr}. p = PyInt (mr_prompt_tokens m) \<and> c = PyInt (mr_completion_tokens m) \<and>
           finite_number ''model cost usage must be a finite JSON number'' cost = Inr (mr_cost_usd m)))"
proof (cases "accounting_failed (campaign_budget d) \<or> accounting_failed (dedicated_budget d)")
  case True
  then show ?thesis using assms(2) by (auto simp: dual_reserve_model_usage_def dual_change_def)
next
  case open_: False
  obtain n1 n2 n3 n4 where times: "times f = (n1, n2, n3, n4)" by (metis prod.exhaust)
  obtain cres camp where cr: "reserve_model_usage (campaign_budget d) (camp_ref f) (camp_rid f) p c cost n1 n2 = (cres, camp)"
    by fastforce
  obtain dres ded where dr: "reserve_model_usage (dedicated_budget d) (ded_ref f) (ded_rid f) p c cost n3 n4 = (dres, ded)"
    by fastforce
  show ?thesis
  proof (cases cres)
    case (Inl e)
    then show ?thesis
      using assms(2) open_ times cr reserve_model_refused [OF cr [unfolded Inl]]
      by (auto simp: dual_reserve_model_usage_def dual_change_def)
  next
    case c: (Inr r)
    note rel = controller.release_undoes [of "campaign_budget d" "(camp_ref f, camp_rid f, p, c, cost, n1, n2)" r camp,
        unfolded account_admissible_def account_reserve_def, simplified, OF assms(1) cr [unfolded c]]
    show ?thesis
    proof (cases dres)
      case (Inl e)
      then have "campaign_budget d' = account_undone (campaign_budget d) r" "dedicated_budget d' = dedicated_budget d"
        "dual_reservations d' = dual_reservations d" "\<not> is_ok res"
        using assms(2) open_ times cr c dr rel reserve_model_refused [OF dr [unfolded Inl]]
        by (auto simp: dual_reserve_model_usage_def dual_change_def is_ok_def)
      then show ?thesis
        using reserve_model_accepted(9) [OF cr [unfolded c]] cost_representable refund_exact
        by (cases res) (auto simp: account_undone_def is_ok_def)
    next
      case (Inr r')
      note x = reserve_model_accepted [OF cr [unfolded c]] and y = reserve_model_accepted [OF dr [unfolded Inr]]
      let ?r = "\<lparr>du_ref = dual_ref f, du_id = dual_rid f, du_prompt_tokens = mr_prompt_tokens r, du_completion_tokens = mr_completion_tokens r,
        du_cost_usd = mr_cost_usd r, du_tool_calls = mr_tool_calls r, du_model_calls = mr_model_calls r\<rparr>"
      have d': "res = Inr ?r" "d' = d\<lparr>campaign_budget := charged (campaign_budget d) r, dedicated_budget := charged (dedicated_budget d) r',
          dual_reservations := dict_set (dual_rid f) (?r, r, r') (dual_reservations d)\<rparr>"
        using assms(2) open_ times cr c dr Inr x(6) y(6) by (simp_all add: dual_reserve_model_usage_def dual_change_def Let_def)
      have "\<forall>m \<in> {r, r'}. p = PyInt (mr_prompt_tokens m) \<and> c = PyInt (mr_completion_tokens m) \<and>
          finite_number ''model cost usage must be a finite JSON number'' cost = Inr (mr_cost_usd m)"
        using x(7-9) y(7-9) by blast
      then show ?thesis unfolding d'(1) sum.case using x(1) y(1) by - (rule exI [of _ r], rule exI [of _ r'], auto simp: d'(2))
    qed
  qed
qed

theorem dual_reservation_all_or_nothing_witness:
  "fst (dual_reserve_model_usage sample_dual sample_fresh (PyInt 8) (PyInt 5) (PyInt 2)) =
     Inl (BudgetExceeded ''maximum model-token budget exceeded'') \<and>
   dedicated_budget (snd (dual_reserve_model_usage sample_dual sample_fresh (PyInt 8) (PyInt 5) (PyInt 2))) = dedicated_budget sample_dual \<and>
   cost_usd (campaign_budget (snd (dual_reserve_model_usage sample_dual sample_fresh (PyInt 8) (PyInt 5) (PyInt 2)))) = CInt 3"
proof -
  have fin: "finite_number m (PyInt 2) = Inr (CInt 2)" for m by (simp add: finite_number_def float_overflow_def)
  have limits: "check_tool_call (campaign_budget sample_dual) 0 = Inr ()" "check_model_call (campaign_budget sample_dual) 0 = Inr ()"
    "check_tool_call (dedicated_budget sample_dual) 0 = Inr ()" "check_model_call (dedicated_budget sample_dual) 0 = Inr ()"
    "check_model_usage_capacity (dedicated_budget sample_dual) (PyInt 8) (PyInt 5) (PyInt 2) = Inl (BudgetExceeded ''maximum model-token budget exceeded'')"
    "\<not> model_prompt_tokens (campaign_budget sample_dual) + model_completion_tokens (campaign_budget sample_dual) + (8 + 5) >
       max_model_tokens (bc_budgets (campaign_budget sample_dual))"
    "\<not> real_val (num_add (cost_usd (campaign_budget sample_dual)) (CInt 2)) > max_cost_usd (bc_budgets (campaign_budget sample_dual))"
    "\<not> accounting_failed (campaign_budget sample_dual)" "\<not> accounting_failed (dedicated_budget sample_dual)" "times sample_fresh = (0, 0, 0, 0)"
    by code_simp+
  have camp: "check_model_usage_capacity (campaign_budget sample_dual) (PyInt 8) (PyInt 5) (PyInt 2) = Inr (8, 5, CInt 2)"
    using limits(6,7) by (simp add: check_model_usage_capacity_def token_counts_def fin)
  have fresh: "dict_get (model_reservations (campaign_budget sample_dual)) (camp_rid sample_fresh) = None"
    "refunded (CInt 3) (CInt 2) = CInt 3" "cost_usd (campaign_budget sample_dual) = CInt 3"
    by code_simp+
  obtain cr bc where cr: "reserve_model_usage (campaign_budget sample_dual) (camp_ref sample_fresh) (camp_rid sample_fresh) (PyInt 8) (PyInt 5) (PyInt 2) 0 0 = (Inr cr, bc)"
    using limits(1,2,8) camp by (simp add: reserve_model_usage_def budget_change_def Let_def)
  have "reserve_model_usage (dedicated_budget sample_dual) (ded_ref sample_fresh) (ded_rid sample_fresh) (PyInt 8) (PyInt 5) (PyInt 2) 0 0 =
      (Inl (BudgetExceeded ''maximum model-token budget exceeded''), dedicated_budget sample_dual)"
    using limits(3-5,9) by (simp add: reserve_model_usage_def budget_change_def)
  then have res: "fst (dual_reserve_model_usage sample_dual sample_fresh (PyInt 8) (PyInt 5) (PyInt 2)) =
     Inl (BudgetExceeded ''maximum model-token budget exceeded'')"
    using limits(8-10) cr release_after_reserve [OF fresh(1) cr] by (simp add: dual_reserve_model_usage_def dual_change_def)
  show ?thesis
    using dual_reservation_all_or_nothing [OF fresh(1) prod.collapse [symmetric], of "PyInt 8" "PyInt 5" "PyInt 2"] res fin fresh(2,3)
    by auto
qed

end
