(* ===== verification/Cancellation_Contexts.thy ===== *)
theory Cancellation_Contexts
  imports Pajin_Prelude
begin

text \<open>
  \<open>ExecutionCancellationContext\<close> and \<open>KillSwitch\<close> of \<^verbatim>\<open>src/src/pajin/runtime/control.py\<close>.

  Contexts are shared objects: a parent holds references to the children it forked, and the children
  are also used on their own. The model is a heap of contexts by address. Successive readings of
  \<open>datetime.now(UTC)\<close> are \<open>clock 0\<close>, \<open>clock 1\<close>, and so on. The recursion of \<open>cancel\<close> and \<open>mark_forced\<close>
  over the children is written as a list of calls still to be made, in the order the source makes
  them.
\<close>

section \<open>Contexts\<close>

datatype cancellation_kind =
  RUN_CANCELLED | LEASE_LOST | HEARTBEAT_UNAVAILABLE | DAEMON_SHUTDOWN | CALLER_CANCELLED

datatype cleanup_status =
  OBSERVED | CLEANUP_COMPLETED | EXECUTOR_DRAINED | QUIESCED | INCOMPLETE

record run_binding =
  rb_engine :: string
  rb_run_id :: string
  rb_path :: string

record cancel_ctx =
  cc_job_id :: "string option"
  cc_control_plane_run_id :: "string option"
  cc_active :: bool
  cc_kind :: "cancellation_kind option"
  cc_reason :: "string option"
  cc_observed_at :: "instant option"
  cc_binding :: "run_binding option"
  cc_status :: "cleanup_status option"
  cc_forced_at :: "instant option"
  cc_cleanup_completed_at :: "instant option"
  cc_executor_drained_at :: "instant option"
  cc_cleanup_error :: "string option"
  cc_children :: "nat list"

record ctx_heap =
  contexts :: "(nat, cancel_ctx) dict"
  ticks :: nat

definition new_ctx :: "string option \<Rightarrow> string option \<Rightarrow> cancel_ctx" where
  "new_ctx job run =
     \<lparr>cc_job_id = job, cc_control_plane_run_id = run, cc_active = False, cc_kind = None, cc_reason = None,
      cc_observed_at = None, cc_binding = None, cc_status = None, cc_forced_at = None,
      cc_cleanup_completed_at = None, cc_executor_drained_at = None, cc_cleanup_error = None,
      cc_children = []\<rparr>"

definition put_ctx :: "nat \<Rightarrow> cancel_ctx \<Rightarrow> ctx_heap \<Rightarrow> ctx_heap" where
  "put_ctx a c h = h\<lparr>contexts := dict_set a c (contexts h)\<rparr>"

definition tick :: "ctx_heap \<Rightarrow> ctx_heap" where
  "tick h = h\<lparr>ticks := ticks h + 1\<rparr>"

section \<open>cancel\<close>

text \<open>\<open>text.strip()[:500] or default\<close>.\<close>

definition bounded_text :: "string \<Rightarrow> string \<Rightarrow> string" where
  "bounded_text s fallback =
     (let bounded = take 500 (py_strip s) in if bounded = [] then fallback else bounded)"

definition activated :: "cancellation_kind \<Rightarrow> string \<Rightarrow> instant \<Rightarrow> cancel_ctx \<Rightarrow> cancel_ctx" where
  "activated kind reason now c =
     c\<lparr>cc_kind := Some kind, cc_reason := Some reason, cc_observed_at := Some now,
       cc_status := Some OBSERVED, cc_active := True\<rparr>"

definition inactive_count :: "ctx_heap \<Rightarrow> nat" where
  "inactive_count h = length (filter (\<lambda>ac. \<not> cc_active (snd ac)) (contexts h))"

lemma inactive_count_put:
  assumes "dict_get (contexts h) a = Some c" and "\<not> cc_active c" and "cc_active c'"
  shows "inactive_count (put_ctx a c' h) < inactive_count h"
proof -
  have "length (filter (\<lambda>ac. \<not> cc_active (snd ac)) (dict_set a c' d)) <
      length (filter (\<lambda>ac. \<not> cc_active (snd ac)) d)" if "dict_get d a = Some c" for d :: "(nat, cancel_ctx) dict"
    using that assms(2,3) by (induction d) (auto split: if_splits)
  then show ?thesis using assms(1) by (simp add: inactive_count_def put_ctx_def)
qed

function cancel_calls ::
  "(nat \<Rightarrow> instant) \<Rightarrow> cancellation_kind \<Rightarrow> (nat \<times> string) list \<Rightarrow> ctx_heap \<Rightarrow> ctx_heap" where
  "cancel_calls clock kind [] h = h"
| "cancel_calls clock kind ((a, reason) # todo) h =
     (case dict_get (contexts h) a of
        None \<Rightarrow> cancel_calls clock kind todo h
      | Some c \<Rightarrow>
          (if cc_active c then cancel_calls clock kind todo h
           else
             let bounded = bounded_text reason ''execution cancellation requested'' in
             cancel_calls clock kind (map (\<lambda>child. (child, bounded)) (cc_children c) @ todo)
               (tick (put_ctx a (activated kind bounded (clock (ticks h)) c) h))))"
  by pat_completeness auto

termination cancel_calls
proof (relation "measures [\<lambda>(_, _, _, h). inactive_count h, \<lambda>(_, _, todo, _). length todo]", goal_cases)
  case (4 clock kind a reason todo h c x)
  have "inactive_count (tick (put_ctx a (activated kind x (clock (ticks h)) c) h)) < inactive_count h"
    using inactive_count_put [OF 4(1,2), of "activated kind x (clock (ticks h)) c"]
    by (simp add: activated_def inactive_count_def tick_def)
  then show ?case by simp
qed auto

definition cancel ::
  "(nat \<Rightarrow> instant) \<Rightarrow> ctx_heap \<Rightarrow> nat \<Rightarrow> cancellation_kind \<Rightarrow> string \<Rightarrow> bool \<times> ctx_heap" where
  "cancel clock h a kind reason =
     (case dict_get (contexts h) a of
        None \<Rightarrow> (False, h)
      | Some c \<Rightarrow> if cc_active c then (False, h) else (True, cancel_calls clock kind [(a, reason)] h))"

section \<open>Binding and forking\<close>

text \<open>\<open>bind_run\<close>; \<open>path\<close> is the resolved path.\<close>

definition bind_run ::
  "ctx_heap \<Rightarrow> nat \<Rightarrow> string \<Rightarrow> string \<Rightarrow> string \<Rightarrow> unit result \<times> ctx_heap" where
  "bind_run h a engine run_id path =
     (case dict_get (contexts h) a of
        None \<Rightarrow> (Inr (), h)
      | Some c \<Rightarrow>
          (let b = \<lparr>rb_engine = take 100 engine, rb_run_id = run_id, rb_path = path\<rparr> in
           if cc_binding c \<noteq> None \<and> cc_binding c \<noteq> Some b
           then (Inl (ValueError ''execution cancellation context is already bound to another Run''), h)
           else (Inr (), put_ctx a (c\<lparr>cc_binding := Some b\<rparr>) h)))"

definition not_requested :: exn where
  "not_requested = RuntimeError ''execution cancellation has not been requested''"

record cancellation_snapshot =
  sn_job_id :: "string option"
  sn_control_plane_run_id :: "string option"
  sn_kind :: cancellation_kind
  sn_reason :: string
  sn_observed_at :: instant
  sn_engine :: "string option"
  sn_engine_run_id :: "string option"
  sn_cleanup_status :: cleanup_status
  sn_forced_at :: "instant option"
  sn_cleanup_completed_at :: "instant option"
  sn_executor_drained_at :: "instant option"
  sn_cleanup_error :: "string option"

definition snapshot_of :: "cancel_ctx \<Rightarrow> cancellation_snapshot result" where
  "snapshot_of c =
     (if \<not> cc_active c then Inl not_requested
      else case (cc_kind c, cc_reason c, cc_observed_at c, cc_status c) of
        (Some kind, Some reason, Some observed, Some status) \<Rightarrow>
          Inr \<lparr>sn_job_id = cc_job_id c, sn_control_plane_run_id = cc_control_plane_run_id c, sn_kind = kind,
               sn_reason = reason, sn_observed_at = observed,
               sn_engine = map_option rb_engine (cc_binding c),
               sn_engine_run_id = map_option rb_run_id (cc_binding c), sn_cleanup_status = status,
               sn_forced_at = cc_forced_at c, sn_cleanup_completed_at = cc_cleanup_completed_at c,
               sn_executor_drained_at = cc_executor_drained_at c, sn_cleanup_error = cc_cleanup_error c\<rparr>
      | _ \<Rightarrow> Inl AssertionError)"

text \<open>\<open>fork_for_run\<close>; \<open>child\<close> is the address of the new object.\<close>

definition add_child :: "nat \<Rightarrow> nat \<Rightarrow> ctx_heap \<Rightarrow> ctx_heap" where
  "add_child a child h =
     (case dict_get (contexts h) a of
        None \<Rightarrow> h
      | Some c \<Rightarrow> put_ctx a (c\<lparr>cc_children := cc_children c @ [child]\<rparr>) h)"

definition fork_for_run ::
  "(nat \<Rightarrow> instant) \<Rightarrow> ctx_heap \<Rightarrow> nat \<Rightarrow> nat \<Rightarrow> string \<Rightarrow> string \<Rightarrow> string \<Rightarrow> unit result \<times> ctx_heap" where
  "fork_for_run clock h a child engine run_id path =
     (case dict_get (contexts h) a of
        None \<Rightarrow> (Inr (), h)
      | Some c \<Rightarrow>
          (case bind_run (put_ctx child (new_ctx (cc_job_id c) (cc_control_plane_run_id c)) h) child engine run_id path of
             (Inl e, h2) \<Rightarrow> (Inl e, h2)
           | (Inr _, h2) \<Rightarrow>
               (if cc_active c
                then case snapshot_of c of
                    Inl e \<Rightarrow> (Inl e, h2)
                  | Inr s \<Rightarrow> (Inr (), add_child a child (snd (cancel clock h2 child (sn_kind s) (sn_reason s))))
                else (Inr (), add_child a child h2))))"

section \<open>Cleanup receipts\<close>

text \<open>\<open>mark_forced\<close>: the calls still to be made are those on active contexts.\<close>

partial_function (option) forced_calls ::
  "(nat \<Rightarrow> instant) \<Rightarrow> nat list \<Rightarrow> ctx_heap \<Rightarrow> ctx_heap option" where
  "forced_calls clock todo h =
     (case todo of
        [] \<Rightarrow> Some h
      | a # rest \<Rightarrow>
          (case dict_get (contexts h) a of
             None \<Rightarrow> forced_calls clock rest h
           | Some c \<Rightarrow>
               (if \<not> cc_active c then forced_calls clock rest h
                else forced_calls clock (cc_children c @ rest)
                  (if cc_forced_at c = None
                   then tick (put_ctx a (c\<lparr>cc_forced_at := Some (clock (ticks h))\<rparr>) h) else h))))"

definition mark_forced :: "(nat \<Rightarrow> instant) \<Rightarrow> ctx_heap \<Rightarrow> nat \<Rightarrow> (unit result \<times> ctx_heap) option" where
  "mark_forced clock h a =
     (case dict_get (contexts h) a of
        None \<Rightarrow> Some (Inl not_requested, h)
      | Some c \<Rightarrow>
          (if \<not> cc_active c then Some (Inl not_requested, h)
           else map_option (\<lambda>h'. (Inr (), h')) (forced_calls clock [a] h)))"

text \<open>The methods on one active context.\<close>

definition on_active ::
  "ctx_heap \<Rightarrow> nat \<Rightarrow> (cancel_ctx \<Rightarrow> ctx_heap) \<Rightarrow> unit result \<times> ctx_heap" where
  "on_active h a body =
     (case dict_get (contexts h) a of
        None \<Rightarrow> (Inl not_requested, h)
      | Some c \<Rightarrow> if cc_active c then (Inr (), body c) else (Inl not_requested, h))"

definition mark_cleanup_completed ::
  "(nat \<Rightarrow> instant) \<Rightarrow> ctx_heap \<Rightarrow> nat \<Rightarrow> unit result \<times> ctx_heap" where
  "mark_cleanup_completed clock h a = on_active h a (\<lambda>c.
     (if cc_status c = Some INCOMPLETE then h
      else
        let (at_time, h') = (case cc_cleanup_completed_at c of
                             None \<Rightarrow> (clock (ticks h), tick h) | Some t \<Rightarrow> (t, h))
        in put_ctx a (c\<lparr>cc_cleanup_completed_at := Some at_time,
             cc_status := Some (if cc_executor_drained_at c \<noteq> None then QUIESCED else CLEANUP_COMPLETED)\<rparr>) h'))"

definition mark_executor_drained ::
  "(nat \<Rightarrow> instant) \<Rightarrow> ctx_heap \<Rightarrow> nat \<Rightarrow> unit result \<times> ctx_heap" where
  "mark_executor_drained clock h a = on_active h a (\<lambda>c.
     (if cc_status c = Some INCOMPLETE then h
      else
        let (at_time, h') = (case cc_executor_drained_at c of
                             None \<Rightarrow> (clock (ticks h), tick h) | Some t \<Rightarrow> (t, h))
        in put_ctx a (c\<lparr>cc_executor_drained_at := Some at_time,
             cc_status := Some (if cc_cleanup_completed_at c \<noteq> None then QUIESCED else EXECUTOR_DRAINED)\<rparr>) h'))"

definition mark_incomplete :: "ctx_heap \<Rightarrow> nat \<Rightarrow> string \<Rightarrow> unit result \<times> ctx_heap" where
  "mark_incomplete h a error = on_active h a (\<lambda>c.
     put_ctx a (c\<lparr>cc_cleanup_error := Some (bounded_text error ''execution cleanup did not complete''),
                 cc_status := Some INCOMPLETE\<rparr>) h)"

section \<open>KillSwitch\<close>

record kill_switch =
  ks_has_path :: bool
  ks_active :: bool
  ks_reason :: "string option"
  ks_source :: "string option"

text \<open>What the signal file gave: absent, an error of \<open>lstat\<close>, an unreadable or undecodable file, or
  its text.\<close>

datatype signal_file = SignalAbsent | SignalStatError | SignalUnreadable | SignalText string

definition fallback_reason :: string where
  "fallback_reason = ''kill-switch signal file detected''"

definition activate :: "kill_switch \<Rightarrow> string \<Rightarrow> string \<Rightarrow> bool \<times> kill_switch" where
  "activate ks reason source =
     (if ks_active ks then (False, ks)
      else (True, ks\<lparr>ks_active := True, ks_reason := Some (take 500 reason), ks_source := Some (take 100 source)\<rparr>))"

definition poll :: "kill_switch \<Rightarrow> signal_file \<Rightarrow> bool \<times> kill_switch" where
  "poll ks file =
     (if ks_active ks \<or> \<not> ks_has_path ks then (ks_active ks, ks)
      else case file of
        SignalAbsent \<Rightarrow> (False, ks)
      | SignalStatError \<Rightarrow> (True, snd (activate ks fallback_reason ''signal-file''))
      | SignalUnreadable \<Rightarrow>
          (True, snd (activate ks
             (let r = py_strip (take 500 fallback_reason) in if r = [] then fallback_reason else r) ''signal-file''))
      | SignalText t \<Rightarrow>
          (True, snd (activate ks
             (let r = py_strip (take 500 t) in if r = [] then fallback_reason else r) ''signal-file'')))"

section \<open>Histories\<close>

text \<open>One call on some context; a new object has an address above all others.\<close>

definition fresh_address :: "ctx_heap \<Rightarrow> nat \<Rightarrow> bool" where
  "fresh_address h a = (\<forall>b \<in> fst ` set (contexts h). b < a)"

inductive ctx_step :: "(nat \<Rightarrow> instant) \<Rightarrow> ctx_heap \<Rightarrow> string \<Rightarrow> ctx_heap \<Rightarrow> bool" for clock where
  "fresh_address h a \<Longrightarrow> ctx_step clock h ''new'' (put_ctx a (new_ctx job run) h)"
| "cancel clock h a kind reason = (b, h') \<Longrightarrow> ctx_step clock h ''cancel'' h'"
| "bind_run h a engine run_id path = (res, h') \<Longrightarrow> ctx_step clock h ''bind_run'' h'"
| "fresh_address h child \<Longrightarrow> dict_get (contexts h) a = Some c \<Longrightarrow>
   fork_for_run clock h a child engine run_id path = (res, h') \<Longrightarrow> ctx_step clock h ''fork_for_run'' h'"
| "mark_forced clock h a = Some (res, h') \<Longrightarrow> ctx_step clock h ''mark_forced'' h'"
| "mark_cleanup_completed clock h a = (res, h') \<Longrightarrow> ctx_step clock h ''mark_cleanup_completed'' h'"
| "mark_executor_drained clock h a = (res, h') \<Longrightarrow> ctx_step clock h ''mark_executor_drained'' h'"
| "mark_incomplete h a error = (res, h') \<Longrightarrow> ctx_step clock h ''mark_incomplete'' h'"

definition empty_heap :: ctx_heap where
  "empty_heap = \<lparr>contexts = [], ticks = 0\<rparr>"

text \<open>\<open>b\<close> is \<open>a\<close> or was forked, in one or more steps, from it.\<close>

inductive forked_from :: "ctx_heap \<Rightarrow> nat \<Rightarrow> nat \<Rightarrow> bool" for h where
  forked_self: "forked_from h a a"
| forked_child: "forked_from h b a \<Longrightarrow> dict_get (contexts h) b = Some c \<Longrightarrow> d \<in> set (cc_children c) \<Longrightarrow>
    forked_from h d a"

section \<open>Invariants\<close>

text \<open>The cleanup status says which receipts are there.\<close>

definition receipt_status :: "cancel_ctx \<Rightarrow> cleanup_status" where
  "receipt_status c =
     (if cc_cleanup_completed_at c \<noteq> None
      then (if cc_executor_drained_at c \<noteq> None then QUIESCED else CLEANUP_COMPLETED)
      else (if cc_executor_drained_at c \<noteq> None then EXECUTOR_DRAINED else OBSERVED))"

definition ctx_ok :: "cancel_ctx \<Rightarrow> bool" where
  "ctx_ok c =
     (if cc_active c
      then cc_kind c \<noteq> None \<and> cc_observed_at c \<noteq> None \<and>
           (\<exists>r. cc_reason c = Some r \<and> r \<noteq> [] \<and> length r \<le> 500) \<and>
           (cc_status c = Some (receipt_status c) \<and> cc_cleanup_error c = None \<or>
            cc_status c = Some INCOMPLETE \<and> cc_cleanup_error c \<noteq> None)
      else cc_kind c = None \<and> cc_reason c = None \<and> cc_observed_at c = None \<and> cc_status c = None \<and>
           cc_forced_at c = None \<and> cc_cleanup_completed_at c = None \<and> cc_executor_drained_at c = None \<and>
           cc_cleanup_error c = None)"

text \<open>Children are younger objects; a child of an active context is active, or its call is still to be
  made.\<close>

definition tree_ok :: "nat set \<Rightarrow> ctx_heap \<Rightarrow> bool" where
  "tree_ok pending h = (\<forall>a c d. dict_get (contexts h) a = Some c \<longrightarrow> d \<in> set (cc_children c) \<longrightarrow>
     a < d \<and> (\<exists>c'. dict_get (contexts h) d = Some c' \<and> (cc_active c \<longrightarrow> cc_active c' \<or> d \<in> pending)))"

definition heap_ok :: "ctx_heap \<Rightarrow> bool" where
  "heap_ok h = (tree_ok {} h \<and> (\<forall>a c. dict_get (contexts h) a = Some c \<longrightarrow> ctx_ok c))"

text \<open>The signal is one-way and the receipts are monotonic: no call removes a context, takes a child or
  a binding away, or rewrites an observed cause or a receipt.\<close>

definition kept :: "'a option \<Rightarrow> 'a option \<Rightarrow> bool" where
  "kept x x' = (x = None \<or> x' = x)"

definition ctx_le :: "cancel_ctx \<Rightarrow> cancel_ctx \<Rightarrow> bool" where
  "ctx_le c c' =
     (set (cc_children c) \<subseteq> set (cc_children c') \<and> kept (cc_binding c) (cc_binding c') \<and>
      (cc_active c \<longrightarrow> cc_active c') \<and> kept (cc_kind c) (cc_kind c') \<and> kept (cc_reason c) (cc_reason c') \<and>
      kept (cc_observed_at c) (cc_observed_at c') \<and> kept (cc_forced_at c) (cc_forced_at c') \<and>
      kept (cc_cleanup_completed_at c) (cc_cleanup_completed_at c') \<and>
      kept (cc_executor_drained_at c) (cc_executor_drained_at c') \<and>
      (cc_status c = Some INCOMPLETE \<longrightarrow> cc_status c' = Some INCOMPLETE))"

definition ctx_keeps :: "ctx_heap \<Rightarrow> ctx_heap \<Rightarrow> bool" where
  "ctx_keeps h h' = (\<forall>a c. dict_get (contexts h) a = Some c \<longrightarrow>
     (\<exists>c'. dict_get (contexts h') a = Some c' \<and> ctx_le c c'))"

definition all_ctx_ok :: "ctx_heap \<Rightarrow> bool" where
  "all_ctx_ok h = (\<forall>a c. dict_get (contexts h) a = Some c \<longrightarrow> ctx_ok c)"

text \<open>The same heap up to the forced timestamps of active contexts.\<close>

definition forced_ext :: "ctx_heap \<Rightarrow> ctx_heap \<Rightarrow> bool" where
  "forced_ext h h' = (\<forall>a. case dict_get (contexts h) a of
      None \<Rightarrow> dict_get (contexts h') a = None
    | Some c \<Rightarrow> (\<exists>f. dict_get (contexts h') a = Some (c\<lparr>cc_forced_at := f\<rparr>) \<and> (\<not> cc_active c \<longrightarrow> f = cc_forced_at c) \<and> kept (cc_forced_at c) f))"

text \<open>A context, a fork of it and a fork of the fork; then the first one is cancelled.\<close>

definition sample_clock :: "nat \<Rightarrow> instant" where
  "sample_clock n = int n"

definition sample_heap1 :: ctx_heap where
  "sample_heap1 = put_ctx 0 (new_ctx (Some ''job'') None) empty_heap"

definition sample_heap2 :: ctx_heap where
  "sample_heap2 = snd (fork_for_run sample_clock sample_heap1 0 1 ''multi-agent'' ''run-1'' ''/runs/1'')"

definition sample_heap3 :: ctx_heap where
  "sample_heap3 = snd (fork_for_run sample_clock sample_heap2 1 2 ''multi-agent'' ''run-2'' ''/runs/2'')"

definition sample_heap4 :: ctx_heap where
  "sample_heap4 = snd (cancel sample_clock sample_heap3 0 LEASE_LOST '' lease lost '')"

definition sample_heap5 :: ctx_heap where
  "sample_heap5 = snd (mark_cleanup_completed sample_clock sample_heap4 1)"

definition sample_heap6 :: ctx_heap where
  "sample_heap6 = snd (mark_executor_drained sample_clock sample_heap5 1)"

section \<open>Lookups\<close>

lemma get_put [dict_simps]: "dict_get (contexts (put_ctx a c h)) b = (if b = a then Some c else dict_get (contexts h) b)"
  by (simp add: put_ctx_def dict_simps)

lemma contexts_tick [simp]: "contexts (tick h) = contexts h"
  by (simp add: tick_def)

lemma kept_simps [simp]: "kept x x" "kept None x" "kept (Some y) x \<longleftrightarrow> x = Some y"
  by (auto simp: kept_def)

lemma kept_trans: "kept x y \<Longrightarrow> kept y z \<Longrightarrow> kept x z"
  by (auto simp: kept_def)

lemma ctx_le_refl [simp]: "ctx_le c c"
  by (simp add: ctx_le_def)

lemma ctx_le_trans: "ctx_le c d \<Longrightarrow> ctx_le d e \<Longrightarrow> ctx_le c e"
  unfolding ctx_le_def by (auto elim: kept_trans)

lemma ctx_keeps_refl [simp]: "ctx_keeps h h"
  by (simp add: ctx_keeps_def)

lemma ctx_keepsD:
  "ctx_keeps h h' \<Longrightarrow> dict_get (contexts h) a = Some c \<Longrightarrow> \<exists>c'. dict_get (contexts h') a = Some c' \<and> ctx_le c c'"
  unfolding ctx_keeps_def by blast

lemma ctx_keeps_trans: "ctx_keeps g h \<Longrightarrow> ctx_keeps h k \<Longrightarrow> ctx_keeps g k"
  unfolding ctx_keeps_def using ctx_le_trans by metis

lemma ctx_keeps_put:
  assumes "dict_get (contexts h) a = Some c" and "ctx_le c c'"
  shows "ctx_keeps h (put_ctx a c' h)"
  using assms unfolding ctx_keeps_def by (auto simp: dict_simps)

lemma ctx_keeps_tick [simp]: "ctx_keeps h (tick h') \<longleftrightarrow> ctx_keeps h h'"
  by (simp add: ctx_keeps_def)

lemma all_ctx_ok_put: "all_ctx_ok h \<Longrightarrow> ctx_ok c \<Longrightarrow> all_ctx_ok (put_ctx a c h)"
  by (simp add: all_ctx_ok_def dict_simps)

lemma all_ctx_ok_tick [simp]: "all_ctx_ok (tick h) = all_ctx_ok h"
  by (simp add: all_ctx_ok_def)

lemma tree_ok_tick [simp]: "tree_ok p (tick h) = tree_ok p h"
  by (simp add: tree_ok_def)

lemma heap_ok_alt: "heap_ok h \<longleftrightarrow> tree_ok {} h \<and> all_ctx_ok h"
  by (simp add: heap_ok_def all_ctx_ok_def)

lemma tree_okD:
  assumes "tree_ok p h" "dict_get (contexts h) a = Some c" "d \<in> set (cc_children c)"
  shows "a < d" "\<exists>c'. dict_get (contexts h) d = Some c' \<and> (cc_active c \<longrightarrow> cc_active c' \<or> d \<in> p)"
  using assms unfolding tree_ok_def by blast+

text \<open>Replacing a context by one with the same children and the same signal.\<close>

lemma tree_ok_same:
  assumes "tree_ok p h" "dict_get (contexts h) a = Some c" "cc_children c' = cc_children c"
    "cc_active c' = cc_active c"
  shows "tree_ok p (put_ctx a c' h)"
  unfolding tree_ok_def
proof (intro allI impI)
  fix b e d
  assume b: "dict_get (contexts (put_ctx a c' h)) b = Some e" and d: "d \<in> set (cc_children e)"
  obtain e0 where e0: "dict_get (contexts h) b = Some e0" "cc_children e0 = cc_children e" "cc_active e0 = cc_active e"
    using b assms(2-4) by (cases "b = a") (auto simp: dict_simps)
  have "b < d" "\<exists>c1. dict_get (contexts h) d = Some c1 \<and> (cc_active e0 \<longrightarrow> cc_active c1 \<or> d \<in> p)"
    using tree_okD [OF assms(1) e0(1)] d e0(2) by auto
  then show "b < d \<and> (\<exists>c1. dict_get (contexts (put_ctx a c' h)) d = Some c1 \<and> (cc_active e \<longrightarrow> cc_active c1 \<or> d \<in> p))"
    using assms(2-4) e0(3) by (cases "d = a") (auto simp: dict_simps)
qed

lemma heap_ok_same:
  assumes "heap_ok h" "dict_get (contexts h) a = Some c" "cc_children c' = cc_children c"
    "cc_active c' = cc_active c" "ctx_ok c'"
  shows "heap_ok (put_ctx a c' h)"
  using assms tree_ok_same [of "{}" h a c c'] all_ctx_ok_put by (simp add: heap_ok_alt)

section \<open>cancel\<close>

lemma bounded_text_ok: "fallback \<noteq> [] \<Longrightarrow> length fallback \<le> 500 \<Longrightarrow> bounded_text s fallback \<noteq> [] \<and> length (bounded_text s fallback) \<le> 500"
  by (simp add: bounded_text_def Let_def)

lemma activated_ok:
  assumes "ctx_ok c" "\<not> cc_active c" "r \<noteq> []" "length r \<le> 500"
  shows "ctx_ok (activated kind r now c)"
  using assms by (simp add: ctx_ok_def activated_def receipt_status_def)

lemma activated_le: "ctx_ok c \<Longrightarrow> \<not> cc_active c \<Longrightarrow> ctx_le c (activated kind r now c)"
  by (simp add: ctx_ok_def activated_def ctx_le_def)

lemma tree_ok_activate:
  assumes "tree_ok (insert a p) h" "dict_get (contexts h) a = Some c"
  shows "tree_ok (set (cc_children c) \<union> p) (put_ctx a (activated kind r now c) h)"
  unfolding tree_ok_def
proof (intro allI impI)
  fix b e d
  assume b: "dict_get (contexts (put_ctx a (activated kind r now c) h)) b = Some e" and d: "d \<in> set (cc_children e)"
  obtain e0 where e0: "dict_get (contexts h) b = Some e0" "cc_children e0 = cc_children e"
    "b \<noteq> a \<Longrightarrow> e0 = e" "b = a \<Longrightarrow> e0 = c"
    using b assms(2) by (cases "b = a") (auto simp: dict_simps activated_def)
  have lt: "b < d" and "\<exists>c1. dict_get (contexts h) d = Some c1 \<and> (cc_active e0 \<longrightarrow> cc_active c1 \<or> d \<in> insert a p)"
    using tree_okD [OF assms(1) e0(1)] d e0(2) by auto
  then obtain c1 where c1: "dict_get (contexts h) d = Some c1" "cc_active e0 \<longrightarrow> cc_active c1 \<or> d \<in> insert a p" by blast
  show "b < d \<and> (\<exists>c1. dict_get (contexts (put_ctx a (activated kind r now c) h)) d = Some c1 \<and>
      (cc_active e \<longrightarrow> cc_active c1 \<or> d \<in> set (cc_children c) \<union> p))"
    using lt c1 e0 d by (cases "d = a"; cases "b = a") (auto simp: dict_simps activated_def)
qed

lemma tree_ok_drop:
  assumes "tree_ok (insert a p) h" "\<And>c. dict_get (contexts h) a = Some c \<Longrightarrow> cc_active c"
  shows "tree_ok p h"
  using assms unfolding tree_ok_def by (metis insert_iff)

lemma cancel_calls_ok:
  "tree_ok (fst ` set todo) h \<Longrightarrow> all_ctx_ok h \<Longrightarrow>
   heap_ok (cancel_calls clock kind todo h) \<and> ctx_keeps h (cancel_calls clock kind todo h) \<and>
   (\<forall>a r. (a, r) \<in> set todo \<longrightarrow> dict_get (contexts h) a \<noteq> None \<longrightarrow>
      (\<exists>c. dict_get (contexts (cancel_calls clock kind todo h)) a = Some c \<and> cc_active c))"
proof (induction clock kind todo h rule: cancel_calls.induct)
  case (1 clock kind h)
  then show ?case by (simp add: heap_ok_alt)
next
  case (2 clock kind a reason todo h)
  show ?case
  proof (cases "dict_get (contexts h) a")
    case None
    have "tree_ok (fst ` set todo) h" using tree_ok_drop [of a "fst ` set todo" h] 2(4) None by simp
    then show ?thesis using 2(1) [OF None] 2(5) None by auto
  next
    case (Some c)
    show ?thesis
    proof (cases "cc_active c")
      case True
      have "tree_ok (fst ` set todo) h" using tree_ok_drop [of a "fst ` set todo" h] 2(4) Some True by simp
      from 2(2) [OF Some True this 2(5)] show ?thesis
        using Some True by (auto dest!: ctx_keepsD [where a = a] simp: ctx_le_def)
    next
      case False
      define r where "r = bounded_text reason ''execution cancellation requested''"
      define h1 where "h1 = tick (put_ctx a (activated kind r (clock (ticks h)) c) h)"
      define todo1 where "todo1 = map (\<lambda>child. (child, r)) (cc_children c) @ todo"
      have r: "r \<noteq> []" "length r \<le> 500" unfolding r_def using bounded_text_ok by auto
      have run: "cancel_calls clock kind ((a, reason) # todo) h = cancel_calls clock kind todo1 h1"
        using Some False by (simp add: Let_def r_def h1_def todo1_def)
      have "tree_ok (fst ` set todo1) h1"
        using tree_ok_activate [OF _ Some, of "fst ` set todo"] 2(4)
        by (simp add: todo1_def h1_def image_Un image_image)
      moreover have "all_ctx_ok h1"
        unfolding h1_def using 2(5) activated_ok [OF _ False r] Some
        by (auto simp: all_ctx_ok_def dict_simps)
      ultimately have IH: "heap_ok (cancel_calls clock kind todo1 h1)" "ctx_keeps h1 (cancel_calls clock kind todo1 h1)"
        "\<And>b s. (b, s) \<in> set todo1 \<Longrightarrow> dict_get (contexts h1) b \<noteq> None \<Longrightarrow>
           \<exists>c. dict_get (contexts (cancel_calls clock kind todo1 h1)) b = Some c \<and> cc_active c"
        using 2(3) [OF Some False r_def] unfolding h1_def todo1_def by blast+
      have keep: "ctx_keeps h h1"
        unfolding h1_def using 2(5) Some ctx_keeps_put [OF Some activated_le] False by (simp add: all_ctx_ok_def)
      have act: "\<exists>c'. dict_get (contexts (cancel_calls clock kind todo1 h1)) a = Some c' \<and> cc_active c'"
        using ctx_keepsD [OF IH(2), of a "activated kind r (clock (ticks h)) c"]
        by (auto simp: h1_def dict_simps activated_def ctx_le_def)
      have dom: "dict_get (contexts h) b \<noteq> None \<Longrightarrow> dict_get (contexts h1) b \<noteq> None" for b
        by (auto simp: h1_def dict_simps)
      have sub: "(b, s) \<in> set todo \<Longrightarrow> (b, s) \<in> set todo1" for b s by (simp add: todo1_def)
      have "\<exists>c'. dict_get (contexts (cancel_calls clock kind todo1 h1)) b = Some c' \<and> cc_active c'"
        if "(b, s) \<in> set ((a, reason) # todo)" "dict_get (contexts h) b \<noteq> None" for b s
        using that act IH(3) [OF sub dom] by auto
      then show ?thesis unfolding run using IH(1) ctx_keeps_trans [OF keep IH(2)] by blast
    qed
  qed
qed

lemma cancel_ok:
  assumes "heap_ok h" "cancel clock h a kind reason = (b, h')"
  shows "heap_ok h'" "ctx_keeps h h'"
    "dict_get (contexts h) a = Some c \<Longrightarrow> \<exists>c'. dict_get (contexts h') a = Some c' \<and> cc_active c'"
proof -
  have mono: "tree_ok {} h \<Longrightarrow> tree_ok p h" for p unfolding tree_ok_def by blast
  have ok: "tree_ok (fst ` set [(a, reason)]) h" "all_ctx_ok h"
    using assms(1) mono by (auto simp: heap_ok_alt)
  show "heap_ok h'" "ctx_keeps h h'"
    "dict_get (contexts h) a = Some c \<Longrightarrow> \<exists>c'. dict_get (contexts h') a = Some c' \<and> cc_active c'"
    using assms cancel_calls_ok [OF ok, of clock kind]
    by (auto simp: cancel_def split: option.splits if_splits)
qed

section \<open>The other calls\<close>

lemma bind_run_ok:
  assumes "heap_ok h" "bind_run h a engine run_id path = (res, h')"
  shows "heap_ok h'" "ctx_keeps h h'"
proof -
  have ok: "ctx_ok c" if "dict_get (contexts h) a = Some c" for c
    using assms(1) that by (auto simp: heap_ok_def)
  have bind: "ctx_ok (c\<lparr>cc_binding := x\<rparr>) = ctx_ok c" for c x
    by (simp add: ctx_ok_def receipt_status_def)
  have le: "cc_binding c = None \<or> cc_binding c = Some b \<Longrightarrow> ctx_le c (c\<lparr>cc_binding := Some b\<rparr>)" for c b
    by (auto simp: ctx_le_def)
  show "heap_ok h'" "ctx_keeps h h'"
    using assms ok
    by (auto simp: bind_run_def Let_def bind intro: le split: option.splits if_splits
        intro!: heap_ok_same ctx_keeps_put)
qed

lemma on_active_ok:
  assumes "heap_ok h" "on_active h a body = (res, h')"
    and "\<And>c. dict_get (contexts h) a = Some c \<Longrightarrow> cc_active c \<Longrightarrow> ctx_ok c \<Longrightarrow>
      body c = h \<or> (\<exists>c' k. body c = put_ctx a c' k \<and> contexts k = contexts h \<and> cc_children c' = cc_children c \<and>
        ctx_le c c' \<and> ctx_ok c')"
  shows "heap_ok h' \<and> ctx_keeps h h'"
proof (cases "h' = h")
  case False
  then obtain c where c: "dict_get (contexts h) a = Some c" "cc_active c" "h' = body c"
    using assms(2) by (auto simp: on_active_def split: option.splits if_splits)
  moreover have "ctx_ok c" using assms(1) c(1) by (auto simp: heap_ok_def)
  ultimately obtain c' k where k: "h' = put_ctx a c' k" "contexts k = contexts h"
    "cc_children c' = cc_children c" "ctx_le c c'" "ctx_ok c'"
    using assms(3) [of c] False by auto
  have same: "heap_ok g = heap_ok g'" "ctx_keeps h g = ctx_keeps h g'" if "contexts g = contexts g'" for g g'
    using that by (simp_all add: heap_ok_def tree_ok_def ctx_keeps_def)
  have "contexts h' = contexts (put_ctx a c' h)" by (simp add: k(1,2) put_ctx_def)
  then show ?thesis
    using same [of h' "put_ctx a c' h"] heap_ok_same [OF assms(1) c(1) k(3) _ k(5)] k c(2)
      ctx_keeps_put [OF c(1) k(4)] by (simp add: ctx_le_def)
qed (use assms(1) in simp)

lemma mark_cleanup_completed_ok:
  assumes "heap_ok h" "mark_cleanup_completed clock h a = (res, h')"
  shows "heap_ok h' \<and> ctx_keeps h h'"
proof (rule on_active_ok [OF assms(1) assms(2) [unfolded mark_cleanup_completed_def]], goal_cases)
  case (1 c)
  define t where "t = (case cc_cleanup_completed_at c of None \<Rightarrow> clock (ticks h) | Some t \<Rightarrow> t)"
  define k where "k = (case cc_cleanup_completed_at c of None \<Rightarrow> tick h | Some _ \<Rightarrow> h)"
  define c' where "c' = c\<lparr>cc_cleanup_completed_at := Some t,
    cc_status := Some (if cc_executor_drained_at c \<noteq> None then QUIESCED else CLEANUP_COMPLETED)\<rparr>"
  have "(let (at_time, h') = (case cc_cleanup_completed_at c of None \<Rightarrow> (clock (ticks h), tick h) | Some t \<Rightarrow> (t, h))
      in put_ctx a (c\<lparr>cc_cleanup_completed_at := Some at_time,
        cc_status := Some (if cc_executor_drained_at c \<noteq> None then QUIESCED else CLEANUP_COMPLETED)\<rparr>) h') = put_ctx a c' k"
    by (simp add: t_def k_def c'_def split: option.splits)
  moreover have "contexts k = contexts h" by (simp add: k_def split: option.splits)
  moreover have "cc_status c \<noteq> Some INCOMPLETE \<Longrightarrow> ctx_ok c'"
    using 1(2,3) by (auto simp: c'_def ctx_ok_def receipt_status_def)
  moreover have "cc_status c \<noteq> Some INCOMPLETE \<Longrightarrow> ctx_le c c'"
    by (auto simp: c'_def ctx_le_def t_def split: option.splits)
  ultimately show ?case using 1(2) by (auto simp: c'_def)
qed

lemma mark_executor_drained_ok:
  assumes "heap_ok h" "mark_executor_drained clock h a = (res, h')"
  shows "heap_ok h' \<and> ctx_keeps h h'"
proof (rule on_active_ok [OF assms(1) assms(2) [unfolded mark_executor_drained_def]], goal_cases)
  case (1 c)
  define t where "t = (case cc_executor_drained_at c of None \<Rightarrow> clock (ticks h) | Some t \<Rightarrow> t)"
  define k where "k = (case cc_executor_drained_at c of None \<Rightarrow> tick h | Some _ \<Rightarrow> h)"
  define c' where "c' = c\<lparr>cc_executor_drained_at := Some t,
    cc_status := Some (if cc_cleanup_completed_at c \<noteq> None then QUIESCED else EXECUTOR_DRAINED)\<rparr>"
  have "(let (at_time, h') = (case cc_executor_drained_at c of None \<Rightarrow> (clock (ticks h), tick h) | Some t \<Rightarrow> (t, h))
      in put_ctx a (c\<lparr>cc_executor_drained_at := Some at_time,
        cc_status := Some (if cc_cleanup_completed_at c \<noteq> None then QUIESCED else EXECUTOR_DRAINED)\<rparr>) h') = put_ctx a c' k"
    by (simp add: t_def k_def c'_def split: option.splits)
  moreover have "contexts k = contexts h" by (simp add: k_def split: option.splits)
  moreover have "cc_status c \<noteq> Some INCOMPLETE \<Longrightarrow> ctx_ok c'"
    using 1(2,3) by (auto simp: c'_def ctx_ok_def receipt_status_def)
  moreover have "cc_status c \<noteq> Some INCOMPLETE \<Longrightarrow> ctx_le c c'"
    by (auto simp: c'_def ctx_le_def t_def split: option.splits)
  ultimately show ?case using 1(2) by (auto simp: c'_def)
qed

lemma mark_incomplete_ok:
  assumes "heap_ok h" "mark_incomplete h a e = (res, h')"
  shows "heap_ok h' \<and> ctx_keeps h h'"
  using assms(2) unfolding mark_incomplete_def
  by (rule on_active_ok [OF assms(1)]) (fastforce simp: ctx_ok_def ctx_le_def)

section \<open>Forking\<close>

lemma ctx_ok_updates [simp]:
  "ctx_ok (c\<lparr>cc_children := cs\<rparr>) = ctx_ok c" "cc_active c \<Longrightarrow> ctx_ok (c\<lparr>cc_forced_at := f\<rparr>) = ctx_ok c"
proof -
  have "receipt_status (c\<lparr>cc_children := cs\<rparr>) = receipt_status c" "receipt_status (c\<lparr>cc_forced_at := f\<rparr>) = receipt_status c"
    by (simp_all add: receipt_status_def)
  then show "ctx_ok (c\<lparr>cc_children := cs\<rparr>) = ctx_ok c" "cc_active c \<Longrightarrow> ctx_ok (c\<lparr>cc_forced_at := f\<rparr>) = ctx_ok c"
    by (simp_all add: ctx_ok_def)
qed

lemma fresh_address_None: "fresh_address h a \<Longrightarrow> dict_get (contexts h) a = None"
  by (auto simp: fresh_address_def map_of_eq_None_iff)

lemma fresh_address_less: "fresh_address h a \<Longrightarrow> dict_get (contexts h) b = Some c \<Longrightarrow> b < a"
  by (force simp: fresh_address_def dest: map_of_SomeD)

lemma new_ctx_facts [simp]: "ctx_ok (new_ctx j r)" "cc_children (new_ctx j r) = []" "\<not> cc_active (new_ctx j r)"
  by (simp_all add: new_ctx_def ctx_ok_def)

lemma heap_ok_new:
  assumes "heap_ok h" "fresh_address h a"
  shows "heap_ok (put_ctx a (new_ctx j r) h)" "ctx_keeps h (put_ctx a (new_ctx j r) h)"
proof -
  have None: "dict_get (contexts h) a = None" using fresh_address_None [OF assms(2)] .
  have "tree_ok {} h" "all_ctx_ok h" using assms(1) by (simp_all add: heap_ok_alt)
  have "tree_ok {} (put_ctx a (new_ctx j r) h)"
    unfolding tree_ok_def
  proof (intro allI impI)
    fix b c d
    assume b: "dict_get (contexts (put_ctx a (new_ctx j r) h)) b = Some c" and d: "d \<in> set (cc_children c)"
    have b': "dict_get (contexts h) b = Some c" using b d by (auto simp: dict_simps split: if_splits)
    then show "b < d \<and> (\<exists>c'. dict_get (contexts (put_ctx a (new_ctx j r) h)) d = Some c' \<and>
        (cc_active c \<longrightarrow> cc_active c' \<or> d \<in> {}))"
      using tree_okD [OF \<open>tree_ok {} h\<close> b' d] None by (auto simp: dict_simps)
  qed
  then show "heap_ok (put_ctx a (new_ctx j r) h)"
    using \<open>all_ctx_ok h\<close> by (simp add: heap_ok_alt all_ctx_ok_put)
  show "ctx_keeps h (put_ctx a (new_ctx j r) h)"
    using None unfolding ctx_keeps_def by (auto simp: dict_simps)
qed

lemma heap_ok_add_child:
  assumes "heap_ok h" "dict_get (contexts h) a = Some c" "dict_get (contexts h) d = Some e" "a < d"
    "cc_active c \<Longrightarrow> cc_active e"
  shows "heap_ok (add_child a d h)" "ctx_keeps h (add_child a d h)"
proof -
  let ?c = "c\<lparr>cc_children := cc_children c @ [d]\<rparr>"
  have add: "add_child a d h = put_ctx a ?c h" using assms(2) by (simp add: add_child_def)
  have tree: "tree_ok {} h" and all: "all_ctx_ok h" using assms(1) by (simp_all add: heap_ok_alt)
  have "ctx_ok c" using all assms(2) by (simp add: all_ctx_ok_def)
  then have "ctx_ok ?c" by simp
  moreover have "tree_ok {} (put_ctx a ?c h)"
    unfolding tree_ok_def
  proof (intro allI impI)
    fix b x y
    assume b: "dict_get (contexts (put_ctx a ?c h)) b = Some x" and y: "y \<in> set (cc_children x)"
    show "b < y \<and> (\<exists>c'. dict_get (contexts (put_ctx a ?c h)) y = Some c' \<and> (cc_active x \<longrightarrow> cc_active c' \<or> y \<in> {}))"
    proof (cases "b = a \<and> y = d")
      case True
      then show ?thesis using b assms(3-5) by (auto simp: dict_simps)
    next
      case False
      obtain x0 where x0: "dict_get (contexts h) b = Some x0" "y \<in> set (cc_children x0)" "cc_active x0 = cc_active x"
        using b y False assms(2) by (auto simp: dict_simps split: if_splits)
      then show ?thesis using tree_okD [OF tree x0(1,2)] assms(2) by (auto simp: dict_simps)
    qed
  qed
  ultimately show "heap_ok (add_child a d h)" using all all_ctx_ok_put by (simp add: add heap_ok_alt)
  show "ctx_keeps h (add_child a d h)"
    unfolding add by (rule ctx_keeps_put [OF assms(2)]) (auto simp: ctx_le_def)
qed

lemma snapshot_of_ok:
  assumes "ctx_ok c" "cc_active c"
  obtains s where "snapshot_of c = Inr s" "cc_kind c = Some (sn_kind s)" "cc_reason c = Some (sn_reason s)"
    "cc_observed_at c = Some (sn_observed_at s)" "cc_status c = Some (sn_cleanup_status s)"
    "sn_cleanup_completed_at s = cc_cleanup_completed_at c" "sn_executor_drained_at s = cc_executor_drained_at c"
    "sn_cleanup_error s = cc_cleanup_error c"
proof -
  obtain k r t u where "cc_kind c = Some k" "cc_reason c = Some r" "cc_observed_at c = Some t" "cc_status c = Some u"
    using assms by (auto simp: ctx_ok_def)
  then show thesis using assms(2) by (intro that [of "projr (snapshot_of c)"]) (simp_all add: snapshot_of_def)
qed

lemma fork_ok:
  assumes "heap_ok h" "fresh_address h d" "dict_get (contexts h) a = Some c"
    "fork_for_run clock h a d engine run_id path = (res, h')"
  shows "heap_ok h' \<and> ctx_keeps h h' \<and> res = Inr ()"
proof -
  define h1 where "h1 = put_ctx d (new_ctx (cc_job_id c) (cc_control_plane_run_id c)) h"
  define h2 where "h2 = snd (bind_run h1 d engine run_id path)"
  have h1: "heap_ok h1" "ctx_keeps h h1" unfolding h1_def using heap_ok_new [OF assms(1,2)] by auto
  have h2: "heap_ok h2" "ctx_keeps h1 h2"
    unfolding h2_def using bind_run_ok [OF h1(1) prod.collapse [symmetric]] by auto
  have bind: "bind_run h1 d engine run_id path = (Inr (), h2)"
    by (simp add: h2_def h1_def bind_run_def dict_simps Let_def new_ctx_def)
  have ad: "a < d" using fresh_address_less [OF assms(2,3)] .
  have a2: "dict_get (contexts h2) a = Some c"
    using assms(3) ad by (simp add: h2_def h1_def bind_run_def dict_simps Let_def new_ctx_def)
  obtain e where e: "dict_get (contexts h2) d = Some e"
    by (simp add: h2_def h1_def bind_run_def dict_simps Let_def new_ctx_def)
  have add: "heap_ok (add_child a d h3) \<and> ctx_keeps h (add_child a d h3)"
    if h3: "heap_ok h3" "ctx_keeps h2 h3" and c3: "dict_get (contexts h3) a = Some c3"
      and e3: "dict_get (contexts h3) d = Some e3" and act: "cc_active c3 \<Longrightarrow> cc_active e3" for h3 c3 e3
    using heap_ok_add_child [OF h3(1) c3 e3 ad act] ctx_keeps_trans h1(2) h2(2) h3(2) by blast
  have fork: "fork_for_run clock h a d engine run_id path =
      (if cc_active c
       then case snapshot_of c of
           Inl e \<Rightarrow> (Inl e, h2)
         | Inr s \<Rightarrow> (Inr (), add_child a d (snd (cancel clock h2 d (sn_kind s) (sn_reason s))))
       else (Inr (), add_child a d h2))"
    by (simp add: fork_for_run_def assms(3) h1_def [symmetric] bind)
  show ?thesis
  proof (cases "cc_active c")
    case False
    then show ?thesis using assms(4) fork add [OF h2(1) _ a2 e] by auto
  next
    case True
    have "ctx_ok c" using assms(1,3) by (auto simp: heap_ok_def)
    then obtain s where s: "snapshot_of c = Inr s" using True by (rule snapshot_of_ok)
    define h3 where "h3 = snd (cancel clock h2 d (sn_kind s) (sn_reason s))"
    have h3: "heap_ok h3" "ctx_keeps h2 h3"
      unfolding h3_def using cancel_ok(1,2) [OF h2(1) prod.collapse [symmetric]] by auto
    obtain e3 where "dict_get (contexts h3) d = Some e3" "cc_active e3"
      using cancel_ok(3) [OF h2(1) prod.collapse [symmetric] e, of clock "sn_kind s" "sn_reason s"]
      by (auto simp: h3_def)
    then show ?thesis
      using assms(4) fork add [OF h3] ctx_keepsD [OF h3(2) a2] True s by (auto simp: h3_def)
  qed
qed

section \<open>mark_forced ends\<close>

lemma kept_None [simp]: "kept x None \<longleftrightarrow> x = None"
  by (auto simp: kept_def)

lemma forced_ext_refl [simp]: "forced_ext h h"
  unfolding forced_ext_def by (auto split: option.splits intro!: exI)

lemma forced_extD:
  "forced_ext h h' \<Longrightarrow> dict_get (contexts h) a = Some c \<Longrightarrow>
   \<exists>f. dict_get (contexts h') a = Some (c\<lparr>cc_forced_at := f\<rparr>) \<and> (\<not> cc_active c \<longrightarrow> f = cc_forced_at c) \<and> kept (cc_forced_at c) f"
  unfolding forced_ext_def by (auto dest!: spec [where x = a])

lemma forced_ext_None: "forced_ext h h' \<Longrightarrow> dict_get (contexts h) a = None \<Longrightarrow> dict_get (contexts h') a = None"
  unfolding forced_ext_def by (auto dest!: spec [where x = a])

lemma forced_ext_put:
  assumes "forced_ext h h'" "dict_get (contexts h') a = Some c" "cc_active c" "cc_forced_at c = None"
  shows "forced_ext h (put_ctx a (c\<lparr>cc_forced_at := f\<rparr>) h')"
  unfolding forced_ext_def
proof
  fix b
  show "case dict_get (contexts h) b of
      None \<Rightarrow> dict_get (contexts (put_ctx a (c\<lparr>cc_forced_at := f\<rparr>) h')) b = None
    | Some x \<Rightarrow> (\<exists>g. dict_get (contexts (put_ctx a (c\<lparr>cc_forced_at := f\<rparr>) h')) b = Some (x\<lparr>cc_forced_at := g\<rparr>) \<and>
        (\<not> cc_active x \<longrightarrow> g = cc_forced_at x) \<and> kept (cc_forced_at x) g)"
  proof (cases "dict_get (contexts h) b")
    case None
    then show ?thesis using forced_ext_None [OF assms(1) None] assms(2) by (auto simp: dict_simps)
  next
    case (Some x)
    obtain g where g: "dict_get (contexts h') b = Some (x\<lparr>cc_forced_at := g\<rparr>)" "(\<not> cc_active x \<longrightarrow> g = cc_forced_at x) \<and> kept (cc_forced_at x) g"
      using forced_extD [OF assms(1) Some] by blast
    show ?thesis
    proof (cases "b = a")
      case True
      then show ?thesis using Some g assms(2-4) by (auto simp: dict_simps intro!: exI [of _ f])
    next
      case False
      then show ?thesis using Some g by (auto simp: dict_simps)
    qed
  qed
qed

lemma forced_ext_tick [simp]: "forced_ext h (tick h') = forced_ext h h'"
  unfolding forced_ext_def contexts_tick ..

lemma forced_calls_list:
  assumes "\<And>a h. a \<in> set as \<Longrightarrow> forced_ext h0 h \<Longrightarrow>
      \<exists>h'. forced_ext h0 h' \<and> (\<forall>rest. forced_calls clock (a # rest) h = forced_calls clock rest h')"
    and "forced_ext h0 h"
  shows "\<exists>h'. forced_ext h0 h' \<and> (\<forall>rest. forced_calls clock (as @ rest) h = forced_calls clock rest h')"
  using assms
proof (induction as arbitrary: h)
  case Nil
  then show ?case by auto
next
  case (Cons a as)
  obtain h1 where h1: "forced_ext h0 h1" "\<And>rest. forced_calls clock (a # rest) h = forced_calls clock rest h1"
    using Cons.prems(1) [of a h] Cons.prems(2) by auto
  obtain h2 where "forced_ext h0 h2" "\<And>rest. forced_calls clock (as @ rest) h1 = forced_calls clock rest h2"
    using Cons.IH [of h1] Cons.prems(1) h1(1) by (metis list.set_intros(2))
  then show ?case using h1(2) by auto
qed

lemma forced_calls_one:
  assumes "tree_ok {} h0" and "\<And>b. dict_get (contexts h0) b \<noteq> None \<Longrightarrow> b < N"
  shows "forced_ext h0 h \<Longrightarrow>
    \<exists>h'. forced_ext h0 h' \<and> (\<forall>rest. forced_calls clock (a # rest) h = forced_calls clock rest h')"
proof (induction "N - a" arbitrary: a h rule: less_induct)
  case less
  show ?case
  proof (cases "dict_get (contexts h0) a")
    case None
    then have "forced_calls clock (a # rest) h = forced_calls clock rest h" for rest
      using forced_ext_None [OF less.prems] by (subst forced_calls.simps) simp
    then show ?thesis using less.prems by blast
  next
    case (Some c)
    obtain f where f: "dict_get (contexts h) a = Some (c\<lparr>cc_forced_at := f\<rparr>)"
      using forced_extD [OF less.prems Some] by blast
    show ?thesis
    proof (cases "cc_active c")
      case False
      then have "forced_calls clock (a # rest) h = forced_calls clock rest h" for rest
        using f by (subst forced_calls.simps) simp
      then show ?thesis using less.prems by blast
    next
      case True
      define h1 where "h1 = (if f = None
        then tick (put_ctx a (c\<lparr>cc_forced_at := Some (clock (ticks h))\<rparr>) h) else h)"
      have "forced_calls clock (a # rest) h = forced_calls clock (cc_children c @ rest) h1" for rest
        using f True unfolding h1_def by (subst forced_calls.simps) auto
      moreover have "forced_ext h0 h1"
        using less.prems forced_ext_put [OF less.prems f] True by (simp add: h1_def)
      moreover have "N - d < N - a" if "d \<in> set (cc_children c)" for d
        using tree_okD [OF assms(1) Some that] assms(2) by force
      ultimately show ?thesis
        using forced_calls_list [of "cc_children c" h0 clock h1] less.hyps by metis
    qed
  qed
qed

lemma mark_forced_total:
  assumes "heap_ok h"
  shows "\<exists>res h'. mark_forced clock h a = Some (res, h') \<and> forced_ext h h'"
proof -
  define N where "N = Suc (Max (insert 0 (fst ` set (contexts h))))"
  have "b < N" if "dict_get (contexts h) b \<noteq> None" for b
    using that unfolding N_def by (intro le_imp_less_Suc Max_ge) (auto simp: map_of_eq_None_iff)
  then obtain h' where "forced_ext h h'" "\<And>rest. forced_calls clock (a # rest) h = forced_calls clock rest h'"
    using forced_calls_one [of h N h clock a] assms by (auto simp: heap_ok_alt)
  moreover have "forced_calls clock [] h' = Some h'" by (subst forced_calls.simps) simp
  ultimately show ?thesis
    by (cases "dict_get (contexts h) a") (auto simp: mark_forced_def)
qed

lemma forced_ext_ok:
  assumes "heap_ok h" "forced_ext h h'"
  shows "heap_ok h' \<and> ctx_keeps h h'"
proof -
  have before_forced: "\<exists>c0 f. dict_get (contexts h) a = Some c0 \<and> c = c0\<lparr>cc_forced_at := f\<rparr> \<and>
      (\<not> cc_active c0 \<longrightarrow> f = cc_forced_at c0)" if "dict_get (contexts h') a = Some c" for a c
    using that forced_ext_None [OF assms(2), of a] forced_extD [OF assms(2), of a]
    by (cases "dict_get (contexts h) a") auto
  have "tree_ok {} h'"
    unfolding tree_ok_def
  proof (intro allI impI)
    fix a c d
    assume a: "dict_get (contexts h') a = Some c" and d: "d \<in> set (cc_children c)"
    obtain c0 f where c0: "dict_get (contexts h) a = Some c0" "c = c0\<lparr>cc_forced_at := f\<rparr>" using before_forced [OF a] by blast
    have "tree_ok {} h" "d \<in> set (cc_children c0)" using assms(1) d c0(2) by (simp_all add: heap_ok_alt)
    from tree_okD [OF this(1) c0(1) this(2)]
    show "a < d \<and> (\<exists>c'. dict_get (contexts h') d = Some c' \<and> (cc_active c \<longrightarrow> cc_active c' \<or> d \<in> {}))"
      using forced_extD [OF assms(2), of d] c0(2) by fastforce
  qed
  moreover have "all_ctx_ok h'"
    unfolding all_ctx_ok_def
  proof (intro allI impI)
    fix a c
    assume "dict_get (contexts h') a = Some c"
    from before_forced [OF this] obtain c0 f where c0: "dict_get (contexts h) a = Some c0" "c = c0\<lparr>cc_forced_at := f\<rparr>"
      "\<not> cc_active c0 \<longrightarrow> f = cc_forced_at c0" by blast
    have "ctx_ok c0" using assms(1) c0(1) by (auto simp: heap_ok_def)
    then show "ctx_ok c" using c0(2,3) by (cases "cc_active c0") simp_all
  qed
  moreover have "ctx_keeps h h'"
    unfolding ctx_keeps_def using forced_extD [OF assms(2)] by (fastforce simp: ctx_le_def)
  ultimately show ?thesis by (simp add: heap_ok_alt)
qed

section \<open>Every run keeps the invariant\<close>

lemma ctx_step_ok: "ctx_step clock h e h' \<Longrightarrow> heap_ok h \<Longrightarrow> heap_ok h' \<and> ctx_keeps h h'"
proof (induction rule: ctx_step.induct)
  case (1 h a job run)
  then show ?case using heap_ok_new by blast
next
  case (2 h a kind reason b h')
  then show ?case using cancel_ok(1,2) by blast
next
  case (3 h a engine run_id path res h')
  then show ?case using bind_run_ok by blast
next
  case (4 h child a c engine run_id path res h')
  then show ?case using fork_ok by blast
next
  case (5 h a res h')
  then show ?case using mark_forced_total [OF 5(2), of clock a] forced_ext_ok by auto
qed (fact mark_cleanup_completed_ok [rotated] mark_executor_drained_ok [rotated] mark_incomplete_ok [rotated])+

interpretation context_runs: transition_invariant "ctx_step clock" heap_ok for clock
  by unfold_locales (use ctx_step_ok in blast)

lemma heap_ok_empty: "heap_ok empty_heap"
  by (simp add: heap_ok_def tree_ok_def empty_heap_def)

lemma reachable_ok: "steps (ctx_step clock) empty_heap es h \<Longrightarrow> heap_ok h"
  by (rule context_runs.run_inv [OF _ heap_ok_empty])

lemma run_keeps: "steps (ctx_step clock) h es h' \<Longrightarrow> heap_ok h \<Longrightarrow> ctx_keeps h h'"
proof (induction rule: steps.induct)
  case (steps_snoc h es t e u)
  then show ?case using ctx_step_ok [OF steps_snoc(2)] context_runs.run_inv [OF steps_snoc(1)] ctx_keeps_trans by blast
qed simp

lemma active_forks:
  assumes "forked_from h d a" "heap_ok h" "dict_get (contexts h) a = Some c" "cc_active c"
  shows "\<exists>e. dict_get (contexts h) d = Some e \<and> cc_active e"
  using assms
proof (induction rule: forked_from.induct)
  case (forked_child b a c' d)
  then show ?case using tree_okD(2) [of "{}" h b c' d] by (auto simp: heap_ok_alt)
qed blast

section \<open>The kill switch fails closed\<close>

lemma fallback_reason_ok: "fallback_reason \<noteq> []" "length fallback_reason \<le> 500"
  by (simp_all add: fallback_reason_def)

lemma poll_fail_closed:
  assumes "ks_has_path ks" "\<not> ks_active ks" "signal \<noteq> SignalAbsent" "poll ks signal = (stop, ks')"
  shows "stop \<and> ks_active ks' \<and> (\<exists>r. ks_reason ks' = Some r \<and> r \<noteq> [] \<and> length r \<le> 500)"
  using assms fallback_reason_ok by (cases signal) (auto simp: poll_def activate_def Let_def split: if_splits)

lemma kill_switch_one_way:
  assumes "ks_active ks"
  shows "activate ks reason source = (False, ks)" "poll ks signal = (True, ks)"
  using assms by (simp_all add: activate_def poll_def)

section \<open>Correctness\<close>

lemma sample_heap_steps:
  "ctx_step sample_clock empty_heap ''new'' sample_heap1"
  "ctx_step sample_clock sample_heap1 ''fork_for_run'' sample_heap2"
  "ctx_step sample_clock sample_heap2 ''fork_for_run'' sample_heap3"
  "ctx_step sample_clock sample_heap3 ''cancel'' sample_heap4"
  "ctx_step sample_clock sample_heap4 ''mark_cleanup_completed'' sample_heap5"
  "ctx_step sample_clock sample_heap5 ''mark_executor_drained'' sample_heap6"
proof -
  have "fresh_address empty_heap 0" by code_simp
  then show "ctx_step sample_clock empty_heap ''new'' sample_heap1"
    unfolding sample_heap1_def by (rule ctx_step.intros)
  have "fresh_address sample_heap1 1" "dict_get (contexts sample_heap1) 0 = Some (the (dict_get (contexts sample_heap1) 0))"
    "fork_for_run sample_clock sample_heap1 0 1 ''multi-agent'' ''run-1'' ''/runs/1'' = (Inr (), sample_heap2)"
    by code_simp+
  then show "ctx_step sample_clock sample_heap1 ''fork_for_run'' sample_heap2" by (rule ctx_step.intros)
  have "fresh_address sample_heap2 2" "dict_get (contexts sample_heap2) 1 = Some (the (dict_get (contexts sample_heap2) 1))"
    "fork_for_run sample_clock sample_heap2 1 2 ''multi-agent'' ''run-2'' ''/runs/2'' = (Inr (), sample_heap3)"
    by code_simp+
  then show "ctx_step sample_clock sample_heap2 ''fork_for_run'' sample_heap3" by (rule ctx_step.intros)
  have "cancel sample_clock sample_heap3 0 LEASE_LOST '' lease lost '' = (True, sample_heap4)" by code_simp
  then show "ctx_step sample_clock sample_heap3 ''cancel'' sample_heap4" by (rule ctx_step.intros)
  have "mark_cleanup_completed sample_clock sample_heap4 1 = (Inr (), sample_heap5)" by code_simp
  then show "ctx_step sample_clock sample_heap4 ''mark_cleanup_completed'' sample_heap5" by (rule ctx_step.intros)
  have "mark_executor_drained sample_clock sample_heap5 1 = (Inr (), sample_heap6)" by code_simp
  then show "ctx_step sample_clock sample_heap5 ''mark_executor_drained'' sample_heap6" by (rule ctx_step.intros)
qed

lemma sample_heap_run:
  "steps (ctx_step sample_clock) empty_heap [''new'', ''fork_for_run'', ''fork_for_run''] sample_heap3"
  "steps (ctx_step sample_clock) sample_heap4 [''mark_cleanup_completed'', ''mark_executor_drained''] sample_heap6"
  "steps (ctx_step sample_clock) empty_heap [''new'', ''fork_for_run'', ''fork_for_run'', ''cancel''] sample_heap4"
  by (rule steps_Cons sample_heap_steps | simp)+

text \<open>C26. After any history of calls on the contexts of an execution, cancelling a context also
  cancels every context that was forked from it, directly or through other forks.\<close>

theorem cancel_reaches_every_fork:
  assumes "steps (ctx_step clock) empty_heap es h"
    and "dict_get (contexts h) a \<noteq> None" and "cancel clock h a kind reason = (fresh, h')"
    and "forked_from h' d a"
  shows "\<exists>c. dict_get (contexts h') d = Some c \<and> cc_active c"
proof -
  obtain c where c: "dict_get (contexts h) a = Some c" using assms(2) by blast
  obtain c' where "dict_get (contexts h') a = Some c'" "cc_active c'"
    using cancel_ok(3) [OF reachable_ok [OF assms(1)] assms(3) c] by blast
  then show ?thesis using active_forks [OF assms(4) cancel_ok(1) [OF reachable_ok [OF assms(1)] assms(3)]] by blast
qed

lemma sample_forked: "forked_from sample_heap4 2 0"
proof -
  have "\<exists>c. dict_get (contexts sample_heap4) 0 = Some c \<and> 1 \<in> set (cc_children c)"
    "\<exists>c. dict_get (contexts sample_heap4) 1 = Some c \<and> 2 \<in> set (cc_children c)"
    "dict_get (contexts sample_heap4) 0 \<noteq> None" "dict_get (contexts sample_heap4) 1 \<noteq> None"
    by (rule exI [of _ "the (dict_get (contexts sample_heap4) 0)"], code_simp,
        rule exI [of _ "the (dict_get (contexts sample_heap4) 1)"], code_simp+)
  then show ?thesis by (meson forked_child forked_self)
qed

theorem cancel_reaches_every_fork_witness:
  "\<exists>c. dict_get (contexts sample_heap4) 2 = Some c \<and> cc_active c"
proof (rule cancel_reaches_every_fork [OF sample_heap_run(1)])
  show "dict_get (contexts sample_heap3) 0 \<noteq> None" by code_simp
  show "cancel sample_clock sample_heap3 0 LEASE_LOST '' lease lost '' = (True, sample_heap4)" by code_simp
qed (rule sample_forked)

text \<open>A cancellation is one-way and its receipt is monotonic: once a context is active, no later
  call on any context changes its kind, reason or observation time, takes back a forced, cleanup or
  drain time, or leaves the \<open>INCOMPLETE\<close> status.\<close>

theorem cancellation_is_one_way:
  assumes "steps (ctx_step clock) empty_heap es h" and "steps (ctx_step clock) h fs h'"
    and "dict_get (contexts h) a = Some c" and "cc_active c"
  shows "\<exists>c'. dict_get (contexts h') a = Some c' \<and> cc_active c' \<and>
      cc_kind c' = cc_kind c \<and> cc_reason c' = cc_reason c \<and> cc_observed_at c' = cc_observed_at c \<and>
      kept (cc_forced_at c) (cc_forced_at c') \<and> kept (cc_cleanup_completed_at c) (cc_cleanup_completed_at c') \<and>
      kept (cc_executor_drained_at c) (cc_executor_drained_at c') \<and>
      (cc_status c = Some INCOMPLETE \<longrightarrow> cc_status c' = Some INCOMPLETE)"
proof -
  have "ctx_ok c" using reachable_ok [OF assms(1)] assms(3) by (auto simp: heap_ok_def)
  then obtain k r t where "cc_kind c = Some k" "cc_reason c = Some r" "cc_observed_at c = Some t"
    using assms(4) by (auto simp: ctx_ok_def)
  moreover obtain c' where "dict_get (contexts h') a = Some c'" "ctx_le c c'"
    using ctx_keepsD [OF run_keeps [OF assms(2) reachable_ok [OF assms(1)]] assms(3)] by blast
  ultimately show ?thesis using assms(4) by (auto simp: ctx_le_def)
qed

theorem cancellation_is_one_way_witness:
  "\<exists>c'. dict_get (contexts sample_heap6) 1 = Some c' \<and> cc_active c' \<and> cc_kind c' = Some LEASE_LOST \<and>
      cc_reason c' = Some ''lease lost'' \<and> cc_observed_at c' = Some 1"
proof -
  define c where "c = the (dict_get (contexts sample_heap4) 1)"
  have c: "dict_get (contexts sample_heap4) 1 = Some c" "cc_active c"
    "cc_kind c = Some LEASE_LOST" "cc_reason c = Some ''lease lost''" "cc_observed_at c = Some 1"
    unfolding c_def by code_simp+
  from cancellation_is_one_way [OF sample_heap_run(3,2) c(1,2)] show ?thesis by (auto simp: c)
qed

text \<open>After any history the snapshot of an active context exists, none of its assertions fails,
  its reason has 1 to 500 characters, and it reports the status \<open>QUIESCED\<close> only if both the cleanup and
  the drain time are recorded; unless cleanup was marked incomplete, the status is exactly the one of
  the recorded times.\<close>

theorem snapshot_is_exact:
  assumes "steps (ctx_step clock) empty_heap es h"
    and "dict_get (contexts h) a = Some c" and "cc_active c"
  shows "\<exists>s. snapshot_of c = Inr s \<and> sn_reason s \<noteq> [] \<and> length (sn_reason s) \<le> 500 \<and>
      (sn_cleanup_status s = QUIESCED \<longrightarrow> sn_cleanup_completed_at s \<noteq> None \<and> sn_executor_drained_at s \<noteq> None) \<and>
      (sn_cleanup_status s = INCOMPLETE \<longleftrightarrow> sn_cleanup_error s \<noteq> None) \<and>
      (sn_cleanup_status s \<noteq> INCOMPLETE \<longrightarrow> sn_cleanup_status s = receipt_status c)"
proof -
  have ok: "ctx_ok c" using reachable_ok [OF assms(1)] assms(2) by (auto simp: heap_ok_def)
  then obtain s where s: "snapshot_of c = Inr s" "cc_reason c = Some (sn_reason s)"
    "cc_status c = Some (sn_cleanup_status s)" "sn_cleanup_completed_at s = cc_cleanup_completed_at c"
    "sn_executor_drained_at s = cc_executor_drained_at c" "sn_cleanup_error s = cc_cleanup_error c"
    using assms(3) by (rule snapshot_of_ok)
  have "receipt_status c \<noteq> INCOMPLETE" "receipt_status c = QUIESCED \<longleftrightarrow>
      cc_cleanup_completed_at c \<noteq> None \<and> cc_executor_drained_at c \<noteq> None"
    by (auto simp: receipt_status_def)
  then show ?thesis using ok assms(3) s by (auto simp: ctx_ok_def)
qed

theorem snapshot_is_exact_witness:
  "\<exists>c s. dict_get (contexts sample_heap4) 2 = Some c \<and> snapshot_of c = Inr s \<and> sn_reason s \<noteq> [] \<and>
     sn_cleanup_status s = OBSERVED"
proof -
  define c where "c = the (dict_get (contexts sample_heap4) 2)"
  have c: "dict_get (contexts sample_heap4) 2 = Some c" "cc_active c" "receipt_status c = OBSERVED" "cc_cleanup_error c = None"
    "sn_cleanup_error (projr (snapshot_of c)) = None"
    unfolding c_def by code_simp+
  from snapshot_is_exact [OF sample_heap_run(3) c(1,2)] c show ?thesis by auto
qed

text \<open>C27. \<open>mark_forced\<close> ends on every context of every reachable heap, whatever contexts were forked
  from which. On an active context it succeeds.\<close>

theorem mark_forced_returns:
  assumes "steps (ctx_step clock) empty_heap es h"
  shows "\<exists>res h'. mark_forced clock h a = Some (res, h') \<and>
      (\<forall>c. dict_get (contexts h) a = Some c \<longrightarrow> cc_active c \<longrightarrow> res = Inr ())"
  using mark_forced_total [OF reachable_ok [OF assms], of clock a]
  by (auto simp: mark_forced_def split: option.splits if_splits)

theorem mark_forced_returns_witness:
  "\<exists>h'. mark_forced sample_clock sample_heap4 0 = Some (Inr (), h')"
proof -
  have "dict_get (contexts sample_heap4) 0 \<noteq> None" "cc_active (the (dict_get (contexts sample_heap4) 0))"
    by code_simp+
  then show ?thesis using mark_forced_returns [OF sample_heap_run(3), of 0] by auto
qed

end
