(* ===== verification/Rate_Limits.thy ===== *)
theory Rate_Limits
  imports Policy_Engine
begin

text \<open>
  \<open>RequestRateLimitLedger\<close> of \<^verbatim>\<open>src/src/pajin/tools/gateway.py\<close>: request units of a campaign in a
  sliding window of one minute, reserved before a Worker is dispatched and released when the dispatch
  does not happen. A deque is a list with its left end first. The reservation identifier that
  \<open>uuid4\<close> gives is an argument.
\<close>

section \<open>The ledger\<close>

record rate_unit =
  unit_evaluated_at :: instant
  unit_reservation_id :: string

record rate_reservation =
  res_campaign :: string
  res_id :: string
  res_request_cost :: int

record rate_ledger =
  rate_ledger_id :: string
  request_times :: "(string, rate_unit list) dict"

definition new_rate_ledger :: "string \<Rightarrow> rate_ledger" where
  "new_rate_ledger hex = \<lparr>rate_ledger_id = ''rate-ledger_'' @ hex, request_times = []\<rparr>"

text \<open>\<open>_normalized_time\<close>.\<close>

definition normalized_time :: "now_argument \<Rightarrow> instant result" where
  "normalized_time value =
     (case value of
        NowDatetime d \<Rightarrow>
          (case utcoffset d of
             None \<Rightarrow> Inl (ValueError ''rate-limit evaluation time must include a UTC offset or Z'')
           | Some off \<Rightarrow> (if in_datetime_range (wall d - off) then Inr (wall d - off) else Inl OverflowError))
      | _ \<Rightarrow> Inl (TypeError ''rate-limit evaluation time must be a datetime''))"

definition rate_denial :: "int \<Rightarrow> int \<Rightarrow> policy_decision" where
  "rate_denial limit cost =
     deny (''campaign rate limit of '' @ show_int limit @ '' requests per minute cannot reserve '' @
           show_int cost @ '' request units'') ''rate-limit''"

definition rate_minute :: int where
  "rate_minute = seconds 60"

text \<open>The \<open>while\<close> loop that drops the expired units from the left.\<close>

fun popleft_expired :: "instant \<Rightarrow> rate_unit list \<Rightarrow> rate_unit list" where
  "popleft_expired cutoff [] = []"
| "popleft_expired cutoff (x # xs) =
     (if unit_evaluated_at x \<le> cutoff then popleft_expired cutoff xs else x # xs)"

definition units_of_campaign :: "rate_ledger \<Rightarrow> string \<Rightarrow> rate_unit list" where
  "units_of_campaign L name = (case dict_get (request_times L) name of None \<Rightarrow> [] | Some us \<Rightarrow> us)"

definition reserve_for_dispatch ::
  "rate_ledger \<Rightarrow> campaign_manifest \<Rightarrow> now_argument \<Rightarrow> py_num \<Rightarrow> string \<Rightarrow>
   (policy_decision option \<times> rate_reservation option) result \<times> rate_ledger" where
  "reserve_for_dispatch L c evaluated_at request_cost hex =
     (case (case request_cost of PyInt n \<Rightarrow> if 1 \<le> n \<and> n \<le> 100 then Some n else None | _ \<Rightarrow> None) of
        None \<Rightarrow> (Inl (ValueError ''rate-limit request cost must be an integer between 1 and 100''), L)
      | Some cost \<Rightarrow>
        (case max_requests_per_minute (spec_rules_of_engagement (campaign_spec c)) of
           None \<Rightarrow> (Inr (None, None), L)
         | Some limit \<Rightarrow>
           (case normalized_time evaluated_at of
              Inl e \<Rightarrow> (Inl e, L)
            | Inr t \<Rightarrow>
              (if \<not> in_datetime_range (t - rate_minute) then (Inl OverflowError, L)
               else
                 let name = metadata_name c;
                     us = popleft_expired (t - rate_minute) (units_of_campaign L name)
                 in if int (length us) + cost > limit
                    then (Inr (Some (rate_denial limit cost), None),
                          L\<lparr>request_times := dict_set name us (request_times L)\<rparr>)
                    else
                      let r = \<lparr>res_campaign = name, res_id = ''rate-reservation_'' @ hex, res_request_cost = cost\<rparr>
                      in (Inr (None, Some r),
                          L\<lparr>request_times := dict_set name
                              (us @ replicate (nat cost) \<lparr>unit_evaluated_at = t, unit_reservation_id = res_id r\<rparr>)
                              (request_times L)\<rparr>)))))"

definition rate_reserve ::
  "rate_ledger \<Rightarrow> campaign_manifest \<Rightarrow> now_argument \<Rightarrow> py_num \<Rightarrow> string \<Rightarrow>
   policy_decision option result \<times> rate_ledger" where
  "rate_reserve L c evaluated_at request_cost hex =
     (case reserve_for_dispatch L c evaluated_at request_cost hex of
        (Inl e, L') \<Rightarrow> (Inl e, L')
      | (Inr (decision, _), L') \<Rightarrow> (Inr decision, L'))"

definition rate_release :: "rate_ledger \<Rightarrow> rate_reservation \<Rightarrow> unit result \<times> rate_ledger" where
  "rate_release L r =
     (case dict_get (request_times L) (res_campaign r) of
        None \<Rightarrow> (Inr (), L)
      | Some us \<Rightarrow>
          (let retained = filter (\<lambda>x. unit_reservation_id x \<noteq> res_id r) us;
               removed = int (length us) - int (length retained)
           in if removed \<notin> {0, res_request_cost r}
              then (Inl (RuntimeError ''rate-limit reservation ledger is internally inconsistent''), L)
              else if retained \<noteq> []
              then (Inr (), L\<lparr>request_times := dict_set (res_campaign r) retained (request_times L)\<rparr>)
              else (Inr (), L\<lparr>request_times := dict_del (res_campaign r) (request_times L)\<rparr>)))"

section \<open>Histories\<close>

text \<open>
  A history of one ledger shared by any number of gateways. \<open>granted\<close> lists the reservations with the
  time of their evaluation, oldest first; \<open>released\<close> holds the identifiers given back; \<open>now\<close> is the
  time of the last call. The limit of a campaign belongs to its name. With \<open>ordered\<close>, calls come in
  the order of their evaluation times.
\<close>

record rate_history =
  granted :: "(rate_reservation \<times> instant) list"
  released :: "string set"
  last_call :: instant

definition granted_ids :: "rate_history \<Rightarrow> string set" where
  "granted_ids H = res_id ` fst ` set (granted H)"

inductive rate_run :: "bool \<Rightarrow> (string \<Rightarrow> int option) \<Rightarrow> rate_ledger \<Rightarrow> rate_history \<Rightarrow> bool"
  for ordered limits where
  rate_start:
    "rate_run ordered limits (new_rate_ledger hex) \<lparr>granted = [], released = {}, last_call = start\<rparr>"
| rate_reserved:
    "rate_run ordered limits L H \<Longrightarrow>
     max_requests_per_minute (spec_rules_of_engagement (campaign_spec c)) = limits (metadata_name c) \<Longrightarrow>
     normalized_time at_time = Inr t \<Longrightarrow> (ordered \<Longrightarrow> last_call H \<le> t) \<Longrightarrow>
     ''rate-reservation_'' @ hex \<notin> granted_ids H \<Longrightarrow>
     reserve_for_dispatch L c at_time cost hex = (Inr (d, r), L') \<Longrightarrow>
     rate_run ordered limits L'
       (H\<lparr>granted := granted H @ (case r of None \<Rightarrow> [] | Some r' \<Rightarrow> [(r', t)]), last_call := t\<rparr>)"
| rate_released:
    "rate_run ordered limits L H \<Longrightarrow> r \<in> fst ` set (granted H) \<Longrightarrow>
     rate_release L r = (Inr (), L') \<Longrightarrow>
     rate_run ordered limits L' (H\<lparr>released := insert (res_id r) (released H)\<rparr>)"

text \<open>The units of a list of reservations, and those of a campaign that still count.\<close>

definition block_units :: "rate_reservation \<times> instant \<Rightarrow> rate_unit list" where
  "block_units b = replicate (nat (res_request_cost (fst b)))
     \<lparr>unit_evaluated_at = snd b, unit_reservation_id = res_id (fst b)\<rparr>"

definition counting :: "rate_history \<Rightarrow> rate_reservation \<times> instant \<Rightarrow> bool" where
  "counting H b = (res_id (fst b) \<notin> released H)"

definition blocks_of :: "rate_history \<Rightarrow> string \<Rightarrow> (rate_reservation \<times> instant) list" where
  "blocks_of H name = filter (\<lambda>b. res_campaign (fst b) = name) (granted H)"

definition units_in_window :: "rate_history \<Rightarrow> string \<Rightarrow> instant \<Rightarrow> rate_unit list" where
  "units_in_window H name start =
     filter (\<lambda>x. start < unit_evaluated_at x \<and> unit_evaluated_at x \<le> start + rate_minute)
       (concat (map block_units (filter (counting H) (blocks_of H name))))"

definition rate_inv :: "bool \<Rightarrow> (string \<Rightarrow> int option) \<Rightarrow> rate_ledger \<Rightarrow> rate_history \<Rightarrow> bool" where
  "rate_inv ordered limits L H =
     (distinct (map (res_id \<circ> fst) (granted H)) \<and> released H \<subseteq> granted_ids H \<and>
      (\<forall>b \<in> set (granted H). 1 \<le> res_request_cost (fst b)) \<and>
      (ordered \<longrightarrow> (\<forall>b \<in> set (granted H). snd b \<le> last_call H)) \<and>
      (\<forall>name. \<exists>gone kept. blocks_of H name = gone @ kept \<and>
         units_of_campaign L name = concat (map block_units (filter (counting H) kept)) \<and>
         (ordered \<longrightarrow> (\<forall>b \<in> set gone. counting H b \<longrightarrow> snd b \<le> last_call H - rate_minute))) \<and>
      (ordered \<longrightarrow> (\<forall>name n start. limits name = Some n \<longrightarrow> int (length (units_in_window H name start)) \<le> max 0 n)))"

text \<open>Two reservations of the sample campaign, whose limit is three units a minute, and the release of
  the first.\<close>

definition sample_limits :: "string \<Rightarrow> int option" where
  "sample_limits name = Some 3"

definition sample_time :: "int \<Rightarrow> now_argument" where
  "sample_time s = NowDatetime (utc_datetime (seconds s))"

definition sample_rates0 :: rate_ledger where
  "sample_rates0 = new_rate_ledger ''0''"

definition sample_rates1 :: rate_ledger where
  "sample_rates1 = snd (reserve_for_dispatch sample_rates0 sample_campaign (sample_time 100) (PyInt 2) ''a'')"

definition sample_rates2 :: rate_ledger where
  "sample_rates2 = snd (reserve_for_dispatch sample_rates1 sample_campaign (sample_time 130) (PyInt 1) ''b'')"

definition sample_granted :: "string \<Rightarrow> int \<Rightarrow> rate_reservation" where
  "sample_granted hex cost = \<lparr>res_campaign = ''demo'', res_id = ''rate-reservation_'' @ hex, res_request_cost = cost\<rparr>"

definition sample_history1 :: rate_history where
  "sample_history1 = \<lparr>granted = [(sample_granted ''a'' 2, seconds 100)], released = {}, last_call = seconds 100\<rparr>"

definition sample_history2 :: rate_history where
  "sample_history2 =
     \<lparr>granted = [(sample_granted ''a'' 2, seconds 100), (sample_granted ''b'' 1, seconds 130)],
      released = {}, last_call = seconds 130\<rparr>"

section \<open>Blocks of units\<close>

lemma popleft_expired_eq: "popleft_expired c us = dropWhile (\<lambda>x. unit_evaluated_at x \<le> c) us"
  by (induction us) auto

lemma dropWhile_filter_eq: "dropWhile P (filter Q xs) = filter Q (dropWhile (\<lambda>x. Q x \<longrightarrow> P x) xs)"
  by (induction xs) auto

lemma dropWhile_blocks:
  "(\<And>b. b \<in> set bs \<Longrightarrow> 1 \<le> res_request_cost (fst b)) \<Longrightarrow>
   dropWhile (\<lambda>x. unit_evaluated_at x \<le> c) (concat (map block_units bs)) =
   concat (map block_units (dropWhile (\<lambda>b. snd b \<le> c) bs))"
proof (induction bs)
  case (Cons b bs)
  obtain k where k: "nat (res_request_cost (fst b)) = Suc k"
    using Cons.prems [of b] by (cases "nat (res_request_cost (fst b))") auto
  show ?case
  proof (cases "snd b \<le> c")
    case True
    then have "dropWhile (\<lambda>x. unit_evaluated_at x \<le> c) (block_units b @ us) =
        dropWhile (\<lambda>x. unit_evaluated_at x \<le> c) us" for us
      by (intro dropWhile_append2) (simp add: block_units_def)
    then show ?thesis using Cons True by simp
  next
    case False
    then show ?thesis using k by (simp add: block_units_def)
  qed
qed simp

lemma filter_blocks:
  "filter (\<lambda>x. unit_reservation_id x \<noteq> i) (concat (map block_units bs)) =
   concat (map block_units (filter (\<lambda>b. res_id (fst b) \<noteq> i) bs))"
  by (induction bs) (auto simp: block_units_def)

lemma length_without_block:
  assumes "distinct (map (res_id \<circ> fst) bs)" "\<And>b. b \<in> set bs \<Longrightarrow> 1 \<le> res_request_cost (fst b)"
    "\<And>b. b \<in> set bs \<Longrightarrow> res_id (fst b) = i \<Longrightarrow> res_request_cost (fst b) = n"
  shows "int (length (concat (map block_units bs))) -
    int (length (concat (map block_units (filter (\<lambda>b. res_id (fst b) \<noteq> i) bs)))) \<in> {0, n}"
  using assms
proof (induction bs)
  case (Cons b bs)
  show ?case
  proof (cases "res_id (fst b) = i")
    case True
    have "(res_id \<circ> fst) b \<notin> set (map (res_id \<circ> fst) bs)" using Cons.prems(1) by simp
    then have "\<forall>c \<in> set bs. res_id (fst c) \<noteq> i" unfolding True [symmetric] by (simp add: image_iff) metis
    then have "filter (\<lambda>b. res_id (fst b) \<noteq> i) bs = bs" by (simp add: filter_id_conv)
    then show ?thesis using True Cons.prems(2,3) [of b] by (simp add: block_units_def)
  next
    case False
    then show ?thesis using Cons by (auto simp: block_units_def)
  qed
qed simp

lemma window_blocks:
  "length (filter (\<lambda>x. P (unit_evaluated_at x)) (concat (map block_units bs))) =
   length (concat (map block_units (filter (\<lambda>b. P (snd b)) bs)))"
  by (induction bs) (auto simp: block_units_def)

lemma length_blocks_mono:
  "(\<And>b. b \<in> set bs \<Longrightarrow> P b \<Longrightarrow> Q b) \<Longrightarrow>
   length (concat (map block_units (filter P bs))) \<le> length (concat (map block_units (filter Q bs)))"
  by (induction bs) (auto simp: le_SucI trans_le_add2)

lemma units_of_campaign_set [simp]:
  "units_of_campaign (L\<lparr>request_times := dict_set n us (request_times L)\<rparr>) m = (if m = n then us else units_of_campaign L m)"
  by (simp add: units_of_campaign_def dict_simps)

lemma units_of_campaign_del [simp]:
  "units_of_campaign (L\<lparr>request_times := dict_del n (request_times L)\<rparr>) m = (if m = n then [] else units_of_campaign L m)"
  by (simp add: units_of_campaign_def dict_simps)

section \<open>Release\<close>

lemma units_in_window_alt:
  "length (units_in_window H name start) =
   length (concat (map block_units (filter (\<lambda>b. start < snd b \<and> snd b \<le> start + rate_minute)
      (filter (counting H) (blocks_of H name)))))"
  unfolding units_in_window_def by (rule window_blocks)

lemma rate_invD:
  assumes "rate_inv ordered limits L H"
  shows "distinct (map (res_id \<circ> fst) (granted H))" "\<And>b. b \<in> set (granted H) \<Longrightarrow> 1 \<le> res_request_cost (fst b)"
    "\<And>b. ordered \<Longrightarrow> b \<in> set (granted H) \<Longrightarrow> snd b \<le> last_call H"
    "\<And>name n start. ordered \<Longrightarrow> limits name = Some n \<Longrightarrow> int (length (units_in_window H name start)) \<le> max 0 n"
  using assms by (auto simp: rate_inv_def)

lemma rate_inv_kept:
  assumes "rate_inv ordered limits L H"
  obtains gone kept where "blocks_of H name = gone @ kept"
    "units_of_campaign L name = concat (map block_units (filter (counting H) kept))"
    "\<And>b. ordered \<Longrightarrow> b \<in> set gone \<Longrightarrow> counting H b \<Longrightarrow> snd b \<le> last_call H - rate_minute"
    "set kept \<subseteq> set (granted H)" "distinct (map (res_id \<circ> fst) kept)"
proof -
  obtain gone kept where *: "blocks_of H name = gone @ kept"
    "units_of_campaign L name = concat (map block_units (filter (counting H) kept))"
    "ordered \<longrightarrow> (\<forall>b \<in> set gone. counting H b \<longrightarrow> snd b \<le> last_call H - rate_minute)"
    using assms unfolding rate_inv_def by metis
  have "set (gone @ kept) \<subseteq> set (granted H)" using *(1) by (auto simp: blocks_of_def simp flip: *(1))
  moreover have "distinct (map (res_id \<circ> fst) (gone @ kept))"
    using rate_invD(1) [OF assms] unfolding *(1) [symmetric] blocks_of_def by (rule distinct_map_filter)
  ultimately show thesis using that * by auto
qed

lemma rate_release_exact:
  assumes "rate_inv ordered limits L H" "(r, t) \<in> set (granted H)"
  shows "\<exists>L'. rate_release L r = (Inr (), L') \<and>
    (\<forall>name. units_of_campaign L' name =
      (if name = res_campaign r then filter (\<lambda>x. unit_reservation_id x \<noteq> res_id r) (units_of_campaign L name)
       else units_of_campaign L name))"
proof (cases "dict_get (request_times L) (res_campaign r)")
  case None
  then show ?thesis by (auto simp: rate_release_def units_of_campaign_def)
next
  case (Some us)
  obtain kept where kept: "us = concat (map block_units (filter (counting H) kept))"
    "set kept \<subseteq> set (granted H)" "distinct (map (res_id \<circ> fst) kept)"
    using rate_inv_kept [OF assms(1), of "res_campaign r"] Some by (metis units_of_campaign_def option.simps(5))
  have inj: "inj_on (res_id \<circ> fst) (set (granted H))" using rate_invD(1) [OF assms(1)] by (simp add: distinct_map)
  have "int (length us) - int (length (filter (\<lambda>x. unit_reservation_id x \<noteq> res_id r) us)) \<in> {0, res_request_cost r}"
    unfolding kept(1) filter_blocks
  proof (rule length_without_block)
    show "distinct (map (res_id \<circ> fst) (filter (counting H) kept))" using kept(3) by (rule distinct_map_filter)
    fix b
    assume b: "b \<in> set (filter (counting H) kept)"
    then have "b \<in> set (granted H)" using kept(2) by auto
    then show "1 \<le> res_request_cost (fst b)" using rate_invD(2) [OF assms(1)] by blast
    show "res_request_cost (fst b) = res_request_cost r" if "res_id (fst b) = res_id r"
      using inj_onD [OF inj _ \<open>b \<in> set (granted H)\<close> assms(2)] that by auto
  qed
  then show ?thesis using Some by (auto simp: rate_release_def Let_def units_of_campaign_def dict_simps)
qed

lemma rate_release_inv:
  assumes "rate_inv ordered limits L H" "r \<in> fst ` set (granted H)" "rate_release L r = (Inr (), L')"
  shows "rate_inv ordered limits L' (H\<lparr>released := insert (res_id r) (released H)\<rparr>)"
proof -
  let ?H = "H\<lparr>released := insert (res_id r) (released H)\<rparr>"
  obtain t where t: "(r, t) \<in> set (granted H)" using assms(2) by force
  have count: "counting ?H = (\<lambda>b. counting H b \<and> res_id (fst b) \<noteq> res_id r)" by (auto simp: counting_def fun_eq_iff)
  have units: "units_of_campaign L' name =
      (if name = res_campaign r then filter (\<lambda>x. unit_reservation_id x \<noteq> res_id r) (units_of_campaign L name)
       else units_of_campaign L name)" for name
    using rate_release_exact [OF assms(1) t] assms(3) by auto
  have inj: "inj_on (res_id \<circ> fst) (set (granted H))" using rate_invD(1) [OF assms(1)] by (simp add: distinct_map)
  have campaign: "res_id (fst b) = res_id r \<Longrightarrow> b \<in> set (granted H) \<Longrightarrow> b = (r, t)" for b
    using inj_onD [OF inj _ _ t] by auto
  have "\<exists>gone kept. blocks_of ?H name = gone @ kept \<and>
      units_of_campaign L' name = concat (map block_units (filter (counting ?H) kept)) \<and>
      (ordered \<longrightarrow> (\<forall>b \<in> set gone. counting ?H b \<longrightarrow> snd b \<le> last_call ?H - rate_minute))" for name
  proof -
    obtain gone kept where *: "blocks_of H name = gone @ kept"
      "units_of_campaign L name = concat (map block_units (filter (counting H) kept))"
      "\<And>b. ordered \<Longrightarrow> b \<in> set gone \<Longrightarrow> counting H b \<Longrightarrow> snd b \<le> last_call H - rate_minute"
      "set kept \<subseteq> set (granted H)"
      using rate_inv_kept [OF assms(1), of name] by metis
    have "filter (counting ?H) kept = filter (\<lambda>b. res_id (fst b) \<noteq> res_id r) (filter (counting H) kept)"
      by (simp add: count conj_commute)
    moreover have "filter (\<lambda>b. res_id (fst b) \<noteq> res_id r) (filter (counting H) kept) = filter (counting H) kept"
      if "name \<noteq> res_campaign r"
    proof -
      have "b \<in> set kept \<Longrightarrow> res_campaign (fst b) = name" for b
        using arg_cong [OF *(1), of set] by (auto simp: blocks_of_def)
      then have "res_id (fst b) \<noteq> res_id r" if "b \<in> set kept" for b
        using that campaign [of b] *(4) \<open>name \<noteq> res_campaign r\<close> by force
      then show ?thesis by (auto intro: filter_cong)
    qed
    ultimately have "units_of_campaign L' name = concat (map block_units (filter (counting ?H) kept))"
      using units [of name] *(2) by (auto simp: filter_blocks)
    then show ?thesis using * by (intro exI [of _ gone] exI [of _ kept]) (auto simp: blocks_of_def count)
  qed
  moreover have "length (units_in_window ?H name start) \<le> length (units_in_window H name start)" for name start
    unfolding units_in_window_alt by (simp add: blocks_of_def count filter_filter) (rule length_blocks_mono, simp)
  then have "int (length (units_in_window ?H name start)) \<le> max 0 n" if "ordered" "limits name = Some n" for name n start
    using rate_invD(4) [OF assms(1) that, of start] by (meson of_nat_mono order_trans)
  moreover have "released ?H \<subseteq> granted_ids ?H" using assms(1,2) by (auto simp: rate_inv_def granted_ids_def)
  ultimately show ?thesis using rate_invD(1-3) [OF assms(1)] unfolding rate_inv_def by simp
qed

section \<open>Reservation\<close>

lemma reserve_cases:
  assumes "reserve_for_dispatch L c at_time cost hex = (Inr (d, r), L')" "normalized_time at_time = Inr t"
  obtains (unlimited) "max_requests_per_minute (spec_rules_of_engagement (campaign_spec c)) = None" "r = None" "L' = L"
  | (denied) limit us where "max_requests_per_minute (spec_rules_of_engagement (campaign_spec c)) = Some limit" "r = None"
      "us = popleft_expired (t - rate_minute) (units_of_campaign L (metadata_name c))"
      "L' = L\<lparr>request_times := dict_set (metadata_name c) us (request_times L)\<rparr>"
  | (reserved) limit us n r' where "max_requests_per_minute (spec_rules_of_engagement (campaign_spec c)) = Some limit"
      "us = popleft_expired (t - rate_minute) (units_of_campaign L (metadata_name c))" "1 \<le> n"
      "int (length us) + n \<le> limit" "r = Some r'"
      "r' = \<lparr>res_campaign = metadata_name c, res_id = ''rate-reservation_'' @ hex, res_request_cost = n\<rparr>"
      "L' = L\<lparr>request_times := dict_set (metadata_name c) (us @ block_units (r', t)) (request_times L)\<rparr>"
proof -
  obtain n where n: "cost = PyInt n" "1 \<le> n" "n \<le> 100"
    using assms(1) by (auto simp: reserve_for_dispatch_def split: py_num.splits if_splits)
  show thesis
  proof (cases "max_requests_per_minute (spec_rules_of_engagement (campaign_spec c))")
    case None
    then show ?thesis using assms n by (intro unlimited) (auto simp: reserve_for_dispatch_def)
  next
    case (Some limit)
    define us where "us = popleft_expired (t - rate_minute) (units_of_campaign L (metadata_name c))"
    have range: "in_datetime_range (t - rate_minute)"
      using assms n Some by (auto simp: reserve_for_dispatch_def split: if_splits)
    show ?thesis
    proof (cases "int (length us) + n > limit")
      case True
      then have "reserve_for_dispatch L c at_time cost hex = (Inr (Some (rate_denial limit n), None),
          L\<lparr>request_times := dict_set (metadata_name c) us (request_times L)\<rparr>)"
        using assms(2) n Some range by (simp add: reserve_for_dispatch_def Let_def us_def)
      then show ?thesis using assms(1) by (intro denied [OF Some _ us_def]) simp_all
    next
      case False
      define r' where "r' = \<lparr>res_campaign = metadata_name c, res_id = ''rate-reservation_'' @ hex, res_request_cost = n\<rparr>"
      have "reserve_for_dispatch L c at_time cost hex = (Inr (None, Some r'),
          L\<lparr>request_times := dict_set (metadata_name c) (us @ block_units (r', t)) (request_times L)\<rparr>)"
        using False assms(2) n Some range by (simp add: reserve_for_dispatch_def Let_def us_def r'_def block_units_def)
      then show ?thesis using assms(1) False n(2) by (intro reserved [OF Some us_def n(2) _ _ r'_def]) simp_all
    qed
  qed
qed

lemma popleft_blocks:
  assumes "\<And>b. b \<in> set kept \<Longrightarrow> 1 \<le> res_request_cost (fst b)"
  shows "popleft_expired cutoff (concat (map block_units (filter Q kept))) =
    concat (map block_units (filter Q (dropWhile (\<lambda>b. Q b \<longrightarrow> snd b \<le> cutoff) kept)))"
proof -
  have "b \<in> set (filter Q kept) \<Longrightarrow> 1 \<le> res_request_cost (fst b)" for b using assms by simp
  then show ?thesis unfolding popleft_expired_eq by (subst dropWhile_blocks) (simp_all add: dropWhile_filter_eq)
qed

text \<open>Dropping the expired units from the left moves the border between gone and kept blocks.\<close>

lemma rate_inv_popleft:
  assumes "rate_inv ordered limits L H" "ordered \<Longrightarrow> last_call H \<le> t"
  obtains gone kept where "blocks_of H name = gone @ kept"
    "popleft_expired (t - rate_minute) (units_of_campaign L name) = concat (map block_units (filter (counting H) kept))"
    "\<And>b. ordered \<Longrightarrow> b \<in> set gone \<Longrightarrow> counting H b \<Longrightarrow> snd b \<le> t - rate_minute"
    "set kept \<subseteq> set (granted H)"
proof -
  obtain gone kept where *: "blocks_of H name = gone @ kept"
    "units_of_campaign L name = concat (map block_units (filter (counting H) kept))"
    "\<And>b. ordered \<Longrightarrow> b \<in> set gone \<Longrightarrow> counting H b \<Longrightarrow> snd b \<le> last_call H - rate_minute"
    "set kept \<subseteq> set (granted H)"
    using rate_inv_kept [OF assms(1), of name] by metis
  let ?P = "\<lambda>b. counting H b \<longrightarrow> snd b \<le> t - rate_minute"
  have "blocks_of H name = (gone @ takeWhile ?P kept) @ dropWhile ?P kept" by (simp add: *(1))
  moreover have "popleft_expired (t - rate_minute) (units_of_campaign L name) =
      concat (map block_units (filter (counting H) (dropWhile ?P kept)))"
    unfolding *(2) by (rule popleft_blocks) (use *(4) rate_invD(2) [OF assms(1)] in blast)
  moreover have "snd b \<le> t - rate_minute" if "ordered" "b \<in> set (gone @ takeWhile ?P kept)" "counting H b" for b
    using that *(3) [of b] assms(2) by (auto dest: set_takeWhileD)
  moreover have "set (dropWhile ?P kept) \<subseteq> set (granted H)" using *(4) by (auto dest: set_dropWhileD)
  ultimately show thesis by (rule that)
qed

lemma rate_inv_frame:
  assumes "rate_inv ordered limits L H" "ordered \<Longrightarrow> last_call H \<le> t"
    and "\<And>name. units_of_campaign L' name = units_of_campaign L name \<or>
      units_of_campaign L' name = popleft_expired (t - rate_minute) (units_of_campaign L name)"
  shows "rate_inv ordered limits L' (H\<lparr>last_call := t\<rparr>)"
proof -
  let ?H = "H\<lparr>last_call := t\<rparr>"
  have same: "blocks_of ?H = blocks_of H" "counting ?H = counting H" "units_in_window ?H = units_in_window H"
    by (auto simp: blocks_of_def counting_def units_in_window_def fun_eq_iff)
  have "\<exists>gone kept. blocks_of ?H name = gone @ kept \<and>
      units_of_campaign L' name = concat (map block_units (filter (counting ?H) kept)) \<and>
      (ordered \<longrightarrow> (\<forall>b \<in> set gone. counting ?H b \<longrightarrow> snd b \<le> last_call ?H - rate_minute))" for name
    using assms(3) [of name]
  proof
    assume "units_of_campaign L' name = units_of_campaign L name"
    moreover obtain gone kept where "blocks_of H name = gone @ kept"
      "units_of_campaign L name = concat (map block_units (filter (counting H) kept))"
      "\<And>b. ordered \<Longrightarrow> b \<in> set gone \<Longrightarrow> counting H b \<Longrightarrow> snd b \<le> last_call H - rate_minute"
      using rate_inv_kept [OF assms(1), of name] by metis
    ultimately show ?thesis using assms(2) by (intro exI [of _ gone] exI [of _ kept]) (fastforce simp: same)
  next
    assume "units_of_campaign L' name = popleft_expired (t - rate_minute) (units_of_campaign L name)"
    moreover obtain gone kept where "blocks_of H name = gone @ kept"
      "popleft_expired (t - rate_minute) (units_of_campaign L name) = concat (map block_units (filter (counting H) kept))"
      "\<And>b. ordered \<Longrightarrow> b \<in> set gone \<Longrightarrow> counting H b \<Longrightarrow> snd b \<le> t - rate_minute"
      using rate_inv_popleft [OF assms(1,2), of name] by metis
    ultimately show ?thesis by (intro exI [of _ gone] exI [of _ kept]) (simp add: same)
  qed
  then show ?thesis using assms(1,2) unfolding rate_inv_def by (auto simp: same granted_ids_def)
qed

lemma blocks_window:
  assumes "\<And>b. b \<in> set bs \<Longrightarrow> Q b \<Longrightarrow> b \<in> set gone \<Longrightarrow> \<not> P b" "bs = gone @ kept"
  shows "length (concat (map block_units (filter P (filter Q bs)))) \<le> length (concat (map block_units (filter Q kept)))"
proof -
  have "filter P (filter Q gone) = []" using assms by (auto simp: filter_empty_conv)
  then have "length (concat (map block_units (filter P (filter Q bs)))) =
      length (concat (map block_units (filter P (filter Q kept))))" using assms(2) by simp
  also have "\<dots> \<le> length (concat (map block_units (filter (\<lambda>_. True) (filter Q kept))))"
    by (rule length_blocks_mono) simp
  finally show ?thesis by simp
qed

lemma rate_reserve_inv:
  assumes inv: "rate_inv ordered limits L H" and t: "ordered \<Longrightarrow> last_call H \<le> t"
    and fresh: "res_id r \<notin> granted_ids H"
    and us: "us = popleft_expired (t - rate_minute) (units_of_campaign L (metadata_name c))"
    and room: "limits (metadata_name c) = Some n" "int (length us) + res_request_cost r \<le> n" "1 \<le> res_request_cost r"
    and r: "res_campaign r = metadata_name c"
    and L': "L' = L\<lparr>request_times := dict_set (metadata_name c) (us @ block_units (r, t)) (request_times L)\<rparr>"
  shows "rate_inv ordered limits L' (H\<lparr>granted := granted H @ [(r, t)], last_call := t\<rparr>)"
proof -
  let ?L = "L\<lparr>request_times := dict_set (metadata_name c) us (request_times L)\<rparr>" and ?K = "H\<lparr>last_call := t\<rparr>"
  let ?H = "H\<lparr>granted := granted H @ [(r, t)], last_call := t\<rparr>"
  have inv1: "rate_inv ordered limits ?L ?K" by (rule rate_inv_frame [OF inv t]) (auto simp: us)
  have count: "counting ?H = counting H" "counting ?K = counting H" by (auto simp: counting_def fun_eq_iff)
  have blocks: "blocks_of ?H name = blocks_of H name @ (if name = metadata_name c then [(r, t)] else [])"
    "blocks_of ?K name = blocks_of H name" for name by (auto simp: blocks_of_def r)
  have new: "b \<in> set (granted H) \<Longrightarrow> res_id (fst b) \<noteq> res_id r" for b
    using fresh by (metis granted_ids_def image_eqI)
  obtain gone kept where gk: "blocks_of H (metadata_name c) = gone @ kept"
    "us = concat (map block_units (filter (counting H) kept))"
    "\<And>b. ordered \<Longrightarrow> b \<in> set gone \<Longrightarrow> counting H b \<Longrightarrow> snd b \<le> t - rate_minute"
    using rate_inv_popleft [OF inv t, of "metadata_name c"] us by metis
  have "counting H (r, t)" using fresh inv by (auto simp: counting_def rate_inv_def)
  have "\<exists>gone kept. blocks_of ?H name = gone @ kept \<and>
      units_of_campaign L' name = concat (map block_units (filter (counting ?H) kept)) \<and>
      (ordered \<longrightarrow> (\<forall>b \<in> set gone. counting ?H b \<longrightarrow> snd b \<le> last_call ?H - rate_minute))" for name
  proof (cases "name = metadata_name c")
    case True
    then show ?thesis using gk \<open>counting H (r, t)\<close>
      by (intro exI [of _ gone] exI [of _ "kept @ [(r, t)]"]) (simp add: blocks count L')
  next
    case False
    obtain gone kept where "blocks_of ?K name = gone @ kept"
      "units_of_campaign ?L name = concat (map block_units (filter (counting ?K) kept))"
      "\<And>b. ordered \<Longrightarrow> b \<in> set gone \<Longrightarrow> counting ?K b \<Longrightarrow> snd b \<le> last_call ?K - rate_minute"
      using rate_inv_kept [OF inv1, of name] by metis
    then show ?thesis using False by (intro exI [of _ gone] exI [of _ kept]) (simp add: blocks count L')
  qed
  moreover have "int (length (units_in_window ?H name start)) \<le> max 0 m" if "ordered" "limits name = Some m" for name start m
  proof (cases "name = metadata_name c \<and> start < t \<and> t \<le> start + rate_minute")
    case False
    then have "length (units_in_window ?H name start) = length (units_in_window H name start)"
      by (auto simp: units_in_window_alt blocks count)
    then show ?thesis using rate_invD(4) [OF inv that] by simp
  next
    case True
    let ?P = "\<lambda>b. start < snd b \<and> snd b \<le> start + rate_minute"
    have "length (concat (map block_units (filter ?P (filter (counting H) (blocks_of H name))))) \<le> length us"
      unfolding gk(2) by (rule blocks_window [OF _ gk(1) [folded conjunct1 [OF True]]]) (use gk(3) \<open>ordered\<close> True in fastforce)
    then show ?thesis using True room that \<open>counting H (r, t)\<close>
      by (simp add: units_in_window_alt blocks count) (simp add: block_units_def)
  qed
  moreover have "distinct (map (res_id \<circ> fst) (granted ?H))"
  proof -
    have "(res_id \<circ> fst) (r, t) \<notin> (res_id \<circ> fst) ` set (granted H)"
      using fresh by (simp add: granted_ids_def image_comp)
    then show ?thesis using rate_invD(1) [OF inv] by simp
  qed
  moreover have "released ?H \<subseteq> granted_ids ?H" using inv by (auto simp: rate_inv_def granted_ids_def)
  moreover have "1 \<le> res_request_cost (fst b)" "ordered \<Longrightarrow> snd b \<le> last_call ?H" if "b \<in> set (granted ?H)" for b
    using that rate_invD(2) [OF inv, of b] rate_invD(3) [OF inv1, of b] room(3) by auto
  ultimately show ?thesis unfolding rate_inv_def by blast
qed

lemma rate_run_inv: "rate_run ordered limits L H \<Longrightarrow> rate_inv ordered limits L H"
proof (induction rule: rate_run.induct)
  case (rate_start hex start)
  then show ?case
    by (simp add: rate_inv_def new_rate_ledger_def units_of_campaign_def blocks_of_def units_in_window_def)
next
  case (rate_reserved L H c at_time t hex cost d r L')
  from rate_reserved(6,3) show ?case
  proof (cases rule: reserve_cases)
    case unlimited
    then show ?thesis using rate_inv_frame [OF rate_reserved(7,4), of L'] by simp
  next
    case (denied limit us)
    then show ?thesis using rate_inv_frame [OF rate_reserved(7,4), of L'] by simp
  next
    case (reserved limit us n r')
    have "res_id r' \<notin> granted_ids H" using rate_reserved(5) reserved(6) by (simp del: append.simps)
    then show ?thesis
      using rate_reserve_inv [OF rate_reserved(7,4) _ reserved(2), of r' limit L'] reserved rate_reserved(2) by simp
  qed
next
  case (rate_released L H r L')
  then show ?case using rate_release_inv by blast
qed

section \<open>Correctness\<close>

text \<open>C28. In every history whose calls come in the order of their evaluation times, no window of one
  minute holds more units of a campaign than its limit, wherever the window starts; units that were
  released do not count.\<close>

theorem rate_limit_holds_in_every_window:
  assumes "rate_run True limits L H" and "limits name = Some n" and "0 \<le> n"
  shows "int (length (units_in_window H name start)) \<le> n"
  using rate_invD(4) [OF rate_run_inv [OF assms(1)] _ assms(2)] assms(3) by simp

text \<open>In every history, releasing a reservation the ledger granted succeeds, also after its units
  expired or after an earlier release; it removes the units of that reservation and no other unit of
  any campaign.\<close>

theorem rate_release_is_exact:
  assumes "rate_run ordered limits L H" and "(r, t) \<in> set (granted H)"
  shows "\<exists>L'. rate_release L r = (Inr (), L') \<and>
    (\<forall>name. units_of_campaign L' name =
      (if name = res_campaign r then filter (\<lambda>x. unit_reservation_id x \<noteq> res_id r) (units_of_campaign L name)
       else units_of_campaign L name))"
  by (rule rate_release_exact [OF rate_run_inv [OF assms(1)] assms(2)])

lemma sample_rate_run:
  "rate_run True sample_limits sample_rates1 sample_history1" "rate_run True sample_limits sample_rates2 sample_history2"
proof -
  define H where "H = \<lparr>granted = [], released = {}, last_call = 0\<rparr>"
  have "rate_run True sample_limits sample_rates0 H"
    unfolding sample_rates0_def H_def by (rule rate_start)
  moreover have *: "max_requests_per_minute (spec_rules_of_engagement (campaign_spec sample_campaign)) =
      sample_limits (metadata_name sample_campaign)"
    "normalized_time (sample_time 100) = Inr (seconds 100)" "normalized_time (sample_time 130) = Inr (seconds 130)"
    "reserve_for_dispatch sample_rates0 sample_campaign (sample_time 100) (PyInt 2) ''a'' =
       (Inr (None, Some (sample_granted ''a'' 2)), sample_rates1)"
    "reserve_for_dispatch sample_rates1 sample_campaign (sample_time 130) (PyInt 1) ''b'' =
       (Inr (None, Some (sample_granted ''b'' 1)), sample_rates2)"
    by code_simp+
  ultimately show "rate_run True sample_limits sample_rates1 sample_history1"
    using rate_reserved [of True sample_limits sample_rates0 H sample_campaign "sample_time 100" "seconds 100" "''a''"
        "PyInt 2" None "Some (sample_granted ''a'' 2)" sample_rates1]
    by (simp add: H_def granted_ids_def seconds_def sample_history1_def)
  then show "rate_run True sample_limits sample_rates2 sample_history2"
    using rate_reserved [of True sample_limits sample_rates1 sample_history1 sample_campaign "sample_time 130" "seconds 130"
        "''b''" "PyInt 1" None "Some (sample_granted ''b'' 1)" sample_rates2] *
    by (simp add: granted_ids_def seconds_def sample_history1_def sample_history2_def sample_granted_def)
qed

theorem rate_limit_holds_in_every_window_witness:
  "int (length (units_in_window sample_history2 ''demo'' (seconds 90))) \<le> 3 \<and>
   length (units_in_window sample_history2 ''demo'' (seconds 90)) = 3"
proof
  show "int (length (units_in_window sample_history2 ''demo'' (seconds 90))) \<le> 3"
    by (rule rate_limit_holds_in_every_window [OF sample_rate_run(2)]) (simp_all add: sample_limits_def)
  show "length (units_in_window sample_history2 ''demo'' (seconds 90)) = 3" by code_simp
qed

theorem rate_release_is_exact_witness:
  "\<exists>L'. rate_release sample_rates2 (sample_granted ''a'' 2) = (Inr (), L') \<and> length (units_of_campaign L' ''demo'') = 1"
proof -
  have "(sample_granted ''a'' 2, seconds 100) \<in> set (granted sample_history2)" by (simp add: sample_history2_def)
  then obtain L' where L': "rate_release sample_rates2 (sample_granted ''a'' 2) = (Inr (), L')"
    "units_of_campaign L' ''demo'' = filter (\<lambda>x. unit_reservation_id x \<noteq> res_id (sample_granted ''a'' 2))
       (units_of_campaign sample_rates2 ''demo'')"
    using rate_release_is_exact [OF sample_rate_run(2)] by (fastforce simp: sample_granted_def)
  moreover have "length (filter (\<lambda>x. unit_reservation_id x \<noteq> res_id (sample_granted ''a'' 2))
       (units_of_campaign sample_rates2 ''demo'')) = 1" by code_simp
  ultimately show ?thesis by auto
qed

end
