(* ===== verification/Result_Calls.thy ===== *)
theory Result_Calls
  imports Pajin_Prelude
begin

text \<open>
  Python methods that change an object and may raise: a call takes the state to a result and the state it
  leaves behind, also when it raises. Sequencing, \<open>except\<close> and \<open>finally\<close> are combinators, and a locale
  carries a reflexive and transitive relation on states through them.
\<close>

definition result_bind :: "'a result \<Rightarrow> ('a \<Rightarrow> 'b result) \<Rightarrow> 'b result" where
  "result_bind r f = (case r of Inl e \<Rightarrow> Inl e | Inr x \<Rightarrow> f x)"

text \<open>A \<open>for\<close> loop whose body may raise.\<close>

fun result_fold :: "('a \<Rightarrow> 's \<Rightarrow> 's result) \<Rightarrow> 'a list \<Rightarrow> 's \<Rightarrow> 's result" where
  "result_fold f [] s = Inr s"
| "result_fold f (x # xs) s = result_bind (f x s) (result_fold f xs)"

type_synonym ('s, 'a) call = "'s \<Rightarrow> 'a result \<times> 's"

definition call_return :: "'a \<Rightarrow> ('s, 'a) call" where
  "call_return x s = (Inr x, s)"

definition call_raise :: "exn \<Rightarrow> ('s, 'a) call" where
  "call_raise e s = (Inl e, s)"

definition call_bind :: "('s, 'a) call \<Rightarrow> ('a \<Rightarrow> ('s, 'b) call) \<Rightarrow> ('s, 'b) call" where
  "call_bind m f s = (case m s of (Inl e, s') \<Rightarrow> (Inl e, s') | (Inr x, s') \<Rightarrow> f x s')"

definition call_lift :: "'a result \<Rightarrow> ('s, 'a) call" where
  "call_lift r s = (r, s)"

text \<open>\<open>try: m except P as e: h e\<close>.\<close>

definition call_catch :: "('s, 'a) call \<Rightarrow> (exn \<Rightarrow> bool) \<Rightarrow> (exn \<Rightarrow> ('s, 'a) call) \<Rightarrow> ('s, 'a) call" where
  "call_catch m P h s = (case m s of (Inl e, s') \<Rightarrow> if P e then h e s' else (Inl e, s') | (Inr x, s') \<Rightarrow> (Inr x, s'))"

text \<open>\<open>try: m finally: h\<close>; an exception of \<open>h\<close> replaces the outcome.\<close>

definition call_finally :: "('s, 'a) call \<Rightarrow> ('s, 'b) call \<Rightarrow> ('s, 'a) call" where
  "call_finally m h s = (case m s of (r, s') \<Rightarrow> (case h s' of (Inl e, s'') \<Rightarrow> (Inl e, s'') | (Inr _, s'') \<Rightarrow> (r, s'')))"

text \<open>Every outcome of a call is in a relation to the state it started in.\<close>

definition call_in :: "('s \<Rightarrow> 's \<Rightarrow> bool) \<Rightarrow> ('s, 'a) call \<Rightarrow> bool" where
  "call_in R m \<longleftrightarrow> (\<forall>s r s'. m s = (r, s') \<longrightarrow> R s s')"

section \<open>Outcomes of the combinators\<close>

lemma result_bind_simps [simp]: "result_bind (Inl e) f = Inl e" "result_bind (Inr x) f = f x"
  by (simp_all add: result_bind_def)

lemma result_bind_Inr: "result_bind r f = Inr y \<longleftrightarrow> (\<exists>x. r = Inr x \<and> f x = Inr y)"
  by (cases r) auto

lemma result_bindE:
  assumes "result_bind r f = Inr y"
  obtains x where "r = Inr x" "f x = Inr y"
  using assms by (auto simp: result_bind_Inr)

lemma result_fold_append: "result_fold f (xs @ ys) s = result_bind (result_fold f xs s) (result_fold f ys)"
  by (induction xs arbitrary: s) (auto simp: result_bind_def split: sum.splits)

lemma result_fold_inv:
  assumes "result_fold f xs s = Inr t" and "I s" and "\<And>x s s'. x \<in> set xs \<Longrightarrow> I s \<Longrightarrow> f x s = Inr s' \<Longrightarrow> I s'"
  shows "I t"
  using assms by (induction xs arbitrary: s) (auto simp: result_bind_Inr)

lemma result_fold_each: "result_fold f xs s = Inr t \<Longrightarrow> x \<in> set xs \<Longrightarrow> \<exists>s s'. f x s = Inr s'"
  by (induction xs arbitrary: s) (auto simp: result_bind_Inr)

lemma map_sum_raises [simp]: "map_sum id f x = Inl e \<longleftrightarrow> x = Inl e"
  by (cases x) auto

lemma map_sum_returns [simp]: "map_sum id f x = Inr y \<longleftrightarrow> (\<exists>z. x = Inr z \<and> y = f z)"
  by (cases x) auto

lemma call_bind_eq:
  "call_bind m f s = (r, s') \<longleftrightarrow>
     (\<exists>e. m s = (Inl e, s') \<and> r = Inl e) \<or> (\<exists>x t. m s = (Inr x, t) \<and> f x t = (r, s'))"
  by (auto simp: call_bind_def split: prod.splits sum.splits)

lemma call_bindE:
  assumes "call_bind m f s = (r, s')"
  obtains (raised) e where "m s = (Inl e, s')" "r = Inl e" | (returned) x t where "m s = (Inr x, t)" "f x t = (r, s')"
  using assms by (auto simp: call_bind_eq)

lemma call_bind_okE:
  assumes "call_bind m f s = (Inr y, s')"
  obtains x t where "m s = (Inr x, t)" "f x t = (Inr y, s')"
  using assms by (auto simp: call_bind_eq)

lemma call_catch_eq:
  "call_catch m P h s = (r, s') \<longleftrightarrow>
     (\<exists>x. m s = (Inr x, s') \<and> r = Inr x) \<or> (\<exists>e. m s = (Inl e, s') \<and> \<not> P e \<and> r = Inl e) \<or>
     (\<exists>e t. m s = (Inl e, t) \<and> P e \<and> h e t = (r, s'))"
  by (auto simp: call_catch_def split: prod.splits sum.splits)

lemma call_finally_eq:
  "call_finally m h s = (r, s') \<longleftrightarrow>
     (\<exists>q t e. m s = (q, t) \<and> h t = (Inl e, s') \<and> r = Inl e) \<or> (\<exists>t x. m s = (r, t) \<and> h t = (Inr x, s'))"
  by (auto simp: call_finally_def split: prod.splits sum.splits)

lemma call_return_eq [simp]: "call_return x s = (r, s') \<longleftrightarrow> r = Inr x \<and> s' = s"
  by (auto simp: call_return_def)

lemma call_raise_eq [simp]: "call_raise e s = (r, s') \<longleftrightarrow> r = Inl e \<and> s' = s"
  by (auto simp: call_raise_def)

lemma call_lift_eq [simp]: "call_lift q s = (r, s') \<longleftrightarrow> r = q \<and> s' = s"
  by (auto simp: call_lift_def)

lemma call_inD: "call_in R m \<Longrightarrow> m s = (r, s') \<Longrightarrow> R s s'"
  by (simp add: call_in_def)

lemma call_in_mono: "call_in R m \<Longrightarrow> (\<And>s t. R s t \<Longrightarrow> Q s t) \<Longrightarrow> call_in Q m"
  by (simp add: call_in_def)

section \<open>Relations that every call keeps\<close>

locale state_preorder =
  fixes R :: "'s \<Rightarrow> 's \<Rightarrow> bool"
  assumes refl: "R s s" and trans: "R s t \<Longrightarrow> R t s' \<Longrightarrow> R s s'"
begin

lemma in_return: "call_in R (call_return x)"
  by (simp add: call_in_def refl)

lemma in_raise: "call_in R (call_raise e)"
  by (simp add: call_in_def refl)

lemma in_lift: "call_in R (call_lift q)"
  by (simp add: call_in_def refl)

lemma in_bind: "call_in R m \<Longrightarrow> (\<And>x. call_in R (f x)) \<Longrightarrow> call_in R (call_bind m f)"
  by (auto simp: call_in_def call_bind_eq; blast intro: trans)

lemma in_catch: "call_in R m \<Longrightarrow> (\<And>e. call_in R (h e)) \<Longrightarrow> call_in R (call_catch m P h)"
  by (auto simp: call_in_def call_catch_eq; blast intro: trans)

lemma in_finally: "call_in R m \<Longrightarrow> call_in R h \<Longrightarrow> call_in R (call_finally m h)"
  by (auto simp: call_in_def call_finally_eq; blast intro: trans)

lemma in_if: "(b \<Longrightarrow> call_in R m) \<Longrightarrow> (\<not> b \<Longrightarrow> call_in R n) \<Longrightarrow> call_in R (if b then m else n)"
  by simp

lemma in_option: "call_in R m \<Longrightarrow> (\<And>x. call_in R (f x)) \<Longrightarrow> call_in R (case v of None \<Rightarrow> m | Some x \<Rightarrow> f x)"
  by (cases v) auto

lemma in_sum: "(\<And>x. call_in R (f x)) \<Longrightarrow> (\<And>x. call_in R (g x)) \<Longrightarrow> call_in R (case v of Inl x \<Rightarrow> f x | Inr x \<Rightarrow> g x)"
  by (cases v) auto

lemma in_prod: "(\<And>x y. call_in R (f x y)) \<Longrightarrow> call_in R (case v of (x, y) \<Rightarrow> f x y)"
  by (cases v) auto

lemmas in_rules = in_return in_raise in_lift in_bind in_catch in_finally in_if in_option in_sum in_prod

end

end
