(* ===== verification/Sha256.thy ===== *)
theory Sha256
  imports Pajin_Prelude "HOL-Library.Word"
begin

text \<open>
  \<open>hashlib.sha256(...).hexdigest()\<close> on a string of bytes, as FIPS 180-4 defines it. The digests that
  bind records, requests and artifacts to each other are computed with this function.
\<close>

unbundle bit_operations_syntax

section \<open>Word operations\<close>

definition sha_rotr :: "nat \<Rightarrow> 32 word \<Rightarrow> 32 word" where
  "sha_rotr n x = drop_bit n x OR push_bit (32 - n) x"

definition sha_ch :: "32 word \<Rightarrow> 32 word \<Rightarrow> 32 word \<Rightarrow> 32 word" where
  "sha_ch x y z = (x AND y) XOR (NOT x AND z)"

definition sha_maj :: "32 word \<Rightarrow> 32 word \<Rightarrow> 32 word \<Rightarrow> 32 word" where
  "sha_maj x y z = (x AND y) XOR (x AND z) XOR (y AND z)"

definition sha_big0 :: "32 word \<Rightarrow> 32 word" where
  "sha_big0 x = sha_rotr 2 x XOR sha_rotr 13 x XOR sha_rotr 22 x"

definition sha_big1 :: "32 word \<Rightarrow> 32 word" where
  "sha_big1 x = sha_rotr 6 x XOR sha_rotr 11 x XOR sha_rotr 25 x"

definition sha_small0 :: "32 word \<Rightarrow> 32 word" where
  "sha_small0 x = sha_rotr 7 x XOR sha_rotr 18 x XOR drop_bit 3 x"

definition sha_small1 :: "32 word \<Rightarrow> 32 word" where
  "sha_small1 x = sha_rotr 17 x XOR sha_rotr 19 x XOR drop_bit 10 x"

text \<open>The constants: the first 32 bits of the fractional parts of the cube roots of the first 64 primes, and for
  the initial state of the square roots of the first eight. A root is computed one bit at a time.\<close>

fun root_floor :: "nat \<Rightarrow> nat \<Rightarrow> nat \<Rightarrow> nat \<Rightarrow> nat" where
  "root_floor k n 0 acc = acc"
| "root_floor k n (Suc b) acc = root_floor k n b (if (acc + 2 ^ b) ^ k \<le> n then acc + 2 ^ b else acc)"

definition root_fraction :: "nat \<Rightarrow> nat \<Rightarrow> 32 word" where
  "root_fraction k p = of_nat (root_floor k (p * 2 ^ (32 * k)) 36 0)"

definition sha_primes :: "nat list" where
  "sha_primes = filter (\<lambda>n. list_all (\<lambda>d. n mod d \<noteq> 0) [2..<n]) [2..<312]"

definition sha_constants :: "32 word list" where
  "sha_constants = map (root_fraction 3) sha_primes"

type_synonym sha_state = "32 word \<times> 32 word \<times> 32 word \<times> 32 word \<times> 32 word \<times> 32 word \<times> 32 word \<times> 32 word"

definition sha_initial :: sha_state where
  "sha_initial =
     (root_fraction 2 2, root_fraction 2 3, root_fraction 2 5, root_fraction 2 7,
      root_fraction 2 11, root_fraction 2 13, root_fraction 2 17, root_fraction 2 19)"

section \<open>Padding and blocks\<close>

definition sha_pad :: "nat list \<Rightarrow> nat list" where
  "sha_pad m =
     (let bits = 8 * length m; zeros = (119 - length m mod 64) mod 64 in
      m @ [128] @ replicate zeros 0 @ map (\<lambda>i. bits div 256 ^ i mod 256) (rev [0..<8]))"

fun sha_words :: "nat list \<Rightarrow> 32 word list" where
  "sha_words (a # b # c # d # rest) = of_nat (((a * 256 + b) * 256 + c) * 256 + d) # sha_words rest"
| "sha_words _ = []"

text \<open>The message schedule keeps the last sixteen words.\<close>

fun sha_schedule :: "nat \<Rightarrow> 32 word list \<Rightarrow> 32 word list" where
  "sha_schedule 0 window = []"
| "sha_schedule (Suc n) window =
     window ! 0 # sha_schedule n
       (tl window @ [sha_small1 (window ! 14) + window ! 9 + sha_small0 (window ! 1) + window ! 0])"

fun sha_rounds :: "(32 word \<times> 32 word) list \<Rightarrow> sha_state \<Rightarrow> sha_state" where
  "sha_rounds [] s = s"
| "sha_rounds ((k, w) # rest) (a, b, c, d, e, f, g, h) =
     (let t1 = h + sha_big1 e + sha_ch e f g + k + w; t2 = sha_big0 a + sha_maj a b c in
      sha_rounds rest (t1 + t2, a, b, c, d + t1, e, f, g))"

fun sha_add :: "sha_state \<Rightarrow> sha_state \<Rightarrow> sha_state" where
  "sha_add (a, b, c, d, e, f, g, h) (a', b', c', d', e', f', g', h') =
     (a + a', b + b', c + c', d + d', e + e', f + f', g + g', h + h')"

definition sha_compress :: "32 word list \<Rightarrow> sha_state \<Rightarrow> sha_state" where
  "sha_compress block s = sha_add s (sha_rounds (zip sha_constants (sha_schedule 64 block)) s)"

function sha_blocks :: "32 word list \<Rightarrow> sha_state \<Rightarrow> sha_state" where
  "sha_blocks ws s = (if length ws < 16 then s else sha_blocks (drop 16 ws) (sha_compress (take 16 ws) s))"
  by pat_completeness auto

termination sha_blocks
  by (relation "measure (\<lambda>(ws, _). length ws)") auto

declare sha_blocks.simps [simp del]

section \<open>The digest\<close>

definition hex_digit :: "nat \<Rightarrow> char" where
  "hex_digit n = ''0123456789abcdef'' ! (n mod 16)"

definition hex_word :: "32 word \<Rightarrow> string" where
  "hex_word w = map (\<lambda>i. hex_digit (unat w div 16 ^ i)) (rev [0..<8])"

fun sha_state_hex :: "sha_state \<Rightarrow> string" where
  "sha_state_hex (a, b, c, d, e, f, g, h) = concat (map hex_word [a, b, c, d, e, f, g, h])"

definition sha256_hex :: "nat list \<Rightarrow> string" where
  "sha256_hex m = sha_state_hex (sha_blocks (sha_words (sha_pad m)) sha_initial)"

section \<open>Shape of a digest\<close>

lemma hex_digit_hex: "is_hex_lower (hex_digit n)"
proof -
  have "n mod 16 < length ''0123456789abcdef''" by simp
  then have "hex_digit n \<in> set ''0123456789abcdef''" unfolding hex_digit_def by (rule nth_mem)
  then show ?thesis by (simp only: is_hex_lower_def)
qed

lemma hex_word_hex: "length (hex_word w) = 8" "list_all is_hex_lower (hex_word w)"
  by (auto simp: hex_word_def list_all_iff hex_digit_hex)

lemma sha256_hex_shape: "is_sha256_hex (sha256_hex m)"
proof -
  obtain a b c d e f g h where "sha_blocks (sha_words (sha_pad m)) sha_initial = (a, b, c, d, e, f, g, h)"
    by (cases "sha_blocks (sha_words (sha_pad m)) sha_initial") auto
  then show ?thesis by (simp add: sha256_hex_def is_sha256_hex_def hex_word_hex)
qed

end
