(* ===== verification/Secret_Broker.thy ===== *)
theory Secret_Broker
  imports Python_Text Sha256
begin

text \<open>
  \<open>SecretBroker\<close> of \<^verbatim>\<open>src/src/pajin/runtime/secrets.py\<close>: registered secrets are handed out only through
  leases with an audience, a scope, an expiry and a number of uses. Every method runs under the
  broker's lock. A reading of the clock is the instant that \<open>_now\<close> makes of it; the hexadecimal part of
  a new lease identifier is an argument. Leases are updated in place, so a method that raises can
  leave a changed state behind; the broker is returned beside the result.
\<close>

section \<open>Values and leases\<close>

definition require_utf8 :: "ustr \<Rightarrow> string \<Rightarrow> nat list result" where
  "require_utf8 s label =
     (case utf8_encode s of
        None \<Rightarrow> Inl (ValueError (label @ '' must be valid Unicode encodable as UTF-8''))
      | Some bs \<Rightarrow> Inr bs)"

definition validate_secret_value :: "ustr \<Rightarrow> unit result" where
  "validate_secret_value s =
     (if \<not> (1 \<le> length s \<and> length s \<le> 16384)
      then Inl (ValueError ''secret value must contain between 1 and 16384 characters'')
      else case require_utf8 s ''secret value'' of Inl e \<Rightarrow> Inl e | Inr _ \<Rightarrow> Inr ())"

definition scope_first :: "char \<Rightarrow> bool" where
  "scope_first c = (ascii_alpha (of_char c) \<or> ascii_digit (of_char c))"

definition scope_rest :: "char \<Rightarrow> bool" where
  "scope_rest c = (scope_first c \<or> c \<in> set ''_.:-'')"

definition safe_lease_scope :: "string \<Rightarrow> bool" where
  "safe_lease_scope s = (case s of [] \<Rightarrow> False | c # cs \<Rightarrow> scope_first c \<and> list_all scope_rest cs \<and> length cs \<le> 199)"

definition validate_lease_scope :: "string \<Rightarrow> unit result" where
  "validate_lease_scope s =
     (if safe_lease_scope s then Inr () else Inl (ValueError ''secret lease scope must be a safe identifier''))"

definition check_scope_argument :: "string option \<Rightarrow> unit result" where
  "check_scope_argument scp = (case scp of None \<Rightarrow> Inr () | Some s \<Rightarrow> validate_lease_scope s)"

definition validate_exact_lease_id :: "string \<Rightarrow> unit result" where
  "validate_exact_lease_id s =
     (if take 6 s = ''lease_'' \<and> length (drop 6 s) = 32 \<and> list_all is_hex_lower (drop 6 s) then Inr ()
      else Inl (ValueError ''secret lease identifier must match lease_[a-f0-9]{32}''))"

datatype lease_status = LEASE_ACTIVE | LEASE_REVOKED | LEASE_EXPIRED

fun lease_status_value :: "lease_status \<Rightarrow> string" where
  "lease_status_value LEASE_ACTIVE = ''active''"
| "lease_status_value LEASE_REVOKED = ''revoked''"
| "lease_status_value LEASE_EXPIRED = ''expired''"

record secret_lease =
  sl_id :: string
  sl_fingerprint :: string
  sl_audience :: string
  sl_binding :: string
  sl_scope :: "string option"
  sl_issued_at :: instant
  sl_expires_at :: instant
  sl_max_uses :: int
  sl_remaining_uses :: int
  sl_status :: lease_status
  sl_revoked_reason :: "string option"

record secret_material =
  sm_lease_id :: string
  sm_binding :: string
  sm_value :: ustr

record secret_broker =
  sb_secrets :: "(ustr, ustr) dict"
  sb_leases :: "(string, secret_lease) dict"
  sb_lease_refs :: "(string, ustr) dict"

definition new_broker :: secret_broker where
  "new_broker = \<lparr>sb_secrets = [], sb_leases = [], sb_lease_refs = []\<rparr>"

definition put_lease :: "secret_broker \<Rightarrow> secret_lease \<Rightarrow> secret_broker" where
  "put_lease B l = B\<lparr>sb_leases := dict_set (sl_id l) l (sb_leases B)\<rparr>"

section \<open>Registration and issue\<close>

definition secret_register :: "secret_broker \<Rightarrow> ustr \<Rightarrow> ustr \<Rightarrow> unit result \<times> secret_broker" where
  "secret_register B ref value =
     (if ref = [] \<or> 200 < length ref
      then (Inl (ValueError ''secret reference must contain between 1 and 200 characters''), B)
      else case require_utf8 ref ''secret reference'' of
        Inl e \<Rightarrow> (Inl e, B)
      | Inr _ \<Rightarrow>
        (case validate_secret_value value of
           Inl e \<Rightarrow> (Inl e, B)
         | Inr _ \<Rightarrow>
           (if dict_get (sb_secrets B) ref \<noteq> None
            then (Inl (ValueError ''secret reference is already registered''), B)
            else (Inr (), B\<lparr>sb_secrets := dict_set ref value (sb_secrets B)\<rparr>))))"

definition secret_fingerprint :: "ustr \<Rightarrow> string result" where
  "secret_fingerprint ref =
     (case require_utf8 ref ''secret reference'' of
        Inl e \<Rightarrow> Inl e | Inr bs \<Rightarrow> Inr (take 16 (sha256_hex bs)))"

text \<open>\<open>_issue\<close>; \<open>exact\<close> is the caller's identifier, or \<open>None\<close> and then \<open>hex\<close> makes one.\<close>

definition issue_lease ::
  "secret_broker \<Rightarrow> ustr \<Rightarrow> string option \<Rightarrow> string \<Rightarrow> string \<Rightarrow> string \<Rightarrow> string option \<Rightarrow> int \<Rightarrow> int \<Rightarrow> instant \<Rightarrow>
   secret_lease result \<times> secret_broker" where
  "issue_lease B ref exact hex audience binding scp ttl uses now =
     (if \<not> (1 \<le> ttl \<and> ttl \<le> 300)
      then (Inl (ValueError ''secret lease TTL must be between 1 and 300 seconds''), B)
      else if \<not> (1 \<le> uses \<and> uses \<le> 10)
      then (Inl (ValueError ''secret lease uses must be between 1 and 10''), B)
      else case check_scope_argument scp of
        Inl e \<Rightarrow> (Inl e, B)
      | Inr _ \<Rightarrow>
        (if dict_get (sb_secrets B) ref = None
         then (Inl (KeyError ''secret reference is not registered''), B)
         else if (case exact of None \<Rightarrow> False | Some i \<Rightarrow> dict_get (sb_leases B) i \<noteq> None)
         then (Inl (ValueError ''secret lease identifier is already issued''), B)
         else case secret_fingerprint ref of
           Inl e \<Rightarrow> (Inl e, B)
         | Inr fp \<Rightarrow>
           (if \<not> in_datetime_range (now + seconds ttl) then (Inl OverflowError, B)
            else
              let l = \<lparr>sl_id = (case exact of None \<Rightarrow> ''lease_'' @ hex | Some i \<Rightarrow> i), sl_fingerprint = fp,
                       sl_audience = audience, sl_binding = binding, sl_scope = scp, sl_issued_at = now,
                       sl_expires_at = now + seconds ttl, sl_max_uses = uses, sl_remaining_uses = uses,
                       sl_status = LEASE_ACTIVE, sl_revoked_reason = None\<rparr>
              in (Inr l, (put_lease B l)\<lparr>sb_lease_refs := dict_set (sl_id l) ref (sb_lease_refs B)\<rparr>))))"

definition secret_issue ::
  "secret_broker \<Rightarrow> ustr \<Rightarrow> string \<Rightarrow> string \<Rightarrow> string \<Rightarrow> string option \<Rightarrow> int \<Rightarrow> int \<Rightarrow> instant \<Rightarrow>
   secret_lease result \<times> secret_broker" where
  "secret_issue B ref hex audience binding scp ttl uses now =
     issue_lease B ref None hex audience binding scp ttl uses now"

definition secret_issue_exact ::
  "secret_broker \<Rightarrow> ustr \<Rightarrow> string \<Rightarrow> string \<Rightarrow> string \<Rightarrow> string option \<Rightarrow> int \<Rightarrow> int \<Rightarrow> instant \<Rightarrow>
   secret_lease result \<times> secret_broker" where
  "secret_issue_exact B ref lease_id audience binding scp ttl uses now =
     (case validate_exact_lease_id lease_id of
        Inl e \<Rightarrow> (Inl e, B)
      | Inr _ \<Rightarrow> issue_lease B ref (Some lease_id) [] audience binding scp ttl uses now)"

section \<open>Use and revocation\<close>

definition refresh_status :: "instant \<Rightarrow> secret_lease \<Rightarrow> secret_lease" where
  "refresh_status now l =
     (if sl_status l = LEASE_ACTIVE \<and> sl_expires_at l \<le> now
      then l\<lparr>sl_status := LEASE_EXPIRED, sl_revoked_reason := Some ''lease TTL expired''\<rparr> else l)"

text \<open>The steps \<open>materialize\<close>, \<open>inspect\<close> and \<open>revoke\<close> share: the scope argument, the lookup and the
  scope of the lease.\<close>

definition find_lease :: "secret_broker \<Rightarrow> string \<Rightarrow> string option \<Rightarrow> secret_lease result" where
  "find_lease B lease_id scp =
     (case check_scope_argument scp of
        Inl e \<Rightarrow> Inl e
      | Inr _ \<Rightarrow>
        (case dict_get (sb_leases B) lease_id of
           None \<Rightarrow> Inl (KeyError ''unknown secret lease'')
         | Some l \<Rightarrow>
             (if sl_scope l \<noteq> scp then Inl (PermissionError ''secret lease scope mismatch'') else Inr l)))"

definition materialize ::
  "secret_broker \<Rightarrow> string \<Rightarrow> string \<Rightarrow> string option \<Rightarrow> instant \<Rightarrow> secret_material result \<times> secret_broker" where
  "materialize B lease_id audience scp now =
     (case find_lease B lease_id scp of
        Inl e \<Rightarrow> (Inl e, B)
      | Inr l0 \<Rightarrow>
        (let l = refresh_status now l0; B1 = put_lease B l in
         if sl_status l \<noteq> LEASE_ACTIVE
         then (Inl (PermissionError (''secret lease is '' @ lease_status_value (sl_status l))), B1)
         else if sl_audience l \<noteq> audience then (Inl (PermissionError ''secret lease audience mismatch''), B1)
         else if sl_remaining_uses l < 1 then (Inl (PermissionError ''secret lease has no remaining uses''), B1)
         else
           let B2 = put_lease B (l\<lparr>sl_remaining_uses := sl_remaining_uses l - 1\<rparr>) in
           case dict_get (sb_lease_refs B) lease_id of
             None \<Rightarrow> (Inl (KeyError lease_id), B2)
           | Some ref \<Rightarrow>
             (case dict_get (sb_secrets B) ref of
                None \<Rightarrow> (Inl (KeyError []), B2)
              | Some value \<Rightarrow>
                (case validate_secret_value value of
                   Inl e \<Rightarrow> (Inl e, B2)
                 | Inr _ \<Rightarrow>
                     (Inr \<lparr>sm_lease_id = sl_id l, sm_binding = sl_binding l, sm_value = value\<rparr>, B2)))))"

definition inspect_lease ::
  "secret_broker \<Rightarrow> string \<Rightarrow> string \<Rightarrow> string option \<Rightarrow> instant \<Rightarrow> secret_lease result \<times> secret_broker" where
  "inspect_lease B lease_id audience scp now =
     (case find_lease B lease_id scp of
        Inl e \<Rightarrow> (Inl e, B)
      | Inr l0 \<Rightarrow>
        (let l = refresh_status now l0 in
         (if sl_audience l \<noteq> audience then Inl (PermissionError ''secret lease audience mismatch'') else Inr l,
          put_lease B l)))"

definition revoked_lease :: "string \<Rightarrow> secret_lease \<Rightarrow> secret_lease" where
  "revoked_lease reason l =
     (if sl_status l = LEASE_ACTIVE
      then l\<lparr>sl_status := LEASE_REVOKED, sl_revoked_reason := Some reason, sl_remaining_uses := 0\<rparr> else l)"

definition revoke_lease ::
  "secret_broker \<Rightarrow> string \<Rightarrow> string \<Rightarrow> string option \<Rightarrow> secret_lease result \<times> secret_broker" where
  "revoke_lease B lease_id reason scp =
     (case find_lease B lease_id scp of
        Inl e \<Rightarrow> (Inl e, B)
      | Inr l \<Rightarrow> (Inr (revoked_lease reason l), put_lease B (revoked_lease reason l)))"

text \<open>The loops of \<open>revoke_all\<close> and \<open>revoke_scope\<close> over \<open>self._leases.values()\<close>.\<close>

definition revoke_where ::
  "(secret_lease \<Rightarrow> bool) \<Rightarrow> string \<Rightarrow> secret_broker \<Rightarrow> secret_lease list \<times> secret_broker" where
  "revoke_where P reason B =
     (map (\<lambda>kl. revoked_lease reason (snd kl))
        (filter (\<lambda>kl. P (snd kl) \<and> sl_status (snd kl) = LEASE_ACTIVE) (sb_leases B)),
      B\<lparr>sb_leases := map (\<lambda>(k, l). (k, if P l then revoked_lease reason l else l)) (sb_leases B)\<rparr>)"

definition revoke_all :: "secret_broker \<Rightarrow> string \<Rightarrow> secret_lease list \<times> secret_broker" where
  "revoke_all B reason = revoke_where (\<lambda>_. True) reason B"

definition revoke_scope :: "secret_broker \<Rightarrow> string \<Rightarrow> string \<Rightarrow> secret_lease list result \<times> secret_broker" where
  "revoke_scope B scp reason =
     (case validate_lease_scope scp of
        Inl e \<Rightarrow> (Inl e, B)
      | Inr _ \<Rightarrow> (case revoke_where (\<lambda>l. sl_scope l = Some scp) reason B of (ls, B') \<Rightarrow> (Inr ls, B')))"

text \<open>\<open>snapshot\<close> and \<open>snapshot_scope\<close>: the leases ordered by issue time and then by identifier.\<close>

definition snapshot_leases :: "(secret_lease \<Rightarrow> bool) \<Rightarrow> secret_broker \<Rightarrow> secret_lease list" where
  "snapshot_leases P B =
     map snd (sort_key (\<lambda>kl. sl_issued_at (snd kl)) (sort_key fst
       (map (\<lambda>l. (u (sl_id l), l)) (filter P (map snd (sb_leases B))))))"

section \<open>Histories\<close>

datatype broker_event = LeaseIssued string | Materialized string | BrokerCall

inductive broker_step :: "secret_broker \<Rightarrow> broker_event \<Rightarrow> secret_broker \<Rightarrow> bool" where
  broker_register: "secret_register B ref value = (res, B') \<Longrightarrow> broker_step B BrokerCall B'"
| broker_issue:
    "dict_get (sb_leases B) (''lease_'' @ hex) = None \<Longrightarrow>
     secret_issue B ref hex audience binding scp ttl uses now = (Inr l, B') \<Longrightarrow> broker_step B (LeaseIssued (sl_id l)) B'"
| broker_issue_exact:
    "secret_issue_exact B ref i audience binding scp ttl uses now = (Inr l, B') \<Longrightarrow>
     broker_step B (LeaseIssued (sl_id l)) B'"
| broker_materialize: "materialize B i audience scp now = (Inr m, B') \<Longrightarrow> broker_step B (Materialized i) B'"
| broker_refused: "materialize B i audience scp now = (Inl e, B') \<Longrightarrow> broker_step B BrokerCall B'"
| broker_inspect: "inspect_lease B i audience scp now = (res, B') \<Longrightarrow> broker_step B BrokerCall B'"
| broker_revoke: "revoke_lease B i reason scp = (res, B') \<Longrightarrow> broker_step B BrokerCall B'"
| broker_revoke_all: "revoke_all B reason = (ls, B') \<Longrightarrow> broker_step B BrokerCall B'"
| broker_revoke_scope: "revoke_scope B s reason = (res, B') \<Longrightarrow> broker_step B BrokerCall B'"

definition uses_of :: "string \<Rightarrow> broker_event list \<Rightarrow> nat" where
  "uses_of i es = length (filter (\<lambda>e. e = Materialized i) es)"

definition lease_ok :: "secret_broker \<Rightarrow> string \<Rightarrow> secret_lease \<Rightarrow> bool" where
  "lease_ok B i l =
     (sl_id l = i \<and> 0 \<le> sl_remaining_uses l \<and> sl_remaining_uses l \<le> sl_max_uses l \<and> sl_max_uses l \<le> 10 \<and>
      (sl_status l = LEASE_REVOKED \<longrightarrow> sl_remaining_uses l = 0) \<and> sl_issued_at l < sl_expires_at l \<and>
      (\<exists>ref value. dict_get (sb_lease_refs B) i = Some ref \<and> dict_get (sb_secrets B) ref = Some value \<and>
         validate_secret_value value = Inr ()))"

definition broker_ok :: "secret_broker \<Rightarrow> bool" where
  "broker_ok B = (dict_ok (sb_leases B) \<and> (\<forall>i l. dict_get (sb_leases B) i = Some l \<longrightarrow> lease_ok B i l) \<and>
     (\<forall>ref v. dict_get (sb_secrets B) ref = Some v \<longrightarrow> validate_secret_value v = Inr ()))"

text \<open>What no call changes of a lease: its terms; a lease that ended stays ended.\<close>

definition lease_le :: "secret_lease \<Rightarrow> secret_lease \<Rightarrow> bool" where
  "lease_le l l' =
     (sl_audience l' = sl_audience l \<and> sl_binding l' = sl_binding l \<and> sl_scope l' = sl_scope l \<and>
      sl_expires_at l' = sl_expires_at l \<and> sl_max_uses l' = sl_max_uses l \<and>
      sl_remaining_uses l' \<le> sl_remaining_uses l \<and>
      (sl_status l \<noteq> LEASE_ACTIVE \<longrightarrow> sl_status l' = sl_status l \<and> sl_remaining_uses l' = sl_remaining_uses l))"

definition lease_after :: "broker_event \<Rightarrow> string \<Rightarrow> secret_lease \<Rightarrow> secret_lease \<Rightarrow> bool" where
  "lease_after e i l l' =
     (lease_le l l' \<and>
      (e = Materialized i \<longrightarrow> sl_status l = LEASE_ACTIVE \<and> sl_remaining_uses l' = sl_remaining_uses l - 1))"

definition leases_kept :: "broker_event \<Rightarrow> secret_broker \<Rightarrow> secret_broker \<Rightarrow> bool" where
  "leases_kept e B B' =
     ((\<forall>i l. dict_get (sb_leases B) i = Some l \<longrightarrow>
        (\<exists>l'. dict_get (sb_leases B') i = Some l' \<and> lease_after e i l l')) \<and>
      (\<forall>i. e = Materialized i \<longrightarrow> dict_get (sb_leases B) i \<noteq> None))"

text \<open>A broker with one secret, a lease of it for one use, its use, and the revocation of its scope.\<close>

definition sample_broker0 :: secret_broker where
  "sample_broker0 = snd (secret_register new_broker (u ''db'') (u ''hunter2''))"

definition sample_lease :: secret_lease where
  "sample_lease =
     \<lparr>sl_id = ''lease_1'', sl_fingerprint = take 16 (sha256_hex [100, 98]), sl_audience = ''agent'',
      sl_binding = ''PASSWORD'', sl_scope = Some ''run'', sl_issued_at = 0, sl_expires_at = seconds 30,
      sl_max_uses = 2, sl_remaining_uses = 2, sl_status = LEASE_ACTIVE, sl_revoked_reason = None\<rparr>"

definition sample_broker1 :: secret_broker where
  "sample_broker1 = (put_lease sample_broker0 sample_lease)\<lparr>sb_lease_refs := [(''lease_1'', u ''db'')]\<rparr>"

definition sample_broker2 :: secret_broker where
  "sample_broker2 = snd (materialize sample_broker1 ''lease_1'' ''agent'' (Some ''run'') 5)"

definition sample_broker3 :: secret_broker where
  "sample_broker3 = snd (revoke_scope sample_broker2 ''run'' ''stop'')"

section \<open>One lease at a time\<close>

lemma lease_le_refl [simp]: "lease_le l l"
  by (simp add: lease_le_def)

lemma lease_le_trans: "lease_le l m \<Longrightarrow> lease_le m n \<Longrightarrow> lease_le l n"
  by (auto simp: lease_le_def)

lemma refresh_status_facts [simp]:
  "sl_id (refresh_status now l) = sl_id l" "sl_audience (refresh_status now l) = sl_audience l"
  "sl_remaining_uses (refresh_status now l) = sl_remaining_uses l" "sl_binding (refresh_status now l) = sl_binding l"
  "lease_le l (refresh_status now l)"
  "sl_status (refresh_status now l) = LEASE_ACTIVE \<longleftrightarrow> sl_status l = LEASE_ACTIVE \<and> now < sl_expires_at l"
  "lease_ok B i l \<Longrightarrow> lease_ok B i (refresh_status now l)"
  by (auto simp: refresh_status_def lease_le_def lease_ok_def)

lemma revoked_lease_facts [simp]:
  "sl_id (revoked_lease reason l) = sl_id l" "sl_status (revoked_lease reason l) \<noteq> LEASE_ACTIVE"
  "lease_ok B i l \<Longrightarrow> lease_ok B i (revoked_lease reason l)" "sl_scope (revoked_lease reason l) = sl_scope l"
  "lease_ok B i l \<Longrightarrow> lease_le l (revoked_lease reason l)"
  by (auto simp: revoked_lease_def lease_ok_def lease_le_def)

lemma find_lease_Inr:
  "find_lease B i scp = Inr l \<longleftrightarrow>
   check_scope_argument scp = Inr () \<and> dict_get (sb_leases B) i = Some l \<and> sl_scope l = scp"
  by (auto simp: find_lease_def split: sum.splits option.splits if_splits)

lemma lease_ok_same:
  "sb_lease_refs B' = sb_lease_refs B \<Longrightarrow> sb_secrets B' = sb_secrets B \<Longrightarrow> lease_ok B' i l = lease_ok B i l"
  by (simp add: lease_ok_def)

lemma put_lease_simps [simp]:
  "sb_lease_refs (put_lease B l) = sb_lease_refs B" "sb_secrets (put_lease B l) = sb_secrets B"
  "dict_get (sb_leases (put_lease B l)) i = (if i = sl_id l then Some l else dict_get (sb_leases B) i)"
  by (simp_all add: put_lease_def dict_simps)

lemma broker_okD:
  assumes "broker_ok B"
  shows "dict_ok (sb_leases B)" "\<And>i l. dict_get (sb_leases B) i = Some l \<Longrightarrow> lease_ok B i l"
    "\<And>ref v. dict_get (sb_secrets B) ref = Some v \<Longrightarrow> validate_secret_value v = Inr ()"
  using assms by (auto simp: broker_ok_def)

lemma broker_ok_put:
  assumes "broker_ok B" "lease_ok B (sl_id l) l"
  shows "broker_ok (put_lease B l)"
proof -
  have "dict_ok (sb_leases (put_lease B l))"
    using broker_okD(1) [OF assms(1)] by (simp add: put_lease_def dict_ok_def distinct_update)
  moreover have "lease_ok (put_lease B l) i m = lease_ok B i m" for i m by (rule lease_ok_same) simp_all
  ultimately show ?thesis using assms(2) broker_okD(2,3) [OF assms(1)] unfolding broker_ok_def by simp
qed

lemma leases_kept_put:
  assumes "dict_get (sb_leases B) (sl_id l') = Some l" "lease_after e (sl_id l') l l'"
    "\<And>i. e = Materialized i \<Longrightarrow> i = sl_id l'"
  shows "leases_kept e B (put_lease B l')"
proof -
  have "lease_after e i m m" if "i \<noteq> sl_id l'" for i m using that assms(3) by (auto simp: lease_after_def)
  then show ?thesis using assms(1,2) assms(3) unfolding leases_kept_def by (metis option.inject option.simps(3) put_lease_simps(3))
qed

lemma leases_kept_same:
  "sb_leases B' = sb_leases B \<Longrightarrow> leases_kept BrokerCall B B'"
  by (auto simp: leases_kept_def lease_after_def)

section \<open>Every call\<close>

lemma register_ok:
  assumes "broker_ok B" "secret_register B ref v = (res, B')"
  shows "broker_ok B' \<and> leases_kept BrokerCall B B'"
proof (cases "B' = B")
  case False
  then have new: "dict_get (sb_secrets B) ref = None" and B': "B' = B\<lparr>sb_secrets := dict_set ref v (sb_secrets B)\<rparr>"
    and v: "validate_secret_value v = Inr ()"
    using assms(2) by (auto simp: secret_register_def split: sum.splits if_splits)
  have "lease_ok B' i l" if "lease_ok B i l" for i l
    using that new by (fastforce simp: lease_ok_def B' dict_simps)
  then show ?thesis using assms(1) v unfolding broker_ok_def B' by (auto simp: dict_simps leases_kept_same)
qed (use assms(1) leases_kept_same in auto)

lemma issue_lease_Inr:
  assumes "issue_lease B ref exact hex audience binding scp ttl uses now = (Inr l, B')"
    "exact = None \<Longrightarrow> dict_get (sb_leases B) (''lease_'' @ hex) = None"
  shows "dict_get (sb_leases B) (sl_id l) = None" "dict_get (sb_secrets B) ref \<noteq> None"
    "B' = (put_lease B l)\<lparr>sb_lease_refs := dict_set (sl_id l) ref (sb_lease_refs B)\<rparr>"
    "sl_status l = LEASE_ACTIVE" "sl_remaining_uses l = sl_max_uses l" "1 \<le> sl_max_uses l" "sl_max_uses l \<le> 10"
    "sl_issued_at l < sl_expires_at l" "sl_expires_at l \<le> sl_issued_at l + seconds 300"
    "sl_audience l = audience" "sl_binding l = binding" "sl_scope l = scp" "sl_max_uses l = uses"
proof -
  define i where "i = (case exact of None \<Rightarrow> ''lease_'' @ hex | Some i \<Rightarrow> i)"
  have new: "dict_get (sb_leases B) i = None"
    using assms by (auto simp: i_def issue_lease_def split: if_split_asm sum.split_asm option.splits)
  obtain fp where l: "l = \<lparr>sl_id = i, sl_fingerprint = fp,
                       sl_audience = audience, sl_binding = binding, sl_scope = scp, sl_issued_at = now,
                       sl_expires_at = now + seconds ttl, sl_max_uses = uses, sl_remaining_uses = uses,
                       sl_status = LEASE_ACTIVE, sl_revoked_reason = None\<rparr>"
    "B' = (put_lease B l)\<lparr>sb_lease_refs := dict_set (sl_id l) ref (sb_lease_refs B)\<rparr>"
    "1 \<le> ttl" "ttl \<le> 300" "1 \<le> uses" "uses \<le> 10" "dict_get (sb_secrets B) ref \<noteq> None"
    using assms(1) unfolding issue_lease_def i_def [symmetric] Let_def by (auto split: if_split_asm sum.split_asm)
  show "dict_get (sb_leases B) (sl_id l) = None" "dict_get (sb_secrets B) ref \<noteq> None"
    "B' = (put_lease B l)\<lparr>sb_lease_refs := dict_set (sl_id l) ref (sb_lease_refs B)\<rparr>"
    "sl_status l = LEASE_ACTIVE" "sl_remaining_uses l = sl_max_uses l" "1 \<le> sl_max_uses l" "sl_max_uses l \<le> 10"
    "sl_issued_at l < sl_expires_at l" "sl_expires_at l \<le> sl_issued_at l + seconds 300"
    "sl_audience l = audience" "sl_binding l = binding" "sl_scope l = scp" "sl_max_uses l = uses"
    using new l(2-) by (simp_all add: l(1) seconds_def)
qed

lemma issue_ok:
  assumes "broker_ok B" "issue_lease B ref exact hex audience binding scp ttl uses now = (Inr l, B')"
    "exact = None \<Longrightarrow> dict_get (sb_leases B) (''lease_'' @ hex) = None"
  shows "broker_ok B' \<and> leases_kept (LeaseIssued i) B B'"
proof -
  note l = issue_lease_Inr [OF assms(2,3)]
  obtain v where v: "dict_get (sb_secrets B) ref = Some v" using l(2) by blast
  have "lease_ok B' (sl_id l) l"
    using l v broker_okD(3) [OF assms(1) v] by (simp add: lease_ok_def dict_simps)
  moreover have "lease_ok B' i m" if "lease_ok B i m" "i \<noteq> sl_id l" for i m
    using that l(3) by (simp add: lease_ok_def dict_simps)
  ultimately show ?thesis using assms(1) l(1,3) unfolding broker_ok_def
    by (auto simp: leases_kept_def lease_after_def put_lease_def dict_simps)
qed

lemma materialize_Inr:
  assumes "materialize B i audience scp now = (Inr m, B')"
  obtains l ref where "dict_get (sb_leases B) i = Some l" "sl_scope l = scp" "sl_status l = LEASE_ACTIVE"
    "now < sl_expires_at l" "sl_audience l = audience" "1 \<le> sl_remaining_uses l" "dict_get (sb_lease_refs B) i = Some ref"
    "dict_get (sb_secrets B) ref = Some (sm_value m)" "sm_lease_id m = sl_id l" "sm_binding m = sl_binding l"
    "B' = put_lease B (l\<lparr>sl_remaining_uses := sl_remaining_uses l - 1\<rparr>)"
proof -
  obtain l where l: "find_lease B i scp = Inr l"
    using assms by (auto simp: materialize_def split: sum.splits)
  have act: "sl_status l = LEASE_ACTIVE \<and> now < sl_expires_at l"
    using assms l by (auto simp: materialize_def Let_def split: if_splits)
  then have same: "refresh_status now l = l" by (simp add: refresh_status_def)
  show thesis
    using assms l act unfolding same
    by (intro that [of l "the (dict_get (sb_lease_refs B) i)"])
      (auto simp: materialize_def Let_def same find_lease_Inr split: if_splits option.splits sum.splits)
qed

lemma materialize_ok:
  assumes "broker_ok B" "materialize B i audience scp now = (Inr m, B')"
  shows "broker_ok B' \<and> leases_kept (Materialized i) B B'"
proof -
  obtain l where l: "dict_get (sb_leases B) i = Some l" "sl_status l = LEASE_ACTIVE" "1 \<le> sl_remaining_uses l"
    "B' = put_lease B (l\<lparr>sl_remaining_uses := sl_remaining_uses l - 1\<rparr>)"
    using materialize_Inr [OF assms(2)] by metis
  have ok: "lease_ok B i l" using broker_okD(2) [OF assms(1) l(1)] .
  then have i: "sl_id l = i" by (simp add: lease_ok_def)
  have "broker_ok B'" unfolding l(4) by (rule broker_ok_put [OF assms(1)]) (use ok l i in \<open>auto simp: lease_ok_def\<close>)
  moreover have "leases_kept (Materialized i) B B'"
    unfolding l(4) by (rule leases_kept_put [of _ _ l]) (use l i in \<open>auto simp: lease_after_def lease_le_def\<close>)
  ultimately show ?thesis ..
qed

lemma put_found_ok:
  assumes "broker_ok B" "find_lease B i scp = Inr l" "sl_id l' = sl_id l"
    "lease_ok B i l \<Longrightarrow> lease_ok B i l' \<and> lease_le l l'"
  shows "broker_ok (put_lease B l') \<and> leases_kept BrokerCall B (put_lease B l')"
proof -
  have l: "dict_get (sb_leases B) i = Some l" using assms(2) by (simp add: find_lease_Inr)
  then have ok: "lease_ok B i l" using broker_okD(2) [OF assms(1)] by blast
  then have "sl_id l = i" by (simp add: lease_ok_def)
  then show ?thesis
    using broker_ok_put [OF assms(1), of l'] leases_kept_put [of B l' l BrokerCall] assms(3,4) ok l
    by (simp add: lease_after_def)
qed

lemma refused_ok:
  assumes "broker_ok B" "materialize B i audience scp now = (Inl e, B')"
  shows "broker_ok B' \<and> leases_kept BrokerCall B B'"
proof (cases "find_lease B i scp")
  case (Inl a)
  then show ?thesis using assms by (auto simp: materialize_def leases_kept_same)
next
  case (Inr l)
  have l: "dict_get (sb_leases B) i = Some l" using Inr by (simp add: find_lease_Inr)
  then obtain ref v where "dict_get (sb_lease_refs B) i = Some ref" "dict_get (sb_secrets B) ref = Some v"
    "validate_secret_value v = Inr ()" using broker_okD(2) [OF assms(1) l] by (auto simp: lease_ok_def)
  then have "B' = put_lease B (refresh_status now l)"
    using assms(2) unfolding materialize_def Inr Let_def by (auto split: if_split_asm)
  then show ?thesis using put_found_ok [OF assms(1) Inr, of "refresh_status now l"] by simp
qed

lemma inspect_ok:
  assumes "broker_ok B" "inspect_lease B i audience scp now = (res, B')"
  shows "broker_ok B' \<and> leases_kept BrokerCall B B'"
  using assms put_found_ok [OF assms(1), of i scp _ "refresh_status now _"]
  by (auto simp: inspect_lease_def Let_def leases_kept_same split: sum.splits)

lemma revoke_ok:
  assumes "broker_ok B" "revoke_lease B i reason scp = (res, B')"
  shows "broker_ok B' \<and> leases_kept BrokerCall B B'"
  using assms put_found_ok [OF assms(1), of i scp _ "revoked_lease reason _"]
  by (auto simp: revoke_lease_def leases_kept_same split: sum.splits)

lemma revoke_where_get:
  "dict_get (sb_leases (snd (revoke_where P reason B))) i =
   map_option (\<lambda>l. if P l then revoked_lease reason l else l) (dict_get (sb_leases B) i)"
proof -
  have "map_of (map (\<lambda>(k, l). (k, f l)) d) i = map_option f (map_of d i)" for f :: "secret_lease \<Rightarrow> secret_lease"
      and d :: "(string, secret_lease) dict"
    by (induction d) auto
  then show ?thesis by (simp add: revoke_where_def)
qed

lemma revoke_where_ok:
  assumes "broker_ok B"
  shows "broker_ok (snd (revoke_where P reason B)) \<and> leases_kept BrokerCall B (snd (revoke_where P reason B))"
proof -
  let ?B = "snd (revoke_where P reason B)"
  have same: "lease_ok ?B i l = lease_ok B i l" for i l by (rule lease_ok_same) (simp_all add: revoke_where_def)
  have secrets: "sb_secrets ?B = sb_secrets B" by (simp add: revoke_where_def)
  have "dict_ok (sb_leases ?B)"
    using broker_okD(1) [OF assms] by (simp add: dict_ok_def revoke_where_def case_prod_beta comp_def)
  then show ?thesis
    using broker_okD(2,3) [OF assms] unfolding broker_ok_def leases_kept_def lease_after_def revoke_where_get same
    by (auto simp: secrets intro: revoked_lease_facts(5))
qed

lemma broker_step_ok: "broker_step B e B' \<Longrightarrow> broker_ok B \<Longrightarrow> broker_ok B' \<and> leases_kept e B B'"
proof (induction rule: broker_step.induct)
  case (broker_issue B hex ref audience binding scp ttl uses now l B')
  then show ?case using issue_ok [of B ref None hex] by (simp add: secret_issue_def)
next
  case (broker_issue_exact B ref i audience binding scp ttl uses now l B')
  then show ?case using issue_ok [of B ref "Some i"] by (auto simp: secret_issue_exact_def split: sum.splits)
next
  case (broker_revoke_all B reason ls B')
  then show ?case using revoke_where_ok [of B "\<lambda>_. True" reason] by (simp add: revoke_all_def)
next
  case (broker_revoke_scope B s reason res B')
  then show ?case using revoke_where_ok [of B "\<lambda>l. sl_scope l = Some s" reason]
    by (auto simp: revoke_scope_def leases_kept_same split: sum.splits prod.splits)
qed (fact register_ok [rotated] materialize_ok [rotated] refused_ok [rotated] inspect_ok [rotated] revoke_ok [rotated])+

interpretation broker_runs: transition_invariant broker_step broker_ok
  by unfold_locales (simp add: broker_step_ok)

lemma new_broker_ok: "broker_ok new_broker"
  by (simp add: broker_ok_def new_broker_def dict_ok_def)

section \<open>Whole histories\<close>

lemma reachable_broker_ok: "steps broker_step new_broker es B \<Longrightarrow> broker_ok B"
  by (rule broker_runs.run_inv [OF _ new_broker_ok])

lemma uses_of_simps [simp]: "uses_of i [] = 0" "uses_of i (es @ fs) = uses_of i es + uses_of i fs"
  "uses_of i [e] = (if e = Materialized i then 1 else 0)"
  by (simp_all add: uses_of_def)

text \<open>Uses come out of the remaining uses, one each; a new lease has had no use.\<close>

lemma uses_accounted:
  assumes "steps broker_step new_broker es B"
  shows "case dict_get (sb_leases B) i of None \<Rightarrow> uses_of i es = 0
    | Some l \<Rightarrow> int (uses_of i es) + sl_remaining_uses l \<le> sl_max_uses l"
  using assms
proof (induction new_broker es B rule: steps.induct)
  case steps_nil
  then show ?case by (simp add: new_broker_def)
next
  case (steps_snoc es B e B')
  have ok: "broker_ok B" using reachable_broker_ok [OF steps_snoc(1)] .
  have kept: "leases_kept e B B'" and ok': "broker_ok B'" using broker_step_ok [OF steps_snoc(3) ok] by auto
  show ?case
  proof (cases "dict_get (sb_leases B) i")
    case None
    then have "e \<noteq> Materialized i" using kept by (auto simp: leases_kept_def)
    then show ?thesis
      using None steps_snoc(2) broker_okD(2) [OF ok'] by (auto simp: lease_ok_def split: option.splits)
  next
    case (Some l)
    then obtain l' where "dict_get (sb_leases B') i = Some l'" "lease_after e i l l'"
      using kept unfolding leases_kept_def by blast
    then show ?thesis using Some steps_snoc(2) by (auto simp: lease_after_def lease_le_def)
  qed
qed

lemma ended_lease:
  assumes "steps broker_step B fs B'" "broker_ok B" "dict_get (sb_leases B) i = Some l" "sl_status l \<noteq> LEASE_ACTIVE"
  shows "uses_of i fs = 0 \<and> (\<exists>l'. dict_get (sb_leases B') i = Some l' \<and> sl_status l' = sl_status l)"
  using assms
proof (induction rule: steps.induct)
  case (steps_snoc B fs B1 e B2)
  then obtain l1 where l1: "uses_of i fs = 0" "dict_get (sb_leases B1) i = Some l1" "sl_status l1 = sl_status l" by blast
  have "leases_kept e B1 B2"
    using broker_step_ok [OF steps_snoc(2) broker_runs.run_inv [OF steps_snoc(1,4)]] by blast
  then show ?case using l1 steps_snoc(6) by (fastforce simp: leases_kept_def lease_after_def lease_le_def)
qed simp

section \<open>Correctness\<close>

text \<open>C29. In every history of a broker, the number of times a lease gave its secret away is at most the
  number of uses it was issued with, less those that remain, and never more than ten.\<close>

theorem lease_uses_are_bounded:
  assumes "steps broker_step new_broker es B" and "dict_get (sb_leases B) i = Some l"
  shows "int (uses_of i es) \<le> sl_max_uses l - sl_remaining_uses l \<and> uses_of i es \<le> 10"
  using uses_accounted [OF assms(1), of i] assms(2) broker_okD(2) [OF reachable_broker_ok [OF assms(1)] assms(2)]
  by (auto simp: lease_ok_def)

text \<open>C30. A lease that was revoked or has expired gives its secret away in no later history, whatever
  is called, and keeps its status.\<close>

theorem ended_lease_stays_ended:
  assumes "steps broker_step new_broker es B" and "dict_get (sb_leases B) i = Some l" and "sl_status l \<noteq> LEASE_ACTIVE"
    and "steps broker_step B fs B'"
  shows "uses_of i fs = 0 \<and> (\<exists>l'. dict_get (sb_leases B') i = Some l' \<and> sl_status l' = sl_status l)"
  by (rule ended_lease [OF assms(4) reachable_broker_ok [OF assms(1)] assms(2,3)])

text \<open>C31. On every reachable broker, \<open>materialize\<close> gives out a secret exactly when the lease exists, has
  the given scope and audience, is active, has not reached its expiry and has a use left; the value is
  the one registered for the lease's reference, and one use is spent.\<close>

theorem materialize_is_exact:
  assumes "steps broker_step new_broker es B"
  shows "((\<exists>m B'. materialize B i audience scp now = (Inr m, B')) \<longleftrightarrow>
      check_scope_argument scp = Inr () \<and>
      (\<exists>l. dict_get (sb_leases B) i = Some l \<and> sl_scope l = scp \<and> sl_audience l = audience \<and>
         sl_status l = LEASE_ACTIVE \<and> now < sl_expires_at l \<and> 1 \<le> sl_remaining_uses l)) \<and>
    (\<forall>m B'. materialize B i audience scp now = (Inr m, B') \<longrightarrow>
      (\<exists>ref l. dict_get (sb_lease_refs B) i = Some ref \<and> dict_get (sb_secrets B) ref = Some (sm_value m) \<and>
         dict_get (sb_leases B) i = Some l \<and> sm_lease_id m = i \<and> sm_binding m = sl_binding l \<and>
         B' = put_lease B (l\<lparr>sl_remaining_uses := sl_remaining_uses l - 1\<rparr>)))"
proof -
  have ok: "broker_ok B" by (rule reachable_broker_ok [OF assms])
  have "\<exists>ref l. dict_get (sb_lease_refs B) i = Some ref \<and> dict_get (sb_secrets B) ref = Some (sm_value m) \<and>
         dict_get (sb_leases B) i = Some l \<and> sm_lease_id m = i \<and> sm_binding m = sl_binding l \<and>
         B' = put_lease B (l\<lparr>sl_remaining_uses := sl_remaining_uses l - 1\<rparr>)"
    if "materialize B i audience scp now = (Inr m, B')" for m B'
    by (rule materialize_Inr [OF that]) (use broker_okD(2) [OF ok] in \<open>auto simp: lease_ok_def\<close>)
  moreover have "(\<exists>m B'. materialize B i audience scp now = (Inr m, B')) \<longleftrightarrow>
      check_scope_argument scp = Inr () \<and>
      (\<exists>l. dict_get (sb_leases B) i = Some l \<and> sl_scope l = scp \<and> sl_audience l = audience \<and>
         sl_status l = LEASE_ACTIVE \<and> now < sl_expires_at l \<and> 1 \<le> sl_remaining_uses l)" (is "?L = ?R")
  proof
    assume ?L
    then obtain m B' where m: "materialize B i audience scp now = (Inr m, B')" by blast
    then have "check_scope_argument scp = Inr ()"
      by (auto simp: materialize_def find_lease_def split: sum.splits option.splits)
    then show ?R using materialize_Inr [OF m] by metis
  next
    assume ?R
    then obtain l where l: "find_lease B i scp = Inr l" "dict_get (sb_leases B) i = Some l" "sl_audience l = audience"
      "sl_status l = LEASE_ACTIVE" "now < sl_expires_at l" "1 \<le> sl_remaining_uses l" by (auto simp: find_lease_Inr)
    obtain ref v where "dict_get (sb_lease_refs B) i = Some ref" "dict_get (sb_secrets B) ref = Some v"
      "validate_secret_value v = Inr ()" using broker_okD(2) [OF ok l(2)] by (auto simp: lease_ok_def)
    moreover have "refresh_status now l = l" using l by (simp add: refresh_status_def)
    ultimately show ?L using l by (simp add: materialize_def Let_def)
  qed
  ultimately show ?thesis by blast
qed

text \<open>\<open>revoke_scope\<close> on a safe scope leaves no active lease of that scope, changes no lease of any
  other scope, and returns exactly the leases it ended.\<close>

theorem revoke_scope_is_exact:
  assumes "revoke_scope B s reason = (Inr ls, B')"
  shows "(\<forall>i l'. dict_get (sb_leases B') i = Some l' \<longrightarrow> sl_scope l' = Some s \<longrightarrow> sl_status l' \<noteq> LEASE_ACTIVE) \<and>
    (\<forall>i l. dict_get (sb_leases B) i = Some l \<longrightarrow> sl_scope l \<noteq> Some s \<longrightarrow> dict_get (sb_leases B') i = Some l) \<and>
    ls = map (\<lambda>kl. revoked_lease reason (snd kl))
        (filter (\<lambda>kl. sl_scope (snd kl) = Some s \<and> sl_status (snd kl) = LEASE_ACTIVE) (sb_leases B))"
proof -
  have B': "B' = snd (revoke_where (\<lambda>l. sl_scope l = Some s) reason B)"
    and ls: "ls = fst (revoke_where (\<lambda>l. sl_scope l = Some s) reason B)"
    using assms by (auto simp: revoke_scope_def split: sum.splits prod.splits)
  have "sl_status l' \<noteq> LEASE_ACTIVE" if "dict_get (sb_leases B') i = Some l'" "sl_scope l' = Some s" for i l'
    using that unfolding B' revoke_where_get by (auto split: if_splits dest: arg_cong [where f = sl_status])
  moreover have "dict_get (sb_leases B') i = Some l" if "dict_get (sb_leases B) i = Some l" "sl_scope l \<noteq> Some s" for i l
    using that unfolding B' revoke_where_get by simp
  moreover have "ls = map (\<lambda>kl. revoked_lease reason (snd kl))
        (filter (\<lambda>kl. sl_scope (snd kl) = Some s \<and> sl_status (snd kl) = LEASE_ACTIVE) (sb_leases B))"
    by (simp add: ls revoke_where_def)
  ultimately show ?thesis by blast
qed

lemma sample_broker0_empty: "sample_broker0 = \<lparr>sb_secrets = [(u ''db'', u ''hunter2'')], sb_leases = [], sb_lease_refs = []\<rparr>"
  by code_simp

lemma sample_materialize:
  "materialize sample_broker1 ''lease_1'' ''agent'' (Some ''run'') 5 =
      (Inr \<lparr>sm_lease_id = ''lease_1'', sm_binding = ''PASSWORD'', sm_value = u ''hunter2''\<rparr>, sample_broker2) \<and>
   sample_broker2 = put_lease sample_broker1 (sample_lease\<lparr>sl_remaining_uses := 1\<rparr>)"
proof -
  have "check_scope_argument (Some ''run'') = Inr ()" "validate_secret_value (u ''hunter2'') = Inr ()" by code_simp+
  then have "materialize sample_broker1 ''lease_1'' ''agent'' (Some ''run'') 5 =
      (Inr \<lparr>sm_lease_id = ''lease_1'', sm_binding = ''PASSWORD'', sm_value = u ''hunter2''\<rparr>,
       put_lease sample_broker1 (sample_lease\<lparr>sl_remaining_uses := 1\<rparr>))"
    by (simp add: materialize_def find_lease_def Let_def sample_broker1_def sample_broker0_empty put_lease_def
        sample_lease_def refresh_status_def seconds_def)
  then show ?thesis by (simp add: sample_broker2_def)
qed

lemma sample_broker_run:
  "steps broker_step new_broker [BrokerCall, LeaseIssued ''lease_1''] sample_broker1"
  "steps broker_step new_broker [BrokerCall, LeaseIssued ''lease_1'', Materialized ''lease_1''] sample_broker2"
  "steps broker_step new_broker [BrokerCall, LeaseIssued ''lease_1'', Materialized ''lease_1'', BrokerCall] sample_broker3"
proof -
  have r: "secret_register new_broker (u ''db'') (u ''hunter2'') = (Inr (), sample_broker0)" by code_simp
  have "dict_get (sb_leases sample_broker0) (''lease_'' @ ''1'') = None" by code_simp
  moreover have "secret_issue sample_broker0 (u ''db'') ''1'' ''agent'' ''PASSWORD'' (Some ''run'') 30 2 0 =
      (Inr sample_lease, sample_broker1)"
  proof -
    have "secret_fingerprint (u ''db'') = Inr (sl_fingerprint sample_lease)"
      by (simp add: secret_fingerprint_def require_utf8_def u_def utf8_char_def sample_lease_def)
    moreover have "dict_get (sb_secrets sample_broker0) (u ''db'') \<noteq> None" "sb_lease_refs sample_broker0 = []"
      "check_scope_argument (Some ''run'') = Inr ()" "in_datetime_range (0 + seconds 30)" by code_simp+
    ultimately show ?thesis
      unfolding secret_issue_def issue_lease_def by (simp add: Let_def sample_lease_def sample_broker1_def)
  qed
  ultimately have i: "broker_step sample_broker0 (LeaseIssued (sl_id sample_lease)) sample_broker1"
    by (rule broker_issue)
  note m = sample_materialize [THEN conjunct1]
  have v: "revoke_scope sample_broker2 ''run'' ''stop'' =
      (Inr (fst (revoke_where (\<lambda>l. sl_scope l = Some ''run'') ''stop'' sample_broker2)), sample_broker3)"
  proof -
    have "validate_lease_scope ''run'' = Inr ()" by code_simp
    then show ?thesis by (simp add: sample_broker3_def revoke_scope_def case_prod_beta)
  qed
  show "steps broker_step new_broker [BrokerCall, LeaseIssued ''lease_1''] sample_broker1"
    using steps_Cons [OF broker_register [OF r] steps_single [of broker_step, OF i]] by (simp add: sample_lease_def)
  then have "steps broker_step new_broker ([BrokerCall, LeaseIssued ''lease_1''] @ [Materialized ''lease_1'']) sample_broker2"
    using broker_materialize [OF m] by (rule steps_snoc)
  then show "steps broker_step new_broker [BrokerCall, LeaseIssued ''lease_1'', Materialized ''lease_1''] sample_broker2" by simp
  then have "steps broker_step new_broker ([BrokerCall, LeaseIssued ''lease_1'', Materialized ''lease_1''] @ [BrokerCall]) sample_broker3"
    using broker_revoke_scope [OF v] by (rule steps_snoc)
  then show "steps broker_step new_broker [BrokerCall, LeaseIssued ''lease_1'', Materialized ''lease_1'', BrokerCall] sample_broker3" by simp
qed

lemma sample_broker2_lease:
  "\<exists>l. sb_leases sample_broker2 = [(''lease_1'', l)] \<and> dict_get (sb_leases sample_broker2) ''lease_1'' = Some l \<and>
     sl_scope l = Some ''run'' \<and> sl_status l = LEASE_ACTIVE"
  by (simp add: sample_materialize [THEN conjunct2] sample_broker1_def sample_broker0_empty put_lease_def sample_lease_def)

lemma sample_broker3_lease:
  "\<exists>l. dict_get (sb_leases sample_broker3) ''lease_1'' = Some l \<and> sl_status l = LEASE_REVOKED"
proof -
  have "validate_lease_scope ''run'' = Inr ()" by code_simp
  then show ?thesis using sample_broker2_lease
    by (auto simp: sample_broker3_def revoke_scope_def revoke_where_def revoked_lease_def)
qed

theorem lease_uses_are_bounded_witness:
  "\<exists>l. dict_get (sb_leases sample_broker2) ''lease_1'' = Some l \<and>
     int (uses_of ''lease_1'' [BrokerCall, LeaseIssued ''lease_1'', Materialized ''lease_1'']) \<le> sl_max_uses l - sl_remaining_uses l"
proof -
  obtain l where "dict_get (sb_leases sample_broker2) ''lease_1'' = Some l" using sample_broker2_lease by blast
  then show ?thesis using lease_uses_are_bounded [OF sample_broker_run(2)] by blast
qed

theorem ended_lease_stays_ended_witness:
  "\<exists>l. dict_get (sb_leases sample_broker3) ''lease_1'' = Some l \<and> sl_status l = LEASE_REVOKED \<and>
     uses_of ''lease_1'' [] = 0"
proof -
  obtain l where l: "dict_get (sb_leases sample_broker3) ''lease_1'' = Some l" "sl_status l = LEASE_REVOKED"
    using sample_broker3_lease by blast
  have "sl_status l \<noteq> LEASE_ACTIVE" using l(2) by simp
  from ended_lease_stays_ended [OF sample_broker_run(3) l(1) this steps_nil] l show ?thesis by simp
qed

theorem materialize_is_exact_witness:
  "\<exists>m B'. materialize sample_broker1 ''lease_1'' ''agent'' (Some ''run'') 5 = (Inr m, B')"
proof -
  have "check_scope_argument (Some ''run'') = Inr ()" by code_simp
  moreover have "dict_get (sb_leases sample_broker1) ''lease_1'' = Some sample_lease"
    by (simp add: sample_broker1_def put_lease_def sample_lease_def dict_simps)
  ultimately show ?thesis
    using materialize_is_exact [OF sample_broker_run(1), of "''lease_1''" "''agent''" "Some ''run''" 5]
    by (simp add: sample_lease_def seconds_def)
qed

theorem revoke_scope_is_exact_witness:
  "\<exists>ls. revoke_scope sample_broker2 ''run'' ''stop'' = (Inr ls, sample_broker3) \<and> length ls = 1"
proof -
  have "validate_lease_scope ''run'' = Inr ()" by code_simp
  then obtain ls where ls: "revoke_scope sample_broker2 ''run'' ''stop'' = (Inr ls, sample_broker3)"
    by (simp add: sample_broker3_def revoke_scope_def case_prod_beta)
  obtain l where "sb_leases sample_broker2 = [(''lease_1'', l)]" "sl_scope l = Some ''run''" "sl_status l = LEASE_ACTIVE"
    using sample_broker2_lease by blast
  then show ?thesis using revoke_scope_is_exact [OF ls] ls by simp
qed

end
