(* ===== verification/Strict_Json.thy ===== *)
theory Strict_Json
  imports Python_Text Float64 Sha256 "HOL-Library.Multiset"
begin

text \<open>
  Canonical JSON text and its strict reader: \<open>canonical_json_bytes\<close> and \<open>discovery_digest\<close> of
  \<^verbatim>\<open>src/src/pajin/discovery/canonicalization.py\<close>, \<open>parse_strict_json_bytes\<close> with its structural
  preflight of \<^verbatim>\<open>src/src/pajin/runtime/safe_files.py\<close>, and the object walker of
  \<^verbatim>\<open>src/src/pajin/tools/execution_receipts.py\<close>. The parts of Python's \<open>json\<close> module they call, the
  encoder with sorted keys and the recursive scanner, are modelled as well. Text is a list of code
  points. \<open>repr\<close> of a float is an argument \<open>fr\<close> of the encoder.
\<close>

section \<open>Values\<close>

text \<open>\<open>JvNonFinite\<close> is an infinity or a NaN; \<open>JvOther\<close> stands for every object outside the JSON
  domain, a dictionary with a key that is not a string among them. A dictionary keeps insertion
  order.\<close>

datatype jv =
    JvNull
  | JvBool bool
  | JvInt int
  | JvFloat rat
  | JvNonFinite
  | JvStr ustr
  | JvList "jv list"
  | JvObj "(ustr \<times> jv) list"
  | JvOther

section \<open>json.dumps with sorted keys\<close>

definition hex_lower :: "nat \<Rightarrow> nat" where
  "hex_lower n = (if n < 10 then 48 + n else 87 + n)"

definition json_escape :: "nat \<Rightarrow> ustr" where
  "json_escape c =
     (if c = 34 then [92, 34] else if c = 92 then [92, 92] else if c = 10 then [92, 110]
      else if c = 13 then [92, 114] else if c = 9 then [92, 116] else if c = 12 then [92, 102]
      else if c = 8 then [92, 98]
      else if c < 32 then [92, 117, 48, 48, hex_lower (c div 16), hex_lower (c mod 16)]
      else [c])"

definition json_string :: "ustr \<Rightarrow> ustr" where
  "json_string s = [34] @ concat (map json_escape s) @ [34]"

definition json_int :: "int \<Rightarrow> ustr" where
  "json_int n = (if n < 0 then 45 # decimal (nat (- n)) else decimal (nat n))"

fun join_commas :: "ustr list \<Rightarrow> ustr" where
  "join_commas [] = []"
| "join_commas [x] = x"
| "join_commas (x # y # xs) = x @ [44] @ join_commas (y # xs)"

fun json_dump :: "(rat \<Rightarrow> ustr) \<Rightarrow> jv \<Rightarrow> ustr" where
  "json_dump fr JvNull = u ''null''"
| "json_dump fr (JvBool b) = (if b then u ''true'' else u ''false'')"
| "json_dump fr (JvInt n) = json_int n"
| "json_dump fr (JvFloat x) = fr x"
| "json_dump fr (JvStr s) = json_string s"
| "json_dump fr (JvList vs) = [91] @ join_commas (map (json_dump fr) vs) @ [93]"
| "json_dump fr (JvObj kvs) = [123] @ join_commas (map (\<lambda>(k, v). json_string k @ [58] @ json_dump fr v) kvs) @ [125]"
| "json_dump fr JvNonFinite = []"
| "json_dump fr JvOther = []"

text \<open>The encoder raises \<open>ValueError\<close> for a non-finite float and \<open>TypeError\<close> for another object.\<close>

fun json_dumpable :: "jv \<Rightarrow> bool" where
  "json_dumpable (JvList vs) = list_all json_dumpable vs"
| "json_dumpable (JvObj kvs) = list_all (\<lambda>(k, v). json_dumpable v) kvs"
| "json_dumpable JvNonFinite = False"
| "json_dumpable JvOther = False"
| "json_dumpable _ = True"

fun sort_keys :: "jv \<Rightarrow> jv" where
  "sort_keys (JvList vs) = JvList (map sort_keys vs)"
| "sort_keys (JvObj kvs) = JvObj (sort_key fst (map (\<lambda>(k, v). (k, sort_keys v)) kvs))"
| "sort_keys v = v"

section \<open>Canonical bytes and digests\<close>

definition canonical_json_bytes :: "(rat \<Rightarrow> ustr) \<Rightarrow> jv \<Rightarrow> string \<Rightarrow> int option \<Rightarrow> nat list result" where
  "canonical_json_bytes fr value label max_bytes =
     (if \<not> json_dumpable value then Inl (ValueError (label @ '' is not canonical UTF-8 JSON''))
      else case utf8_encode (json_dump fr (sort_keys value)) of
        None \<Rightarrow> Inl (ValueError (label @ '' is not canonical UTF-8 JSON''))
      | Some encoded \<Rightarrow>
          (case max_bytes of
             Some m \<Rightarrow> if int (length encoded) > m
                       then Inl (ValueError (label @ '' exceeds the canonical byte limit'')) else Inr encoded
           | None \<Rightarrow> Inr encoded))"

definition discovery_digest :: "(rat \<Rightarrow> ustr) \<Rightarrow> ustr \<Rightarrow> jv \<Rightarrow> string result" where
  "discovery_digest fr domain value =
     (if \<not> is_ascii domain then Inl UnicodeEncodeError
      else case canonical_json_bytes fr value ''discovery identity payload'' None of
        Inl e \<Rightarrow> Inl e
      | Inr payload \<Rightarrow> Inr (sha256_hex (domain @ [0] @ payload)))"

section \<open>json.loads\<close>

definition json_ws :: "nat \<Rightarrow> bool" where
  "json_ws c = (c = 32 \<or> c = 9 \<or> c = 10 \<or> c = 13)"

definition skip_ws :: "ustr \<Rightarrow> ustr" where
  "skip_ws s = dropWhile json_ws s"

definition four_hex :: "ustr \<Rightarrow> nat option" where
  "four_hex s =
     (if 4 \<le> length s \<and> list_all is_hex (take 4 s)
      then Some (foldl (\<lambda>n c. 16 * n + hex_value c) 0 (take 4 s)) else None)"

text \<open>The code point of a \<open>\u\<close> escape and the number of characters read, a surrogate pair counting as
  one code point.\<close>

definition unicode_escape :: "ustr \<Rightarrow> (nat \<times> nat) option" where
  "unicode_escape s =
     (case four_hex s of
        None \<Rightarrow> None
      | Some c \<Rightarrow>
          (if 0xD800 \<le> c \<and> c \<le> 0xDBFF \<and> take 2 (drop 4 s) = [92, 117]
           then case four_hex (drop 6 s) of
               None \<Rightarrow> None
             | Some d \<Rightarrow>
                 (if 0xDC00 \<le> d \<and> d \<le> 0xDFFF then Some (0x10000 + (c - 0xD800) * 1024 + (d - 0xDC00), 10)
                  else Some (c, 4))
           else Some (c, 4)))"

definition simple_escape :: "nat \<Rightarrow> nat option" where
  "simple_escape e =
     (if e = 34 \<or> e = 92 \<or> e = 47 then Some e else if e = 98 then Some 8 else if e = 102 then Some 12
      else if e = 110 then Some 10 else if e = 114 then Some 13 else if e = 116 then Some 9 else None)"

text \<open>The text of a string after its opening quote, and what follows the closing one.\<close>

fun scan_string :: "ustr \<Rightarrow> (ustr \<times> ustr) option" where
  "scan_string [] = None"
| "scan_string (c # s) =
     (if c = 34 then Some ([], s)
      else if c = 92
      then case s of
          [] \<Rightarrow> None
        | e # s' \<Rightarrow>
            (if e = 117
             then case unicode_escape s' of
                 None \<Rightarrow> None
               | Some (x, k) \<Rightarrow> map_option (\<lambda>(t, rest). (x # t, rest)) (scan_string (drop k s'))
             else case simple_escape e of
                 None \<Rightarrow> None
               | Some x \<Rightarrow> map_option (\<lambda>(t, rest). (x # t, rest)) (scan_string s'))
      else if c < 32 then None
      else map_option (\<lambda>(t, rest). (c # t, rest)) (scan_string s))"

text \<open>Numbers. An integer of more than 4300 digits is refused by \<open>int\<close>, a float that rounds to an
  infinity by the reader's \<open>finite_float\<close>. A negative zero is zero.\<close>

definition scan_fraction :: "ustr \<Rightarrow> ustr \<times> ustr" where
  "scan_fraction s =
     (case s of
        c # d # _ \<Rightarrow>
          (if c = 46 \<and> ascii_digit d then (takeWhile ascii_digit (tl s), dropWhile ascii_digit (tl s)) else ([], s))
      | _ \<Rightarrow> ([], s))"

definition scan_exponent :: "ustr \<Rightarrow> int option \<times> ustr" where
  "scan_exponent s =
     (case s of
        [] \<Rightarrow> (None, s)
      | c # s1 \<Rightarrow>
          (if c = 101 \<or> c = 69
           then
             let (sign, s2) = (case s1 of
                 d # s' \<Rightarrow> if d = 45 then (- 1, s') else if d = 43 then (1, s') else (1, s1)
               | [] \<Rightarrow> (1, s1))
             in if s2 \<noteq> [] \<and> ascii_digit (hd s2)
                then (Some (sign * int (decimal_value (takeWhile ascii_digit s2))), dropWhile ascii_digit s2)
                else (None, s)
           else (None, s)))"

definition float_literal :: "bool \<Rightarrow> ustr \<Rightarrow> ustr \<Rightarrow> int \<Rightarrow> rat" where
  "float_literal neg ds fs e =
     (let m = of_nat (decimal_value (ds @ fs)); k = e - int (length fs);
          x = (if 0 \<le> k then m * 10 ^ nat k else m / 10 ^ nat (- k))
      in fl (if neg then - x else x))"

definition scan_number :: "ustr \<Rightarrow> (jv \<times> ustr) option" where
  "scan_number s =
     (let neg = (s \<noteq> [] \<and> hd s = 45); s1 = (if neg then tl s else s) in
      if s1 = [] \<or> \<not> ascii_digit (hd s1) then None
      else
        let ds = (if hd s1 = 48 then [48] else takeWhile ascii_digit s1);
            s2 = drop (length ds) s1;
            (fs, s3) = scan_fraction s2;
            (e, s4) = scan_exponent s3
        in if fs = [] \<and> e = None
           then (if 4300 < length ds then None
                 else Some (JvInt (if neg then - int (decimal_value ds) else int (decimal_value ds)), s4))
           else let x = float_literal neg ds fs (case e of None \<Rightarrow> 0 | Some k \<Rightarrow> k) in
                if \<bar>x\<bar> < 2 ^ 1024 then Some (JvFloat x, s4) else None)"

text \<open>The scanner. \<open>ScanError\<close> is any exception of the decoder; \<open>NaN\<close> and \<open>Infinity\<close> reach
  \<open>reject_constant\<close> and are errors. The depth of the calls is bounded by an argument, which twice the
  length of the text exceeds; \<open>OutOfFuel\<close> does not occur then.\<close>

datatype scan = OutOfFuel | ScanError | Scanned jv ustr

definition scan_literal :: "ustr \<Rightarrow> scan" where
  "scan_literal s =
     (if starts_with (u ''null'') s then Scanned JvNull (drop 4 s)
      else if starts_with (u ''true'') s then Scanned (JvBool True) (drop 4 s)
      else if starts_with (u ''false'') s then Scanned (JvBool False) (drop 5 s)
      else case scan_number s of None \<Rightarrow> ScanError | Some (v, rest) \<Rightarrow> Scanned v rest)"

fun scan_value :: "nat \<Rightarrow> ustr \<Rightarrow> scan"
  and scan_elements :: "nat \<Rightarrow> ustr \<Rightarrow> jv list \<Rightarrow> scan"
  and scan_members :: "nat \<Rightarrow> ustr \<Rightarrow> (ustr \<times> jv) list \<Rightarrow> scan" where
  "scan_value 0 s = OutOfFuel"
| "scan_value (Suc n) s =
     (case s of
        [] \<Rightarrow> ScanError
      | c # r \<Rightarrow>
          (if c = 34
           then case scan_string r of None \<Rightarrow> ScanError | Some (t, rest) \<Rightarrow> Scanned (JvStr t) rest
           else if c = 123
           then case skip_ws r of
               [] \<Rightarrow> ScanError
             | d # r' \<Rightarrow> if d = 125 then Scanned (JvObj []) r' else scan_members n (d # r') []
           else if c = 91
           then case skip_ws r of
               [] \<Rightarrow> ScanError
             | d # r' \<Rightarrow> if d = 93 then Scanned (JvList []) r' else scan_elements n (d # r') []
           else scan_literal s))"
| "scan_elements 0 s acc = OutOfFuel"
| "scan_elements (Suc n) s acc =
     (case scan_value n s of
        Scanned v r \<Rightarrow>
          (case skip_ws r of
             [] \<Rightarrow> ScanError
           | d # r' \<Rightarrow>
               (if d = 93 then Scanned (JvList (acc @ [v])) r'
                else if d = 44 then scan_elements n (skip_ws r') (acc @ [v])
                else ScanError))
      | other \<Rightarrow> other)"
| "scan_members 0 s acc = OutOfFuel"
| "scan_members (Suc n) s acc =
     (case s of
        [] \<Rightarrow> ScanError
      | c # r \<Rightarrow>
          (if c \<noteq> 34 then ScanError
           else case scan_string r of
             None \<Rightarrow> ScanError
           | Some (k, r1) \<Rightarrow>
               (case skip_ws r1 of
                  [] \<Rightarrow> ScanError
                | d # r2 \<Rightarrow>
                    (if d \<noteq> 58 then ScanError
                     else case scan_value n (skip_ws r2) of
                       Scanned v r3 \<Rightarrow>
                         (case skip_ws r3 of
                            [] \<Rightarrow> ScanError
                          | x # r4 \<Rightarrow>
                              (if x = 125
                               then (if distinct (map fst (acc @ [(k, v)])) then Scanned (JvObj (acc @ [(k, v)])) r4
                                     else ScanError)
                               else if x = 44 then scan_members n (skip_ws r4) (acc @ [(k, v)])
                               else ScanError))
                     | other \<Rightarrow> other))))"

definition json_loads :: "ustr \<Rightarrow> jv option" where
  "json_loads s =
     (if s \<noteq> [] \<and> hd s = 0xFEFF then None
      else case scan_value (2 * length s + 1) (skip_ws s) of
        Scanned v rest \<Rightarrow> if skip_ws rest = [] then Some v else None
      | _ \<Rightarrow> None)"

section \<open>The preflight\<close>

text \<open>\<open>str.isspace\<close> of one code point.\<close>

definition uni_space :: "nat \<Rightarrow> bool" where
  "uni_space c =
     (9 \<le> c \<and> c \<le> 13 \<or> 28 \<le> c \<and> c \<le> 32 \<or> c = 0x85 \<or> c = 0xA0 \<or> c = 0x1680 \<or>
      0x2000 \<le> c \<and> c \<le> 0x200A \<or> c = 0x2028 \<or> c = 0x2029 \<or> c = 0x202F \<or> c = 0x205F \<or> c = 0x3000)"

definition word_end :: "nat \<Rightarrow> bool" where
  "word_end c = (uni_space c \<or> c \<in> {123, 125, 91, 93, 44, 58})"

fun skip_string :: "ustr \<Rightarrow> ustr option" where
  "skip_string [] = None"
| "skip_string (c # s) =
     (if c = 92 then (case s of [] \<Rightarrow> None | _ # s' \<Rightarrow> skip_string s')
      else if c = 34 then Some s else skip_string s)"

definition not_strict :: "string \<Rightarrow> exn" where
  "not_strict label = ValueError (label @ '' is not strict JSON'')"

definition too_deep :: "string \<Rightarrow> exn" where
  "too_deep label = ValueError (label @ '' exceeds the JSON nesting-depth limit'')"

definition too_many :: "string \<Rightarrow> exn" where
  "too_many label = ValueError (label @ '' exceeds the JSON node-count limit'')"

lemma skip_string_shorter: "skip_string s = Some r \<Longrightarrow> length r < length s"
  by (induction s rule: skip_string.induct) (auto split: if_splits list.splits)

function preflight :: "string \<Rightarrow> int \<Rightarrow> int \<Rightarrow> nat list \<Rightarrow> int \<Rightarrow> ustr \<Rightarrow> unit result" where
  "preflight label max_depth max_nodes stack tokens [] =
     (if stack \<noteq> [] then Inl (not_strict label) else Inr ())"
| "preflight label max_depth max_nodes stack tokens (c # s) =
     (if uni_space c \<or> c = 44 \<or> c = 58 then preflight label max_depth max_nodes stack tokens s
      else if c = 34
      then case skip_string s of
          None \<Rightarrow> Inl (not_strict label)
        | Some s' \<Rightarrow>
            (if tokens + 1 > max_nodes then Inl (too_many label)
             else preflight label max_depth max_nodes stack (tokens + 1) s')
      else if c = 123 \<or> c = 91
      then (if int (length stack) > max_depth then Inl (too_deep label)
            else if tokens + 1 > max_nodes then Inl (too_many label)
            else preflight label max_depth max_nodes (c # stack) (tokens + 1) s)
      else if c = 125 \<or> c = 93
      then (case stack of
              [] \<Rightarrow> Inl (not_strict label)
            | opened # stack' \<Rightarrow>
                (if opened \<noteq> (if c = 125 then 123 else 91) then Inl (not_strict label)
                 else preflight label max_depth max_nodes stack' tokens s))
      else if tokens + 1 > max_nodes then Inl (too_many label)
      else preflight label max_depth max_nodes stack (tokens + 1) (dropWhile (\<lambda>x. \<not> word_end x) s))"
  by pat_completeness auto

termination preflight
  by (relation "measure (\<lambda>(_, _, _, _, _, s). length s)")
    (auto dest: skip_string_shorter intro: le_imp_less_Suc length_dropWhile_le)

section \<open>Bounds of a decoded value\<close>

fun jv_size :: "jv \<Rightarrow> nat" where
  "jv_size (JvList vs) = 1 + sum_list (map jv_size vs)"
| "jv_size (JvObj kvs) = 1 + sum_list (map (\<lambda>(k, v). jv_size v) kvs)"
| "jv_size v = 1"

text \<open>The loop of \<open>_validate_decoded_json\<close>; the top of the stack is the head of the list.\<close>

function decoded_loop :: "string \<Rightarrow> int \<Rightarrow> int \<Rightarrow> (jv \<times> int) list \<Rightarrow> int \<Rightarrow> unit result" where
  "decoded_loop label max_depth max_nodes [] nodes = Inr ()"
| "decoded_loop label max_depth max_nodes ((v, depth :: int) # stack) (nodes :: int) =
     (if nodes + 1 > max_nodes then Inl (too_many label)
      else if depth > max_depth then Inl (too_deep label)
      else case v of
          JvObj kvs \<Rightarrow> decoded_loop label max_depth max_nodes
            (rev (map (\<lambda>kv. (snd kv, depth + 1)) kvs) @ stack) (nodes + 1)
        | JvList vs \<Rightarrow> decoded_loop label max_depth max_nodes
            (rev (map (\<lambda>x. (x, depth + 1)) vs) @ stack) (nodes + 1)
        | JvNonFinite \<Rightarrow> Inl (ValueError (label @ '' contains a non-JSON value''))
        | JvOther \<Rightarrow> Inl (ValueError (label @ '' contains a non-JSON value''))
        | _ \<Rightarrow> decoded_loop label max_depth max_nodes stack (nodes + 1))"
  by pat_completeness auto

termination decoded_loop
  by (relation "measure (\<lambda>(_, _, _, stack, _). sum_list (map (\<lambda>vd. jv_size (fst vd)) stack))")
    (auto simp: rev_map [symmetric] comp_def split_def)

definition validate_json_limits :: "int \<Rightarrow> int \<Rightarrow> int \<Rightarrow> unit result" where
  "validate_json_limits max_bytes max_depth max_nodes =
     (if max_bytes < 1 then Inl (ValueError ''max_bytes must be a positive integer'')
      else if max_depth < 0 then Inl (ValueError ''max_depth must be a non-negative integer'')
      else if max_nodes < 1 then Inl (ValueError ''max_nodes must be a positive integer'')
      else Inr ())"

definition parse_strict_json_bytes :: "nat list \<Rightarrow> string \<Rightarrow> int \<Rightarrow> int \<Rightarrow> int \<Rightarrow> jv result" where
  "parse_strict_json_bytes content label max_bytes max_depth max_nodes =
     (case validate_json_limits max_bytes max_depth max_nodes of
        Inl e \<Rightarrow> Inl e
      | Inr _ \<Rightarrow>
        (if int (length content) > max_bytes
         then Inl (ValueError (label @ '' exceeds the '' @ show_int max_bytes @ ''-byte limit''))
         else case utf8_decode content of
           None \<Rightarrow> Inl (not_strict label)
         | Some text \<Rightarrow>
           (case preflight label max_depth max_nodes [] 0 text of
              Inl e \<Rightarrow> Inl e
            | Inr _ \<Rightarrow>
              (case json_loads text of
                 None \<Rightarrow> Inl (not_strict label)
               | Some decoded \<Rightarrow>
                 (case decoded_loop label max_depth max_nodes [(decoded, 0)] 0 of
                    Inl e \<Rightarrow> Inl e
                  | Inr _ \<Rightarrow> Inr decoded)))))"

section \<open>The object walker\<close>

definition count_node :: "string \<Rightarrow> int \<Rightarrow> int \<Rightarrow> int result" where
  "count_node label depth seen =
     (if seen + 1 > 100000 then Inl (too_many label)
      else if depth > 64 then Inl (too_deep label)
      else Inr (seen + 1))"

definition validate_text :: "string \<Rightarrow> ustr \<Rightarrow> unit result" where
  "validate_text label s =
     (if utf8_encode s = None then Inl (ValueError (label @ '' contains invalid UTF-8 text'')) else Inr ())"

fun visit_keys :: "string \<Rightarrow> int \<Rightarrow> int \<Rightarrow> ustr list \<Rightarrow> int result" where
  "visit_keys label depth seen [] = Inr seen"
| "visit_keys label depth seen (k # ks) =
     (case count_node label depth seen of
        Inl e \<Rightarrow> Inl e
      | Inr seen' \<Rightarrow>
          (case validate_text label k of Inl e \<Rightarrow> Inl e | Inr _ \<Rightarrow> visit_keys label depth seen' ks))"

text \<open>The number of nodes seen is threaded through; objects are trees here, so the test for cycles finds
  none.\<close>

fun visit :: "string \<Rightarrow> int \<Rightarrow> int \<Rightarrow> jv \<Rightarrow> int result"
  and visit_all :: "string \<Rightarrow> int \<Rightarrow> int \<Rightarrow> jv list \<Rightarrow> int result"
  and visit_values :: "string \<Rightarrow> int \<Rightarrow> int \<Rightarrow> (ustr \<times> jv) list \<Rightarrow> int result" where
  "visit label depth seen v =
     (case count_node label depth seen of
        Inl e \<Rightarrow> Inl e
      | Inr n \<Rightarrow>
          (case v of
             JvNull \<Rightarrow> Inr n
           | JvBool _ \<Rightarrow> Inr n
           | JvStr s \<Rightarrow> (case validate_text label s of Inl e \<Rightarrow> Inl e | Inr _ \<Rightarrow> Inr n)
           | JvInt i \<Rightarrow>
               (if - (2 ^ 63) \<le> i \<and> i \<le> 2 ^ 63 - 1 then Inr n
                else Inl (ValueError (label @ '' integer is outside the signed 64-bit range'')))
           | JvFloat _ \<Rightarrow> Inr n
           | JvNonFinite \<Rightarrow> Inl (ValueError (label @ '' numbers must be finite''))
           | JvList vs \<Rightarrow> visit_all label (depth + 1) n vs
           | JvObj kvs \<Rightarrow>
               (case visit_keys label (depth + 1) n (map fst kvs) of
                  Inl e \<Rightarrow> Inl e
                | Inr n' \<Rightarrow> visit_values label (depth + 1) n' kvs)
           | JvOther \<Rightarrow> Inl (ValueError (label @ '' contains a non-JSON value''))))"
| "visit_all label depth seen [] = Inr seen"
| "visit_all label depth seen (v # vs) =
     (case visit label depth seen v of Inl e \<Rightarrow> Inl e | Inr n \<Rightarrow> visit_all label depth n vs)"
| "visit_values label depth seen [] = Inr seen"
| "visit_values label depth seen (kv # kvs) =
     (case visit label depth seen (snd kv) of Inl e \<Rightarrow> Inl e | Inr n \<Rightarrow> visit_values label depth n kvs)"

definition validate_strict_json :: "jv \<Rightarrow> string \<Rightarrow> unit result" where
  "validate_strict_json v label = (case visit label 0 0 v of Inl e \<Rightarrow> Inl e | Inr _ \<Rightarrow> Inr ())"

section \<open>Reference measures\<close>

fun jv_height :: "jv \<Rightarrow> int" where
  "jv_height (JvList vs) = foldr max (map (\<lambda>v. jv_height v + 1) vs) 0"
| "jv_height (JvObj kvs) = foldr max (map (\<lambda>(k, v). jv_height v + 1) kvs) 0"
| "jv_height v = 0"

text \<open>Values and keys together: the tokens the preflight counts.\<close>

fun jv_tokens :: "jv \<Rightarrow> nat" where
  "jv_tokens (JvList vs) = 1 + sum_list (map jv_tokens vs)"
| "jv_tokens (JvObj kvs) = 1 + sum_list (map (\<lambda>(k, v). 1 + jv_tokens v) kvs)"
| "jv_tokens v = 1"

fun jv_all :: "(jv \<Rightarrow> bool) \<Rightarrow> (ustr \<Rightarrow> bool) \<Rightarrow> jv \<Rightarrow> bool" where
  "jv_all P K (JvList vs) = list_all (jv_all P K) vs"
| "jv_all P K (JvObj kvs) = list_all (\<lambda>(k, v). K k \<and> jv_all P K v) kvs"
| "jv_all P K v = P v"

definition strict_leaf :: "jv \<Rightarrow> bool" where
  "strict_leaf v =
     (case v of
        JvStr s \<Rightarrow> utf8_encode s \<noteq> None
      | JvInt i \<Rightarrow> - (2 ^ 63) \<le> i \<and> i \<le> 2 ^ 63 - 1
      | JvNonFinite \<Rightarrow> False
      | JvOther \<Rightarrow> False
      | _ \<Rightarrow> True)"

fun distinct_keys :: "jv \<Rightarrow> bool" where
  "distinct_keys (JvList vs) = list_all distinct_keys vs"
| "distinct_keys (JvObj kvs) = (distinct (map fst kvs) \<and> list_all (\<lambda>(k, v). distinct_keys v) kvs)"
| "distinct_keys v = True"


text \<open>The values still to be visited by \<open>decoded_loop\<close>.\<close>

definition stack_size :: "(jv \<times> int) list \<Rightarrow> int" where
  "stack_size stack = int (sum_list (map (\<lambda>vd. jv_size (fst vd)) stack))"

definition stack_ok :: "int \<Rightarrow> (jv \<times> int) list \<Rightarrow> bool" where
  "stack_ok m stack = (\<forall>vd \<in> set stack. snd vd + jv_height (fst vd) \<le> m \<and> json_dumpable (fst vd))"

text \<open>What can follow a value in canonical text, and the end of a line.\<close>

definition json_delim :: "ustr \<Rightarrow> bool" where
  "json_delim rest = (rest = [] \<or> hd rest \<in> {44, 93, 125, 10})"

text \<open>Python's \<open>repr\<close> of a double is one JSON word that reads back as the double.\<close>

definition float_reads :: "(rat \<Rightarrow> ustr) \<Rightarrow> rat \<Rightarrow> bool" where
  "float_reads fr x =
     (fr x \<noteq> [] \<and> (hd (fr x) = 45 \<or> ascii_digit (hd (fr x))) \<and> (\<forall>c \<in> set (fr x). \<not> word_end c \<and> c \<noteq> 34) \<and>
      (\<forall>rest. json_delim rest \<longrightarrow> scan_number (fr x @ rest) = Some (JvFloat x, rest)))"

text \<open>Leaves that the decoder reads back as they were: integers it accepts and floats whose text reads back.\<close>

definition exact_leaf :: "(rat \<Rightarrow> ustr) \<Rightarrow> jv \<Rightarrow> bool" where
  "exact_leaf fr v =
     (case v of JvInt i \<Rightarrow> \<bar>i\<bar> < 10 ^ 4300 | JvFloat x \<Rightarrow> float_reads fr x | JvNonFinite \<Rightarrow> False | JvOther \<Rightarrow> False | _ \<Rightarrow> True)"

definition exact_value :: "(rat \<Rightarrow> ustr) \<Rightarrow> jv \<Rightarrow> bool" where
  "exact_value fr v = jv_all (exact_leaf fr) (\<lambda>_. True) v"

text \<open>One value reads back before a delimiter, if there is fuel for the whole text.\<close>

definition reads_back :: "(rat \<Rightarrow> ustr) \<Rightarrow> jv \<Rightarrow> bool" where
  "reads_back fr v = (\<forall>n rest. json_delim rest \<longrightarrow> 2 * length (json_dump fr v @ rest) < n \<longrightarrow>
     scan_value n (json_dump fr v @ rest) = Scanned v rest)"

definition dump_member :: "(rat \<Rightarrow> ustr) \<Rightarrow> ustr \<times> jv \<Rightarrow> ustr" where
  "dump_member fr kv = json_string (fst kv) @ [58] @ json_dump fr (snd kv)"

text \<open>The preflight gets over a value that fits.\<close>

definition passes :: "(rat \<Rightarrow> ustr) \<Rightarrow> jv \<Rightarrow> bool" where
  "passes fr v = (\<forall>l md mn st tk rest. json_delim rest \<longrightarrow> tk + int (jv_tokens v) \<le> mn \<longrightarrow>
     int (length st) + jv_height v \<le> md \<longrightarrow>
     preflight l md mn st tk (json_dump fr v @ rest) = preflight l md mn st (tk + int (jv_tokens v)) rest)"

text \<open>A sample document: a budget entry with a nested list.\<close>

definition sample_json :: jv where
  "sample_json = JvObj [(u ''kind'', JvStr (u ''a\<newline>b'')), (u ''a'', JvList [JvInt (- 7), JvNull, JvBool True])]"

definition sample_bytes :: "nat list" where
  "sample_bytes = u ''{\"a\":[-7,null,true],\"kind\":\"a'' @ [92] @ u ''nb\"}''"

definition no_floats :: "rat \<Rightarrow> ustr" where
  "no_floats x = []"

section \<open>The walker accepts exactly the bounded values\<close>

lemma foldr_max_le: "foldr max xs (a::int) \<le> m \<longleftrightarrow> a \<le> m \<and> (\<forall>x \<in> set xs. x \<le> m)"
  by (induction xs) auto

lemma foldr_max_ge: "a \<le> foldr max xs (a::int)"
  by (induction xs) auto

lemma jv_height_nonneg: "0 \<le> jv_height v"
  by (cases v) (auto simp: foldr_max_ge)

lemma height_list:
  "d + jv_height (JvList vs) \<le> m \<longleftrightarrow> d \<le> m \<and> (\<forall>v \<in> set vs. d + 1 + jv_height v \<le> m)"
  using foldr_max_le [of "map (\<lambda>v. jv_height v + 1) vs" 0 "m - d"] by (auto simp: algebra_simps)

lemma height_obj:
  "d + jv_height (JvObj kvs) \<le> m \<longleftrightarrow> d \<le> m \<and> (\<forall>kv \<in> set kvs. d + 1 + jv_height (snd kv) \<le> m)"
proof -
  have "jv_height (JvObj kvs) = jv_height (JvList (map snd kvs))" by (simp add: split_def comp_def)
  then show ?thesis by (simp only: height_list) simp
qed

lemma jv_tokens_pos: "1 \<le> jv_tokens v"
  by (cases v) auto

lemma jv_all_obj: "jv_all P K (JvObj kvs) \<longleftrightarrow> (\<forall>kv \<in> set kvs. K (fst kv) \<and> jv_all P K (snd kv))"
  by (auto simp: list_all_iff)

lemma tokens_obj: "jv_tokens (JvObj kvs) = 1 + length kvs + sum_list (map (\<lambda>kv. jv_tokens (snd kv)) kvs)"
  by (induction kvs) auto

lemma count_node_Inr: "count_node l d n = Inr m \<longleftrightarrow> m = n + 1 \<and> n + 1 \<le> 100000 \<and> d \<le> 64"
  by (auto simp: count_node_def)

lemma validate_text_Inr: "validate_text l s = Inr x \<longleftrightarrow> utf8_encode s \<noteq> None"
  by (auto simp: validate_text_def)

lemma visit_keys_Inr:
  "n \<le> 100000 \<Longrightarrow> visit_keys l d n ks = Inr m \<longleftrightarrow>
   m = n + int (length ks) \<and> m \<le> 100000 \<and> (ks = [] \<or> d \<le> 64) \<and> (\<forall>k \<in> set ks. utf8_encode k \<noteq> None)"
proof (induction ks arbitrary: n)
  case (Cons k ks)
  show ?case
  proof (cases "n + 1 \<le> 100000 \<and> d \<le> 64 \<and> utf8_encode k \<noteq> None")
    case True
    then have "count_node l d n = Inr (n + 1)" "validate_text l k = Inr ()"
      by (simp_all add: count_node_Inr validate_text_Inr)
    then show ?thesis using Cons.IH [of "n + 1"] True by auto
  next
    case False
    then have "visit_keys l d n (k # ks) \<noteq> Inr m"
      by (auto simp: count_node_Inr validate_text_Inr split: sum.splits)
    then show ?thesis using False by auto
  qed
qed auto

lemma visit_Inr:
  "visit l d n v = Inr m \<longleftrightarrow>
     jv_all strict_leaf (\<lambda>k. utf8_encode k \<noteq> None) v \<and> d + jv_height v \<le> 64 \<and> n + int (jv_tokens v) \<le> 100000 \<and>
     m = n + int (jv_tokens v)"
  "n \<le> 100000 \<Longrightarrow> visit_all l d n vs = Inr m \<longleftrightarrow>
     list_all (jv_all strict_leaf (\<lambda>k. utf8_encode k \<noteq> None)) vs \<and> (\<forall>v \<in> set vs. d + jv_height v \<le> 64) \<and>
     m = n + int (sum_list (map jv_tokens vs)) \<and> m \<le> 100000"
  "n \<le> 100000 \<Longrightarrow> visit_values l d n kvs = Inr m \<longleftrightarrow>
     list_all (\<lambda>kv. jv_all strict_leaf (\<lambda>k. utf8_encode k \<noteq> None) (snd kv)) kvs \<and>
     (\<forall>kv \<in> set kvs. d + jv_height (snd kv) \<le> 64) \<and>
     m = n + int (sum_list (map (\<lambda>kv. jv_tokens (snd kv)) kvs)) \<and> m \<le> 100000"
proof (induction l d n v and l d n vs and l d n kvs arbitrary: m and m and m
    rule: visit_visit_all_visit_values.induct)
  case (1 l d n v)
  show ?case
  proof (cases "n + 1 \<le> 100000 \<and> d \<le> 64")
    case False
    then have "visit l d n v \<noteq> Inr m" by (auto simp: count_node_Inr split: sum.splits)
    moreover have "d + jv_height v \<le> 64 \<Longrightarrow> d \<le> 64" using jv_height_nonneg [of v] by simp
    moreover have "n + int (jv_tokens v) \<le> 100000 \<Longrightarrow> n + 1 \<le> 100000" using jv_tokens_pos [of v] by simp
    ultimately show ?thesis using False by blast
  next
    case True
    then have c: "count_node l d n = Inr (n + 1)" by (simp add: count_node_Inr)
    show ?thesis
    proof (cases v)
      case (JvList vs)
      have "visit l d n v = visit_all l (d + 1) (n + 1) vs" using c JvList by simp
      then show ?thesis using 1(1) [OF c JvList] True JvList height_list [of d vs 64] by auto
    next
      case (JvObj kvs)
      show ?thesis
      proof (cases "visit_keys l (d + 1) (n + 1) (map fst kvs)")
        case (Inl e)
        then have "visit l d n v = Inl e" using c JvObj by simp
        moreover have "\<not> (n + int (jv_tokens v) \<le> 100000 \<and> d + jv_height v \<le> 64 \<and>
            jv_all strict_leaf (\<lambda>k. utf8_encode k \<noteq> None) v)"
        proof
          assume *: "n + int (jv_tokens v) \<le> 100000 \<and> d + jv_height v \<le> 64 \<and> jv_all strict_leaf (\<lambda>k. utf8_encode k \<noteq> None) v"
          then have "n + 1 + int (length kvs) \<le> 100000" "\<forall>k \<in> set (map fst kvs). utf8_encode k \<noteq> None"
            unfolding JvObj tokens_obj jv_all_obj by auto
          moreover have "kvs = [] \<or> d + 1 \<le> 64"
          proof (cases kvs)
            case (Cons kv kvs')
            then show ?thesis using * height_obj [of d kvs 64] jv_height_nonneg [of "snd kv"] JvObj by auto
          qed simp
          ultimately show False using visit_keys_Inr [of "n + 1" l "d + 1" "map fst kvs" "n + 1 + int (length kvs)"] True Inl by simp
        qed
        ultimately show ?thesis by auto
      next
        case (Inr n')
        then have n': "n' = n + 1 + int (length kvs)" "n' \<le> 100000" "kvs = [] \<or> d + 1 \<le> 64"
          "\<forall>k \<in> set (map fst kvs). utf8_encode k \<noteq> None"
          using visit_keys_Inr [of "n + 1" l "d + 1" "map fst kvs" n'] True by auto
        have "visit l d n v = visit_values l (d + 1) n' kvs" using c JvObj Inr by simp
        moreover have "visit_values l (d + 1) n' kvs = Inr m \<longleftrightarrow>
            list_all (\<lambda>kv. jv_all strict_leaf (\<lambda>k. utf8_encode k \<noteq> None) (snd kv)) kvs \<and>
            (\<forall>kv \<in> set kvs. d + 1 + jv_height (snd kv) \<le> 64) \<and>
            m = n' + int (sum_list (map (\<lambda>kv. jv_tokens (snd kv)) kvs)) \<and> m \<le> 100000"
          by (rule 1(2) [OF c JvObj Inr n'(2)])
        ultimately show ?thesis
          using True n' unfolding JvObj height_obj tokens_obj jv_all_obj by (auto simp: list_all_iff)
      qed
    qed (use c True in \<open>auto simp: strict_leaf_def validate_text_def split: sum.splits\<close>)
  qed
next
  case (3 l d n v vs)
  have sum: "sum_list (map jv_tokens (v # vs)) = jv_tokens v + sum_list (map jv_tokens vs)" by simp
  show ?case
  proof (cases "visit l d n v")
    case (Inl e)
    then show ?thesis using 3(1) [of "n + int (jv_tokens v)"] by auto
  next
    case (Inr n')
    then have "n' \<le> 100000" "n' = n + int (jv_tokens v)" using 3(1) [of n'] by auto
    then show ?thesis using 3(1) [of n'] 3(2) [OF Inr, of m] Inr by auto
  qed
next
  case (5 l d n kv kvs)
  show ?case
  proof (cases "visit l d n (snd kv)")
    case (Inl e)
    then show ?thesis using 5(1) [of "n + int (jv_tokens (snd kv))"] by auto
  next
    case (Inr n')
    then have "n' \<le> 100000" "n' = n + int (jv_tokens (snd kv))" using 5(1) [of n'] by auto
    then show ?thesis using 5(1) [of n'] 5(2) [OF Inr, of m] Inr by auto
  qed
qed (auto)

section \<open>The decoded bounds\<close>

lemma jv_size_pos: "1 \<le> jv_size v"
  by (cases v) auto

lemma size_obj: "jv_size (JvObj kvs) = 1 + sum_list (map (\<lambda>kv. jv_size (snd kv)) kvs)"
  by (simp add: split_def)

lemma dumpable_obj: "json_dumpable (JvObj kvs) \<longleftrightarrow> (\<forall>kv \<in> set kvs. json_dumpable (snd kv))"
  by (auto simp: list_all_iff)

lemma dumpable_list: "json_dumpable (JvList vs) \<longleftrightarrow> (\<forall>v \<in> set vs. json_dumpable v)"
  by (auto simp: list_all_iff)

lemma stack_simps [simp]:
  "stack_size [] = 0" "stack_size ((v, d) # s) = int (jv_size v) + stack_size s" "stack_size (s @ t) = stack_size s + stack_size t"
  "stack_size (rev s) = stack_size s"
  "stack_ok m []" "stack_ok m ((v, d) # s) \<longleftrightarrow> d + jv_height v \<le> m \<and> json_dumpable v \<and> stack_ok m s"
  "stack_ok m (s @ t) \<longleftrightarrow> stack_ok m s \<and> stack_ok m t" "stack_ok m (rev s) = stack_ok m s"
  by (auto simp: stack_size_def stack_ok_def rev_map [symmetric])

lemma stack_size_map: "stack_size (map (\<lambda>x. (f x, d)) xs) = int (sum_list (map (\<lambda>x. jv_size (f x)) xs))"
  by (simp add: stack_size_def comp_def)

lemma stack_size_nonneg: "0 \<le> stack_size s"
  by (simp add: stack_size_def)

lemma decoded_loop_Inr:
  "n \<le> mn \<Longrightarrow> decoded_loop l md mn stack n = Inr () \<longleftrightarrow> n + stack_size stack \<le> mn \<and> stack_ok md stack"
proof (induction l md mn stack n rule: decoded_loop.induct)
  case (2 l md mn v d stack n)
  show ?case
  proof (cases "n + 1 > mn \<or> d > md")
    case True
    then have "decoded_loop l md mn ((v, d) # stack) n \<noteq> Inr ()" by auto
    then show ?thesis
      using True jv_size_pos [of v] stack_size_nonneg [of stack] jv_height_nonneg [of v] by auto
  next
    case False
    then have c: "\<not> n + 1 > mn" "\<not> d > md" "n + 1 \<le> mn" by auto
    show ?thesis
    proof (cases v)
      case (JvObj kvs)
      have "decoded_loop l md mn ((v, d) # stack) n =
          decoded_loop l md mn (rev (map (\<lambda>kv. (snd kv, d + 1)) kvs) @ stack) (n + 1)"
        using c JvObj by simp
      moreover have "stack_ok md (map (\<lambda>kv. (snd kv, d + 1)) kvs) \<longleftrightarrow> d + jv_height v \<le> md \<and> json_dumpable v"
        using c(2) unfolding JvObj height_obj dumpable_obj by (auto simp: stack_ok_def)
      moreover have "stack_size (map (\<lambda>kv. (snd kv, d + 1)) kvs) = int (jv_size v) - 1"
        unfolding JvObj size_obj stack_size_map by simp
      ultimately show ?thesis using 2(7) [OF c(1,2) JvObj c(3)] by auto
    next
      case (JvList vs)
      have "decoded_loop l md mn ((v, d) # stack) n =
          decoded_loop l md mn (rev (map (\<lambda>x. (x, d + 1)) vs) @ stack) (n + 1)"
        using c JvList by simp
      moreover have "stack_ok md (map (\<lambda>x. (x, d + 1)) vs) \<longleftrightarrow> d + jv_height v \<le> md \<and> json_dumpable v"
        using c(2) unfolding JvList height_list dumpable_list by (auto simp: stack_ok_def)
      moreover have "stack_size (map (\<lambda>x. (x, d + 1)) vs) = int (jv_size v) - 1"
        unfolding JvList stack_size_map by simp
      ultimately show ?thesis using 2(6) [OF c(1,2) JvList c(3)] by auto
    qed (use 2(1-5) c in auto)
  qed
qed auto

section \<open>The scanner reads forward and ends\<close>

lemma skip_ws_length: "length (skip_ws s) \<le> length s"
  by (simp add: skip_ws_def length_dropWhile_le)

lemma scan_string_shorter: "scan_string s = Some (t, r) \<Longrightarrow> length r < length s"
proof (induction s arbitrary: t r rule: scan_string.induct)
  case (2 c s)
  then show ?case by (fastforce split: if_splits list.splits option.splits prod.splits)
qed simp

lemma scan_fraction_length: "scan_fraction s = (fs, r) \<Longrightarrow> length r \<le> length s"
  by (auto simp: scan_fraction_def length_dropWhile_le le_SucI split: list.splits if_splits)

lemma scan_exponent_length: "scan_exponent s = (e, r) \<Longrightarrow> length r \<le> length s"
  by (auto simp: scan_exponent_def Let_def intro: le_SucI order_trans [OF length_dropWhile_le]
      split: list.splits if_splits prod.splits)

lemma scan_number_shorter:
  assumes "scan_number s = Some (v, r)"
  shows "length r < length s"
proof -
  define s1 where "s1 = (if s \<noteq> [] \<and> hd s = 45 then tl s else s)"
  define ds where "ds = (if hd s1 = 48 then [48] else takeWhile ascii_digit s1)"
  obtain fs s3 where f: "scan_fraction (drop (length ds) s1) = (fs, s3)" by force
  obtain e s4 where e: "scan_exponent s3 = (e, s4)" by force
  have s1: "s1 \<noteq> []" "ascii_digit (hd s1)" and r: "r = s4"
    using assms f e by (auto simp: scan_number_def s1_def ds_def Let_def split: if_splits)
  have "0 < length ds" using s1 by (cases s1) (auto simp: ds_def)
  then have "length (drop (length ds) s1) < length s1" using s1(1) by simp
  moreover have "length s1 \<le> length s" by (simp add: s1_def)
  ultimately show ?thesis using scan_fraction_length [OF f] scan_exponent_length [OF e] r by simp
qed

lemma starts_with_nonempty: "starts_with p s \<Longrightarrow> p \<noteq> [] \<Longrightarrow> s \<noteq> []"
  by (auto simp: starts_with_def)

lemma scan_literal_shorter: "scan_literal s = Scanned v r \<Longrightarrow> length r < length s"
  using starts_with_nonempty [of "u ''null''" s] starts_with_nonempty [of "u ''true''" s]
    starts_with_nonempty [of "u ''false''" s]
  by (auto simp: scan_literal_def u_def dest: scan_number_shorter split: if_splits option.splits prod.splits)

lemma scan_shorter:
  "scan_value n s = Scanned v r \<Longrightarrow> length r < length s"
  "scan_elements n s acc = Scanned v r \<Longrightarrow> length r < length s"
  "scan_members n s acc' = Scanned v r \<Longrightarrow> length r < length s"
proof (induction n s and n s acc and n s acc' arbitrary: v r and v r and v r
    rule: scan_value_scan_elements_scan_members.induct)
  case (2 n s)
  show ?case
  proof (cases s)
    case (Cons c s')
    have ws: "length r < length s" if "skip_ws s' = d # r'" "length r < length (d # r') \<or> r = r'" for d r'
      using that skip_ws_length [of s'] Cons by auto
    show ?thesis
      using 2 Cons ws scan_literal_shorter [of s v r] scan_string_shorter [of s']
      by (fastforce split: if_splits option.splits list.splits prod.splits)
  qed (use 2(3) in simp)
next
  case (4 n s acc)
  obtain x r1 where x: "scan_value n s = Scanned x r1" using 4(3) by (auto split: scan.splits)
  have "length r1 < length s" using 4(1) [OF x] .
  obtain d r2 where d: "skip_ws r1 = d # r2" using 4(3) x by (auto split: list.splits)
  then have "length r2 < length r1" using skip_ws_length [of r1] by simp
  moreover have "length (skip_ws r2) \<le> length r2" by (rule skip_ws_length)
  ultimately show ?case
    using 4(3) 4(2) [OF x d, of v r] x d \<open>length r1 < length s\<close> by (auto split: if_splits)
next
  case (6 n s acc)
  obtain c s0 where s: "s = c # s0" using 6(3) by (cases s) auto
  obtain k r1 where k: "scan_string s0 = Some (k, r1)" "c = 34" using 6(3) s by (auto split: if_splits option.splits)
  obtain d r2 where d: "skip_ws r1 = d # r2" "d = 58" using 6(3) s k by (auto split: if_splits list.splits)
  obtain x r3 where x: "scan_value n (skip_ws r2) = Scanned x r3" using 6(3) s k d by (auto split: scan.splits)
  obtain y r4 where y: "skip_ws r3 = y # r4" using 6(3) s k d x by (auto split: list.splits)
  have "length r1 < length s0" using scan_string_shorter [OF k(1)] .
  moreover have "length r2 < length r1" using skip_ws_length [of r1] d by simp
  moreover have "length r3 < length (skip_ws r2)" using 6(1) [OF s _ k(1) refl d(1) _ x] k(2) d(2) by simp
  moreover have "length (skip_ws r2) \<le> length r2" by (rule skip_ws_length)
  moreover have "length r4 < length r3" using skip_ws_length [of r3] y by simp
  moreover have "length (skip_ws r4) \<le> length r4" by (rule skip_ws_length)
  ultimately show ?case
    using 6(3) 6(2) [OF s _ k(1) refl d(1) _ x y, where v = v and r = r] s k d x y by (auto split: if_splits)
qed auto

lemma scan_fuel:
  "(\<forall>s. 2 * length s < n \<longrightarrow> scan_value n s \<noteq> OutOfFuel) \<and>
   (\<forall>s acc. 2 * length s + 1 < n \<longrightarrow> scan_elements n s acc \<noteq> OutOfFuel) \<and>
   (\<forall>s acc. 2 * length s + 1 < n \<longrightarrow> scan_members n s acc \<noteq> OutOfFuel)"
proof (induction n)
  case (Suc n)
  have "scan_value (Suc n) s \<noteq> OutOfFuel" if "2 * length s < Suc n" for s
  proof (cases s)
    case (Cons c s')
    have "scan_members n (d # r') [] \<noteq> OutOfFuel" "scan_elements n (d # r') [] \<noteq> OutOfFuel"
      if "skip_ws s' = d # r'" for d r'
      using that Suc \<open>2 * length s < Suc n\<close> skip_ws_length [of s'] Cons by auto
    then show ?thesis using Cons
      by (auto simp: scan_literal_def split: if_splits option.splits list.splits prod.splits)
  qed simp
  moreover have "scan_elements (Suc n) s acc \<noteq> OutOfFuel" if s: "2 * length s + 1 < Suc n" for s acc
  proof -
    have "scan_value n s \<noteq> OutOfFuel" using Suc s by simp
    moreover have "scan_elements n (skip_ws r2) a \<noteq> OutOfFuel"
      if "scan_value n s = Scanned x r1" "skip_ws r1 = d # r2" for x r1 d r2 a
    proof -
      have "length (skip_ws r2) + 2 \<le> length s"
        using scan_shorter(1) [OF that(1)] skip_ws_length [of r1] skip_ws_length [of r2] that(2) by simp
      then show ?thesis using Suc s by auto
    qed
    ultimately show ?thesis by (auto split: scan.splits list.splits)
  qed
  moreover have "scan_members (Suc n) s acc \<noteq> OutOfFuel" if s: "2 * length s + 1 < Suc n" for s acc
  proof (cases s)
    case (Cons c s0)
    have "scan_value n (skip_ws r2) \<noteq> OutOfFuel" "length (skip_ws r2) < length s"
      if "scan_string s0 = Some (k, r1)" "skip_ws r1 = d # r2" for k r1 d r2
      using scan_string_shorter [OF that(1)] skip_ws_length [of r1] skip_ws_length [of r2] that(2) Suc s Cons by auto
    moreover have "scan_members n (skip_ws r4) a \<noteq> OutOfFuel"
      if "scan_value n (skip_ws r2) = Scanned x r3" "skip_ws r3 = d # r4" "length (skip_ws r2) < length s" for x r2 r3 d r4 a
      using scan_shorter(1) [OF that(1)] skip_ws_length [of r3] skip_ws_length [of r4] that(2,3) Suc s Cons by auto
    ultimately show ?thesis using Cons by (auto split: scan.splits list.splits option.splits)
  qed simp
  ultimately show ?case by blast
qed simp

section \<open>Leaves read back\<close>

lemma scan_string_escape: "scan_string (json_escape c @ s) = map_option (\<lambda>(t, rest). (c # t, rest)) (scan_string s)"
proof (cases "c \<in> {34, 92, 10, 13, 9, 12, 8} \<or> 32 \<le> c")
  case True
  then show ?thesis by (auto simp: json_escape_def simple_escape_def)
next
  case False
  then have esc: "json_escape c = [92, 117, 48, 48, hex_lower (c div 16), hex_lower (c mod 16)]" and c: "c < 32"
    by (auto simp: json_escape_def)
  have hex: "is_hex (hex_lower k)" "hex_value (hex_lower k) = k" if "k < 16" for k
    using that by (auto simp: hex_lower_def is_hex_def hex_value_def)
  have 48: "is_hex 48" "hex_value 48 = 0" by (simp_all add: is_hex_def hex_value_def)
  have "four_hex (48 # 48 # hex_lower (c div 16) # hex_lower (c mod 16) # s) = Some c"
    using c hex [of "c div 16"] hex [of "c mod 16"] 48 by (simp add: four_hex_def)
  then have "unicode_escape (48 # 48 # hex_lower (c div 16) # hex_lower (c mod 16) # s) = Some (c, 4)"
    using c by (simp add: unicode_escape_def)
  then show ?thesis by (simp add: esc)
qed

lemma scan_string_read: "scan_string (concat (map json_escape t) @ 34 # rest) = Some (t, rest)"
  by (induction t) (simp_all add: scan_string_escape)

lemma skip_string_escape: "skip_string (json_escape c @ s) = skip_string s"
  by (auto simp: json_escape_def hex_lower_def)

lemma skip_string_read: "skip_string (concat (map json_escape t) @ 34 # rest) = Some rest"
  by (induction t) (simp_all add: skip_string_escape)

lemma decimal_digits: "list_all ascii_digit (decimal n)" "decimal n \<noteq> []"
proof -
  show "list_all ascii_digit (decimal n)"
    by (induction n rule: decimal.induct) (subst decimal.simps, auto simp: ascii_digit_def list_all_iff)
  show "decimal n \<noteq> []" by (subst decimal.simps) auto
qed

lemma decimal_value_append: "decimal_value (s @ [c]) = 10 * decimal_value s + (c - 48)"
  by (simp add: decimal_value_def)

lemma decimal_value_decimal: "decimal_value (decimal n) = n"
proof (induction n rule: decimal.induct)
  case (1 n)
  show ?case
  proof (cases "n < 10")
    case True
    then show ?thesis by (subst decimal.simps) (simp add: decimal_value_def)
  next
    case False
    then show ?thesis using 1 by (subst decimal.simps) (simp add: decimal_value_append)
  qed
qed

lemma decimal_hd: "hd (decimal n) = 48 \<Longrightarrow> n = 0"
proof (induction n rule: decimal.induct)
  case (1 n)
  show ?case
  proof (cases "n < 10")
    case True
    then show ?thesis using 1(2) by (subst (asm) decimal.simps) simp
  next
    case False
    then have "decimal n = decimal (n div 10) @ [48 + n mod 10]" by (subst decimal.simps) simp
    then have "n div 10 = 0" using 1 False decimal_digits(2) [of "n div 10"] by simp
    then show ?thesis using False by simp
  qed
qed

lemma decimal_length: "n < 10 ^ k \<Longrightarrow> 0 < k \<Longrightarrow> length (decimal n) \<le> k"
proof (induction n arbitrary: k rule: decimal.induct)
  case (1 n)
  show ?case
  proof (cases "n < 10")
    case True
    then show ?thesis using 1(3) by (subst decimal.simps) simp
  next
    case False
    then have k: "1 < k" using 1(2) by (cases "k = 1") (use 1(3) in auto)
    then have "n div 10 < 10 ^ (k - 1)"
      using 1(2) by (simp add: div_less_iff_less_mult flip: power_Suc2)
    then have "length (decimal (n div 10)) \<le> k - 1" using 1(1) [OF False] k by simp
    then show ?thesis using False k by (subst decimal.simps) simp
  qed
qed

lemma delim_not_digit: "json_delim rest \<Longrightarrow> rest \<noteq> [] \<Longrightarrow>
    \<not> ascii_digit (hd rest) \<and> hd rest \<noteq> 46 \<and> hd rest \<noteq> 101 \<and> hd rest \<noteq> 69 \<and> word_end (hd rest)"
  by (auto simp: json_delim_def ascii_digit_def word_end_def uni_space_def)

lemma takeWhile_all_append:
  "list_all P xs \<Longrightarrow> ys = [] \<or> \<not> P (hd ys) \<Longrightarrow> takeWhile P (xs @ ys) = xs \<and> dropWhile P (xs @ ys) = ys"
  by (induction xs) (cases ys, auto)+

lemma scan_tail: "json_delim rest \<Longrightarrow> scan_fraction rest = ([], rest) \<and> scan_exponent rest = (None, rest)"
  using delim_not_digit [of rest] by (auto simp: scan_fraction_def scan_exponent_def split: list.splits)

lemma scan_number_digits:
  assumes "neg = (s \<noteq> [] \<and> hd s = 45)" "s1 = (if neg then tl s else s)" "s1 \<noteq> []" "ascii_digit (hd s1)"
    "ds = (if hd s1 = 48 then [48] else takeWhile ascii_digit s1)" "drop (length ds) s1 = r" "json_delim r" "length ds \<le> 4300"
  shows "scan_number s = Some (JvInt (if neg then - int (decimal_value ds) else int (decimal_value ds)), r)"
  unfolding scan_number_def Let_def assms(1) [symmetric] assms(2) [symmetric] assms(5) [symmetric] assms(6)
  using assms(3,4,8) scan_tail [OF assms(7)] by simp

lemma scan_number_read:
  assumes "json_delim rest" "\<bar>i\<bar> < 10 ^ 4300"
  shows "scan_number (json_int i @ rest) = Some (JvInt i, rest)"
proof -
  define n where "n = nat \<bar>i\<bar>"
  have len: "length (decimal n) \<le> 4300"
  proof (rule decimal_length)
    have "int n < 10 ^ 4300" using assms(2) by (simp only: n_def)
    then show "n < 10 ^ 4300" by (metis of_nat_less_iff of_nat_numeral of_nat_power)
  qed simp
  let ?d = "decimal n @ rest"
  have hd: "hd ?d = hd (decimal n)" "?d \<noteq> []" using decimal_digits(2) [of n] by auto
  have dig: "ascii_digit (hd ?d)" using decimal_digits [of n] hd by (cases "decimal n") auto
  have ds: "(if hd ?d = 48 then [48] else takeWhile ascii_digit ?d) = decimal n"
  proof (cases "hd ?d = 48")
    case True
    then have "n = 0" using decimal_hd hd(1) by simp
    then have "decimal n = [48]" by (subst decimal.simps) simp
    then show ?thesis using True by simp
  next
    case False
    then show ?thesis
      using takeWhile_all_append [OF decimal_digits(1) [of n], of rest] delim_not_digit [OF assms(1)] by auto
  qed
  have i: "json_int i = (if i < 0 then 45 # decimal n else decimal n)" by (simp add: json_int_def n_def)
  have neg: "hd ?d \<noteq> 45" using dig by (auto simp: ascii_digit_def)
  have "(if i < 0 then - int n else int n) = i" by (simp add: n_def)
  moreover have "scan_number (json_int i @ rest) =
      Some (JvInt (if i < 0 then - int (decimal_value (decimal n)) else int (decimal_value (decimal n))), rest)"
    by (rule scan_number_digits [of _ _ ?d]) (use ds dig hd len neg i assms(1) in simp_all)
  ultimately show ?thesis unfolding decimal_value_decimal by simp
qed

section \<open>Values read back\<close>

lemma exact_value_simps:
  "exact_value fr (JvList vs) \<longleftrightarrow> (\<forall>v \<in> set vs. exact_value fr v)"
  "exact_value fr (JvObj kvs) \<longleftrightarrow> (\<forall>kv \<in> set kvs. exact_value fr (snd kv))"
  by (auto simp: exact_value_def list_all_iff)

lemma dump_first:
  assumes "exact_value fr v"
  shows "json_dump fr v \<noteq> [] \<and> \<not> uni_space (hd (json_dump fr v)) \<and> hd (json_dump fr v) \<notin> {44, 58, 93, 125}"
proof (cases v)
  case (JvInt i)
  have "ascii_digit (hd (decimal (nat i)))" using decimal_digits [of "nat i"] by (cases "decimal (nat i)") auto
  moreover have "ascii_digit c \<Longrightarrow> \<not> uni_space c \<and> c \<notin> {44, 58, 93, 125}" for c
    by (auto simp: ascii_digit_def uni_space_def)
  ultimately show ?thesis using JvInt decimal_digits(2) by (simp add: json_int_def) (simp add: uni_space_def)
next
  case (JvFloat x)
  then have "fr x \<noteq> []" "hd (fr x) = 45 \<or> ascii_digit (hd (fr x))"
    using assms by (auto simp: exact_value_def exact_leaf_def float_reads_def)
  then show ?thesis using JvFloat by (auto simp: ascii_digit_def uni_space_def)
qed (use assms in \<open>auto simp: exact_value_def exact_leaf_def u_def json_string_def uni_space_def\<close>)

lemma json_ws_space: "json_ws c \<Longrightarrow> uni_space c"
  by (auto simp: json_ws_def uni_space_def)

lemma skip_ws_id: "s = [] \<or> \<not> json_ws (hd s) \<Longrightarrow> skip_ws s = s"
  by (cases s) (auto simp: skip_ws_def)

lemma skip_ws_dump: "exact_value fr v \<Longrightarrow> skip_ws (json_dump fr v @ rest) = json_dump fr v @ rest"
  using dump_first [of fr v] json_ws_space by (intro skip_ws_id) auto

lemma join_commas_Cons: "xs \<noteq> [] \<Longrightarrow> join_commas (x # xs) = x @ [44] @ join_commas xs"
  by (cases xs) auto

lemma json_delim_simps [simp]: "json_delim (44 # s)" "json_delim (93 # s)" "json_delim (125 # s)" "json_delim []"
  by (simp_all add: json_delim_def)

lemma skip_ws_sign [simp]: "skip_ws (93 # s) = 93 # s" "skip_ws (44 # s) = 44 # s" "skip_ws (125 # s) = 125 # s"
  "skip_ws (58 # s) = 58 # s" "skip_ws (34 # s) = 34 # s"
  by (simp_all add: skip_ws_def json_ws_def)

lemma elements_read:
  assumes "\<And>v. v \<in> set vs \<Longrightarrow> reads_back fr v \<and> exact_value fr v" "vs \<noteq> []"
    "2 * length (join_commas (map (json_dump fr) vs) @ 93 # rest) + 1 < n"
  shows "scan_elements n (join_commas (map (json_dump fr) vs) @ 93 # rest) acc = Scanned (JvList (acc @ vs)) rest"
  using assms
proof (induction vs arbitrary: n acc)
  case (Cons v vs)
  obtain m where n: "n = Suc m" using Cons.prems(3) by (cases n) auto
  show ?case
  proof (cases "vs = []")
    case True
    have "scan_value m (json_dump fr v @ 93 # rest) = Scanned v (93 # rest)"
      using Cons.prems True n by (simp add: reads_back_def)
    then show ?thesis using True n by simp
  next
    case False
    let ?r = "join_commas (map (json_dump fr) vs) @ 93 # rest"
    have form: "join_commas (map (json_dump fr) (v # vs)) @ 93 # rest = json_dump fr v @ 44 # ?r"
      using False by (simp add: join_commas_Cons)
    have "scan_value m (json_dump fr v @ 44 # ?r) = Scanned v (44 # ?r)"
      using Cons.prems form n by (simp add: reads_back_def)
    moreover have "skip_ws ?r = ?r"
    proof -
      obtain w ws where "vs = w # ws" using False by (cases vs) auto
      then have "\<exists>t. ?r = json_dump fr w @ t" by (cases ws) auto
      then show ?thesis using skip_ws_dump Cons.prems(1) \<open>vs = w # ws\<close> by fastforce
    qed
    moreover have "scan_elements m ?r (acc @ [v]) = Scanned (JvList ((acc @ [v]) @ vs)) rest"
      using Cons.IH [of m "acc @ [v]"] Cons.prems False n form by simp
    ultimately show ?thesis unfolding form n by simp
  qed
qed simp

lemma json_dump_obj: "json_dump fr (JvObj kvs) = [123] @ join_commas (map (dump_member fr) kvs) @ [125]"
  by (simp add: dump_member_def split_def cong: map_cong)

lemma members_read:
  assumes "\<And>kv. kv \<in> set kvs \<Longrightarrow> reads_back fr (snd kv) \<and> exact_value fr (snd kv)" "kvs \<noteq> []"
    "distinct (map fst (acc @ kvs))"
    "2 * length (join_commas (map (dump_member fr) kvs) @ 125 # rest) + 1 < n"
  shows "scan_members n (join_commas (map (dump_member fr) kvs) @ 125 # rest) acc = Scanned (JvObj (acc @ kvs)) rest"
  using assms
proof (induction kvs arbitrary: n acc)
  case (Cons kv kvs)
  obtain m where n: "n = Suc m" using Cons.prems(4) by (cases n) auto
  obtain k v where kv: "kv = (k, v)" by force
  define tail where "tail = (if kvs = [] then 125 # rest else 44 # join_commas (map (dump_member fr) kvs) @ 125 # rest)"
  have form: "join_commas (map (dump_member fr) (kv # kvs)) @ 125 # rest =
      34 # concat (map json_escape k) @ 34 # 58 # json_dump fr v @ tail"
    by (simp add: tail_def join_commas_Cons kv dump_member_def json_string_def)
  have "scan_value m (json_dump fr v @ tail) = Scanned v tail"
    using Cons.prems(1) [of kv] Cons.prems(4) kv n unfolding form reads_back_def by (simp add: tail_def)
  then have step: "scan_members n (join_commas (map (dump_member fr) (kv # kvs)) @ 125 # rest) acc =
      (case skip_ws tail of
         [] \<Rightarrow> ScanError
       | x # r4 \<Rightarrow>
           (if x = 125
            then (if distinct (map fst (acc @ [(k, v)])) then Scanned (JvObj (acc @ [(k, v)])) r4 else ScanError)
            else if x = 44 then scan_members m (skip_ws r4) (acc @ [(k, v)])
            else ScanError))"
    using skip_ws_dump [of fr v tail] Cons.prems(1) [of kv] unfolding form n by (simp add: scan_string_read kv)
  show ?case
  proof (cases "kvs = []")
    case True
    then show ?thesis using step Cons.prems(3) kv by (simp add: tail_def)
  next
    case False
    let ?r = "join_commas (map (dump_member fr) kvs) @ 125 # rest"
    obtain t where "?r = 34 # t"
      using False by (cases kvs; cases "tl kvs") (auto simp: dump_member_def json_string_def)
    then have "skip_ws ?r = ?r" by simp
    moreover have "scan_members m ?r (acc @ [kv]) = Scanned (JvObj ((acc @ [kv]) @ kvs)) rest"
      using Cons.IH [of "acc @ [kv]" m] Cons.prems False n by (simp add: join_commas_Cons)
    ultimately show ?thesis using step False kv by (simp add: tail_def)
  qed
qed simp

lemma scan_literal_number:
  "s \<noteq> [] \<Longrightarrow> hd s \<notin> {110, 116, 102} \<Longrightarrow>
   scan_literal s = (case scan_number s of None \<Rightarrow> ScanError | Some (v, rest) \<Rightarrow> Scanned v rest)"
  by (cases s) (auto simp: scan_literal_def starts_with_def u_def)

lemma json_int_first: "json_int i \<noteq> [] \<and> (hd (json_int i) = 45 \<or> ascii_digit (hd (json_int i)))"
proof -
  have "ascii_digit (hd (decimal (nat i)))" using decimal_digits [of "nat i"] by (cases "decimal (nat i)") auto
  then show ?thesis using decimal_digits(2) [of "nat i"] by (auto simp: json_int_def)
qed

lemma leaf_read:
  assumes "exact_leaf fr v" "\<forall>vs. v \<noteq> JvList vs" "\<forall>kvs. v \<noteq> JvObj kvs" "json_delim rest" "0 < n"
  shows "scan_value n (json_dump fr v @ rest) = Scanned v rest"
proof -
  obtain m where n: "n = Suc m" using assms(5) by (cases n) auto
  show ?thesis
  proof (cases v)
    case (JvInt i)
    obtain c s where s: "json_int i = c # s" "c = 45 \<or> ascii_digit c" using json_int_first [of i] by (cases "json_int i") auto
    then have "scan_value n (json_int i @ rest) = scan_literal (json_int i @ rest)"
      by (auto simp: n ascii_digit_def)
    also have "\<dots> = Scanned (JvInt i) rest"
    proof -
      have "\<bar>i\<bar> < 10 ^ 4300" using assms(1) unfolding JvInt exact_leaf_def by (simp only: jv.case)
      from scan_number_read [OF assms(4) this] show ?thesis
        using s by (subst scan_literal_number) (auto simp: ascii_digit_def)
    qed
    finally show ?thesis using JvInt by simp
  next
    case (JvFloat x)
    have x: "fr x \<noteq> []" "hd (fr x) = 45 \<or> ascii_digit (hd (fr x))" "scan_number (fr x @ rest) = Some (JvFloat x, rest)"
      using assms(1,4) by (auto simp: JvFloat exact_leaf_def float_reads_def)
    obtain c s where s: "fr x = c # s" "c = 45 \<or> ascii_digit c" using x(1,2) by (cases "fr x") auto
    then have "scan_value n (fr x @ rest) = scan_literal (fr x @ rest)" by (auto simp: n ascii_digit_def)
    also have "\<dots> = Scanned (JvFloat x) rest"
      using s x(3) by (subst scan_literal_number) (auto simp: ascii_digit_def)
    finally show ?thesis using JvFloat by simp
  next
    case (JvStr t)
    then show ?thesis using scan_string_read [of t rest] by (simp add: n json_string_def)
  qed (use assms in \<open>auto simp: n u_def scan_literal_def starts_with_def exact_leaf_def\<close>)
qed

lemma leaf_reads_back: "exact_leaf fr v \<Longrightarrow> \<forall>vs. v \<noteq> JvList vs \<Longrightarrow> \<forall>kvs. v \<noteq> JvObj kvs \<Longrightarrow> reads_back fr v"
  unfolding reads_back_def by (blast intro: leaf_read gr_implies_not0 [THEN bot_nat_0.not_eq_extremum [THEN iffD1]])

lemma object_read:
  assumes ok: "\<And>kv. kv \<in> set kvs \<Longrightarrow> reads_back fr (snd kv) \<and> exact_value fr (snd kv)" and "distinct (map fst kvs)"
    and n: "2 * length (json_dump fr (JvObj kvs) @ rest) < n"
  shows "scan_value n (json_dump fr (JvObj kvs) @ rest) = Scanned (JvObj kvs) rest"
proof -
  obtain m where m: "n = Suc m" using n by (cases n) auto
  show ?thesis
  proof (cases kvs)
    case (Cons w ws)
    let ?r = "join_commas (map (dump_member fr) kvs) @ 125 # rest"
    obtain t where t: "?r = 34 # t" using Cons by (cases ws) (auto simp: dump_member_def json_string_def)
    have "scan_members m ?r [] = Scanned (JvObj ([] @ kvs)) rest"
      by (rule members_read [OF ok]) (use Cons n m assms(2) in \<open>auto simp: json_dump_obj simp del: json_dump.simps\<close>)
    then show ?thesis using t unfolding json_dump_obj m by simp
  qed (simp add: m)
qed

lemma scan_value_read: "exact_value fr v \<Longrightarrow> distinct_keys v \<Longrightarrow> reads_back fr v"
proof (induction v)
  case (JvList vs)
  have ok: "reads_back fr v \<and> exact_value fr v" if "v \<in> set vs" for v
    using JvList that by (auto simp: exact_value_simps list_all_iff)
  show ?case
    unfolding reads_back_def
  proof (intro allI impI)
    fix n rest
    assume n: "2 * length (json_dump fr (JvList vs) @ rest) < n"
    then obtain m where m: "n = Suc m" by (cases n) auto
    show "scan_value n (json_dump fr (JvList vs) @ rest) = Scanned (JvList vs) rest"
    proof (cases vs)
      case Nil
      then show ?thesis by (simp add: m)
    next
      case (Cons w ws)
      let ?r = "join_commas (map (json_dump fr) vs) @ 93 # rest"
      obtain t where t: "?r = json_dump fr w @ t" using Cons by (cases ws) auto
      have "skip_ws ?r = ?r" using skip_ws_dump ok Cons unfolding t by simp
      moreover obtain d r' where "?r = d # r'" "d \<noteq> 93"
        using dump_first [of fr w] ok Cons unfolding t by (cases "json_dump fr w") auto
      moreover have "scan_elements m ?r [] = Scanned (JvList ([] @ vs)) rest"
        by (rule elements_read [OF ok]) (use Cons n m in auto)
      ultimately show ?thesis by (simp add: m)
    qed
  qed
next
  case (JvObj kvs)
  have ok: "reads_back fr (snd kv) \<and> exact_value fr (snd kv)" if "kv \<in> set kvs" for kv
    using JvObj that by (cases kv) (fastforce simp: exact_value_simps list_all_iff)
  then show ?case using object_read [of kvs fr] JvObj.prems(2) unfolding reads_back_def by auto
qed (simp_all only: exact_value_def jv_all.simps, (rule leaf_reads_back; simp)+)

section \<open>The preflight accepts canonical text\<close>

lemma preflight_comma: "preflight l md mn st tk (44 # s) = preflight l md mn st tk s"
  "preflight l md mn st tk (58 # s) = preflight l md mn st tk s"
  by simp_all

lemma preflight_string:
  "tk + 1 \<le> mn \<Longrightarrow> preflight l md mn st tk (json_string t @ s) = preflight l md mn st (tk + 1) s"
  using skip_string_read [of t s] by (simp add: json_string_def uni_space_def)

lemma preflight_word:
  assumes "w \<noteq> []" "\<forall>c \<in> set w. \<not> word_end c \<and> c \<noteq> 34" "json_delim rest" "tk + 1 \<le> mn"
  shows "preflight l md mn st tk (w @ rest) = preflight l md mn st (tk + 1) rest"
proof -
  obtain c w' where w: "w = c # w'" using assms(1) by (cases w) auto
  have "dropWhile (\<lambda>x. \<not> word_end x) (w' @ rest) = rest"
    using assms(2,3) w takeWhile_all_append [of "\<lambda>x. \<not> word_end x" w' rest] delim_not_digit [of rest]
    by (auto simp: list_all_iff)
  then show ?thesis using assms w by (auto simp: word_end_def)
qed

lemma preflight_elements:
  assumes "\<And>v. v \<in> set vs \<Longrightarrow> passes fr v" "\<And>v. v \<in> set vs \<Longrightarrow> int (length st) + jv_height v \<le> md"
    "tk + int (sum_list (map jv_tokens vs)) \<le> mn"
  shows "preflight l md mn st tk (join_commas (map (json_dump fr) vs) @ 93 # rest) =
    preflight l md mn st (tk + int (sum_list (map jv_tokens vs))) (93 # rest)"
  using assms
proof (induction vs arbitrary: tk)
  case (Cons v vs)
  show ?case
  proof (cases "vs = []")
    case True
    then show ?thesis using Cons.prems unfolding passes_def by simp
  next
    case False
    have "preflight l md mn st tk (json_dump fr v @ 44 # join_commas (map (json_dump fr) vs) @ 93 # rest) =
        preflight l md mn st (tk + int (jv_tokens v)) (44 # join_commas (map (json_dump fr) vs) @ 93 # rest)"
      using Cons.prems unfolding passes_def by simp
    then show ?thesis using Cons False by (simp add: join_commas_Cons preflight_comma add.assoc del: preflight.simps)
  qed
qed simp

lemma preflight_members:
  assumes "\<And>kv. kv \<in> set kvs \<Longrightarrow> passes fr (snd kv)" "\<And>kv. kv \<in> set kvs \<Longrightarrow> int (length st) + jv_height (snd kv) \<le> md"
    "tk + int (length kvs + sum_list (map (\<lambda>kv. jv_tokens (snd kv)) kvs)) \<le> mn"
  shows "preflight l md mn st tk (join_commas (map (dump_member fr) kvs) @ 125 # rest) =
    preflight l md mn st (tk + int (length kvs + sum_list (map (\<lambda>kv. jv_tokens (snd kv)) kvs))) (125 # rest)"
  using assms
proof (induction kvs arbitrary: tk)
  case (Cons kv kvs)
  have one: "preflight l md mn st tk (dump_member fr kv @ s) =
      preflight l md mn st (tk + 1 + int (jv_tokens (snd kv))) s" if "json_delim s" for s
    using Cons.prems that unfolding passes_def dump_member_def
    by (simp add: preflight_string preflight_comma del: preflight.simps)
  show ?case
  proof (cases "kvs = []")
    case True
    then show ?thesis using one [of "125 # rest"] by (simp add: add.assoc del: preflight.simps)
  next
    case False
    then show ?thesis using Cons one [of "44 # join_commas (map (dump_member fr) kvs) @ 125 # rest"]
      by (simp add: join_commas_Cons preflight_comma add.assoc add.left_commute del: preflight.simps)
  qed
qed simp

lemma digit_plain: "ascii_digit c \<Longrightarrow> \<not> word_end c \<and> c \<noteq> 34"
  by (auto simp: ascii_digit_def word_end_def uni_space_def)

lemma json_int_word: "c \<in> set (json_int i) \<Longrightarrow> \<not> word_end c \<and> c \<noteq> 34"
proof -
  have minus: "\<not> word_end 45" by (simp add: word_end_def uni_space_def)
  assume "c \<in> set (json_int i)"
  then have "c = 45 \<or> ascii_digit c"
    using decimal_digits(1) by (auto simp: json_int_def list_all_iff split: if_splits)
  then show ?thesis using minus digit_plain by auto
qed

lemma leaf_passes:
  assumes "exact_leaf fr v" "\<forall>vs. v \<noteq> JvList vs" "\<forall>kvs. v \<noteq> JvObj kvs"
  shows "passes fr v"
proof -
  have words: "\<forall>c \<in> set (u w). \<not> word_end c \<and> c \<noteq> 34" if "w \<in> {''null'', ''true'', ''false''}" for w
    using that by (auto simp: u_def word_end_def uni_space_def)
  have word: "passes fr v" if "json_dump fr v \<noteq> []" "\<forall>c \<in> set (json_dump fr v). \<not> word_end c \<and> c \<noteq> 34" "jv_tokens v = 1"
    using preflight_word [OF that(1,2)] that(3) unfolding passes_def by simp
  show ?thesis
  proof (cases v)
    case (JvStr t)
    then show ?thesis unfolding passes_def by (simp add: preflight_string del: preflight.simps)
  next
    case (JvInt i)
    then show ?thesis using json_int_word json_int_first by (intro word) auto
  next
    case (JvFloat x)
    then show ?thesis using assms(1) by (intro word) (auto simp: exact_leaf_def float_reads_def)
  next
    case JvNull
    show ?thesis using words [of "''null''"] by (intro word) (auto simp: JvNull u_def)
  next
    case (JvBool b)
    show ?thesis using words [of "''true''"] words [of "''false''"] by (intro word) (auto simp: JvBool u_def)
  qed (use assms in \<open>simp_all add: exact_leaf_def\<close>)
qed

lemma preflight_open:
  assumes "int (length st) \<le> md" "tk + 1 \<le> mn" "c = 91 \<or> c = 123"
  shows "preflight l md mn st tk (c # s) = preflight l md mn (c # st) (tk + 1) s"
  using assms by (auto simp: uni_space_def)

lemma preflight_close:
  "preflight l md mn (91 # st) tk (93 # s) = preflight l md mn st tk s"
  "preflight l md mn (123 # st) tk (125 # s) = preflight l md mn st tk s"
  by (simp_all add: uni_space_def)

lemma value_passes: "exact_value fr v \<Longrightarrow> passes fr v"
proof (induction v)
  case (JvList vs)
  have ok: "passes fr v" if "v \<in> set vs" for v using JvList that by (auto simp: exact_value_simps)
  show ?case
    unfolding passes_def
  proof (intro allI impI)
    fix l md mn and st :: "nat list" and tk :: int and rest
    assume tk: "tk + int (jv_tokens (JvList vs)) \<le> mn" and h: "int (length st) + jv_height (JvList vs) \<le> md"
    have "preflight l md mn st tk (json_dump fr (JvList vs) @ rest) =
        preflight l md mn (91 # st) (tk + 1) (join_commas (map (json_dump fr) vs) @ 93 # rest)"
      using tk h jv_height_nonneg [of "JvList vs"] preflight_open [of st md tk mn 91] by (simp del: preflight.simps)
    also have "\<dots> = preflight l md mn (91 # st) (tk + int (jv_tokens (JvList vs))) (93 # rest)"
      using tk h ok by (subst preflight_elements) (auto simp: height_list add.assoc simp del: preflight.simps jv_height.simps)
    finally show "preflight l md mn st tk (json_dump fr (JvList vs) @ rest) =
        preflight l md mn st (tk + int (jv_tokens (JvList vs))) rest"
      by (simp only: preflight_close)
  qed
next
  case (JvObj kvs)
  have ok: "passes fr (snd kv)" if "kv \<in> set kvs" for kv
    using JvObj that by (cases kv) (fastforce simp: exact_value_simps)
  show ?case
    unfolding passes_def
  proof (intro allI impI)
    fix l md mn and st :: "nat list" and tk :: int and rest
    assume tk: "tk + int (jv_tokens (JvObj kvs)) \<le> mn" and h: "int (length st) + jv_height (JvObj kvs) \<le> md"
    have "preflight l md mn st tk (json_dump fr (JvObj kvs) @ rest) =
        preflight l md mn (123 # st) (tk + 1) (join_commas (map (dump_member fr) kvs) @ 125 # rest)"
      using tk h jv_height_nonneg [of "JvObj kvs"] preflight_open [of st md tk mn 123] unfolding json_dump_obj
      by (simp del: preflight.simps)
    also have "\<dots> = preflight l md mn (123 # st) (tk + int (jv_tokens (JvObj kvs))) (125 # rest)"
      using tk h ok unfolding tokens_obj
      by (subst preflight_members) (auto simp: height_obj add.assoc simp del: preflight.simps jv_height.simps)
    finally show "preflight l md mn st tk (json_dump fr (JvObj kvs) @ rest) =
        preflight l md mn st (tk + int (jv_tokens (JvObj kvs))) rest"
      by (simp only: preflight_close)
  qed
qed (simp_all only: exact_value_def jv_all.simps, (rule leaf_passes; simp)+)

section \<open>Sorting the keys keeps what the bounds see\<close>

lemma sort_keys_obj: "sort_keys (JvObj kvs) = JvObj (sort_key fst (map (\<lambda>kv. (fst kv, sort_keys (snd kv))) kvs))"
  by (simp add: split_def)

lemma sort_keys_all: "jv_all P K (sort_keys v) = jv_all P K v"
proof (induction v)
  case (JvObj kvs)
  then show ?case unfolding sort_keys_obj jv_all_obj by (fastforce simp: list_all_iff)
qed (simp_all add: list_all_iff)

lemma sort_keys_dumpable: "json_dumpable (sort_keys v) = json_dumpable v"
proof (induction v)
  case (JvObj kvs)
  then show ?case unfolding sort_keys_obj dumpable_obj by fastforce
qed (simp_all add: list_all_iff)

lemma sort_keys_distinct: "distinct_keys v \<Longrightarrow> distinct_keys (sort_keys v)"
proof (induction v)
  case (JvObj kvs)
  have "map fst (map (\<lambda>kv. (fst kv, sort_keys (snd kv))) kvs) = map fst kvs" by simp
  then have "distinct (map fst (sort_key fst (map (\<lambda>kv. (fst kv, sort_keys (snd kv))) kvs)))"
    using JvObj.prems by (simp add: distinct_sort distinct_map inj_on_def) blast
  then show ?case using JvObj unfolding sort_keys_obj by (fastforce simp: list_all_iff)
qed (simp_all add: list_all_iff)

lemma sum_list_sort_key: "sum_list (map f (sort_key g xs)) = sum_list (map f xs)" for f :: "'a \<Rightarrow> nat"
proof -
  have "mset (map f (sort_key g xs)) = mset (map f xs)" by simp
  then show ?thesis by (metis sum_mset_sum_list)
qed

lemma sort_keys_tokens: "jv_tokens (sort_keys v) = jv_tokens v"
proof (induction v)
  case (JvObj kvs)
  have "map (\<lambda>kv. jv_tokens (sort_keys (snd kv))) kvs = map (\<lambda>kv. jv_tokens (snd kv)) kvs"
    using JvObj by (intro map_cong) (auto simp: snds.simps)
  then show ?case unfolding sort_keys_obj tokens_obj sum_list_sort_key by (simp add: comp_def del: map_eq_conv)
qed (auto simp: comp_def intro!: arg_cong [where f = sum_list] map_cong)

lemma sort_keys_size: "jv_size (sort_keys v) = jv_size v"
proof (induction v)
  case (JvObj kvs)
  have "map (\<lambda>kv. jv_size (sort_keys (snd kv))) kvs = map (\<lambda>kv. jv_size (snd kv)) kvs"
    using JvObj by (intro map_cong) (auto simp: snds.simps)
  then show ?case unfolding sort_keys_obj size_obj sum_list_sort_key by (simp add: comp_def del: map_eq_conv)
qed (auto simp: comp_def intro!: arg_cong [where f = sum_list] map_cong)

lemma sort_keys_height: "jv_height (sort_keys v) = jv_height v"
proof (induction v)
  case (JvList vs)
  then show ?case by (auto simp: comp_def intro!: arg_cong [where f = "\<lambda>xs. foldr max xs 0"] map_cong)
next
  case (JvObj kvs)
  have "0 + jv_height (sort_keys (JvObj kvs)) \<le> m \<longleftrightarrow> 0 + jv_height (JvObj kvs) \<le> m" for m
    using JvObj unfolding sort_keys_obj height_obj by (fastforce simp: snds.simps)
  then show ?case by (metis add_0 order_antisym order_refl)
qed simp_all

lemma dump_first_ascii: "exact_value fr v \<Longrightarrow> hd (json_dump fr v) < 128"
proof (cases v)
  case (JvInt i)
  then show ?thesis using json_int_first [of i] by (auto simp: ascii_digit_def)
qed (auto simp: exact_value_def exact_leaf_def float_reads_def ascii_digit_def u_def json_string_def)

lemma jv_size_le_tokens: "jv_size v \<le> jv_tokens v"
proof (induction v)
  case (JvList vs)
  then show ?case by (simp add: sum_list_mono)
next
  case (JvObj kvs)
  have "sum_list (map (\<lambda>kv. jv_size (snd kv)) kvs) \<le> sum_list (map (\<lambda>kv. jv_tokens (snd kv)) kvs)"
    using JvObj by (intro sum_list_mono) (auto simp: snds.simps)
  then show ?case unfolding size_obj tokens_obj by simp
qed simp_all

lemma json_loads_dump:
  assumes "exact_value fr v" "distinct_keys v"
  shows "json_loads (json_dump fr v) = Some v"
proof -
  let ?s = "json_dump fr v"
  have "skip_ws ?s = ?s" using skip_ws_dump [OF assms(1), of "[]"] by simp
  moreover have "scan_value (2 * length ?s + 1) ?s = Scanned v []"
  proof -
    have "json_delim []" by simp
    then have "2 * length (?s @ []) < n \<longrightarrow> scan_value n (?s @ []) = Scanned v []" for n
      using scan_value_read [OF assms] unfolding reads_back_def by blast
    then show ?thesis by (metis append_Nil2 lessI Suc_eq_plus1)
  qed
  moreover have "hd ?s \<noteq> 0xFEFF" using dump_first_ascii [OF assms(1)] by auto
  ultimately show ?thesis by (simp add: json_loads_def skip_ws_def)
qed

lemma canonical_decodes:
  assumes "canonical_json_bytes fr v label limit = Inr bs" and "exact_value fr v" and "distinct_keys v"
  shows "utf8_decode bs = Some (json_dump fr (sort_keys v))" and "json_loads (json_dump fr (sort_keys v)) = Some (sort_keys v)"
    and "json_dumpable v" and "bs \<noteq> []" and "exact_value fr (sort_keys v)"
proof -
  let ?s = "json_dump fr (sort_keys v)"
  have enc: "utf8_encode ?s = Some bs" and dump: "json_dumpable v"
    using assms(1) by (auto simp: canonical_json_bytes_def split: if_splits option.splits)
  have w: "exact_value fr (sort_keys v)" "distinct_keys (sort_keys v)"
    using assms(2,3) sort_keys_distinct by (auto simp: exact_value_def sort_keys_all)
  show "utf8_decode bs = Some ?s" by (rule utf8_decode_encode [OF enc])
  show "json_loads ?s = Some (sort_keys v)" by (rule json_loads_dump [OF w])
  show "bs \<noteq> []" using dump_first [OF w(1)] enc by (cases ?s) (auto simp: utf8_char_def split: option.splits if_splits)
qed (use assms in \<open>auto simp: canonical_json_bytes_def exact_value_def sort_keys_all split: if_splits option.splits\<close>)

lemma scan_distinct:
  "(\<forall>s v r. scan_value n s = Scanned v r \<longrightarrow> distinct_keys v) \<and>
   (\<forall>s acc v r. scan_elements n s acc = Scanned v r \<longrightarrow> list_all distinct_keys acc \<longrightarrow> distinct_keys v) \<and>
   (\<forall>s acc v r. scan_members n s acc = Scanned v r \<longrightarrow> list_all (\<lambda>kv. distinct_keys (snd kv)) acc \<longrightarrow> distinct_keys v)"
proof (induction n)
  case (Suc n)
  have number: "scan_number s = Some (v, r) \<Longrightarrow> distinct_keys v" for s v r
    by (auto simp: scan_number_def Let_def split: if_splits prod.splits)
  have "distinct_keys v" if "scan_value (Suc n) s = Scanned v r" for s v r
    using that Suc by (fastforce simp: scan_literal_def dest: number split: list.splits if_splits option.splits prod.splits)
  moreover have "distinct_keys v" if "scan_elements (Suc n) s acc = Scanned v r" "list_all distinct_keys acc" for s acc v r
    using that Suc by (fastforce split: scan.splits list.splits if_splits)
  moreover have "distinct_keys v"
    if "scan_members (Suc n) s acc = Scanned v r" "list_all (\<lambda>kv. distinct_keys (snd kv)) acc" for s acc v r
  proof -
    have "distinct_keys (JvObj kvs) \<longleftrightarrow> distinct (map fst kvs) \<and> list_all (\<lambda>kv. distinct_keys (snd kv)) kvs" for kvs
      by (simp add: split_def)
    then show ?thesis
      using that Suc by (fastforce split: scan.splits list.splits option.splits prod.splits if_splits simp del: distinct_keys.simps)
  qed
  ultimately show ?case by blast
qed simp

lemma parsed_distinct: "parse_strict_json_bytes bs label max_bytes max_depth max_nodes = Inr v \<Longrightarrow> distinct_keys v"
proof -
  assume "parse_strict_json_bytes bs label max_bytes max_depth max_nodes = Inr v"
  then obtain s where "json_loads s = Some v"
    by (auto simp: parse_strict_json_bytes_def split: sum.splits if_splits option.splits)
  then obtain r where "scan_value (2 * length s + 1) (skip_ws s) = Scanned v r"
    by (auto simp: json_loads_def split: if_splits scan.splits)
  then show ?thesis using scan_distinct by blast
qed

lemma passes_whole:
  assumes "passes fr v" and "int (jv_tokens v) \<le> mn" and "jv_height v \<le> md"
  shows "preflight l md mn [] 0 (json_dump fr v) = Inr ()"
proof -
  have "preflight l md mn [] 0 (json_dump fr v @ []) = preflight l md mn [] (0 + int (jv_tokens v)) []"
    by (rule assms(1) [unfolded passes_def, rule_format]) (use assms(2,3) in simp_all)
  then show ?thesis by simp
qed

lemma zero_separated:
  "a @ 0 # p = b @ 0 # q \<Longrightarrow> 0 \<notin> set a \<Longrightarrow> 0 \<notin> set b \<Longrightarrow> a = b \<and> p = (q :: nat list)"
proof (induction a arbitrary: b)
  case Nil
  then show ?case by (cases b) auto
next
  case (Cons x a)
  then show ?case by (cases b) auto
qed

lemma sample_canonical: "canonical_json_bytes no_floats sample_json ''entry'' None = Inr sample_bytes"
  by code_simp

lemma sample_exact: "exact_value no_floats sample_json" "distinct_keys sample_json"
proof -
  have "(7::int) < 10 ^ 1 " by simp
  also have "(10::int) ^ 1 \<le> 10 ^ 4300" by (rule power_increasing) simp_all
  finally show "exact_value no_floats sample_json"
    unfolding exact_value_def sample_json_def
    by (simp only: exact_leaf_def jv.case jv_all.simps list.pred_inject prod.case abs_minus_cancel abs_numeral simp_thms)
  show "distinct_keys sample_json" by code_simp
qed

lemma sample_small: "int (length sample_bytes) \<le> 1000" "jv_height sample_json \<le> 10" "int (jv_tokens sample_json) \<le> 100"
  by code_simp+

section \<open>Correctness\<close>

text \<open>C32. Canonical JSON reads back: a value of strings, integers, booleans, nulls, floats whose text reads back,
  lists and dictionaries, within the reader's limits, is what the strict reader returns for its canonical bytes, with the keys
  of every dictionary in sorted order.\<close>

theorem canonical_json_reads_back:
  assumes "canonical_json_bytes fr v label limit = Inr bs" and "exact_value fr v" and "distinct_keys v"
    and "int (length bs) \<le> max_bytes" and "jv_height v \<le> max_depth" and "int (jv_tokens v) \<le> max_nodes"
  shows "parse_strict_json_bytes bs label' max_bytes max_depth max_nodes = Inr (sort_keys v)"
proof -
  let ?w = "sort_keys v" let ?s = "json_dump fr ?w"
  note read = canonical_decodes [OF assms(1-3)]
  have "1 \<le> int (length bs)" using read(4) by (cases bs) auto
  then have limits: "validate_json_limits max_bytes max_depth max_nodes = Inr ()"
    using assms(4-6) jv_height_nonneg [of v] jv_tokens_pos [of v] by (auto simp: validate_json_limits_def)
  have "passes fr ?w" by (rule value_passes [OF read(5)])
  then have pre: "preflight label' max_depth max_nodes [] 0 ?s = Inr ()"
    by (rule passes_whole) (use assms(5,6) in \<open>simp_all add: sort_keys_height sort_keys_tokens\<close>)
  have "decoded_loop label' max_depth max_nodes [(?w, 0)] 0 = Inr ()"
    using assms(5,6) read(3) jv_size_le_tokens [of v] jv_tokens_pos [of v]
    by (subst decoded_loop_Inr) (auto simp: sort_keys_size sort_keys_height sort_keys_dumpable)
  then show ?thesis
    using limits pre assms(4) read(1,2)
    by (simp add: parse_strict_json_bytes_def)
qed

theorem canonical_json_reads_back_witness:
  "canonical_json_bytes no_floats sample_json ''entry'' None = Inr sample_bytes \<and>
   parse_strict_json_bytes sample_bytes ''entry'' 1000 10 100 = Inr (sort_keys sample_json)"
  using canonical_json_reads_back [OF sample_canonical sample_exact, of 1000 10 100 "''entry''"] sample_canonical sample_small
  by simp

text \<open>What the strict reader returns is bounded and unambiguous: its nesting and its number of values
  are within the limits, every number in it is finite, and no dictionary in it has a key twice.\<close>

theorem strict_json_is_bounded:
  assumes "parse_strict_json_bytes bs label max_bytes max_depth max_nodes = Inr v"
  shows "distinct_keys v \<and> json_dumpable v \<and> jv_height v \<le> max_depth \<and> int (jv_size v) \<le> max_nodes \<and>
    int (length bs) \<le> max_bytes"
proof -
  obtain s where s: "utf8_decode bs = Some s" "json_loads s = Some v" "decoded_loop label max_depth max_nodes [(v, 0)] 0 = Inr ()"
    "validate_json_limits max_bytes max_depth max_nodes = Inr ()" "int (length bs) \<le> max_bytes"
    using assms by (auto simp: parse_strict_json_bytes_def split: sum.splits if_splits option.splits)
  have "distinct_keys v" by (rule parsed_distinct [OF assms])
  moreover have "0 \<le> max_nodes" using s(4) by (auto simp: validate_json_limits_def split: if_splits)
  ultimately show ?thesis using s(3,5) decoded_loop_Inr [of 0 max_nodes label max_depth "[(v, 0)]"] by auto
qed

theorem strict_json_is_bounded_witness:
  "parse_strict_json_bytes (u ''[1]'') ''entry'' 1000 10 100 = Inr (JvList [JvInt 1]) \<and>
   distinct_keys (JvList [JvInt 1]) \<and> jv_height (JvList [JvInt 1]) \<le> 10"
proof -
  have "parse_strict_json_bytes (u ''[1]'') ''entry'' 1000 10 100 = Inr (JvList [JvInt 1])" by code_simp
  then show ?thesis using strict_json_is_bounded [of "u ''[1]''" "''entry''" 1000 10 100 "JvList [JvInt 1]"] by simp
qed

text \<open>The object walker accepts exactly the values with at most 100000 nodes, keys included, nested at
  most 64 deep, whose texts can be encoded, whose integers fit in 64 bits and whose numbers are
  finite.\<close>

theorem strict_walk_is_exact:
  "validate_strict_json v label = Inr () \<longleftrightarrow>
     jv_all strict_leaf (\<lambda>k. utf8_encode k \<noteq> None) v \<and> jv_height v \<le> 64 \<and> jv_tokens v \<le> 100000"
  using visit_Inr(1) [of label 0 0 v] by (fastforce simp: validate_strict_json_def split: sum.splits)

text \<open>A discovery digest binds its domain and its value: two values with the same digest under
  domains without a zero byte have the same domain and the same canonical content, unless the two
  hashed messages collide under SHA-256.\<close>

theorem discovery_digest_binds:
  assumes "discovery_digest fr d1 v1 = Inr h" and "discovery_digest fr d2 v2 = Inr h"
    and "0 \<notin> set d1" and "0 \<notin> set d2"
    and "exact_value fr v1" and "exact_value fr v2" and "distinct_keys v1" and "distinct_keys v2"
    and "\<And>p1 p2. canonical_json_bytes fr v1 ''discovery identity payload'' None = Inr p1 \<Longrightarrow>
      canonical_json_bytes fr v2 ''discovery identity payload'' None = Inr p2 \<Longrightarrow>
      inj_on sha256_hex {d1 @ [0] @ p1, d2 @ [0] @ p2}"
  shows "d1 = d2 \<and> sort_keys v1 = sort_keys v2"
proof -
  obtain p1 where p1: "canonical_json_bytes fr v1 ''discovery identity payload'' None = Inr p1" "h = sha256_hex (d1 @ [0] @ p1)"
    using assms(1) by (auto simp: discovery_digest_def split: if_splits sum.splits)
  obtain p2 where p2: "canonical_json_bytes fr v2 ''discovery identity payload'' None = Inr p2" "h = sha256_hex (d2 @ [0] @ p2)"
    using assms(2) by (auto simp: discovery_digest_def split: if_splits sum.splits)
  have "d1 @ [0] @ p1 = d2 @ [0] @ p2"
    using assms(9) [OF p1(1) p2(1)] p1(2) p2(2) by (auto dest: inj_onD)
  then have eq: "d1 = d2" "p1 = p2" using zero_separated [of d1 p1 d2 p2] assms(3,4) by simp_all
  have "sort_keys v1 = sort_keys v2"
    using canonical_decodes(1,2) [OF p1(1) assms(5,7)] canonical_decodes(1,2) [OF p2(1) assms(6,8)] eq(2) by simp
  then show ?thesis using eq(1) by simp
qed

theorem discovery_digest_binds_witness:
  "discovery_digest no_floats (u ''pajin.x'') sample_json = Inr (sha256_hex (u ''pajin.x'' @ [0] @ sample_bytes)) \<and>
   discovery_digest no_floats (u ''pajin.x'') (sort_keys sample_json) = Inr (sha256_hex (u ''pajin.x'' @ [0] @ sample_bytes)) \<and>
   sample_json \<noteq> sort_keys sample_json \<and> sort_keys sample_json = sort_keys (sort_keys sample_json)"
proof -
  let ?w = "sort_keys sample_json"
  have c: "canonical_json_bytes no_floats sample_json ''discovery identity payload'' None = Inr sample_bytes"
    "canonical_json_bytes no_floats ?w ''discovery identity payload'' None = Inr sample_bytes" "sample_json \<noteq> ?w" by code_simp+
  have d: "is_ascii (u ''pajin.x'')" "0 \<notin> set (u ''pajin.x'')" by code_simp+
  have w: "exact_value no_floats ?w" "distinct_keys ?w"
    using sample_exact sort_keys_distinct by (auto simp: exact_value_def sort_keys_all)
  have e: "discovery_digest no_floats (u ''pajin.x'') sample_json = Inr (sha256_hex (u ''pajin.x'' @ [0] @ sample_bytes))"
    "discovery_digest no_floats (u ''pajin.x'') ?w = Inr (sha256_hex (u ''pajin.x'' @ [0] @ sample_bytes))"
    unfolding discovery_digest_def c using d(1) by simp_all
  then show ?thesis
    using discovery_digest_binds [OF e(1) e(2) d(2) d(2) sample_exact(1) w(1) sample_exact(2) w(2)] c by simp
qed

end
