(* ===== verification/Secret_Redaction.thy ===== *)
theory Secret_Redaction
  imports Secret_Broker Strict_Json
begin

text \<open>
  The redaction of registered secrets in untrusted text: \<open>_secret_variants\<close> to \<open>redact_value\<close> of
  \<^verbatim>\<open>src/src/pajin/runtime/secrets.py\<close>, with the parts of \<open>base64\<close>, \<open>urllib.parse\<close> and \<open>re\<close> they use.
  A set of variants is a list in the iteration order of the set, which is a parameter where a result
  may depend on it.
\<close>

section \<open>Library functions\<close>

definition b64_digit :: "bool \<Rightarrow> nat \<Rightarrow> nat" where
  "b64_digit urlsafe n =
     (if n < 26 then 65 + n else if n < 52 then 71 + n else if n < 62 then n - 4
      else if n = 62 then (if urlsafe then 45 else 43) else (if urlsafe then 95 else 47))"

fun b64encode :: "bool \<Rightarrow> nat list \<Rightarrow> ustr" where
  "b64encode alt [] = []"
| "b64encode alt [a] = [b64_digit alt (a div 4), b64_digit alt (a mod 4 * 16), 61, 61]"
| "b64encode alt [a, b] =
     [b64_digit alt (a div 4), b64_digit alt (a mod 4 * 16 + b div 16), b64_digit alt (b mod 16 * 4), 61]"
| "b64encode alt (a # b # c # rest) =
     [b64_digit alt (a div 4), b64_digit alt (a mod 4 * 16 + b div 16),
      b64_digit alt (b mod 16 * 4 + c div 64), b64_digit alt (c mod 64)] @ b64encode alt rest"

definition rstrip_char :: "nat \<Rightarrow> ustr \<Rightarrow> ustr" where
  "rstrip_char c s = rev (dropWhile (\<lambda>x. x = c) (rev s))"

definition bytes_hex :: "nat list \<Rightarrow> ustr" where
  "bytes_hex bs = concat (map (\<lambda>b. [hex_lower (b div 16), hex_lower (b mod 16)]) bs)"

definition replace_char :: "nat \<Rightarrow> nat \<Rightarrow> ustr \<Rightarrow> ustr" where
  "replace_char c d s = map (\<lambda>x. if x = c then d else x) s"

text \<open>\<open>quote_plus(value, safe="")\<close>.\<close>

definition quote_plus :: "ustr \<Rightarrow> ustr result" where
  "quote_plus s =
     (if 32 \<in> set s
      then (case quote [32] s of Inl e \<Rightarrow> Inl e | Inr q \<Rightarrow> Inr (replace_char 32 43 q))
      else quote [] s)"

text \<open>The escapes of \<open>json.dumps\<close> with \<open>ensure_ascii=True\<close>.\<close>

definition json_u :: "nat \<Rightarrow> ustr" where
  "json_u n = [92, 117, hex_lower (n div 4096 mod 16), hex_lower (n div 256 mod 16), hex_lower (n div 16 mod 16), hex_lower (n mod 16)]"

definition json_escape_ascii :: "nat \<Rightarrow> ustr" where
  "json_escape_ascii c =
     (if c < 127 then json_escape c
      else if c < 0x10000 then json_u c
      else json_u (0xD800 + (c - 0x10000) div 1024 mod 1024) @ json_u (0xDC00 + (c - 0x10000) mod 1024))"

text \<open>The decoder with an error handler: the longest prefix of a well-formed sequence is replaced by
  \<open>rep\<close>, which is \<open>[0xFFFD]\<close> for \<open>errors="replace"\<close> and \<open>[]\<close> for \<open>errors="ignore"\<close>.\<close>

definition second_byte_ok :: "nat \<Rightarrow> nat \<Rightarrow> bool" where
  "second_byte_ok b b1 =
     (utf8_cont b1 \<and> (b = 0xE0 \<longrightarrow> 0xA0 \<le> b1) \<and> (b = 0xED \<longrightarrow> b1 < 0xA0) \<and>
      (b = 0xF0 \<longrightarrow> 0x90 \<le> b1) \<and> (b = 0xF4 \<longrightarrow> b1 < 0x90))"

definition utf8_bad :: "nat \<Rightarrow> nat list \<Rightarrow> nat" where
  "utf8_bad b bs =
     (if 0xE0 \<le> b \<and> b \<le> 0xF4
      then (case bs of
          [] \<Rightarrow> 0
        | b1 # bs' \<Rightarrow>
            if \<not> second_byte_ok b b1 then 0
            else if b < 0xF0 then 1
            else (case bs' of b2 # _ \<Rightarrow> if utf8_cont b2 then 2 else 1 | [] \<Rightarrow> 1))
      else 0)"

fun utf8_decode_with :: "ustr \<Rightarrow> nat list \<Rightarrow> ustr" where
  "utf8_decode_with rep [] = []"
| "utf8_decode_with rep (b # bs) =
     (case utf8_step b bs of
        Some (c, n) \<Rightarrow> c # utf8_decode_with rep (drop n bs)
      | None \<Rightarrow> rep @ utf8_decode_with rep (drop (utf8_bad b bs) bs))"

function unquote_runs :: "ustr \<Rightarrow> ustr" where
  "unquote_runs [] = []"
| "unquote_runs (c # s) =
     (if 128 \<le> c then c # unquote_runs s
      else utf8_decode_with [0xFFFD] (unquote_bytes (takeWhile (\<lambda>x. x < 128) (c # s))) @
           unquote_runs (dropWhile (\<lambda>x. x < 128) (c # s)))"
  by pat_completeness auto

termination unquote_runs
  by (relation "measure length") (auto simp: le_imp_less_Suc length_dropWhile_le)

text \<open>\<open>unquote(string)\<close> and \<open>unquote_plus(string)\<close> with \<open>errors="replace"\<close>.\<close>

definition unquote_text :: "ustr \<Rightarrow> ustr" where
  "unquote_text s = (if 37 \<in> set s then unquote_runs s else s)"

definition unquote_plus_text :: "ustr \<Rightarrow> ustr" where
  "unquote_plus_text s = unquote_text (replace_char 43 32 s)"

text \<open>The leftmost non-overlapping matches of a window of \<open>n\<close> characters are replaced; whether there is one.\<close>

fun sub_all :: "(ustr \<Rightarrow> bool) \<Rightarrow> nat \<Rightarrow> (ustr \<Rightarrow> ustr) \<Rightarrow> ustr \<Rightarrow> ustr" where
  "sub_all P n f [] = []"
| "sub_all P n f (c # s) =
     (if 0 < n \<and> P (take n (c # s)) then f (take n (c # s)) @ sub_all P n f (drop (n - 1) s)
      else c # sub_all P n f s)"

fun matches :: "(ustr \<Rightarrow> bool) \<Rightarrow> nat \<Rightarrow> ustr \<Rightarrow> bool" where
  "matches P n [] = False"
| "matches P n (c # s) = (P (take n (c # s)) \<or> matches P n s)"

text \<open>\<open>v in t\<close> and \<open>t.replace(old, new)\<close> for a text that is not empty.\<close>

definition occurs :: "ustr \<Rightarrow> ustr \<Rightarrow> bool" where
  "occurs v t = (v = [] \<or> matches (\<lambda>w. w = v) (length v) t)"

definition str_replace :: "ustr \<Rightarrow> ustr \<Rightarrow> ustr \<Rightarrow> ustr" where
  "str_replace old new t = sub_all (\<lambda>w. w = old) (length old) (\<lambda>_. new) t"

text \<open>A match of \<open>re.escape(encoded_hex)\<close> with \<open>re.IGNORECASE\<close>.\<close>

definition hex_match :: "ustr \<Rightarrow> ustr \<Rightarrow> bool" where
  "hex_match h w = (map ascii_lower w = h)"

section \<open>The code\<close>

definition secret_variants :: "ustr \<Rightarrow> ustr list result" where
  "secret_variants value =
     (case utf8_encode value of
        None \<Rightarrow> Inl UnicodeEncodeError
      | Some encoded \<Rightarrow>
          (case quote [] value of
             Inl e \<Rightarrow> Inl e
           | Inr quoted \<Rightarrow>
               (case quote_plus value of
                  Inl e \<Rightarrow> Inl e
                | Inr quoted_plus \<Rightarrow>
                    Inr (value # filter (\<lambda>variant. 8 \<le> length variant)
                      [bytes_hex encoded, map ascii_upper (bytes_hex encoded),
                       b64encode False encoded, rstrip_char 61 (b64encode False encoded),
                       b64encode True encoded, rstrip_char 61 (b64encode True encoded),
                       quoted, quoted_plus,
                       concat (map json_escape value), concat (map json_escape_ascii value)]))))"

text \<open>A mask is one character, or the empty text if every candidate is taken.\<close>

definition free_character :: "ustr list \<Rightarrow> nat list \<Rightarrow> nat option" where
  "free_character variants candidates = find (\<lambda>c. list_all (\<lambda>variant. c \<notin> set variant) variants) candidates"

definition collision_safe_mask_character :: "ustr list \<Rightarrow> ustr" where
  "collision_safe_mask_character variants =
     (case free_character variants (u ''#~^!?'' @ [0x2588]) of
        Some c \<Rightarrow> [c]
      | None \<Rightarrow> (case free_character variants [0xE000..<0xF900] of Some c \<Rightarrow> [c] | None \<Rightarrow> []))"

definition REDACTION_MARKER :: ustr where
  "REDACTION_MARKER = u ''<redacted-secret>''"

definition redaction_replacement :: "ustr \<Rightarrow> ustr list \<Rightarrow> ustr \<Rightarrow> ustr" where
  "redaction_replacement matched variants collision_mask =
     (let replacement = (if length matched \<ge> length REDACTION_MARKER then REDACTION_MARKER
                         else replicate (length matched) 42) in
      if list_ex (\<lambda>variant. occurs variant replacement) variants then collision_mask else replacement)"

fun replace_variants :: "ustr list \<Rightarrow> ustr \<Rightarrow> ustr list \<Rightarrow> ustr \<times> bool \<Rightarrow> ustr \<times> bool" where
  "replace_variants variants cmask [] (redacted, changed) = (redacted, changed)"
| "replace_variants variants cmask (variant # rest) (redacted, changed) =
     (let updated = str_replace variant (redaction_replacement variant variants cmask) redacted in
      replace_variants variants cmask rest (updated, changed \<or> updated \<noteq> redacted))"

fun replace_hex :: "ustr list \<Rightarrow> ustr \<Rightarrow> ustr list \<Rightarrow> ustr \<times> bool \<Rightarrow> (ustr \<times> bool) result" where
  "replace_hex variants cmask [] rc = Inr rc"
| "replace_hex variants cmask (secret # rest) (redacted, changed) =
     (case utf8_encode secret of
        None \<Rightarrow> Inl UnicodeEncodeError
      | Some encoded \<Rightarrow>
          (let h = bytes_hex encoded in
           if length h < 8 then replace_hex variants cmask rest (redacted, changed)
           else replace_hex variants cmask rest
             (sub_all (hex_match h) (length h) (\<lambda>matched. redaction_replacement matched variants cmask) redacted,
              changed \<or> matches (hex_match h) (length h) redacted)))"

text \<open>\<open>sorted(variants, key=len, reverse=True)\<close> keeps the iteration order of variants of one length.\<close>

definition by_length :: "ustr list \<Rightarrow> ustr list" where
  "by_length variants = sort_key (\<lambda>v. - int (length v)) variants"

definition replace_known_secret_variants ::
  "ustr \<Rightarrow> ustr list \<Rightarrow> ustr list \<Rightarrow> ustr \<Rightarrow> (ustr \<times> bool) result" where
  "replace_known_secret_variants value secrets variants collision_mask =
     replace_hex variants collision_mask secrets
       (replace_variants variants collision_mask (by_length variants) (value, False))"

text \<open>One pass over the frontier: \<open>Inr None\<close> is the early \<open>return True\<close>.\<close>

fun decode_frontier ::
  "(ustr \<Rightarrow> bool result) \<Rightarrow> ustr list \<Rightarrow> ustr list \<Rightarrow> ustr list \<Rightarrow> (ustr list \<times> ustr list) option result" where
  "decode_frontier check [] seen next_frontier = Inr (Some (seen, next_frontier))"
| "decode_frontier check (normalized # rest) seen next_frontier =
     (if normalized \<in> set seen then decode_frontier check rest seen next_frontier
      else case check normalized of
        Inl e \<Rightarrow> Inl e
      | Inr True \<Rightarrow> Inr None
      | Inr False \<Rightarrow> decode_frontier check rest (normalized # seen) (normalized # next_frontier))"

definition normalizations :: "ustr list \<Rightarrow> ustr list" where
  "normalizations frontier = concat (map (\<lambda>candidate. [unquote_text candidate, unquote_plus_text candidate]) frontier)"

fun decode_passes :: "(ustr \<Rightarrow> bool result) \<Rightarrow> nat \<Rightarrow> ustr list \<Rightarrow> ustr list \<Rightarrow> bool result" where
  "decode_passes check 0 seen frontier = Inr True"
| "decode_passes check (Suc k) seen frontier =
     (case decode_frontier check (normalizations frontier) seen [] of
        Inl e \<Rightarrow> Inl e
      | Inr None \<Rightarrow> Inr True
      | Inr (Some (seen', next_frontier)) \<Rightarrow>
          (if next_frontier = [] then Inr False else decode_passes check k seen' next_frontier))"

definition has_bounded_encoded_secret :: "ustr \<Rightarrow> ustr list \<Rightarrow> ustr list \<Rightarrow> ustr \<Rightarrow> bool result" where
  "has_bounded_encoded_secret value secrets variants collision_mask =
     decode_passes (\<lambda>normalized. map_sum id snd (replace_known_secret_variants normalized secrets variants collision_mask))
       3 [value] [value]"

fun validated_secrets :: "ustr list \<Rightarrow> ustr list result" where
  "validated_secrets [] = Inr []"
| "validated_secrets (secret # rest) =
     (if secret = [] then validated_secrets rest
      else case validate_secret_value secret of
        Inl e \<Rightarrow> Inl e
      | Inr _ \<Rightarrow> map_sum id ((#) secret) (validated_secrets rest))"

fun all_variants :: "ustr list \<Rightarrow> ustr list result" where
  "all_variants [] = Inr []"
| "all_variants (secret # rest) =
     (case secret_variants secret of
        Inl e \<Rightarrow> Inl e
      | Inr vs \<Rightarrow> map_sum id ((@) (filter (\<lambda>variant. variant \<noteq> []) vs)) (all_variants rest))"

text \<open>\<open>order\<close> is the iteration order of the set of variants.\<close>

definition redact_secret_values :: "(ustr list \<Rightarrow> ustr list) \<Rightarrow> ustr \<Rightarrow> ustr list \<Rightarrow> ustr result" where
  "redact_secret_values order value values =
     (case validated_secrets values of
        Inl e \<Rightarrow> Inl e
      | Inr secrets \<Rightarrow>
          (case all_variants secrets of
             Inl e \<Rightarrow> Inl e
           | Inr vs \<Rightarrow>
               (let variants = order (remdups vs); cmask = collision_safe_mask_character variants in
                case replace_known_secret_variants value secrets variants cmask of
                  Inl e \<Rightarrow> Inl e
                | Inr (redacted, _) \<Rightarrow>
                    (case has_bounded_encoded_secret redacted secrets variants cmask of
                       Inl e \<Rightarrow> Inl e
                     | Inr True \<Rightarrow> Inr (redaction_replacement value variants cmask)
                     | Inr False \<Rightarrow> Inr redacted))))"

definition redact_text :: "(ustr list \<Rightarrow> ustr list) \<Rightarrow> ustr \<Rightarrow> secret_material list \<Rightarrow> ustr result" where
  "redact_text order value materials = redact_secret_values order value (map sm_value materials)"

text \<open>A value: redacted keys that collide keep the first position and the last value.\<close>

fun redact_value :: "(ustr list \<Rightarrow> ustr list) \<Rightarrow> secret_material list \<Rightarrow> jv \<Rightarrow> jv result"
  and redact_list :: "(ustr list \<Rightarrow> ustr list) \<Rightarrow> secret_material list \<Rightarrow> jv list \<Rightarrow> jv list result"
  and redact_items :: "(ustr list \<Rightarrow> ustr list) \<Rightarrow> secret_material list \<Rightarrow> (ustr \<times> jv) list \<Rightarrow> (ustr \<times> jv) list \<Rightarrow> (ustr \<times> jv) list result" where
  "redact_value order ms (JvStr s) = map_sum id JvStr (redact_text order s ms)"
| "redact_value order ms (JvObj kvs) = map_sum id JvObj (redact_items order ms kvs [])"
| "redact_value order ms (JvList vs) = map_sum id JvList (redact_list order ms vs)"
| "redact_value order ms v = Inr v"
| "redact_list order ms [] = Inr []"
| "redact_list order ms (v # vs) =
     (case redact_value order ms v of
        Inl e \<Rightarrow> Inl e
      | Inr v' \<Rightarrow> map_sum id ((#) v') (redact_list order ms vs))"
| "redact_items order ms [] acc = Inr acc"
| "redact_items order ms ((k, v) # kvs) acc =
     (case redact_text order k ms of
        Inl e \<Rightarrow> Inl e
      | Inr k' \<Rightarrow>
          (case redact_value order ms v of
             Inl e \<Rightarrow> Inl e
           | Inr v' \<Rightarrow> redact_items order ms kvs (dict_set k' v' acc)))"

section \<open>Windows and decodings\<close>

text \<open>A window predicate: it holds of texts of one positive length only.\<close>

definition window :: "(ustr \<Rightarrow> bool) \<Rightarrow> nat \<Rightarrow> bool" where
  "window P n \<longleftrightarrow> 0 < n \<and> (\<forall>w. P w \<longrightarrow> length w = n)"

text \<open>A replacement that no window crosses.\<close>

definition barrier :: "(ustr \<Rightarrow> bool) \<Rightarrow> nat \<Rightarrow> ustr \<Rightarrow> bool" where
  "barrier Q m r \<longleftrightarrow> r \<noteq> [] \<and> \<not> matches Q m r \<and> (\<forall>w. Q w \<longrightarrow> hd r \<notin> set w \<and> last r \<notin> set w)"

text \<open>The texts that some sequence of percent-decodings makes of a text.\<close>

inductive decodes :: "ustr \<Rightarrow> ustr \<Rightarrow> bool" where
  decodes_refl: "decodes s s"
| decodes_unquote: "decodes s t \<Longrightarrow> decodes s (unquote_text t)"
| decodes_plus: "decodes s t \<Longrightarrow> decodes s (unquote_plus_text t)"

text \<open>The characters the replacements are made of.\<close>

definition redaction_chars :: "nat set" where
  "redaction_chars = {42, 60, 62}"

definition mask_chars :: "nat set" where
  "mask_chars = {35, 126, 94, 33, 63, 0x2588} \<union> {0xE000..<0xF900}"

text \<open>The windows a redacted text must not have: the variants, and the hexadecimal forms in any case.\<close>

definition hex_forms :: "ustr list \<Rightarrow> ustr set" where
  "hex_forms secrets = {bytes_hex bs | s bs. s \<in> set secrets \<and> utf8_encode s = Some bs \<and> 8 \<le> length (bytes_hex bs)}"

definition patterns :: "ustr list \<Rightarrow> ustr list \<Rightarrow> ((ustr \<Rightarrow> bool) \<times> nat) set" where
  "patterns secrets variants =
     (\<lambda>v. (\<lambda>w. w = v, length v)) ` set variants \<union> (\<lambda>h. (hex_match h, length h)) ` hex_forms secrets"

definition clean :: "ustr list \<Rightarrow> ustr list \<Rightarrow> ustr \<Rightarrow> bool" where
  "clean secrets variants t = (\<forall>(Q, m) \<in> patterns secrets variants. \<not> matches Q m t)"

text \<open>No variant has a character of a replacement.\<close>

definition separate :: "ustr list \<Rightarrow> ustr \<Rightarrow> bool" where
  "separate variants cmask =
     ((\<forall>v \<in> set variants. v \<noteq> [] \<and> set v \<inter> redaction_chars = {} \<and> set v \<inter> set cmask = {}) \<and>
      (\<exists>c \<in> mask_chars. cmask = [c]))"

definition plain_char :: "nat \<Rightarrow> bool" where
  "plain_char c = (c < 128 \<and> c \<notin> redaction_chars)"

section \<open>Matching and replacing\<close>

lemma matches_iff: "matches P n t \<longleftrightarrow> (\<exists>i < length t. P (take n (drop i t)))"
proof (induction t)
  case (Cons c s)
  have "(\<exists>i < length (c # s). P (take n (drop i (c # s)))) \<longleftrightarrow> P (take n (c # s)) \<or> (\<exists>i < length s. P (take n (drop i s)))"
    by (auto simp: less_Suc_eq_0_disj)
  then show ?case using Cons by simp
qed simp

lemma window_eq [simp]: "window (\<lambda>w. w = v) (length v) \<longleftrightarrow> v \<noteq> []"
  by (auto simp: window_def)

lemma window_hex: "h \<noteq> [] \<Longrightarrow> window (hex_match h) (length h)"
  by (auto simp: window_def hex_match_def)

lemma matches_split: "window P n \<Longrightarrow> matches P n t \<longleftrightarrow> (\<exists>a w b. t = a @ w @ b \<and> P w)"
proof
  assume w: "window P n" and "matches P n t"
  then obtain i where "i < length t" "P (take n (drop i t))" by (auto simp: matches_iff)
  then show "\<exists>a w b. t = a @ w @ b \<and> P w"
    by (metis append_take_drop_id)
next
  assume w: "window P n" and "\<exists>a w b. t = a @ w @ b \<and> P w"
  then obtain a v b where t: "t = a @ v @ b" "P v" by blast
  then have "length v = n" "0 < n" using w by (auto simp: window_def)
  then show "matches P n t" using t by (auto simp: matches_iff intro!: exI [of _ "length a"])
qed

lemma matches_part: "window P n \<Longrightarrow> matches P n s \<Longrightarrow> matches P n (a @ s @ b)"
  by (simp add: matches_split) (metis append.assoc)

lemma nth_in_window:
  assumes "length (take m (drop i t)) = m" and "i \<le> j" and "j < i + m"
  shows "t ! j \<in> set (take m (drop i t))"
proof -
  have "take m (drop i t) ! (j - i) = t ! j" and "j - i < length (take m (drop i t))" using assms by auto
  then show ?thesis by (metis nth_mem)
qed

lemma barrier_split:
  assumes "window Q m" and "barrier Q m r" and "matches Q m (s @ r @ x)"
  shows "matches Q m s \<or> matches Q m x"
proof -
  let ?t = "s @ r @ x"
  obtain i where i: "i < length ?t" and q: "Q (take m (drop i ?t))" using assms(3) by (auto simp: matches_iff)
  have len: "length (take m (drop i ?t)) = m" "0 < m" using assms(1) q by (auto simp: window_def)
  have inside: "?t ! j \<in> set (take m (drop i ?t))" if "i \<le> j" "j < i + m" for j
    by (rule nth_in_window [OF len(1) that])
  have r: "r \<noteq> []" "\<not> matches Q m r" "hd r \<notin> set (take m (drop i ?t))" "last r \<notin> set (take m (drop i ?t))"
    using assms(2) q by (auto simp: barrier_def)
  have ends: "?t ! length s = hd r" "?t ! (length s + length r - 1) = last r"
    using r(1) by (simp add: nth_append hd_conv_nth, cases r rule: rev_cases) (simp_all add: nth_append)
  have "\<not> (i < length s \<and> length s < i + m)" using inside [of "length s"] ends r by fastforce
  moreover have "\<not> (i < length s + length r \<and> length s + length r < i + m)"
    using inside [of "length s + length r - 1"] ends r by fastforce
  ultimately consider "i + m \<le> length s" | "length s \<le> i" "i + m \<le> length s + length r" | "length s + length r \<le> i"
    by linarith
  then show ?thesis
  proof cases
    case 1
    then have "take m (drop i ?t) = take m (drop i s)" by simp
    then show ?thesis using q 1 len by (auto simp: matches_iff intro!: exI [of _ i])
  next
    case 2
    then have "take m (drop i ?t) = take m (drop (i - length s) r)" by simp
    then have "matches Q m r" using q 2 len by (auto simp: matches_iff intro!: exI [of _ "i - length s"])
    then show ?thesis using r by simp
  next
    case 3
    then have "take m (drop i ?t) = take m (drop (i - length s - length r) x)" by simp
    then show ?thesis using q 3 i by (auto simp: matches_iff intro!: exI [of _ "i - length s - length r"])
  qed
qed

lemma sub_none: "\<not> matches P n t \<Longrightarrow> sub_all P n f t = t"
  by (induction t) auto

lemma sub_first:
  assumes "window P n"
  shows "matches P n t \<Longrightarrow> \<exists>s w t'. t = s @ w @ t' \<and> P w \<and> \<not> matches P n s \<and> sub_all P n f t = s @ f w @ sub_all P n f t'"
proof (induction t)
  case (Cons c t)
  show ?case
  proof (cases "P (take n (c # t))")
    case True
    have "0 < n" using assms by (simp add: window_def)
    then have "c # t = [] @ take n (c # t) @ drop (n - 1) t"
      "sub_all P n f (c # t) = [] @ f (take n (c # t)) @ sub_all P n f (drop (n - 1) t)"
      using True by (cases n; simp)+
    then show ?thesis using True by (metis matches.simps(1))
  next
    case False
    then obtain s w t' where s: "t = s @ w @ t'" "P w" "\<not> matches P n s" "sub_all P n f t = s @ f w @ sub_all P n f t'"
      using Cons by auto
    have "\<not> P (take n (c # s))"
    proof
      assume p: "P (take n (c # s))"
      then have "length (take n (c # s)) = n" using assms by (auto simp: window_def)
      then have "take n (c # t) = take n (c # s)" using s(1) by (cases n) auto
      then show False using p False by simp
    qed
    then have "\<not> matches P n (c # s)" using s(3) by simp
    then show ?thesis using s False by (intro exI [of _ "c # s"] exI [of _ w] exI [of _ t']) auto
  qed
qed simp

text \<open>A replacement creates no occurrence of \<open>Q\<close>, and it removes every occurrence of its own pattern.\<close>

lemma sub_clean:
  assumes "window P n" and "window Q m" and "\<And>w. P w \<Longrightarrow> barrier Q m (f w)"
    and "\<not> matches Q m t \<or> P = Q \<and> n = m"
  shows "\<not> matches Q m (sub_all P n f t)"
  using assms(4)
proof (induction "length t" arbitrary: t rule: less_induct)
  case less
  show ?case
  proof (cases "matches P n t")
    case False
    then show ?thesis using less.prems sub_none by metis
  next
    case True
    obtain s w t' where t: "t = s @ w @ t'" "P w" "\<not> matches P n s" "sub_all P n f t = s @ f w @ sub_all P n f t'"
      using sub_first [OF assms(1) True] by blast
    have "length t' < length t" using t(1,2) assms(1) by (auto simp: window_def)
    moreover have "\<not> matches Q m t' \<or> P = Q \<and> n = m"
      using less.prems matches_part [OF assms(2), of t' "s @ w" "[]"] t(1) by auto
    ultimately have "\<not> matches Q m (sub_all P n f t')" by (rule less.hyps)
    moreover have "\<not> matches Q m s"
      using less.prems matches_part [OF assms(2), of s "[]" "w @ t'"] t(1,3) by auto
    ultimately show ?thesis using barrier_split [OF assms(2) assms(3) [OF t(2)]] t(4) by metis
  qed
qed

lemma sub_changes:
  assumes "window P n" and "matches P n t" and "\<And>w. P w \<Longrightarrow> barrier P n (f w)"
  shows "sub_all P n f t \<noteq> t"
proof
  assume "sub_all P n f t = t"
  then show False using sub_clean [of P n P n f t] assms by auto
qed

section \<open>The replacements are barriers\<close>

lemma matches_chars:
  assumes "window Q m" and "matches Q m r"
  shows "\<exists>w. Q w \<and> w \<noteq> [] \<and> set w \<subseteq> set r"
  using assms by (fastforce simp: matches_split window_def)

lemma barrier_by_chars:
  assumes "window Q m" and "r \<noteq> []" and "\<And>w. Q w \<Longrightarrow> set w \<inter> set r = {}"
  shows "barrier Q m r"
proof -
  have "\<not> matches Q m r" using matches_chars [OF assms(1)] assms(3) by (metis inf.absorb1 set_empty)
  moreover have "hd r \<notin> set w \<and> last r \<notin> set w" if "Q w" for w
    using assms(3) [OF that] assms(2) by (meson disjoint_iff hd_in_set last_in_set)
  ultimately show ?thesis using assms(2) by (simp add: barrier_def)
qed

lemma bytes_hex_digits: "(\<And>b. b \<in> set bs \<Longrightarrow> b < 256) \<Longrightarrow> c \<in> set (bytes_hex bs) \<Longrightarrow> c \<in> {48..57} \<union> {97..102}"
proof -
  assume "\<And>b. b \<in> set bs \<Longrightarrow> b < 256" "c \<in> set (bytes_hex bs)"
  then obtain b where "b < 256" "c = hex_lower (b div 16) \<or> c = hex_lower (b mod 16)" by (auto simp: bytes_hex_def)
  moreover have "b div 16 < 16" "b mod 16 < 16" using \<open>b < 256\<close> by simp_all
  moreover have "hex_lower n \<in> {48..57} \<union> {97..102}" if "n < 16" for n using that by (auto simp: hex_lower_def)
  ultimately show ?thesis by blast
qed

lemma hex_forms_digits: "h \<in> hex_forms secrets \<Longrightarrow> c \<in> set h \<Longrightarrow> c \<in> {48..57} \<union> {97..102}"
  unfolding hex_forms_def using bytes_hex_digits utf8_encode_bytes by blast

lemma hex_match_digits:
  assumes "h \<in> hex_forms secrets" and "hex_match h w" and "c \<in> set w"
  shows "is_hex c"
proof -
  have "ascii_lower c \<in> set h" using assms(2,3) by (auto simp: hex_match_def)
  then have "ascii_lower c \<in> {48..57} \<union> {97..102}" by (rule hex_forms_digits [OF assms(1)])
  then show ?thesis by (auto simp: ascii_lower_def is_hex_def split: if_splits)
qed

lemma patterns_windows:
  "separate variants cmask \<Longrightarrow> (Q, m) \<in> patterns secrets variants \<Longrightarrow> window Q m"
  by (auto simp: patterns_def separate_def hex_forms_def intro!: window_hex)

lemma patterns_chars:
  assumes "separate variants cmask" and "(Q, m) \<in> patterns secrets variants" and "Q w"
  shows "set w \<inter> redaction_chars = {}" and "set w \<inter> set cmask = {}"
proof -
  have "is_hex c \<Longrightarrow> c \<notin> redaction_chars" "c \<in> mask_chars \<Longrightarrow> \<not> is_hex c" for c
    by (auto simp: redaction_chars_def mask_chars_def is_hex_def)
  then show "set w \<inter> redaction_chars = {}" "set w \<inter> set cmask = {}"
    using assms hex_match_digits by (fastforce simp: patterns_def separate_def)+
qed

lemma marker_no_hex:
  assumes "h \<in> hex_forms secrets"
  shows "\<not> matches (hex_match h) (length h) REDACTION_MARKER"
proof
  assume "matches (hex_match h) (length h) REDACTION_MARKER"
  then obtain i where i: "i < length REDACTION_MARKER" "hex_match h (take (length h) (drop i REDACTION_MARKER))"
    by (auto simp: matches_iff)
  have len: "length (take (length h) (drop i REDACTION_MARKER)) = length h" "8 \<le> length h"
    using i assms by (auto simp: hex_match_def hex_forms_def dest: arg_cong [where f = length])
  then have "take 8 (drop i REDACTION_MARKER) = take 8 (take (length h) (drop i REDACTION_MARKER))"
    and "length (take 8 (drop i REDACTION_MARKER)) = 8" by (auto simp: min_def split: if_splits)
  then have "list_all is_hex (take 8 (drop i REDACTION_MARKER)) \<and> length (take 8 (drop i REDACTION_MARKER)) = 8"
    using hex_match_digits [OF assms i(2)] by (metis list_all_iff in_set_takeD)
  moreover have "list_all (\<lambda>i. \<not> (list_all is_hex (take 8 (drop i REDACTION_MARKER)) \<and> length (take 8 (drop i REDACTION_MARKER)) = 8))
    [0..<length REDACTION_MARKER]" by code_simp
  ultimately show False using i(1) by (auto simp: list_all_iff)
qed

lemma marker_ends: "hd REDACTION_MARKER = 60" "last REDACTION_MARKER = 62" "REDACTION_MARKER \<noteq> []"
  by code_simp+

lemma replacement_cases:
  "redaction_replacement matched variants cmask = cmask \<or>
   redaction_replacement matched variants cmask = REDACTION_MARKER \<and>
     \<not> list_ex (\<lambda>variant. occurs variant REDACTION_MARKER) variants \<or>
   redaction_replacement matched variants cmask = replicate (length matched) 42 \<and>
     \<not> list_ex (\<lambda>variant. occurs variant (replicate (length matched) 42)) variants"
  unfolding redaction_replacement_def Let_def by (cases "length REDACTION_MARKER \<le> length matched") simp_all

lemma replacement_barrier:
  assumes sep: "separate variants cmask" and pat: "(Q, m) \<in> patterns secrets variants" and "matched \<noteq> []"
  shows "barrier Q m (redaction_replacement matched variants cmask)"
proof -
  let ?r = "redaction_replacement matched variants cmask"
  note w = patterns_windows [OF sep pat] and c = patterns_chars [OF sep pat]
  from replacement_cases [of matched variants cmask]
  consider "?r = cmask" | "?r = REDACTION_MARKER" "\<not> list_ex (\<lambda>variant. occurs variant REDACTION_MARKER) variants"
    | "?r = replicate (length matched) 42" by blast
  then show ?thesis
  proof cases
    case 1
    then show ?thesis using sep c by (intro barrier_by_chars [OF w]) (auto simp: separate_def)
  next
    case 2
    have "\<not> matches Q m REDACTION_MARKER"
      using pat 2 marker_no_hex sep by (auto simp: patterns_def list_ex_iff occurs_def separate_def)
    then show ?thesis using c(1) marker_ends 2(1) by (auto simp: barrier_def redaction_chars_def)
  next
    case 3
    have "set (replicate (length matched) 42) = {42 :: nat}" using assms(3) by auto
    then show ?thesis using 3 c(1) assms(3) by (intro barrier_by_chars [OF w]) (auto simp: redaction_chars_def)
  qed
qed

lemma sub_pattern_clean:
  fixes t :: ustr
  assumes "separate variants cmask" and "(P, n) \<in> patterns secrets variants"
  defines "t' \<equiv> sub_all P n (\<lambda>w. redaction_replacement w variants cmask) t"
  shows "\<not> matches P n t'" and "(Q, m) \<in> patterns secrets variants \<Longrightarrow> \<not> matches Q m t \<Longrightarrow> \<not> matches Q m t'"
    and "t' = t \<longleftrightarrow> \<not> matches P n t"
proof -
  note w = patterns_windows [OF assms(1)]
  have ne: "P w \<Longrightarrow> w \<noteq> []" for w using w [OF assms(2)] by (auto simp: window_def)
  have b: "barrier Q m (redaction_replacement w variants cmask)" if "(Q, m) \<in> patterns secrets variants" "P w" for Q m w
    by (rule replacement_barrier [OF assms(1) that(1) ne [OF that(2)]])
  show own: "\<not> matches P n t'" unfolding t'_def by (rule sub_clean [OF w [OF assms(2)] w [OF assms(2)]]) (use b assms(2) in auto)
  show "(Q, m) \<in> patterns secrets variants \<Longrightarrow> \<not> matches Q m t \<Longrightarrow> \<not> matches Q m t'"
    unfolding t'_def by (rule sub_clean [OF w [OF assms(2)] w]) (use b in auto)
  show "t' = t \<longleftrightarrow> \<not> matches P n t" using own sub_none [of P n t] unfolding t'_def by auto
qed

section \<open>One redaction\<close>

lemma sub_cong: "(\<And>w. P w \<Longrightarrow> f w = g w) \<Longrightarrow> sub_all P n f t = sub_all P n g t"
  by (induction P n f t rule: sub_all.induct) auto

lemma str_replace_sub:
  "str_replace v (redaction_replacement v variants cmask) t =
   sub_all (\<lambda>w. w = v) (length v) (\<lambda>w. redaction_replacement w variants cmask) t"
  unfolding str_replace_def by (rule sub_cong) simp

lemma replace_variants_clean:
  assumes "separate variants cmask"
  shows "set vs \<subseteq> set variants \<Longrightarrow> replace_variants variants cmask vs (t, ch) = (t', ch') \<Longrightarrow>
    (\<forall>(Q, m) \<in> patterns secrets variants. \<not> matches Q m t \<longrightarrow> \<not> matches Q m t') \<and>
    (\<forall>v \<in> set vs. \<not> matches (\<lambda>w. w = v) (length v) t') \<and> (\<not> ch' \<longrightarrow> \<not> ch \<and> t' = t)"
proof (induction vs arbitrary: t ch)
  case (Cons v vs)
  define s where "s = str_replace v (redaction_replacement v variants cmask) t"
  have v: "(\<lambda>w. w = v, length v) \<in> patterns secrets variants" using Cons.prems(1) by (auto simp: patterns_def)
  have s: "s = sub_all (\<lambda>w. w = v) (length v) (\<lambda>w. redaction_replacement w variants cmask) t"
    by (simp add: s_def str_replace_sub)
  have rest: "replace_variants variants cmask vs (s, ch \<or> s \<noteq> t) = (t', ch')" using Cons.prems(2) by (simp add: s_def Let_def)
  note ih = Cons.IH [OF _ rest] and one = sub_pattern_clean [OF assms v, where t = t, folded s]
  have "\<not> matches (\<lambda>w. w = v) (length v) t'" using one(1) ih v Cons.prems(1) by fastforce
  moreover have "\<forall>(Q, m) \<in> patterns secrets variants. \<not> matches Q m t \<longrightarrow> \<not> matches Q m t'"
    using one(2) ih Cons.prems(1) by fastforce
  ultimately show ?case using ih Cons.prems(1) by auto
qed simp

lemma replace_hex_clean:
  assumes "separate variants cmask"
  shows "set ss \<subseteq> set secrets \<Longrightarrow> replace_hex variants cmask ss (t, ch) = Inr (t', ch') \<Longrightarrow>
    (\<forall>(Q, m) \<in> patterns secrets variants. \<not> matches Q m t \<longrightarrow> \<not> matches Q m t') \<and>
    (\<forall>h \<in> hex_forms ss. \<not> matches (hex_match h) (length h) t') \<and> (\<not> ch' \<longrightarrow> \<not> ch \<and> t' = t)"
proof (induction ss arbitrary: t ch)
  case (Cons s ss)
  obtain bs where bs: "utf8_encode s = Some bs" using Cons.prems(2) by (auto split: option.splits)
  have forms: "hex_forms (s # ss) = hex_forms ss \<union> (if 8 \<le> length (bytes_hex bs) then {bytes_hex bs} else {})"
    using bs by (auto simp: hex_forms_def)
  show ?case
  proof (cases "length (bytes_hex bs) < 8")
    case True
    then have "replace_hex variants cmask ss (t, ch) = Inr (t', ch')" using Cons.prems(2) bs by (simp add: Let_def)
    then show ?thesis using Cons.IH [of t ch] Cons.prems(1) forms True by auto
  next
    case False
    let ?h = "bytes_hex bs"
    define r where "r = sub_all (hex_match ?h) (length ?h) (\<lambda>w. redaction_replacement w variants cmask) t"
    have h: "(hex_match ?h, length ?h) \<in> patterns secrets variants"
      using Cons.prems(1) bs False by (fastforce simp: patterns_def hex_forms_def)
    have rest: "replace_hex variants cmask ss (r, ch \<or> matches (hex_match ?h) (length ?h) t) = Inr (t', ch')"
      using Cons.prems(2) bs False by (simp add: r_def Let_def)
    note ih = Cons.IH [OF _ rest] and one = sub_pattern_clean [OF assms h, where t = t, folded r_def]
    have "\<not> matches (hex_match ?h) (length ?h) t'" using one(1) ih h Cons.prems(1) by fastforce
    moreover have "\<forall>(Q, m) \<in> patterns secrets variants. \<not> matches Q m t \<longrightarrow> \<not> matches Q m t'"
      using one(2) ih Cons.prems(1) by fastforce
    ultimately show ?thesis using ih one(3) Cons.prems(1) forms by auto
  qed
qed (simp add: hex_forms_def)

lemma replace_known_clean:
  assumes "separate variants cmask" and "replace_known_secret_variants t secrets variants cmask = Inr (t', ch)"
  shows "clean secrets variants t'" and "\<not> ch \<Longrightarrow> clean secrets variants t"
proof -
  obtain s c where s: "replace_variants variants cmask (by_length variants) (t, False) = (s, c)" by fastforce
  have h: "replace_hex variants cmask secrets (s, c) = Inr (t', ch)"
    using assms(2) s by (simp add: replace_known_secret_variants_def)
  have "set (by_length variants) = set variants" by (simp add: by_length_def)
  then have v: "\<forall>v \<in> set variants. \<not> matches (\<lambda>w. w = v) (length v) s" "\<not> c \<longrightarrow> s = t"
    using replace_variants_clean [OF assms(1) _ s] by auto
  note hex = replace_hex_clean [OF assms(1) order_refl h]
  show c: "clean secrets variants t'" unfolding clean_def
  proof
    fix q assume q: "q \<in> patterns secrets variants"
    then show "case q of (Q, m) \<Rightarrow> \<not> matches Q m t'" using v hex by (fastforce simp: patterns_def)
  qed
  show "\<not> ch \<Longrightarrow> clean secrets variants t" using c hex v(2) by auto
qed

lemma replace_hex_returns:
  "(\<And>s. s \<in> set ss \<Longrightarrow> utf8_encode s \<noteq> None) \<Longrightarrow> \<exists>rc'. replace_hex variants cmask ss rc = Inr rc'"
  by (induction ss arbitrary: rc) (auto simp: Let_def split: option.splits)

lemma replace_known_returns:
  "(\<And>s. s \<in> set secrets \<Longrightarrow> utf8_encode s \<noteq> None) \<Longrightarrow> \<exists>t' ch. replace_known_secret_variants t secrets variants cmask = Inr (t', ch)"
  unfolding replace_known_secret_variants_def using replace_hex_returns by (metis surj_pair)

section \<open>The decoding passes\<close>

lemma decode_frontier_some:
  assumes "\<And>x. check x = Inr False \<Longrightarrow> good x"
  shows "decode_frontier check ns seen nxt = Inr (Some (seen', nxt')) \<Longrightarrow>
    set seen' = set seen \<union> set ns \<and> set nxt' = set nxt \<union> (set ns - set seen) \<and> (\<forall>x \<in> set ns - set seen. good x)"
proof (induction ns arbitrary: seen nxt)
  case (Cons n ns)
  show ?case
  proof (cases "n \<in> set seen")
    case True
    then show ?thesis using Cons by auto
  next
    case False
    then have "check n = Inr False" "decode_frontier check ns (n # seen) (n # nxt) = Inr (Some (seen', nxt'))"
      using Cons.prems by (auto split: sum.splits bool.splits)
    then show ?thesis using Cons.IH [of "n # seen" "n # nxt"] assms False by auto
  qed
qed simp

lemma decode_passes_closed:
  assumes "\<And>x. check x = Inr False \<Longrightarrow> good x"
  shows "decode_passes check k seen frontier = Inr False \<Longrightarrow> set frontier \<subseteq> set seen \<Longrightarrow> \<forall>x \<in> set seen. good x \<Longrightarrow>
    \<forall>x \<in> set seen - set frontier. unquote_text x \<in> set seen \<and> unquote_plus_text x \<in> set seen \<Longrightarrow>
    \<exists>S. set seen \<subseteq> S \<and> (\<forall>x \<in> S. good x \<and> unquote_text x \<in> S \<and> unquote_plus_text x \<in> S)"
proof (induction k arbitrary: seen frontier)
  case (Suc k)
  obtain seen' nxt where n: "decode_frontier check (normalizations frontier) seen [] = Inr (Some (seen', nxt))"
    "nxt = [] \<or> decode_passes check k seen' nxt = Inr False"
    using Suc.prems(1) by (auto split: sum.splits option.splits if_splits)
  note f = decode_frontier_some [of check good, OF assms n(1)]
  have good: "\<forall>x \<in> set seen'. good x" using f Suc.prems(3) by auto
  have norm: "unquote_text x \<in> set seen'" "unquote_plus_text x \<in> set seen'" if "x \<in> set seen" for x
    using that f Suc.prems(4) by (auto simp: normalizations_def)
  show ?case
  proof (cases "nxt = []")
    case True
    then have "set seen' = set seen" using f by auto
    then show ?thesis using good norm by (intro exI [of _ "set seen'"]) auto
  next
    case False
    have p: "decode_passes check k seen' nxt = Inr False" "set nxt \<subseteq> set seen'"
      "\<forall>x \<in> set seen' - set nxt. unquote_text x \<in> set seen' \<and> unquote_plus_text x \<in> set seen'"
      using n False f norm by auto
    obtain S where "set seen' \<subseteq> S" "\<forall>x \<in> S. good x \<and> unquote_text x \<in> S \<and> unquote_plus_text x \<in> S"
      using Suc.IH [OF p(1,2) good p(3)] by (elim exE conjE)
    moreover have "set seen \<subseteq> set seen'" using f by simp
    ultimately show ?thesis by (intro exI [of _ S]) simp
  qed
qed simp

lemma decode_frontier_returns: "(\<And>x. \<exists>b. check x = Inr b) \<Longrightarrow> \<exists>r. decode_frontier check ns seen nxt = Inr r"
proof (induction ns arbitrary: seen nxt)
  case (Cons n ns)
  obtain b where "check n = Inr b" using Cons.prems by blast
  then show ?case using Cons by (cases b) auto
qed simp

lemma decode_passes_returns: "(\<And>x. \<exists>b. check x = Inr b) \<Longrightarrow> \<exists>b. decode_passes check k seen frontier = Inr b"
proof (induction k arbitrary: seen frontier)
  case (Suc k)
  then show ?case using decode_frontier_returns [of check "normalizations frontier" seen "[]"]
    by (auto split: option.splits)
qed auto

lemma decodes_closed:
  "decodes s t \<Longrightarrow> s \<in> S \<Longrightarrow> \<forall>x \<in> S. unquote_text x \<in> S \<and> unquote_plus_text x \<in> S \<Longrightarrow> t \<in> S"
  by (induction rule: decodes.induct) auto

section \<open>The characters of the variants\<close>

lemma plain_alnum: "ascii_alpha c \<or> ascii_digit c \<Longrightarrow> plain_char c"
  by (auto simp: plain_char_def redaction_chars_def ascii_alpha_def ascii_digit_def)

lemma plain_hex_lower: "n < 16 \<Longrightarrow> plain_char (hex_lower n)"
  by (auto simp: plain_char_def redaction_chars_def hex_lower_def)

lemma plain_hex_upper: "n < 16 \<Longrightarrow> plain_char (hex_upper n)"
  by (auto simp: plain_char_def redaction_chars_def hex_upper_def)

lemma plain_b64_digit: "plain_char (b64_digit alt n)"
  by (simp add: plain_char_def redaction_chars_def b64_digit_def) presburger

lemma plain_equals: "plain_char 61"
  by (simp add: plain_char_def redaction_chars_def)

lemma plain_b64: "c \<in> set (b64encode alt bs) \<Longrightarrow> plain_char c"
  by (induction alt bs rule: b64encode.induct) (auto simp: plain_b64_digit plain_equals)

lemma plain_quote_byte: "b < 256 \<Longrightarrow> c \<in> set (quote_byte safe b) \<Longrightarrow> c \<in> set safe \<or> plain_char c"
  by (auto simp: quote_byte_def always_safe_def plain_alnum plain_hex_upper less_mult_imp_div_less split: if_splits)
    (auto simp: plain_char_def redaction_chars_def)

lemma plain_quote: "quote safe s = Inr q \<Longrightarrow> c \<in> set q \<Longrightarrow> c \<in> set safe \<or> plain_char c"
proof -
  assume q: "quote safe s = Inr q" "c \<in> set q"
  then obtain bs where bs: "utf8_encode s = Some bs" "q = concat (map (quote_byte safe) bs)"
    by (auto simp: quote_def split: option.splits)
  then obtain b where "b \<in> set bs" "c \<in> set (quote_byte safe b)" using q(2) by auto
  then show ?thesis using plain_quote_byte utf8_encode_bytes [OF bs(1)] by blast
qed

lemma plain_quote_plus: "quote_plus s = Inr q \<Longrightarrow> c \<in> set q \<Longrightarrow> plain_char c"
proof (cases "32 \<in> set s")
  case True
  assume q: "quote_plus s = Inr q" and c: "c \<in> set q"
  obtain p where p: "quote [32] s = Inr p" "q = replace_char 32 43 p"
    using q True by (auto simp: quote_plus_def split: sum.splits)
  obtain d where "d \<in> set p" "c = (if d = 32 then 43 else d)" using c p(2) by (auto simp: replace_char_def)
  then show ?thesis using plain_quote [OF p(1)] by (auto simp: plain_char_def redaction_chars_def)
next
  case False
  assume "quote_plus s = Inr q" "c \<in> set q"
  then show ?thesis using False plain_quote [of "[]"] by (auto simp: quote_plus_def)
qed

lemma plain_json: "c \<in> set (json_escape d) \<Longrightarrow> c = d \<or> plain_char c"
  by (auto simp: json_escape_def plain_hex_lower less_mult_imp_div_less split: if_splits)
    (auto simp: plain_char_def redaction_chars_def)

lemma plain_json_u: "c \<in> set (json_u n) \<Longrightarrow> plain_char c"
  by (auto simp: json_u_def plain_hex_lower) (auto simp: plain_char_def redaction_chars_def)

lemma plain_json_ascii: "c \<in> set (json_escape_ascii d) \<Longrightarrow> c = d \<or> plain_char c"
  using plain_json plain_json_u by (auto simp: json_escape_ascii_def split: if_splits)

lemma plain_bytes_hex:
  assumes "utf8_encode s = Some bs" and "c \<in> set (bytes_hex bs)"
  shows "plain_char c" and "plain_char (ascii_upper c)"
  using bytes_hex_digits [OF utf8_encode_bytes [OF assms(1)] assms(2)]
  by (auto simp: plain_char_def redaction_chars_def ascii_upper_def)

lemma rstrip_subset: "set (rstrip_char x s) \<subseteq> set s"
  by (auto simp: rstrip_char_def dest: set_dropWhileD)

lemma secret_variants_ok:
  assumes "secret_variants s = Inr vs" and "v \<in> set vs" and "s \<noteq> []"
  shows "v \<noteq> []" and "c \<in> set v \<Longrightarrow> c \<in> set s \<or> plain_char c"
proof -
  obtain bs q p where e: "utf8_encode s = Some bs" "quote [] s = Inr q" "quote_plus s = Inr p"
    and vs: "vs = s # filter (\<lambda>v. 8 \<le> length v) [bytes_hex bs, map ascii_upper (bytes_hex bs),
       b64encode False bs, rstrip_char 61 (b64encode False bs), b64encode True bs, rstrip_char 61 (b64encode True bs),
       q, p, concat (map json_escape s), concat (map json_escape_ascii s)]"
    using assms(1) unfolding secret_variants_def
    by (cases "utf8_encode s"; cases "quote [] s"; cases "quote_plus s"; simp only: option.case sum.case sum.inject sum.distinct)
  have v: "v = s \<or> 8 \<le> length v \<and> v \<in> {bytes_hex bs, map ascii_upper (bytes_hex bs),
       b64encode False bs, rstrip_char 61 (b64encode False bs), b64encode True bs, rstrip_char 61 (b64encode True bs),
       q, p, concat (map json_escape s), concat (map json_escape_ascii s)}"
    using assms(2) unfolding vs set_simps set_filter by blast
  then show "v \<noteq> []" using assms(3) by auto
  assume c: "c \<in> set v"
  show "c \<in> set s \<or> plain_char c"
    using v c plain_bytes_hex [OF e(1)] plain_b64 rstrip_subset plain_quote [OF e(2)] plain_quote_plus [OF e(3)]
      plain_json plain_json_ascii by (elim disjE conjE insertE) (fastforce+)
qed

lemma secret_variants_returns: "utf8_encode s \<noteq> None \<Longrightarrow> \<exists>vs. secret_variants s = Inr vs"
  by (auto simp: secret_variants_def quote_plus_def quote_def)

lemma validated_secrets_filter:
  "(\<And>s. s \<in> set raws \<Longrightarrow> s = [] \<or> validate_secret_value s = Inr ()) \<Longrightarrow> validated_secrets raws = Inr (filter (\<lambda>s. s \<noteq> []) raws)"
proof (induction raws)
  case (Cons s raws)
  have "validated_secrets raws = Inr (filter (\<lambda>s. s \<noteq> []) raws)" using Cons by simp
  moreover have "s = [] \<or> validate_secret_value s = Inr ()" using Cons.prems by simp
  ultimately show ?case by auto
qed simp

lemma all_variants_returns:
  "(\<And>s. s \<in> set secrets \<Longrightarrow> s \<noteq> [] \<and> utf8_encode s \<noteq> None) \<Longrightarrow>
   \<exists>vs. all_variants secrets = Inr vs \<and> set vs = (\<Union>s \<in> set secrets. case secret_variants s of Inr ws \<Rightarrow> set ws | Inl _ \<Rightarrow> {})"
proof (induction secrets)
  case (Cons s secrets)
  obtain ws where ws: "secret_variants s = Inr ws" using Cons.prems secret_variants_returns by force
  then have "filter (\<lambda>v. v \<noteq> []) ws = ws" using secret_variants_ok(1) [OF ws] Cons.prems by (force simp: filter_id_conv)
  then show ?case using ws Cons by auto
qed simp

lemma validate_secret_encodes: "validate_secret_value s = Inr () \<Longrightarrow> utf8_encode s \<noteq> None"
  by (auto simp: validate_secret_value_def require_utf8_def split: if_splits option.splits)

section \<open>The mask\<close>

lemma mask_free:
  assumes "x \<in> {0xE000..<0xF900}" and "\<And>v. v \<in> set variants \<Longrightarrow> x \<notin> set v"
  shows "\<exists>c \<in> mask_chars. collision_safe_mask_character variants = [c] \<and> (\<forall>v \<in> set variants. c \<notin> set v)"
proof -
  let ?P = "\<lambda>c. list_all (\<lambda>variant. c \<notin> set variant) variants"
  have found: "?P d \<and> d \<in> set xs" if "find ?P xs = Some d" for d xs using that by (auto simp: find_Some_iff)
  have "x \<in> set [0xE000..<0xF900]" using assms(1) by (simp only: set_upt)
  then have "find ?P [0xE000..<0xF900] \<noteq> None" using assms(2) unfolding find_None_iff list_all_iff by blast
  then obtain c where c: "find ?P [0xE000..<0xF900] = Some c" by blast
  show ?thesis
  proof (cases "find ?P (u ''#~^!?'' @ [0x2588])")
    case None
    have "c \<in> mask_chars" using found [OF c] unfolding mask_chars_def set_upt by blast
    moreover have "collision_safe_mask_character variants = [c]"
      unfolding collision_safe_mask_character_def free_character_def None c option.case ..
    ultimately show ?thesis using found [OF c] by (auto simp only: list_all_iff)
  next
    case (Some d)
    have "set (u ''#~^!?'' @ [0x2588]) \<subseteq> mask_chars" by (auto simp: u_def mask_chars_def)
    moreover have "collision_safe_mask_character variants = [d]"
      unfolding collision_safe_mask_character_def free_character_def Some option.case ..
    ultimately show ?thesis using found [OF Some] by (auto simp only: list_all_iff)
  qed
qed

section \<open>Correctness\<close>

lemma replacement_clean:
  assumes "separate variants cmask"
  shows "clean secrets variants (redaction_replacement t variants cmask)"
proof (cases "t = []")
  case True
  then have "redaction_replacement t variants cmask = cmask \<or> redaction_replacement t variants cmask = []"
    by (auto simp: redaction_replacement_def Let_def marker_ends(3))
  then show ?thesis
  proof
    assume r: "redaction_replacement t variants cmask = cmask"
    have "\<not> matches Q m cmask" if "(Q, m) \<in> patterns secrets variants" for Q m
      using matches_chars [OF patterns_windows [OF assms that]] patterns_chars(2) [OF assms that] by (metis inf.absorb1 set_empty)
    then show ?thesis unfolding r by (auto simp: clean_def)
  qed (auto simp: clean_def)
next
  case False
  then show ?thesis using replacement_barrier [OF assms _ False] by (fastforce simp: clean_def barrier_def)
qed

lemma replacement_decodes:
  assumes "separate variants cmask" and "decodes (redaction_replacement t variants cmask) s"
  shows "s = redaction_replacement t variants cmask"
proof -
  let ?r = "redaction_replacement t variants cmask"
  have "37 \<notin> set REDACTION_MARKER" "43 \<notin> set REDACTION_MARKER" by code_simp+
  then have "37 \<notin> set ?r" "43 \<notin> set ?r"
    using replacement_cases [of t variants cmask] assms(1) by (auto simp: separate_def mask_chars_def)
  moreover have "replace_char 43 32 ?r = ?r" unfolding replace_char_def using \<open>43 \<notin> set ?r\<close> by (intro map_idI) auto
  ultimately have "unquote_text ?r = ?r" "unquote_plus_text ?r = ?r"
    by (auto simp: unquote_text_def unquote_plus_text_def)
  then show ?thesis using decodes_closed [OF assms(2), of "{?r}"] by simp
qed

lemma redacted_clean:
  assumes sep: "separate variants cmask" and enc: "\<And>s. s \<in> set secrets \<Longrightarrow> utf8_encode s \<noteq> None"
  shows "\<exists>t' ch b. replace_known_secret_variants t secrets variants cmask = Inr (t', ch) \<and>
    has_bounded_encoded_secret t' secrets variants cmask = Inr b \<and>
    (\<not> b \<longrightarrow> (\<forall>s. decodes t' s \<longrightarrow> clean secrets variants s))"
proof -
  let ?check = "\<lambda>x. map_sum id snd (replace_known_secret_variants x secrets variants cmask)"
  obtain t' ch where t': "replace_known_secret_variants t secrets variants cmask = Inr (t', ch)"
    using replace_known_returns [OF enc] by blast
  have ret: "\<exists>b. ?check x = Inr b" for x
  proof -
    obtain y c where "replace_known_secret_variants x secrets variants cmask = Inr (y, c)" using replace_known_returns [OF enc] by blast
    then show ?thesis by simp
  qed
  obtain b where b: "has_bounded_encoded_secret t' secrets variants cmask = Inr b"
    unfolding has_bounded_encoded_secret_def using decode_passes_returns [of ?check, OF ret] by blast
  have good: "clean secrets variants x" if "?check x = Inr False" for x
  proof -
    obtain y c where y: "replace_known_secret_variants x secrets variants cmask = Inr (y, c)" using replace_known_returns [OF enc] by blast
    then have "\<not> c" using that by simp
    then show ?thesis using replace_known_clean(2) [OF sep y] by simp
  qed
  have "clean secrets variants s" if "\<not> b" "decodes t' s" for s
  proof -
    have p: "decode_passes ?check 3 [t'] [t'] = Inr False" using b that(1) by (simp add: has_bounded_encoded_secret_def)
    obtain S where "set [t'] \<subseteq> S" "\<forall>x \<in> S. clean secrets variants x \<and> unquote_text x \<in> S \<and> unquote_plus_text x \<in> S"
      using decode_passes_closed [of ?check "clean secrets variants", OF good p] replace_known_clean(1) [OF sep t'] by auto
    then show ?thesis using decodes_closed [OF that(2), of S] by auto
  qed
  then show ?thesis using t' b by blast
qed

text \<open>Why the replacements' characters are excluded below: the stars of one replacement complete another occurrence of a
  secret that ends in a star.\<close>

lemma star_secret_survives:
  "redact_secret_values id (u ''hunter2hunter2*'') [u ''hunter2*''] = Inr (u ''hunter2********'') \<and>
   occurs (u ''hunter2*'') (u ''hunter2********'')"
  by code_simp

text \<open>C33. Redaction hides secrets: if no secret contains one of the characters \<open>*\<close>, \<open><\<close> and \<open>>\<close> that the
  replacements are made of, and some private-use character is in none of them, then the redaction of any text
  returns, and neither the result nor anything that percent-decoding makes of it, in any number of passes,
  contains a secret or one of its hexadecimal, base64, percent-encoded or JSON forms.\<close>

theorem redaction_hides_secrets:
  assumes "\<And>s. s \<in> set raws \<Longrightarrow> s = [] \<or> validate_secret_value s = Inr ()"
    and "\<And>s. s \<in> set raws \<Longrightarrow> 42 \<notin> set s \<and> 60 \<notin> set s \<and> 62 \<notin> set s"
    and "0xE000 \<le> x" and "x < 0xF900" and "\<And>s. s \<in> set raws \<Longrightarrow> x \<notin> set s"
    and "\<And>vs. set (order vs) = set vs"
  shows "\<exists>out. redact_secret_values order value raws = Inr out \<and>
    (\<forall>t s vs v. decodes out t \<longrightarrow> s \<in> set raws \<longrightarrow> s \<noteq> [] \<longrightarrow> secret_variants s = Inr vs \<longrightarrow> v \<in> set vs \<longrightarrow> \<not> occurs v t)"
proof -
  define secrets where "secrets = filter (\<lambda>s. s \<noteq> []) raws"
  have valid: "validated_secrets raws = Inr secrets" unfolding secrets_def by (rule validated_secrets_filter [OF assms(1)])
  have enc: "s \<noteq> [] \<and> utf8_encode s \<noteq> None" if "s \<in> set secrets" for s
    using that assms(1) validate_secret_encodes by (auto simp: secrets_def)
  obtain vs where vs: "all_variants secrets = Inr vs"
    "set vs = (\<Union>s \<in> set secrets. case secret_variants s of Inr ws \<Rightarrow> set ws | Inl _ \<Rightarrow> {})"
    using all_variants_returns [of secrets] enc by blast
  define variants where "variants = order (remdups vs)"
  define cmask where "cmask = collision_safe_mask_character variants"
  have var: "set variants = set vs" using assms(6) by (simp add: variants_def)
  have ok: "v \<noteq> []" "c \<in> set v \<Longrightarrow> plain_char c \<or> (\<exists>s \<in> set secrets. c \<in> set s)" if mem: "v \<in> set variants" for v c
  proof -
    obtain s where m: "s \<in> set secrets" "v \<in> (case secret_variants s of Inr ws \<Rightarrow> set ws | Inl _ \<Rightarrow> {})"
      using mem unfolding var vs(2) by blast
    then obtain ws where s: "s \<in> set secrets" "secret_variants s = Inr ws" "v \<in> set ws"
      by (cases "secret_variants s") auto
    show "v \<noteq> []" "c \<in> set v \<Longrightarrow> plain_char c \<or> (\<exists>s \<in> set secrets. c \<in> set s)"
      using secret_variants_ok [OF s(2,3)] enc [OF s(1)] s(1) by blast+
  qed
  have "x \<notin> set v" if "v \<in> set variants" for v
    using ok(2) [OF that, of x] assms(3-5) by (auto simp: plain_char_def secrets_def)
  then obtain c where c: "c \<in> mask_chars" "cmask = [c]" "\<forall>v \<in> set variants. c \<notin> set v"
    unfolding cmask_def using mask_free [of x variants] assms(3,4) by auto
  have "c \<notin> redaction_chars" if "v \<in> set variants" "c \<in> set v" for v c
    using ok(2) [OF that] assms(2) by (auto simp: plain_char_def redaction_chars_def secrets_def)
  then have sep: "separate variants cmask" using ok(1) c by (auto simp: separate_def)
  obtain t' ch b where t': "replace_known_secret_variants value secrets variants cmask = Inr (t', ch)"
    "has_bounded_encoded_secret t' secrets variants cmask = Inr b"
    "\<not> b \<longrightarrow> (\<forall>s. decodes t' s \<longrightarrow> clean secrets variants s)"
    using redacted_clean [OF sep, of secrets "value"] enc by blast
  define out where "out = (if b then redaction_replacement value variants cmask else t')"
  have "redact_secret_values order value raws = Inr out"
    using valid vs(1) t' unfolding redact_secret_values_def out_def
    by (cases b) (simp_all add: Let_def variants_def [symmetric] cmask_def [symmetric])
  moreover have "clean secrets variants t" if "decodes out t" for t
    using that t'(3) replacement_decodes [OF sep] replacement_clean [OF sep] by (auto simp: out_def split: if_splits)
  moreover have "v \<in> set variants" if "s \<in> set raws" "s \<noteq> []" "secret_variants s = Inr ws" "v \<in> set ws" for s ws v
    using that var vs(2) by (force simp: secrets_def)
  ultimately show ?thesis using ok(1) by (fastforce simp: clean_def patterns_def occurs_def)
qed

theorem redaction_hides_secrets_witness:
  "\<exists>out. redact_secret_values id (u ''key=s3cr%65t-token'') [u ''s3cret-token''] = Inr out \<and> \<not> occurs (u ''s3cret-token'') out"
proof -
  have v: "validate_secret_value (u ''s3cret-token'') = Inr ()" "42 \<notin> set (u ''s3cret-token'') \<and> 60 \<notin> set (u ''s3cret-token'') \<and> 62 \<notin> set (u ''s3cret-token'')"
    "0xE000 \<notin> set (u ''s3cret-token'')" "u ''s3cret-token'' \<noteq> []" by code_simp+
  obtain vs where vs: "secret_variants (u ''s3cret-token'') = Inr (u ''s3cret-token'' # vs)"
    by (auto simp: secret_variants_def u_def quote_plus_def quote_def utf8_char_def)
  show ?thesis
    using redaction_hides_secrets [of "[u ''s3cret-token'']" "0xE000" id "u ''key=s3cr%65t-token''"] v vs decodes_refl by force
qed

end
