(* ===== verification/Worker_Contracts.thy ===== *)
theory Worker_Contracts
  imports Secret_Redaction Policy_Engine
begin

text \<open>
  The contracts between the Tool Gateway and its Workers, \<^verbatim>\<open>src/src/pajin/runtime/worker.py\<close>: jobs, egress
  policies, limits, secret requests and results, each as a record with the validators of its model, and
  the secret-free diagnostics of \<^verbatim>\<open>src/src/pajin/runtime/error_safety.py\<close>. A \<open>model_validate\<close> of a dumped model
  is \<open>Inr\<close> of the record if every validator accepts it, and a \<open>ValidationError\<close> otherwise. The fields have their
  declared types.
\<close>

section \<open>Diagnostics\<close>

definition SAFE_AUDIT_STAGES :: "string list" where
  "SAFE_AUDIT_STAGES =
     [''deterministic-worker-input'', ''docker-cleanup'', ''docker-cli-start'', ''docker-worker-input'',
      ''egress-proxy-setup'', ''cli-command'', ''provider-output-validation'', ''provider-planner-fallback'',
      ''provider-validator-fallback'', ''process-entrypoint'', ''replay-worker-control-plane-lease'',
      ''replay-worker-control-plane-protocol'', ''replay-worker-control-plane-transport'', ''secret-lease'',
      ''simulated-worker-input'', ''run-terminalization'', ''tool-interpretation'', ''tool-preparation'',
      ''tool-request-validation'', ''trusted-execution-validation'', ''worker-backend'',
      ''worker-control-plane-lease'', ''worker-control-plane-protocol'', ''worker-control-plane-transport'']"

text \<open>The class of an exception, if it is on one of the allow lists.\<close>

fun audit_safe_exception_type :: "exn \<Rightarrow> string" where
  "audit_safe_exception_type (ValueError _) = ''ValueError''"
| "audit_safe_exception_type (TypeError _) = ''TypeError''"
| "audit_safe_exception_type (KeyError _) = ''KeyError''"
| "audit_safe_exception_type (PermissionError _) = ''PermissionError''"
| "audit_safe_exception_type (RuntimeError _) = ''RuntimeError''"
| "audit_safe_exception_type OverflowError = ''OverflowError''"
| "audit_safe_exception_type ValidationError = ''ValidationError''"
| "audit_safe_exception_type FileExistsError = ''FileExistsError''"
| "audit_safe_exception_type OSError = ''OSError''"
| "audit_safe_exception_type CancelledError = ''CancelledError''"
| "audit_safe_exception_type WorkerCleanupError = ''WorkerCleanupError''"
| "audit_safe_exception_type (CapabilityError _) = ''CapabilityError''"
| "audit_safe_exception_type (BudgetExceeded _) = ''BudgetExceeded''"
| "audit_safe_exception_type AssertionError = ''AssertionError''"
| "audit_safe_exception_type AttributeError = ''AttributeError''"
| "audit_safe_exception_type UnicodeEncodeError = ''Exception''"
| "audit_safe_exception_type (BudgetPersistenceError _) = ''Exception''"
| "audit_safe_exception_type (InvalidScopeURL _) = ''Exception''"
| "audit_safe_exception_type (RunIntegrityError _) = ''Exception''"
| "audit_safe_exception_type ToolRequestCanonicalizationError = ''Exception''"

definition audit_safe_exception_diagnostic :: "exn \<Rightarrow> string \<Rightarrow> string" where
  "audit_safe_exception_diagnostic error stage =
     ''exception_type='' @ audit_safe_exception_type error @ ''; stage='' @
     (if stage \<in> set SAFE_AUDIT_STAGES then stage else ''unknown'') @ ''; detail=omitted''"

text \<open>\<open>except Exception\<close> does not catch a cancellation.\<close>

definition is_exception :: "exn \<Rightarrow> bool" where
  "is_exception e = (e \<noteq> CancelledError)"

section \<open>Text patterns\<close>

definition ident_first :: "char \<Rightarrow> bool" where
  "ident_first c = (let n = (of_char c :: nat) in ascii_alpha n \<or> ascii_digit n)"

definition ident_rest :: "string \<Rightarrow> char \<Rightarrow> bool" where
  "ident_rest extra c = (ident_first c \<or> c \<in> set extra)"

text \<open>\<open>^[A-Za-z0-9][A-Za-z0-9...]{0,n}$\<close> with further characters \<open>extra\<close>.\<close>

definition ident_text :: "string \<Rightarrow> nat \<Rightarrow> string \<Rightarrow> bool" where
  "ident_text extra n s = (case s of [] \<Rightarrow> False | c # r \<Rightarrow> ident_first c \<and> list_all (ident_rest extra) r \<and> length r \<le> n)"

definition safe_runtime_identifier :: "string \<Rightarrow> bool" where
  "safe_runtime_identifier s = ident_text ''._:-'' 199 s"

definition safe_portable_identifier :: "string \<Rightarrow> bool" where
  "safe_portable_identifier s = ident_text ''._-'' 199 s"

definition image_name :: "string \<Rightarrow> bool" where
  "image_name s = (ident_text ''._/@:-'' 299 s)"

definition binding_name :: "string \<Rightarrow> bool" where
  "binding_name s =
     (case s of [] \<Rightarrow> False
      | c # r \<Rightarrow> c \<in> set ''abcdefghijklmnopqrstuvwxyz'' \<and>
          list_all (\<lambda>d. d \<in> set ''abcdefghijklmnopqrstuvwxyz0123456789-'') r \<and> length r \<le> 63)"

text \<open>\<open>item.upper()\<close> of a method token: the sharp s becomes two letters, any other letter that is not
  ASCII keeps being one, which the token pattern refuses.\<close>

definition upper_char :: "char \<Rightarrow> string" where
  "upper_char c = (let n = (of_char c :: nat) in
     if 97 \<le> n \<and> n \<le> 122 then [char_of (n - 32)] else if n = 223 then ''SS'' else [c])"

definition upper_method :: "string \<Rightarrow> string" where
  "upper_method s = concat (map upper_char s)"

definition method_char :: "char \<Rightarrow> bool" where
  "method_char c = (c \<in> set ''!#$%&*+-.^_|~0123456789ABCDEFGHIJKLMNOPQRSTUVWXYZ'' \<or> c = CHR 0x27 \<or> c = CHR 0x60)"

definition method_token :: "string \<Rightarrow> bool" where
  "method_token s = (s \<noteq> [] \<and> length s \<le> 32 \<and> list_all method_char s)"

section \<open>Models\<close>

datatype worker_status = SUCCEEDED | WORKER_FAILED | TIMED_OUT | REJECTED

fun worker_status_value :: "worker_status \<Rightarrow> string" where
  "worker_status_value SUCCEEDED = ''succeeded''"
| "worker_status_value WORKER_FAILED = ''failed''"
| "worker_status_value TIMED_OUT = ''timed-out''"
| "worker_status_value REJECTED = ''rejected''"

datatype worker_failure_code = EGRESS_PROXY_SETUP_FAILED | TARGET_UNAVAILABLE

datatype network_mode = NETWORK_NONE | EGRESS_PROXY

record egress_policy =
  ep_allow :: "string list"
  ep_deny :: "string list"
  ep_allowed_methods :: "string set"
  ep_allow_private_networks :: bool
  ep_max_response_bytes :: int
  ep_max_requests :: int
  ep_max_request_bytes :: "int option"

definition MAX_EGRESS_PROXY_RESPONSE_BYTES :: int where
  "MAX_EGRESS_PROXY_RESPONSE_BYTES = 8388608"

definition MAX_LARGE_PROVIDER_INPUT_BYTES :: int where
  "MAX_LARGE_PROVIDER_INPUT_BYTES = 16777216"

definition bound_unique_rules :: "string list \<Rightarrow> bool" where
  "bound_unique_rules rules = (list_all (\<lambda>rule. rule \<noteq> [] \<and> length rule \<le> 4096) rules \<and> distinct rules)"

definition make_egress_policy :: "egress_policy \<Rightarrow> egress_policy result" where
  "make_egress_policy p =
     (let methods = upper_method ` ep_allowed_methods p in
      if 1 \<le> length (ep_allow p) \<and> length (ep_allow p) \<le> 1000 \<and> length (ep_deny p) \<le> 1000 \<and>
         1 \<le> card methods \<and> card methods \<le> 32 \<and> (\<forall>m \<in> methods. method_token m) \<and>
         bound_unique_rules (ep_allow p) \<and> bound_unique_rules (ep_deny p) \<and>
         1024 \<le> ep_max_response_bytes p \<and> ep_max_response_bytes p \<le> MAX_EGRESS_PROXY_RESPONSE_BYTES \<and>
         1 \<le> ep_max_requests p \<and> ep_max_requests p \<le> 100 \<and>
         (case ep_max_request_bytes p of None \<Rightarrow> True | Some n \<Rightarrow> 1 \<le> n \<and> n \<le> MAX_LARGE_PROVIDER_INPUT_BYTES)
      then Inr (p\<lparr>ep_allowed_methods := methods\<rparr>) else Inl ValidationError)"

record worker_limits =
  wl_timeout_seconds :: rat
  wl_memory_mb :: int
  wl_cpus :: rat
  wl_pids :: int
  wl_workspace_mb :: int
  wl_stdout_bytes :: int
  wl_stderr_bytes :: int

text \<open>The double nearest to one tenth.\<close>

definition float_tenth :: rat where
  "float_tenth = 3602879701896397 / 36028797018963968"

definition valid_limits :: "worker_limits \<Rightarrow> bool" where
  "valid_limits l =
     (float_tenth \<le> wl_timeout_seconds l \<and> wl_timeout_seconds l \<le> 3600 \<and>
      64 \<le> wl_memory_mb l \<and> wl_memory_mb l \<le> 4096 \<and> float_tenth \<le> wl_cpus l \<and> wl_cpus l \<le> 4 \<and>
      1 \<le> wl_pids l \<and> wl_pids l \<le> 512 \<and> 1 \<le> wl_workspace_mb l \<and> wl_workspace_mb l \<le> 1024 \<and>
      1024 \<le> wl_stdout_bytes l \<and> wl_stdout_bytes l \<le> 10000000 \<and>
      1024 \<le> wl_stderr_bytes l \<and> wl_stderr_bytes l \<le> 10000000)"

record worker_secret_request =
  ws_secret_ref :: ustr
  ws_binding :: string
  ws_ttl_seconds :: int

definition valid_secret_request :: "worker_secret_request \<Rightarrow> bool" where
  "valid_secret_request s =
     (1 \<le> length (ws_secret_ref s) \<and> length (ws_secret_ref s) \<le> 200 \<and> binding_name (ws_binding s) \<and>
      1 \<le> ws_ttl_seconds s \<and> ws_ttl_seconds s \<le> 300)"

record worker_job =
  wj_execution_id :: string
  wj_image :: string
  wj_command :: "ustr list"
  wj_stdin :: ustr
  wj_network :: network_mode
  wj_egress_policy :: "egress_policy option"
  wj_limits :: worker_limits
  wj_secret_requests :: "worker_secret_request list"

definition large_provider_action :: "worker_job \<Rightarrow> bool" where
  "large_provider_action j = (wj_command j = [u ''openai-chat-completion-v2''])"

definition stdin_byte_limit :: "worker_job \<Rightarrow> int" where
  "stdin_byte_limit j = (if large_provider_action j then MAX_LARGE_PROVIDER_INPUT_BYTES else 1000000)"

definition request_byte_limit_override :: "worker_job \<Rightarrow> int option" where
  "request_byte_limit_override j = (if large_provider_action j then Some MAX_LARGE_PROVIDER_INPUT_BYTES else None)"

definition validate_network_contract :: "worker_job \<Rightarrow> bool" where
  "validate_network_contract j =
     ((case utf8_encode (wj_stdin j) of None \<Rightarrow> False | Some bs \<Rightarrow> int (length bs) \<le> stdin_byte_limit j) \<and>
      (case wj_egress_policy j of
         Some p \<Rightarrow> (case ep_max_request_bytes p of Some n \<Rightarrow> n \<le> stdin_byte_limit j | None \<Rightarrow> True)
       | None \<Rightarrow> True) \<and>
      (wj_network j = NETWORK_NONE \<longrightarrow> wj_egress_policy j = None) \<and>
      (wj_network j = EGRESS_PROXY \<longrightarrow> wj_egress_policy j \<noteq> None) \<and>
      distinct (map ws_binding (wj_secret_requests j)))"

definition validate_worker_job :: "worker_job \<Rightarrow> worker_job result" where
  "validate_worker_job j =
     (if safe_runtime_identifier (wj_execution_id j) \<and> image_name (wj_image j) \<and>
         1 \<le> length (wj_command j) \<and> length (wj_command j) \<le> 100 \<and> list_all (\<lambda>c. 0 \<notin> set c) (wj_command j) \<and>
         int (length (wj_stdin j)) \<le> MAX_LARGE_PROVIDER_INPUT_BYTES \<and> valid_limits (wj_limits j) \<and>
         length (wj_secret_requests j) \<le> 4 \<and> list_all valid_secret_request (wj_secret_requests j) \<and>
         validate_network_contract j
      then (case wj_egress_policy j of
          None \<Rightarrow> Inr j
        | Some p \<Rightarrow> map_sum id (\<lambda>p'. j\<lparr>wj_egress_policy := Some p'\<rparr>) (make_egress_policy p))
      else Inl ValidationError)"

text \<open>\<open><\<close> on datetimes: \<open>None\<close> is the \<open>TypeError\<close> of comparing a naive with an aware one.\<close>

definition datetime_less :: "py_datetime \<Rightarrow> py_datetime \<Rightarrow> bool option" where
  "datetime_less a b =
     (case (utcoffset a, utcoffset b) of
        (Some x, Some y) \<Rightarrow> Some (wall a - x < wall b - y)
      | (None, None) \<Rightarrow> Some (wall a < wall b)
      | _ \<Rightarrow> None)"

record worker_result =
  wr_execution_id :: string
  wr_backend :: string
  wr_status :: worker_status
  wr_failure_code :: "worker_failure_code option"
  wr_exit_code :: "int option"
  wr_stdout :: ustr
  wr_stderr :: ustr
  wr_network_log :: ustr
  wr_stdout_truncated :: bool
  wr_stderr_truncated :: bool
  wr_started_at :: py_datetime
  wr_finished_at :: py_datetime

definition validate_execution_lifecycle :: "worker_result \<Rightarrow> bool" where
  "validate_execution_lifecycle r =
     (datetime_less (wr_finished_at r) (wr_started_at r) = Some False \<and>
      (wr_status r = SUCCEEDED \<longrightarrow> wr_exit_code r = Some 0) \<and>
      (wr_failure_code r \<noteq> None \<longrightarrow> wr_status r = WORKER_FAILED) \<and>
      (wr_status r = REJECTED \<longrightarrow> wr_exit_code r = None) \<and>
      (wr_status r \<in> {WORKER_FAILED, TIMED_OUT} \<longrightarrow> wr_exit_code r \<noteq> Some 0))"

definition validate_worker_model :: "worker_result \<Rightarrow> worker_result result" where
  "validate_worker_model r =
     (if safe_runtime_identifier (wr_execution_id r) \<and> safe_runtime_identifier (wr_backend r) \<and>
         length (wr_stdout r) \<le> 10000000 \<and> length (wr_stderr r) \<le> 10000000 \<and> length (wr_network_log r) \<le> 10000000 \<and>
         validate_execution_lifecycle r
      then Inr r else Inl ValidationError)"

end
