(* ===== verification/Execution_Receipts.thy ===== *)
theory Execution_Receipts
  imports Worker_Contracts
begin

text \<open>
  From a Worker's untrusted answer to a canonical Tool result,
  \<^verbatim>\<open>src/src/pajin/tools/execution_receipts.py\<close>: the answer is bound to its job, redacted and bounded, then
  interpreted by the Tool adapter, whose result is validated, checked against the Worker status and
  redacted again. An adapter is a record of functions, since \<open>Tool\<close> is an abstract class; an object that is
  no model of the expected class is \<open>None\<close>.
\<close>

section \<open>Data\<close>

record tool_result =
  tr_request_id :: string
  tr_tool_id :: string
  tr_success :: bool
  tr_started_at :: py_datetime
  tr_finished_at :: py_datetime
  tr_data :: jv
  tr_error :: "ustr option"
  tr_evidence :: "string list"

record tool_adapter =
  ta_spec :: "tool_spec option"
  ta_network_request_cost :: "tool_request \<Rightarrow> py_num result"
  ta_network_response_byte_limit :: "tool_request \<Rightarrow> int option result"
  ta_prepare :: "tool_request \<Rightarrow> worker_job option result"
  ta_interpret :: "tool_request \<Rightarrow> worker_result \<Rightarrow> tool_result option result"
  ta_validate_trusted_execution :: "tool_request \<Rightarrow> tool_result \<Rightarrow> worker_result \<Rightarrow> bool \<Rightarrow> unit result"

text \<open>What stands outside: the iteration order of sets of texts, the text of a float, Pydantic's
  \<open>model_dump(mode="json")\<close>, whether the backend is exactly the Docker backend, and the clock.\<close>

record receipt_env =
  re_order :: "ustr list \<Rightarrow> ustr list"
  re_float_repr :: "rat \<Rightarrow> ustr"
  re_dump :: "tool_result \<Rightarrow> jv"
  re_docker_backend :: bool
  re_now :: instant

record normalized_receipt =
  nr_worker_result :: worker_result
  nr_network_log_trusted :: bool
  nr_redaction_failed :: bool

section \<open>Bounded text\<close>

text \<open>\<open>encoded[:limit]\<close>.\<close>

definition slice_to :: "int \<Rightarrow> 'a list \<Rightarrow> 'a list" where
  "slice_to n xs = take (if 0 \<le> n then nat n else length xs - nat (- n)) xs"

definition bound_utf8 :: "ustr \<Rightarrow> int \<Rightarrow> (ustr \<times> bool) result" where
  "bound_utf8 value byte_limit =
     (case utf8_encode value of
        None \<Rightarrow> Inl UnicodeEncodeError
      | Some encoded \<Rightarrow>
          (if int (length encoded) \<le> byte_limit then Inr (value, False)
           else Inr (utf8_decode_with [] (slice_to byte_limit encoded), True)))"

definition failed_tool_result :: "receipt_env \<Rightarrow> tool_request \<Rightarrow> ustr \<Rightarrow> tool_result" where
  "failed_tool_result env request error =
     \<lparr>tr_request_id = request_id request, tr_tool_id = request_tool_id request, tr_success = False,
      tr_started_at = utc_datetime (re_now env), tr_finished_at = utc_datetime (re_now env), tr_data = JvObj [],
      tr_error = Some (case bound_utf8 error 16384 of
          Inl _ \<Rightarrow> u ''Gateway failure diagnostic could not be represented safely''
        | Inr (bounded, _) \<Rightarrow> bounded),
      tr_evidence = []\<rparr>"

section \<open>The host receipt\<close>

definition validate_worker_result :: "worker_job \<Rightarrow> worker_result option \<Rightarrow> worker_result result" where
  "validate_worker_result job answer =
     (case answer of
        None \<Rightarrow> Inl (ValueError ''Worker returned a malformed result model'')
      | Some raw \<Rightarrow>
          (case validate_worker_model raw of
             Inl _ \<Rightarrow> Inl (ValueError ''Worker returned a malformed result model'')
           | Inr r \<Rightarrow>
               (if wr_execution_id r \<noteq> wj_execution_id job
                then Inl (ValueError ''Worker result execution identity differs from its job'') else Inr r)))"

definition contract_failed_worker_result :: "receipt_env \<Rightarrow> worker_job \<Rightarrow> ustr \<Rightarrow> worker_result" where
  "contract_failed_worker_result env job error =
     \<lparr>wr_execution_id = wj_execution_id job, wr_backend = ''backend-error'', wr_status = WORKER_FAILED,
      wr_failure_code = None, wr_exit_code = None, wr_stdout = [], wr_stderr = error, wr_network_log = [],
      wr_stdout_truncated = False, wr_stderr_truncated = False,
      wr_started_at = utc_datetime (re_now env), wr_finished_at = utc_datetime (re_now env)\<rparr>"

definition redact_if :: "receipt_env \<Rightarrow> secret_material list \<Rightarrow> ustr \<Rightarrow> ustr result" where
  "redact_if env materials t = (if materials \<noteq> [] then redact_text (re_order env) t materials else Inr t)"

definition utf8_length :: "ustr \<Rightarrow> int result" where
  "utf8_length t = (case utf8_encode t of None \<Rightarrow> Inl UnicodeEncodeError | Some bs \<Rightarrow> Inr (int (length bs)))"

definition redact_worker_result ::
  "receipt_env \<Rightarrow> worker_result \<Rightarrow> secret_material list \<Rightarrow> worker_job \<Rightarrow> worker_result result" where
  "redact_worker_result env r materials job =
     (case redact_if env materials (wr_stdout r) of Inl e \<Rightarrow> Inl e | Inr stdout0 \<Rightarrow>
     (case redact_if env materials (wr_stderr r) of Inl e \<Rightarrow> Inl e | Inr stderr0 \<Rightarrow>
     (case redact_if env materials (wr_network_log r) of Inl e \<Rightarrow> Inl e | Inr network_log0 \<Rightarrow>
     (let stdout_limit = wl_stdout_bytes (wj_limits job); stderr_limit = wl_stderr_bytes (wj_limits job);
          total_limit = stdout_limit + stderr_limit in
      (case bound_utf8 stdout0 (min stdout_limit total_limit) of Inl e \<Rightarrow> Inl e | Inr (stdout, stdout_truncated) \<Rightarrow>
      (case utf8_length stdout of Inl e \<Rightarrow> Inl e | Inr stdout_length \<Rightarrow>
      (let remaining = total_limit - stdout_length in
       (case bound_utf8 stderr0 (min stderr_limit remaining) of Inl e \<Rightarrow> Inl e | Inr (stderr, stderr_truncated) \<Rightarrow>
       (case utf8_length stderr of Inl e \<Rightarrow> Inl e | Inr stderr_length \<Rightarrow>
       (case bound_utf8 network_log0 (min stderr_limit (remaining - stderr_length)) of
          Inl e \<Rightarrow> Inl e
        | Inr (network_log, network_log_truncated) \<Rightarrow>
            validate_worker_model
              (r\<lparr>wr_stdout := stdout, wr_stderr := stderr,
                 wr_network_log := (if network_log_truncated then [] else network_log),
                 wr_stdout_truncated := wr_stdout_truncated r \<or> stdout_truncated,
                 wr_stderr_truncated := wr_stderr_truncated r \<or> stderr_truncated \<or> network_log_truncated\<rparr>)))))))))))"

definition host_network_log_is_trusted :: "receipt_env \<Rightarrow> worker_job option \<Rightarrow> worker_result option \<Rightarrow> bool" where
  "host_network_log_is_trusted env job answer =
     (re_docker_backend env \<and>
      (case (job, answer) of
         (Some j, Some r) \<Rightarrow> wj_network j = EGRESS_PROXY \<and> wr_backend r = ''docker''
       | _ \<Rightarrow> False))"

definition normalize_host_receipt ::
  "receipt_env \<Rightarrow> worker_job \<Rightarrow> worker_result option \<Rightarrow> secret_material list \<Rightarrow> normalized_receipt" where
  "normalize_host_receipt env job answer materials =
     (case validate_worker_result job answer of
        Inl _ \<Rightarrow>
          \<lparr>nr_worker_result = contract_failed_worker_result env job (u ''worker result contract validation failed''),
           nr_network_log_trusted = False, nr_redaction_failed = False\<rparr>
      | Inr normalized \<Rightarrow>
          (case redact_worker_result env normalized materials job of
             Inl _ \<Rightarrow>
               \<lparr>nr_worker_result = contract_failed_worker_result env job (u ''worker result redaction failed''),
                nr_network_log_trusted = False, nr_redaction_failed = True\<rparr>
           | Inr r \<Rightarrow>
               \<lparr>nr_worker_result = r,
                nr_network_log_trusted = host_network_log_is_trusted env (Some job) (Some r),
                nr_redaction_failed = False\<rparr>))"

section \<open>The Tool result\<close>

text \<open>The identifier patterns of \<open>ToolResult\<close>.\<close>

definition valid_tool_model :: "tool_result \<Rightarrow> bool" where
  "valid_tool_model r =
     (safe_portable_identifier (tr_request_id r) \<and> safe_runtime_identifier (tr_tool_id r) \<and>
      (case tr_data r of JvObj _ \<Rightarrow> True | _ \<Rightarrow> False))"

definition strict_result_size :: "receipt_env \<Rightarrow> tool_result \<Rightarrow> int result" where
  "strict_result_size env r =
     (case validate_strict_json (tr_data r) ''Tool result data'' of
        Inl e \<Rightarrow> Inl e
      | Inr _ \<Rightarrow>
          (case canonical_json_bytes (re_float_repr env) (re_dump env r) ''Tool result'' None of
             Inl e \<Rightarrow> Inl e
           | Inr serialized \<Rightarrow> Inr (int (length serialized))))"

definition validate_tool_result :: "receipt_env \<Rightarrow> tool_request \<Rightarrow> tool_result option \<Rightarrow> tool_result result" where
  "validate_tool_result env request candidate =
     (case candidate of
        None \<Rightarrow> Inl (ValueError ''Tool returned a malformed result model'')
      | Some r \<Rightarrow>
          (if \<not> valid_tool_model r then Inl (ValueError ''Tool returned a malformed result model'')
           else if tr_request_id r \<noteq> request_id request \<or> tr_tool_id r \<noteq> request_tool_id request
           then Inl (ValueError ''Tool result identity differs from its request'')
           else case datetime_less (tr_finished_at r) (tr_started_at r) of
             None \<Rightarrow> Inl (ValueError ''Tool result timestamps are not comparable'')
           | Some True \<Rightarrow> Inl (ValueError ''Tool result finished_at precedes started_at'')
           | Some False \<Rightarrow>
               (if tr_success r \<and> tr_error r \<noteq> None
                then Inl (ValueError ''successful Tool result cannot include an error'')
                else if \<not> tr_success r \<and> (case tr_error r of None \<Rightarrow> True | Some e \<Rightarrow> list_all uni_space e)
                then Inl (ValueError ''failed Tool result requires a non-empty error'')
                else if tr_evidence r \<noteq> []
                then Inl (ValueError ''Tool Adapter cannot inject evidence references'')
                else case strict_result_size env r of
                  Inl _ \<Rightarrow> Inl (ValueError ''Tool result is not strict canonical JSON'')
                | Inr n \<Rightarrow>
                    (if n > 10000000
                     then Inl (ValueError ''Tool result exceeds the bounded canonical JSON size'') else Inr r))))"

definition SAFE_TOOL_RESULT_CONTRACT_DETAILS :: "string list" where
  "SAFE_TOOL_RESULT_CONTRACT_DETAILS =
     [''Tool returned a malformed result model'', ''Tool result identity differs from its request'',
      ''Tool result timestamps are not comparable'', ''Tool result finished_at precedes started_at'',
      ''successful Tool result cannot include an error'', ''failed Tool result requires a non-empty error'',
      ''Tool Adapter cannot inject evidence references'', ''Tool result is not strict canonical JSON'',
      ''Tool result exceeds the bounded canonical JSON size'']"

definition contract_detail :: "exn \<Rightarrow> string" where
  "contract_detail e =
     (case e of
        ValueError m \<Rightarrow> if m \<in> set SAFE_TOOL_RESULT_CONTRACT_DETAILS then m else ''Tool result contract is invalid''
      | _ \<Rightarrow> ''Tool result contract is invalid'')"

definition validated_result_or_failure ::
  "receipt_env \<Rightarrow> tool_request \<Rightarrow> tool_result option \<Rightarrow> tool_result \<times> bool \<times> bool" where
  "validated_result_or_failure env request candidate =
     (case validate_tool_result env request candidate of
        Inr r \<Rightarrow> (r, True, True)
      | Inl e \<Rightarrow>
          (failed_tool_result env request (u (''tool result contract validation failed: '' @ contract_detail e)),
           (case candidate of None \<Rightarrow> True
            | Some c \<Rightarrow> tr_request_id c = request_id request \<and> tr_tool_id c = request_tool_id request),
           False))"

text \<open>The candidate and whether the adapter provided it.\<close>

definition interpret_worker_result ::
  "receipt_env \<Rightarrow> tool_request \<Rightarrow> tool_adapter \<Rightarrow> worker_result \<Rightarrow> bool \<Rightarrow> (tool_result option \<times> bool) result" where
  "interpret_worker_result env request tool r redaction_failed =
     (if redaction_failed
      then Inr (Some (failed_tool_result env request (u ''worker result redaction failed'')), False)
      else if wr_status r = SUCCEEDED \<and> (wr_stdout_truncated r \<or> wr_stderr_truncated r)
      then Inr (Some (failed_tool_result env request
             (u ''successful Worker output was truncated and cannot be trusted'')), False)
      else case ta_interpret tool request r of
        Inr candidate \<Rightarrow> Inr (candidate, True)
      | Inl e \<Rightarrow>
          (if is_exception e
           then Inr (Some (failed_tool_result env request
             (u (''tool result interpretation failed; '' @ audit_safe_exception_diagnostic e ''tool-interpretation''))), False)
           else Inl e))"

definition without_adapter_error_detail :: "tool_result \<Rightarrow> worker_result \<Rightarrow> tool_result" where
  "without_adapter_error_detail r w =
     (if tr_success r then r
      else r\<lparr>tr_error := Some (if wr_status w = SUCCEEDED then u ''Tool Adapter rejected the Worker result''
          else u (''Worker execution did not succeed (status='' @ worker_status_value (wr_status w) @ '')''))\<rparr>)"

definition validate_trusted_result ::
  "receipt_env \<Rightarrow> tool_request \<Rightarrow> tool_adapter \<Rightarrow> worker_result \<Rightarrow> tool_result \<Rightarrow> bool \<Rightarrow> (tool_result \<times> bool) result" where
  "validate_trusted_result env request tool w r trusted =
     (if \<not> tr_success r then Inr (r, True)
      else case ta_validate_trusted_execution tool request r w trusted of
        Inl e \<Rightarrow>
          (if is_exception e
           then Inr (failed_tool_result env request
             (u (''trusted execution validation failed; '' @ audit_safe_exception_diagnostic e ''trusted-execution-validation'')), True)
           else Inl e)
      | Inr _ \<Rightarrow>
          (case validated_result_or_failure env request (Some r) of (validated, identity_valid, _) \<Rightarrow> Inr (validated, identity_valid)))"

definition redact_tool_result :: "receipt_env \<Rightarrow> tool_result \<Rightarrow> secret_material list \<Rightarrow> tool_result result" where
  "redact_tool_result env r materials =
     (if materials = [] then Inr r
      else case redact_value (re_order env) materials (tr_data r) of
        Inl e \<Rightarrow> Inl e
      | Inr d \<Rightarrow>
          (case (case tr_error r of
               None \<Rightarrow> Inr None
             | Some e \<Rightarrow> if e = [] then Inr None else map_sum id Some (redact_text (re_order env) e materials)) of
             Inl e \<Rightarrow> Inl e
           | Inr err \<Rightarrow> Inr (r\<lparr>tr_data := d, tr_error := err\<rparr>)))"

text \<open>The adapter's result after the check against the Worker status, and a result after its redaction.\<close>

definition checked_against_worker ::
  "receipt_env \<Rightarrow> tool_request \<Rightarrow> worker_result \<Rightarrow> bool \<Rightarrow> tool_result \<Rightarrow> tool_result" where
  "checked_against_worker env request w drop_detail r =
     (let r' = (if drop_detail then without_adapter_error_detail r w else r) in
      if tr_success r' \<and> wr_status w \<noteq> SUCCEEDED
      then failed_tool_result env request (u ''Tool Adapter cannot report success for an unsuccessful Worker execution'')
      else r')"

definition redacted_or_failed :: "receipt_env \<Rightarrow> tool_request \<Rightarrow> tool_result \<Rightarrow> secret_material list \<Rightarrow> tool_result" where
  "redacted_or_failed env request r materials =
     (case redact_tool_result env r materials of
        Inr r' \<Rightarrow> r' | Inl _ \<Rightarrow> failed_tool_result env request (u ''tool result redaction failed''))"

definition project_tool_result ::
  "receipt_env \<Rightarrow> tool_request \<Rightarrow> tool_adapter \<Rightarrow> normalized_receipt \<Rightarrow> secret_material list \<Rightarrow> (tool_result \<times> bool) result" where
  "project_tool_result env request tool receipt materials =
     (let w = nr_worker_result receipt in
      case interpret_worker_result env request tool w (nr_redaction_failed receipt) of
        Inl e \<Rightarrow> Inl e
      | Inr (candidate, adapter_provided) \<Rightarrow>
          (case validated_result_or_failure env request candidate of
             (r1, identity_valid, contract_valid) \<Rightarrow>
               (case validate_trusted_result env request tool w
                    (checked_against_worker env request w (adapter_provided \<and> contract_valid) r1)
                    (nr_network_log_trusted receipt) of
                  Inl e \<Rightarrow> Inl e
                | Inr (r2, trusted_identity) \<Rightarrow>
                    (case validated_result_or_failure env request (Some (redacted_or_failed env request r2 materials)) of
                       (r3, redacted_identity, _) \<Rightarrow>
                         Inr (r3, (identity_valid \<and> trusted_identity) \<and> redacted_identity)))))"

section \<open>The contract of a Tool result\<close>

text \<open>What every result the gateway publishes satisfies; a failure that the gateway itself reports has no data and is
  not measured against the size limit.\<close>

definition result_contract :: "receipt_env \<Rightarrow> tool_request \<Rightarrow> tool_result \<Rightarrow> bool" where
  "result_contract env request r =
     (tr_request_id r = request_id request \<and> tr_tool_id r = request_tool_id request \<and> tr_evidence r = [] \<and>
      datetime_less (tr_finished_at r) (tr_started_at r) = Some False \<and> (tr_success r \<longleftrightarrow> tr_error r = None) \<and>
      (case tr_error r of None \<Rightarrow> True | Some e \<Rightarrow> \<not> list_all uni_space e) \<and>
      ((case strict_result_size env r of Inr n \<Rightarrow> n \<le> 10000000 | Inl _ \<Rightarrow> False) \<or> \<not> tr_success r \<and> tr_data r = JvObj []))"

section \<open>A sample execution\<close>

definition sample_receipt_env :: receipt_env where
  "sample_receipt_env =
     \<lparr>re_order = id, re_float_repr = no_floats,
      re_dump = (\<lambda>r. JvObj [(u ''request_id'', JvStr (u (tr_request_id r))), (u ''data'', tr_data r)]),
      re_docker_backend = True, re_now = 1000\<rparr>"

definition sample_limits_record :: worker_limits where
  "sample_limits_record =
     \<lparr>wl_timeout_seconds = 30, wl_memory_mb = 256, wl_cpus = 1 / 2, wl_pids = 64, wl_workspace_mb = 16,
      wl_stdout_bytes = 1024, wl_stderr_bytes = 1024\<rparr>"

definition sample_job :: worker_job where
  "sample_job =
     \<lparr>wj_execution_id = ''exec_1'', wj_image = ''pajin-worker:dev'', wj_command = [u ''http-json''], wj_stdin = u ''{}'',
      wj_network = NETWORK_NONE, wj_egress_policy = None, wj_limits = sample_limits_record, wj_secret_requests = []\<rparr>"

definition sample_worker_result :: worker_result where
  "sample_worker_result =
     \<lparr>wr_execution_id = ''exec_1'', wr_backend = ''docker'', wr_status = SUCCEEDED, wr_failure_code = None, wr_exit_code = Some 0,
      wr_stdout = u ''{}'', wr_stderr = [], wr_network_log = [], wr_stdout_truncated = False, wr_stderr_truncated = False,
      wr_started_at = utc_datetime 100, wr_finished_at = utc_datetime 200\<rparr>"

definition sample_tool_request :: tool_request where
  "sample_tool_request =
     \<lparr>request_id = ''tool_1'', request_agent_id = ''agent-1'', request_tool_id = ''http.get'',
      request_target = ''https://app.example.test/'', request_method = ''GET'', request_arguments = JObj []\<rparr>"

definition sample_adapter :: tool_adapter where
  "sample_adapter =
     \<lparr>ta_spec = Some sample_tool, ta_network_request_cost = (\<lambda>_. Inr (PyInt 1)), ta_network_response_byte_limit = (\<lambda>_. Inr None),
      ta_prepare = (\<lambda>_. Inr (Some sample_job)),
      ta_interpret = (\<lambda>request w. Inr (Some
        \<lparr>tr_request_id = request_id request, tr_tool_id = request_tool_id request, tr_success = True,
         tr_started_at = wr_started_at w, tr_finished_at = wr_finished_at w,
         tr_data = JvObj [(u ''stdout'', JvStr (wr_stdout w))], tr_error = None, tr_evidence = []\<rparr>)),
      ta_validate_trusted_execution = (\<lambda>_ _ _ _. Inr ())\<rparr>"

section \<open>Bounded text keeps whole characters\<close>

lemma decode_lead:
  "0xC0 \<le> b \<Longrightarrow> utf8_decode_with [] [b] = []"
  "0xE0 \<le> b \<Longrightarrow> b \<le> 0xF4 \<Longrightarrow> second_byte_ok b b1 \<Longrightarrow> utf8_decode_with [] [b, b1] = []"
  "0xF0 \<le> b \<Longrightarrow> b \<le> 0xF4 \<Longrightarrow> second_byte_ok b b1 \<Longrightarrow> utf8_cont b2 \<Longrightarrow> utf8_decode_with [] [b, b1, b2] = []"
  by (auto simp: utf8_step_def utf8_bad_def)

lemma second_byte3:
  assumes "0x800 \<le> c" and "c < 0x10000" and "\<not> (0xD800 \<le> c \<and> c \<le> 0xDFFF)"
  shows "second_byte_ok (0xE0 + c div 4096) (0x80 + c div 64 mod 64)"
proof -
  have m: "c div 64 mod 64 \<le> 63" by (rule mod_64_le)
  have "c div 64 div 64 = c div 4096" by (simp add: div_mult2_eq [symmetric])
  then have e: "c div 64 = c div 4096 * 64 + c div 64 mod 64" by (metis div_mult_mod_eq)
  have "c div 4096 = 0 \<Longrightarrow> 32 \<le> c div 64 mod 64" using e assms(1) by linarith
  moreover have "c div 64 mod 64 < 32" if "c div 4096 = 13"
  proof (rule ccontr)
    assume "\<not> c div 64 mod 64 < 32"
    then have "864 \<le> c div 64" "c div 64 \<le> 895" using e that m by linarith+
    then have "0xD800 \<le> c" "c \<le> 0xDFFF" by linarith+
    then show False using assms(3) by simp
  qed
  ultimately show ?thesis using m assms(2) by (auto simp: second_byte_ok_def utf8_cont_def)
qed

lemma second_byte4:
  assumes "0x10000 \<le> c" and "c < 0x110000"
  shows "second_byte_ok (0xF0 + c div 262144) (0x80 + c div 4096 mod 64)"
proof -
  have m: "c div 4096 mod 64 \<le> 63" by (rule mod_64_le)
  have "c div 4096 div 64 = c div 262144" by (simp add: div_mult2_eq [symmetric])
  then have e: "c div 4096 = c div 262144 * 64 + c div 4096 mod 64" by (metis div_mult_mod_eq)
  have "c div 262144 = 0 \<Longrightarrow> 16 \<le> c div 4096 mod 64" using e assms(1) by linarith
  moreover have "c div 262144 = 4 \<Longrightarrow> c div 4096 mod 64 < 16" using e assms(2) by linarith
  ultimately show ?thesis using m by (auto simp: second_byte_ok_def utf8_cont_def)
qed

lemma take_short:
  "n < Suc (Suc 0) \<Longrightarrow> take n [a, b] = [] \<or> take n [a, b] = [a]"
  "n < Suc (Suc (Suc 0)) \<Longrightarrow> take n [a, b, c] = [] \<or> take n [a, b, c] = [a] \<or> take n [a, b, c] = [a, b]"
  "n < Suc (Suc (Suc (Suc 0))) \<Longrightarrow>
     take n [a, b, c, d] = [] \<or> take n [a, b, c, d] = [a] \<or> take n [a, b, c, d] = [a, b] \<or> take n [a, b, c, d] = [a, b, c]"
  by (auto simp: less_Suc_eq)

lemma decode_ignore_cut:
  assumes "utf8_char c = Some bs" and "n < length bs"
  shows "utf8_decode_with [] (take n bs) = []"
proof -
  consider "c < 0x80" "bs = [c]" | "0x80 \<le> c" "c < 0x800" "bs = [0xC0 + c div 64, 0x80 + c mod 64]"
    | "0x800 \<le> c" "c < 0x10000" "\<not> (0xD800 \<le> c \<and> c \<le> 0xDFFF)" "bs = [0xE0 + c div 4096, 0x80 + c div 64 mod 64, 0x80 + c mod 64]"
    | "0x10000 \<le> c" "c < 0x110000" "bs = [0xF0 + c div 262144, 0x80 + c div 4096 mod 64, 0x80 + c div 64 mod 64, 0x80 + c mod 64]"
    using assms(1) unfolding utf8_char_def by (fastforce split: if_splits)
  then show ?thesis
  proof cases
    case 1
    then show ?thesis using assms(2) by simp
  next
    case 2
    then have "take n bs = [] \<or> take n bs = [0xC0 + c div 64]" using assms(2) take_short(1) by fastforce
    then show ?thesis using decode_lead(1) [of "0xC0 + c div 64"] by auto
  next
    case 3
    have "0xE0 + c div 4096 \<le> 0xF4" using 3 by linarith
    moreover have "take n bs = [] \<or> take n bs = [0xE0 + c div 4096] \<or> take n bs = [0xE0 + c div 4096, 0x80 + c div 64 mod 64]"
      using assms(2) take_short(2) 3 by fastforce
    ultimately show ?thesis using decode_lead(1) [of "0xE0 + c div 4096"] decode_lead(2) [OF _ _ second_byte3] 3 by auto
  next
    case 4
    have "0xF0 + c div 262144 \<le> 0xF4" "utf8_cont (0x80 + c div 64 mod 64)"
      using 4 mod_64_le [of "c div 64"] by (auto simp: utf8_cont_def)
    moreover have "take n bs = [] \<or> take n bs = [0xF0 + c div 262144] \<or> take n bs = [0xF0 + c div 262144, 0x80 + c div 4096 mod 64] \<or>
        take n bs = [0xF0 + c div 262144, 0x80 + c div 4096 mod 64, 0x80 + c div 64 mod 64]"
      using assms(2) take_short(3) 4 by fastforce
    ultimately show ?thesis
      using decode_lead(1) [of "0xF0 + c div 262144"] decode_lead(2,3) [OF _ _ second_byte4] 4 by auto
  qed
qed

lemma decode_ignore_prefix:
  "utf8_encode v = Some bs \<Longrightarrow>
   \<exists>w r ws. v = w @ r \<and> utf8_decode_with [] (take n bs) = w \<and> utf8_encode w = Some ws \<and> length ws \<le> n"
proof (induction v arbitrary: bs n)
  case Nil
  then show ?case by simp
next
  case (Cons c v)
  obtain cs rs where cs: "utf8_char c = Some cs" "utf8_encode v = Some rs" "bs = cs @ rs"
    using Cons.prems by (auto split: option.splits)
  show ?case
  proof (cases "length cs \<le> n")
    case False
    then have "utf8_decode_with [] (take n bs) = []" using decode_ignore_cut [OF cs(1)] cs(3) by simp
    then show ?thesis by (intro exI [of _ "[]"] exI [of _ "c # v"]) simp
  next
    case True
    obtain w r ws where ih: "v = w @ r" "utf8_decode_with [] (take (n - length cs) rs) = w" "utf8_encode w = Some ws" "length ws \<le> n - length cs"
      using Cons.IH [OF cs(2), of "n - length cs"] by blast
    obtain b bt where b: "cs = b # bt" using cs(1) by (auto simp: utf8_char_def split: if_splits)
    have "utf8_step b (bt @ take (n - length cs) rs) = Some (c, length bt)" using utf8_step_char [OF cs(1)] b by simp
    then have "utf8_decode_with [] (cs @ take (n - length cs) rs) = c # w" using ih(2) b by simp
    then show ?thesis using ih True cs by (intro exI [of _ "c # w"] exI [of _ r] exI [of _ "cs @ ws"]) auto
  qed
qed

lemma bound_utf8_bounded:
  assumes "bound_utf8 v n = Inr (w, short)" and "0 \<le> n"
  shows "\<exists>bs r. utf8_encode w = Some bs \<and> int (length bs) \<le> n \<and> v = w @ r \<and> (short \<or> w = v)"
proof -
  obtain bs where bs: "utf8_encode v = Some bs" using assms(1) by (auto simp: bound_utf8_def split: option.splits)
  show ?thesis
  proof (cases "int (length bs) \<le> n")
    case True
    then show ?thesis using assms(1) bs by (auto simp: bound_utf8_def)
  next
    case False
    then have "w = utf8_decode_with [] (take (nat n) bs)" "short" using assms bs by (auto simp: bound_utf8_def slice_to_def)
    then show ?thesis using decode_ignore_prefix [OF bs, of "nat n"] assms(2) by force
  qed
qed

section \<open>The host receipt\<close>

lemma bound_utf8_length:
  assumes "bound_utf8 v n = Inr (w, short)" and "0 \<le> n"
  shows "\<exists>k. utf8_length w = Inr k \<and> 0 \<le> k \<and> k \<le> n"
  using bound_utf8_bounded [OF assms] by (auto simp: utf8_length_def)

lemma validate_worker_model_id: "validate_worker_model r = Inr r' \<Longrightarrow> r' = r"
  by (auto simp: validate_worker_model_def split: if_splits)

lemma redact_worker_result_bounded:
  assumes "redact_worker_result env r materials job = Inr r'" and "valid_limits (wj_limits job)"
  shows "\<exists>a b c. utf8_length (wr_stdout r') = Inr a \<and> utf8_length (wr_stderr r') = Inr b \<and> utf8_length (wr_network_log r') = Inr c \<and>
    a \<le> wl_stdout_bytes (wj_limits job) \<and> b \<le> wl_stderr_bytes (wj_limits job) \<and>
    a + b + c \<le> wl_stdout_bytes (wj_limits job) + wl_stderr_bytes (wj_limits job) \<and>
    wr_execution_id r' = wr_execution_id r \<and> validate_worker_model r' = Inr r'"
proof -
  let ?o = "wl_stdout_bytes (wj_limits job)" let ?e = "wl_stderr_bytes (wj_limits job)"
  have pos: "0 \<le> ?o" "0 \<le> ?e" using assms(2) by (auto simp: valid_limits_def)
  obtain so0 se0 nl0 so a se b nl cso cse cnl where
    o: "bound_utf8 so0 (min ?o (?o + ?e)) = Inr (so, cso)" "utf8_length so = Inr a" and
    e: "bound_utf8 se0 (min ?e (?o + ?e - a)) = Inr (se, cse)" "utf8_length se = Inr b" and
    n: "bound_utf8 nl0 (min ?e (?o + ?e - a - b)) = Inr (nl, cnl)" and
    v: "validate_worker_model (r\<lparr>wr_stdout := so, wr_stderr := se, wr_network_log := (if cnl then [] else nl),
         wr_stdout_truncated := wr_stdout_truncated r \<or> cso, wr_stderr_truncated := wr_stderr_truncated r \<or> cse \<or> cnl\<rparr>) = Inr r'"
    using assms(1) unfolding redact_worker_result_def Let_def by (auto split: sum.splits prod.splits)
  have a: "0 \<le> a" "a \<le> ?o" using bound_utf8_length [OF o(1)] o(2) pos by auto
  have b: "0 \<le> b" "b \<le> ?e" "b \<le> ?o + ?e - a" using bound_utf8_length [OF e(1)] e(2) pos a by auto
  obtain c where c: "utf8_length nl = Inr c" "c \<le> ?o + ?e - a - b" using bound_utf8_length [OF n] pos a b by auto
  have "utf8_length (if cnl then [] else nl) = Inr (if cnl then 0 else c)" using c(1) by (simp add: utf8_length_def)
  moreover have "(if cnl then 0 else c) \<le> ?o + ?e - a - b" using c(2) b by simp
  moreover note v validate_worker_model_id [OF v]
  ultimately show ?thesis using o(2) e(2) a b
    by (intro exI [of _ a] exI [of _ b] exI [of _ "if cnl then 0 else c"]) auto
qed

text \<open>A result the host makes itself.\<close>

lemma contract_failed_ok:
  assumes "valid_limits (wj_limits job)" and "safe_runtime_identifier (wj_execution_id job)"
    and "e = u ''worker result contract validation failed'' \<or> e = u ''worker result redaction failed''"
  shows "\<exists>b. utf8_length e = Inr b \<and> b \<le> 1024" and
    "validate_worker_model (contract_failed_worker_result env job e) = Inr (contract_failed_worker_result env job e)"
proof -
  have "utf8_length (u ''worker result contract validation failed'') = Inr 40" "utf8_length (u ''worker result redaction failed'') = Inr 30"
    "safe_runtime_identifier ''backend-error''" by code_simp+
  then show "\<exists>b. utf8_length e = Inr b \<and> b \<le> 1024"
    "validate_worker_model (contract_failed_worker_result env job e) = Inr (contract_failed_worker_result env job e)"
    using assms(2,3)
    by (auto simp: validate_worker_model_def contract_failed_worker_result_def validate_execution_lifecycle_def
        datetime_less_def utc_datetime_def utcoffset_def u_def)
qed

section \<open>The Tool result\<close>

lemma validate_tool_result_Inr:
  assumes "validate_tool_result env request c = Inr r"
  shows "c = Some r \<and> result_contract env request r"
  using assms unfolding validate_tool_result_def result_contract_def
  by (auto split: option.splits if_splits bool.splits sum.splits)

lemma contract_detail_short: "is_ascii (u (contract_detail e)) \<and> length (contract_detail e) \<le> 60"
proof -
  have "list_all (\<lambda>m. is_ascii (u m) \<and> length m \<le> 60) (''Tool result contract is invalid'' # SAFE_TOOL_RESULT_CONTRACT_DETAILS)"
    by code_simp
  moreover have "contract_detail e \<in> set (''Tool result contract is invalid'' # SAFE_TOOL_RESULT_CONTRACT_DETAILS)"
    unfolding contract_detail_def by (cases e) simp_all
  ultimately show ?thesis unfolding list_all_iff by blast
qed

text \<open>A failure result of the gateway: its error is the given text if that is short and can be encoded.\<close>

lemma failed_tool_result_simps [simp]:
  "tr_request_id (failed_tool_result env request e) = request_id request"
  "tr_tool_id (failed_tool_result env request e) = request_tool_id request"
  "\<not> tr_success (failed_tool_result env request e)"
  "tr_evidence (failed_tool_result env request e) = []"
  "tr_data (failed_tool_result env request e) = JvObj []"
  "datetime_less (tr_finished_at (failed_tool_result env request e)) (tr_started_at (failed_tool_result env request e)) = Some False"
  by (simp_all add: failed_tool_result_def datetime_less_def utc_datetime_def utcoffset_def)

lemma failed_tool_result_error:
  assumes "utf8_encode e = Some bs" and "length bs \<le> 16384"
  shows "tr_error (failed_tool_result env request e) = Some e"
  using assms by (simp add: failed_tool_result_def bound_utf8_def)

lemma validated_or_failure_contract:
  assumes "validated_result_or_failure env request c = (r, identity_valid, contract_valid)"
  shows "result_contract env request r \<and> (tr_success r \<longrightarrow> c = Some r \<and> identity_valid) \<and> (contract_valid \<longrightarrow> c = Some r)"
proof (cases "validate_tool_result env request c")
  case (Inr x)
  then show ?thesis using assms validate_tool_result_Inr [OF Inr] by (simp add: validated_result_or_failure_def)
next
  case (Inl e)
  let ?t = "u (''tool result contract validation failed: '' @ contract_detail e)"
  have r: "r = failed_tool_result env request ?t" "\<not> contract_valid" using assms Inl by (auto simp: validated_result_or_failure_def)
  have "is_ascii ?t" using contract_detail_short [of e] by (auto simp: u_def is_ascii_def)
  moreover have "length ?t \<le> 16384" using contract_detail_short [of e] by (simp add: u_def)
  moreover have "\<not> list_all uni_space ?t" by (simp add: u_def uni_space_def)
  ultimately show ?thesis using r failed_tool_result_error [of ?t ?t] utf8_encode_ascii by (simp add: result_contract_def)
qed

section \<open>Correctness\<close>

lemma without_adapter_success [simp]: "tr_success (without_adapter_error_detail r w) = tr_success r"
  by (simp add: without_adapter_error_detail_def)

lemma redact_tool_success: "redact_tool_result env r materials = Inr r' \<Longrightarrow> tr_success r' = tr_success r"
  by (auto simp: redact_tool_result_def split: if_splits sum.splits option.splits)

lemma interpret_success:
  assumes "interpret_worker_result env request tool w failed = Inr (Some c, by_adapter)" and "tr_success c"
  shows "ta_interpret tool request w = Inr (Some c) \<and> \<not> failed \<and> \<not> (wr_status w = SUCCEEDED \<and> (wr_stdout_truncated w \<or> wr_stderr_truncated w))"
  using assms by (auto simp: interpret_worker_result_def split: if_splits sum.splits)

lemma trusted_success:
  assumes "validate_trusted_result env request tool w r trusted = Inr (r', i)" and "tr_success r'"
  shows "r' = r \<and> i \<and> ta_validate_trusted_execution tool request r w trusted = Inr ()"
  using assms validated_or_failure_contract [of env request "Some r"]
  by (auto simp: validate_trusted_result_def split: if_splits sum.splits prod.splits)

lemma checked_success:
  assumes "tr_success (checked_against_worker env request w d r)"
  shows "checked_against_worker env request w d r = r \<and> tr_success r \<and> wr_status w = SUCCEEDED"
proof -
  have s: "tr_success r" "wr_status w = SUCCEEDED"
    using assms by (auto simp: checked_against_worker_def Let_def split: if_splits)
  then show ?thesis by (simp add: checked_against_worker_def without_adapter_error_detail_def)
qed

text \<open>C35. The transcripts of a receipt are bounded: whatever a Worker answers, the normalized result belongs to the
  job, is a valid model, and its output, error and network log together have at most the bytes the job's
  limits allow.\<close>

theorem receipt_is_bounded:
  assumes "valid_limits (wj_limits job)" and "safe_runtime_identifier (wj_execution_id job)"
    and r_def: "nr_worker_result (normalize_host_receipt env job answer materials) = r"
  shows "wr_execution_id r = wj_execution_id job \<and> validate_worker_model r = Inr r \<and>
    (\<exists>a b c. utf8_length (wr_stdout r) = Inr a \<and> utf8_length (wr_stderr r) = Inr b \<and> utf8_length (wr_network_log r) = Inr c \<and>
       a + b + c \<le> wl_stdout_bytes (wj_limits job) + wl_stderr_bytes (wj_limits job))"
proof -
  let ?failed = "\<lambda>e. contract_failed_worker_result env job e"
  have pos: "1024 \<le> wl_stdout_bytes (wj_limits job)" "1024 \<le> wl_stderr_bytes (wj_limits job)"
    using assms(1) by (auto simp: valid_limits_def)
  consider w where "validate_worker_result job answer = Inr w" "redact_worker_result env w materials job = Inr r"
    | e where "r = ?failed e" "e = u ''worker result contract validation failed'' \<or> e = u ''worker result redaction failed''"
    using r_def unfolding normalize_host_receipt_def by (auto split: sum.splits)
  then show ?thesis
  proof cases
    case 1
    have "wr_execution_id w = wj_execution_id job"
      using 1(1) by (auto simp: validate_worker_result_def split: option.splits sum.splits if_splits)
    then show ?thesis using redact_worker_result_bounded [OF 1(2) assms(1)] by auto
  next
    case 2
    note ok = contract_failed_ok [OF assms(1,2) 2(2)]
    have "wr_execution_id r = wj_execution_id job" "wr_stdout r = []" "wr_stderr r = e" "wr_network_log r = []"
      by (simp_all add: 2(1) contract_failed_worker_result_def)
    moreover have "utf8_length [] = Inr 0" by (simp add: utf8_length_def)
    moreover obtain b where "utf8_length e = Inr b" "b \<le> 1024" using ok(1) by blast
    ultimately show ?thesis using ok(2) pos 2(1) by auto
  qed
qed

theorem receipt_is_bounded_witness:
  "\<exists>r a b c. nr_worker_result (normalize_host_receipt sample_receipt_env sample_job (Some sample_worker_result) []) = r \<and>
     utf8_length (wr_stdout r) = Inr a \<and> utf8_length (wr_stderr r) = Inr b \<and> utf8_length (wr_network_log r) = Inr c \<and> a + b + c \<le> 2048"
proof -
  have "valid_limits (wj_limits sample_job)" "safe_runtime_identifier (wj_execution_id sample_job)"
    "wl_stdout_bytes (wj_limits sample_job) + wl_stderr_bytes (wj_limits sample_job) = 2048" by code_simp+
  then show ?thesis using receipt_is_bounded [of sample_job sample_receipt_env "Some sample_worker_result" "[]", OF _ _ refl] by auto
qed

text \<open>C34. A published success is earned: the Worker succeeded with complete output that was redacted, the adapter
  itself reported that result as a success, the trusted-execution check accepted it, the identity of the request is
  kept, and the published result is its redaction.\<close>

theorem projected_success_is_earned:
  assumes "project_tool_result env request tool receipt materials = Inr (r, identity_valid)" and "tr_success r"
    and w_def: "nr_worker_result receipt = w"
  shows "identity_valid \<and> wr_status w = SUCCEEDED \<and> \<not> wr_stdout_truncated w \<and> \<not> wr_stderr_truncated w \<and>
    \<not> nr_redaction_failed receipt \<and>
    (\<exists>c. ta_interpret tool request w = Inr (Some c) \<and> tr_success c \<and>
       ta_validate_trusted_execution tool request c w (nr_network_log_trusted receipt) = Inr () \<and>
       redact_tool_result env c materials = Inr r)"
proof -
  obtain candidate by_adapter r1 i1 v1 r2 i2 i3 v3 where
    c: "interpret_worker_result env request tool w (nr_redaction_failed receipt) = Inr (candidate, by_adapter)" and
    one: "validated_result_or_failure env request candidate = (r1, i1, v1)" and
    two: "validate_trusted_result env request tool w (checked_against_worker env request w (by_adapter \<and> v1) r1)
      (nr_network_log_trusted receipt) = Inr (r2, i2)" and
    three: "validated_result_or_failure env request (Some (redacted_or_failed env request r2 materials)) = (r, i3, v3)" and
    i: "identity_valid = ((i1 \<and> i2) \<and> i3)"
    using assms(1) unfolding project_tool_result_def Let_def w_def by (auto split: sum.splits prod.splits)
  have r3: "redacted_or_failed env request r2 materials = r" "i3"
    using validated_or_failure_contract [OF three] assms(2) by auto
  then have red: "redact_tool_result env r2 materials = Inr r"
    using assms(2) by (auto simp: redacted_or_failed_def split: sum.splits)
  then have s2: "tr_success r2" using redact_tool_success assms(2) by blast
  note t = trusted_success [OF two s2]
  then have "tr_success (checked_against_worker env request w (by_adapter \<and> v1) r1)" using s2 by simp
  note k = checked_success [OF this]
  then have r1: "candidate = Some r1" "i1" using validated_or_failure_contract [OF one] by auto
  show ?thesis using interpret_success [OF c [unfolded r1(1)]] t k r1 red r3 i by auto
qed

theorem projected_success_is_earned_witness:
  "\<exists>r. project_tool_result sample_receipt_env sample_tool_request sample_adapter
      (normalize_host_receipt sample_receipt_env sample_job (Some sample_worker_result) []) [] = Inr (r, True) \<and> tr_success r \<and>
    ta_interpret sample_adapter sample_tool_request
      (nr_worker_result (normalize_host_receipt sample_receipt_env sample_job (Some sample_worker_result) [])) \<noteq> Inr None"
proof -
  let ?n = "normalize_host_receipt sample_receipt_env sample_job (Some sample_worker_result) []"
  have p: "case project_tool_result sample_receipt_env sample_tool_request sample_adapter ?n [] of Inl _ \<Rightarrow> False | Inr (r, i) \<Rightarrow> tr_success r"
    by code_simp
  then obtain r i where r: "project_tool_result sample_receipt_env sample_tool_request sample_adapter ?n [] = Inr (r, i)" "tr_success r"
    by (auto split: sum.splits)
  show ?thesis using projected_success_is_earned [OF r refl] r by auto
qed

text \<open>C36. Every projected result keeps the contract of a Tool result, success or failure: the identity of its request,
  ordered timestamps, no evidence of the adapter's own, an error exactly when it failed, and then not a blank one, and
  strict JSON of at most ten million bytes unless it is a failure without data.\<close>

theorem projection_meets_contract:
  assumes "project_tool_result env request tool receipt materials = Inr (r, identity_valid)"
  shows "result_contract env request r"
  using assms validated_or_failure_contract unfolding project_tool_result_def Let_def
  by (auto split: sum.splits prod.splits)

theorem projection_meets_contract_witness:
  "\<exists>r i. project_tool_result sample_receipt_env sample_tool_request sample_adapter
      (normalize_host_receipt sample_receipt_env sample_job None []) [] = Inr (r, i) \<and> result_contract sample_receipt_env sample_tool_request r \<and> \<not> tr_success r"
proof -
  let ?n = "normalize_host_receipt sample_receipt_env sample_job None []"
  have "case project_tool_result sample_receipt_env sample_tool_request sample_adapter ?n [] of Inl _ \<Rightarrow> False | Inr (r, i) \<Rightarrow> \<not> tr_success r"
    by code_simp
  then obtain r i where r: "project_tool_result sample_receipt_env sample_tool_request sample_adapter ?n [] = Inr (r, i)" "\<not> tr_success r"
    by (auto split: sum.splits)
  show ?thesis using projection_meets_contract [OF r(1)] r by blast
qed

end
