(* ===== verification/Tool_Gateway.thy ===== *)
theory Tool_Gateway
  imports Result_Calls Execution_Receipts Rate_Limits
begin

text \<open>
  The single boundary of every tool invocation, \<open>ToolGateway.execute\<close> of \<^verbatim>\<open>src/src/pajin/tools/gateway.py\<close>,
  with the registry of \<^verbatim>\<open>src/src/pajin/tools/base.py\<close>. The state holds the audit log and the artifacts of the
  Run, the rate-limit ledger and the secret broker; it also records every call of the Worker backend.
  A call of the Run store may fail at any point, before or after its effect: \<open>ge_store\<close> says how the n-th
  one ends. The Worker, the adapters, the dispatch guard, the clocks and the identifiers of \<open>uuid4\<close> are
  fields of the environment.
\<close>

section \<open>The tool registry\<close>

definition valid_tool_spec :: "tool_spec \<Rightarrow> bool" where
  "valid_tool_spec t = (1 \<le> tool_network_request_cost t \<and> tool_network_request_cost t \<le> 100)"

definition snapshot_spec :: "tool_adapter \<Rightarrow> tool_spec result" where
  "snapshot_spec tool =
     (case ta_spec tool of
        Some t \<Rightarrow> if valid_tool_spec t then Inr t else Inl (ValueError ''tool does not expose a valid PAJIN ToolSpec'')
      | None \<Rightarrow> Inl (ValueError ''tool does not expose a valid PAJIN ToolSpec''))"

record tool_registry =
  reg_tools :: "(string, tool_adapter) dict"
  reg_specs :: "(string, tool_spec) dict"

definition registry_register :: "tool_registry \<Rightarrow> tool_adapter \<Rightarrow> unit result \<times> tool_registry" where
  "registry_register R tool =
     (case snapshot_spec tool of
        Inl e \<Rightarrow> (Inl e, R)
      | Inr t \<Rightarrow>
          (if dict_get (reg_tools R) (tool_id t) \<noteq> None
           then (Inl (ValueError (''tool already registered: '' @ tool_id t)), R)
           else (Inr (), \<lparr>reg_tools = dict_set (tool_id t) tool (reg_tools R),
                          reg_specs = dict_set (tool_id t) t (reg_specs R)\<rparr>)))"

definition registry_get :: "tool_registry \<Rightarrow> string \<Rightarrow> tool_adapter result" where
  "registry_get R i =
     (case dict_get (reg_tools R) i of None \<Rightarrow> Inl (KeyError (''unknown tool: '' @ i)) | Some tool \<Rightarrow> Inr tool)"

definition registry_spec :: "tool_registry \<Rightarrow> string \<Rightarrow> tool_spec result" where
  "registry_spec R i =
     (case registry_get R i of
        Inl e \<Rightarrow> Inl e
      | Inr _ \<Rightarrow> (case dict_get (reg_specs R) i of None \<Rightarrow> Inl (KeyError i) | Some t \<Rightarrow> Inr t))"

definition registry_tool :: "tool_registry \<Rightarrow> string \<Rightarrow> tool_adapter result" where
  "registry_tool R i =
     (case registry_get R i of
        Inl e \<Rightarrow> Inl e
      | Inr tool \<Rightarrow>
          (case snapshot_spec tool of
             Inl e \<Rightarrow> Inl e
           | Inr t \<Rightarrow>
               (if dict_get (reg_specs R) i \<noteq> Some t
                then Inl (RuntimeError (''registered tool contract changed after registration: '' @ i)) else Inr tool)))"

section \<open>State and environment\<close>

record job_metadata =
  jm_request_id :: string
  jm_execution_id :: string
  jm_image :: string
  jm_command :: "ustr list"
  jm_network :: network_mode
  jm_egress_policy :: "egress_policy option"
  jm_limits :: worker_limits
  jm_stdin_bytes :: nat
  jm_stdin_sha256 :: string
  jm_secret_requests :: "(string \<times> string \<times> int) list"

record evidence =
  ev_request :: tool_request
  ev_decision :: policy_decision
  ev_result :: tool_result
  ev_network_log_trusted :: bool
  ev_worker_job :: "job_metadata option"
  ev_worker_result :: "worker_result option"
  ev_secret_leases :: "secret_lease list"

datatype artifact = ReservationFile string string | EvidenceFile evidence

datatype audit_event =
    RequestReserved string string string
  | RequestInvalid
  | PolicyEvaluated string string policy_decision
  | PreparationFailed string string "ustr option"
  | SecretLeaseFailed string string "ustr option"
  | RateReservationReleased string string int string
  | SecretLeaseIssued string "string option" string string instant
  | SecretLeaseRevoked string "string option" string "string option"
  | WorkerDispatched job_metadata "string list"
  | WorkerCancelled string string nat bool
  | WorkerCleanupFailed string string
  | WorkerCompleted string string string worker_status "int option" bool bool
  | ToolCompleted string string string
  | ToolFailed string string string

datatype store_outcome = StoreOk | StoreFails bool exn

record worker_run =
  run_request :: tool_request
  run_job :: worker_job
  run_materials :: "secret_material list"

record gateway_state =
  gs_events :: "audit_event list"
  gs_files :: "(string, artifact) dict"
  gs_rates :: rate_ledger
  gs_broker :: secret_broker
  gs_runs :: "worker_run list"
  gs_store_calls :: nat
  gs_uuids :: nat

record gateway_env =
  ge_policy :: policy_env
  ge_receipt :: receipt_env
  ge_tools :: tool_registry
  ge_store :: "nat \<Rightarrow> store_outcome"
  ge_clock :: now_argument
  ge_broker_clock :: "nat \<Rightarrow> instant"
  ge_uuid :: "nat \<Rightarrow> string"
  ge_guard :: "(nat \<Rightarrow> unit result) option"
  ge_worker :: "worker_job \<Rightarrow> secret_material list \<Rightarrow> worker_result option result"
  ge_cancelling :: "nat \<Rightarrow> bool"
  ge_dispatch_started :: instant
  ge_run_id :: string
  ge_allow_secret_requests :: bool

type_synonym 'a gateway_call = "(gateway_state, 'a) call"

record gateway_outcome =
  go_decision :: policy_decision
  go_result :: tool_result
  go_worker_result :: "worker_result option"
  go_network_log_trusted :: bool
  go_result_identity_valid :: bool
  go_executed :: bool

record preflight_approval =
  pa_campaign :: campaign_manifest
  pa_request :: tool_request
  pa_tool :: tool_adapter
  pa_spec :: tool_spec
  pa_decision :: policy_decision
  pa_job :: worker_job
  pa_job_metadata :: job_metadata
  pa_request_cost :: int
  pa_rate_reservation :: "rate_reservation option"

record secret_execution_scope =
  ss_leases :: "secret_lease list"
  ss_materials :: "secret_material list"

section \<open>The Run store\<close>

definition store_call :: "gateway_env \<Rightarrow> (gateway_state \<Rightarrow> gateway_state) \<Rightarrow> unit gateway_call" where
  "store_call env effect s =
     (let s1 = s\<lparr>gs_store_calls := Suc (gs_store_calls s)\<rparr> in
      case ge_store env (gs_store_calls s) of
        StoreOk \<Rightarrow> (Inr (), effect s1)
      | StoreFails landed e \<Rightarrow> (Inl e, if landed then effect s1 else s1))"

definition append_event :: "gateway_env \<Rightarrow> audit_event \<Rightarrow> unit gateway_call" where
  "append_event env e = store_call env (\<lambda>s. s\<lparr>gs_events := gs_events s @ [e]\<rparr>)"

definition write_json_create_only :: "gateway_env \<Rightarrow> string \<Rightarrow> artifact \<Rightarrow> string gateway_call" where
  "write_json_create_only env path content s =
     (if dict_get (gs_files s) path \<noteq> None
      then call_bind (store_call env (\<lambda>s. s)) (\<lambda>_. call_raise FileExistsError) s
      else call_bind (store_call env (\<lambda>s. s\<lparr>gs_files := dict_set path content (gs_files s)\<rparr>)) (\<lambda>_. call_return path) s)"

definition artifact_exists :: "gateway_env \<Rightarrow> string \<Rightarrow> bool gateway_call" where
  "artifact_exists env path s =
     call_bind (store_call env (\<lambda>s. s)) (\<lambda>_. call_return (dict_get (gs_files s) path \<noteq> None)) s"

definition reservation_path :: "string \<Rightarrow> string" where
  "reservation_path i = ''requests/'' @ i @ ''.json''"

definition evidence_path :: "string \<Rightarrow> string" where
  "evidence_path i = ''evidence/'' @ i @ ''.json''"

section \<open>Canonical requests\<close>

fun jv_of_json :: "json \<Rightarrow> jv" where
  "jv_of_json JNull = JvNull"
| "jv_of_json (JBool b) = JvBool b"
| "jv_of_json (JInt i) = JvInt i"
| "jv_of_json (JFloat x) = JvFloat x"
| "jv_of_json (JStr s) = JvStr (u s)"
| "jv_of_json (JList xs) = JvList (map jv_of_json xs)"
| "jv_of_json (JObj kvs) = JvObj (map (\<lambda>(k, v). (u k, jv_of_json v)) kvs)"

text \<open>\<open>value.upper()\<close> on Latin-1 texts; the two letters whose capital is outside Latin-1 keep their form.\<close>

definition upper_latin :: "char \<Rightarrow> string" where
  "upper_latin c = (let n = (of_char c :: nat) in
     if (97 \<le> n \<and> n \<le> 122) \<or> (224 \<le> n \<and> n \<le> 254 \<and> n \<noteq> 247) then [char_of (n - 32)]
     else if n = 223 then ''SS'' else [c])"

text \<open>\<open>ToolRequest.model_validate\<close>.\<close>

definition validate_tool_request :: "tool_request \<Rightarrow> tool_request result" where
  "validate_tool_request r =
     (if safe_portable_identifier (request_id r) \<and> safe_runtime_identifier (request_agent_id r) \<and>
         safe_runtime_identifier (request_tool_id r) \<and> 1 \<le> length (request_target r) \<and> length (request_target r) \<le> 2000 \<and>
         (case request_arguments r of JObj _ \<Rightarrow> True | _ \<Rightarrow> False)
      then Inr (r\<lparr>request_method := concat (map upper_latin (request_method r))\<rparr>) else Inl ValidationError)"

definition request_payload :: "tool_request \<Rightarrow> jv" where
  "request_payload r =
     JvObj [(u ''request_id'', JvStr (u (request_id r))), (u ''agent_id'', JvStr (u (request_agent_id r))),
            (u ''tool_id'', JvStr (u (request_tool_id r))), (u ''target'', JvStr (u (request_target r))),
            (u ''method'', JvStr (u (request_method r))), (u ''arguments'', jv_of_json (request_arguments r))]"

definition canonical_tool_request_with_digest :: "gateway_env \<Rightarrow> tool_request \<Rightarrow> (tool_request \<times> string) result" where
  "canonical_tool_request_with_digest env request =
     (case validate_tool_request request of
        Inl _ \<Rightarrow> Inl ToolRequestCanonicalizationError
      | Inr canonical \<Rightarrow>
          (case validate_strict_json (request_payload canonical) ''Tool request'' of
             Inl _ \<Rightarrow> Inl ToolRequestCanonicalizationError
           | Inr _ \<Rightarrow>
               (case canonical_json_bytes (re_float_repr (ge_receipt env)) (request_payload canonical) ''Tool request'' None of
                  Inl _ \<Rightarrow> Inl ToolRequestCanonicalizationError
                | Inr encoded \<Rightarrow>
                    (if length encoded > 10000000 then Inl ToolRequestCanonicalizationError
                     else Inr (canonical, sha256_hex encoded)))))"

section \<open>Evidence and denials\<close>

fun fingerprints :: "worker_secret_request list \<Rightarrow> (string \<times> string \<times> int) list result" where
  "fingerprints [] = Inr []"
| "fingerprints (x # xs) =
     (case secret_fingerprint (ws_secret_ref x) of
        Inl e \<Rightarrow> Inl e
      | Inr fp \<Rightarrow> map_sum id ((#) (ws_binding x, fp, ws_ttl_seconds x)) (fingerprints xs))"

definition safe_job_metadata :: "tool_request \<Rightarrow> worker_job \<Rightarrow> job_metadata result" where
  "safe_job_metadata request job =
     (case utf8_encode (wj_stdin job) of
        None \<Rightarrow> Inl UnicodeEncodeError
      | Some stdin_bytes \<Rightarrow>
          (case fingerprints (wj_secret_requests job) of
             Inl e \<Rightarrow> Inl e
           | Inr secret_requests \<Rightarrow>
               Inr \<lparr>jm_request_id = request_id request, jm_execution_id = wj_execution_id job, jm_image = wj_image job,
                    jm_command = wj_command job, jm_network = wj_network job, jm_egress_policy = wj_egress_policy job,
                    jm_limits = wj_limits job, jm_stdin_bytes = length stdin_bytes,
                    jm_stdin_sha256 = sha256_hex stdin_bytes, jm_secret_requests = secret_requests\<rparr>))"

definition write_evidence ::
  "gateway_env \<Rightarrow> tool_request \<Rightarrow> policy_decision \<Rightarrow> tool_result \<Rightarrow> worker_job option \<Rightarrow> worker_result option \<Rightarrow>
   secret_lease list \<Rightarrow> string gateway_call" where
  "write_evidence env request decision r job w leases =
     call_bind (call_lift (case job of None \<Rightarrow> Inr None | Some j \<Rightarrow> map_sum id Some (safe_job_metadata request j)))
       (\<lambda>metadata. if CHR ''/'' \<in> set (request_id request)
          then call_raise (ValueError ''Tool evidence destination must be a direct evidence child'')
          else write_json_create_only env (evidence_path (request_id request))
          (EvidenceFile \<lparr>ev_request = request, ev_decision = decision, ev_result = r,
             ev_network_log_trusted = host_network_log_is_trusted (ge_receipt env) job w,
             ev_worker_job = metadata, ev_worker_result = w, ev_secret_leases = leases\<rparr>))"

definition record_policy :: "gateway_env \<Rightarrow> tool_request \<Rightarrow> policy_decision \<Rightarrow> unit gateway_call" where
  "record_policy env request decision =
     append_event env (PolicyEvaluated (request_id request) (request_tool_id request) decision)"

definition rejected_outcome :: "policy_decision \<Rightarrow> tool_result \<Rightarrow> gateway_outcome" where
  "rejected_outcome decision r =
     \<lparr>go_decision = decision, go_result = r, go_worker_result = None, go_network_log_trusted = False,
      go_result_identity_valid = True, go_executed = False\<rparr>"

definition policy_denied :: "gateway_env \<Rightarrow> tool_request \<Rightarrow> policy_decision \<Rightarrow> tool_result" where
  "policy_denied env request decision =
     failed_tool_result (ge_receipt env) request (u (''policy denied: '' @ decision_reason decision))"

text \<open>\<open>_deny\<close>; no caller passes \<open>policy_recorded\<close>.\<close>

definition deny_request :: "gateway_env \<Rightarrow> tool_request \<Rightarrow> policy_decision \<Rightarrow> gateway_outcome gateway_call" where
  "deny_request env request decision =
     call_bind (record_policy env request decision) (\<lambda>_.
     (let r = policy_denied env request decision in
      call_bind (write_evidence env request decision r None None []) (\<lambda>path.
      call_bind (append_event env (ToolFailed (request_id request) (request_tool_id request) path)) (\<lambda>_.
      call_return (rejected_outcome decision (r\<lparr>tr_evidence := tr_evidence r @ [path]\<rparr>))))))"

definition reject_duplicate_request :: "gateway_env \<Rightarrow> tool_request \<Rightarrow> gateway_outcome" where
  "reject_duplicate_request env request =
     (let decision = deny ''canonical Tool request identifier is already reserved in this Run'' ''request-id'' in
      rejected_outcome decision (policy_denied env request decision))"

definition invalid_request :: tool_request where
  "invalid_request =
     \<lparr>request_id = ''tool_invalid_request'', request_agent_id = ''gateway:request-validation'',
      request_tool_id = ''gateway.invalid-request'', request_target = ''invalid-request'', request_method = ''GET'',
      request_arguments = JObj []\<rparr>"

definition reject_invalid_request :: "gateway_env \<Rightarrow> exn \<Rightarrow> gateway_outcome gateway_call" where
  "reject_invalid_request env error =
     (let decision = deny (''Tool request contract is invalid; '' @
            audit_safe_exception_diagnostic error ''tool-request-validation'') ''request-contract'' in
      call_bind (append_event env RequestInvalid) (\<lambda>_.
      call_return (rejected_outcome decision (policy_denied env invalid_request decision))))"

definition fail_before_dispatch ::
  "gateway_env \<Rightarrow> tool_request \<Rightarrow> policy_decision \<Rightarrow> bool \<Rightarrow> string \<Rightarrow> worker_job option \<Rightarrow> gateway_outcome gateway_call" where
  "fail_before_dispatch env request decision lease_failure error job =
     (let failed = failed_tool_result (ge_receipt env) request (u error) in
      call_bind (append_event env ((if lease_failure then SecretLeaseFailed else PreparationFailed)
         (request_id request) (request_tool_id request) (tr_error failed))) (\<lambda>_.
      call_bind (write_evidence env request decision failed job None []) (\<lambda>path.
      call_bind (append_event env (ToolFailed (request_id request) (request_tool_id request) path)) (\<lambda>_.
      call_return (rejected_outcome decision (failed\<lparr>tr_evidence := [path]\<rparr>))))))"

section \<open>Preflight\<close>

definition reserve_request :: "gateway_env \<Rightarrow> tool_request \<Rightarrow> string \<Rightarrow> gateway_outcome option gateway_call" where
  "reserve_request env request digest =
     (let path = reservation_path (request_id request) in
      call_bind
        (call_catch
          (call_bind (write_json_create_only env path (ReservationFile (request_id request) digest)) (\<lambda>_. call_return False))
          (\<lambda>e. e = FileExistsError) (\<lambda>_. call_return True))
        (\<lambda>duplicate.
          if duplicate then call_return (Some (reject_duplicate_request env request))
          else call_bind (artifact_exists env (evidence_path (request_id request))) (\<lambda>present.
            if present then call_return (Some (reject_duplicate_request env request))
            else call_bind (append_event env (RequestReserved (request_id request) digest path)) (\<lambda>_. call_return None))))"

text \<open>The re-validation of the campaign and the grant: an object that is no valid model is \<open>None\<close>.\<close>

definition canonical_authority_inputs ::
  "gateway_env \<Rightarrow> campaign_manifest option \<Rightarrow> capability_grant option \<Rightarrow> tool_request \<Rightarrow> py_num \<Rightarrow>
   (gateway_outcome + campaign_manifest \<times> capability_grant \<times> tool_request) gateway_call" where
  "canonical_authority_inputs env c g request used =
     (case (c, g) of
        (Some c', Some g') \<Rightarrow>
          (case used of
             PyInt n \<Rightarrow>
               (if n < 0
                then call_bind (deny_request env request
                  (deny ''used Tool-call count must be a non-negative integer'' ''usage-contract'')) (\<lambda>out. call_return (Inl out))
                else call_return (Inr (c', g', request)))
           | _ \<Rightarrow> call_bind (deny_request env request
               (deny ''used Tool-call count must be a non-negative integer'' ''usage-contract'')) (\<lambda>out. call_return (Inl out)))
      | _ \<Rightarrow> call_bind (deny_request env request
          (deny ''campaign or capability authority contract is invalid'' ''authority-contract'')) (\<lambda>out. call_return (Inl out)))"

definition canonical_inputs ::
  "gateway_env \<Rightarrow> campaign_manifest option \<Rightarrow> capability_grant option \<Rightarrow> tool_request \<Rightarrow> py_num \<Rightarrow>
   (gateway_outcome + campaign_manifest \<times> capability_grant \<times> tool_request) gateway_call" where
  "canonical_inputs env c g request used =
     (case canonical_tool_request_with_digest env request of
        Inl e \<Rightarrow> call_bind (reject_invalid_request env e) (\<lambda>out. call_return (Inl out))
      | Inr (canonical, digest) \<Rightarrow>
          call_bind (reserve_request env canonical digest) (\<lambda>duplicate.
            case duplicate of
              Some out \<Rightarrow> call_return (Inl out)
            | None \<Rightarrow> canonical_authority_inputs env c g canonical used))"

definition resolve_tool ::
  "gateway_env \<Rightarrow> tool_request \<Rightarrow> (gateway_outcome + tool_adapter \<times> tool_spec) gateway_call" where
  "resolve_tool env request =
     (case (registry_tool (ge_tools env) (request_tool_id request), registry_spec (ge_tools env) (request_tool_id request)) of
        (Inr tool, Inr t) \<Rightarrow>
          (if \<not> valid_tool_spec t
           then call_bind (deny_request env request
             (deny ''tool is not registered with a valid PAJIN Tool contract'' ''tool-registry'')) (\<lambda>out. call_return (Inl out))
           else if tool_id t \<noteq> request_tool_id request
           then call_bind (deny_request env request
             (deny ''registered Tool identity differs from the requested Tool'' ''tool-registry'')) (\<lambda>out. call_return (Inl out))
           else call_return (Inr (tool, t)))
      | _ \<Rightarrow> call_bind (deny_request env request
          (deny ''tool is not registered with a valid PAJIN Tool contract'' ''tool-registry'')) (\<lambda>out. call_return (Inl out)))"

text \<open>\<open>_network_request_cost\<close>: \<open>Inr None\<close> for a cost that is refused.\<close>

definition network_request_cost :: "tool_adapter \<Rightarrow> tool_spec \<Rightarrow> tool_request \<Rightarrow> int option result" where
  "network_request_cost tool t request =
     (case ta_network_request_cost tool request of
        Inl e \<Rightarrow> if is_exception e then Inr None else Inl e
      | Inr (PyInt n) \<Rightarrow> Inr (if tool_network_request_cost t \<le> n \<and> n \<le> 100 then Some n else None)
      | Inr _ \<Rightarrow> Inr None)"

definition evaluate_policy ::
  "gateway_env \<Rightarrow> campaign_manifest \<Rightarrow> capability_grant \<Rightarrow> tool_request \<Rightarrow> tool_adapter \<Rightarrow> tool_spec \<Rightarrow> py_num \<Rightarrow>
   (gateway_outcome + policy_decision \<times> int \<times> instant) gateway_call" where
  "evaluate_policy env c g request tool t used =
     (case normalized_time (ge_clock env) of
        Inl _ \<Rightarrow> call_bind (deny_request env request (deny ''policy evaluation failed closed'' ''policy-engine''))
                 (\<lambda>out. call_return (Inl out))
      | Inr evaluated_at \<Rightarrow>
          (let decision = evaluate_tool_request (ge_policy env) (Some c) (Some g) (Some request) (Some t) used
                 (NowDatetime (utc_datetime evaluated_at)) in
           if \<not> allowed decision then call_bind (deny_request env request decision) (\<lambda>out. call_return (Inl out))
           else call_bind (call_lift (network_request_cost tool t request)) (\<lambda>cost.
             case cost of
               None \<Rightarrow> call_bind (deny_request env request
                 (deny ''tool request does not have a valid bounded network request cost'' ''tool-network-request-cost''))
                 (\<lambda>out. call_return (Inl out))
             | Some n \<Rightarrow> call_return (Inr (decision, n, evaluated_at)))))"

text \<open>\<open>_guard_worker_dispatch\<close>, at its k-th call.\<close>

definition guard_worker_dispatch :: "gateway_env \<Rightarrow> nat \<Rightarrow> string option result" where
  "guard_worker_dispatch env k =
     (case ge_guard env of
        None \<Rightarrow> Inr None
      | Some guard \<Rightarrow>
          (case guard k of
             Inr _ \<Rightarrow> Inr None
           | Inl e \<Rightarrow>
               (if is_exception e
                then Inr (Some (''tool preparation failed; '' @ audit_safe_exception_diagnostic e ''worker-dispatch-guard''))
                else Inl e)))"

definition ascii_text :: "ustr \<Rightarrow> string" where
  "ascii_text s = map char_of s"

fun normalize_rules :: "unicode_db \<Rightarrow> string list \<Rightarrow> ustr list result" where
  "normalize_rules db [] = Inr []"
| "normalize_rules db (rule # rules) =
     (case normalize_scope_pattern db (u rule) of
        Inl e \<Rightarrow> Inl e | Inr n \<Rightarrow> map_sum id ((#) n) (normalize_rules db rules))"

text \<open>The exact egress rules of a CONNECT request.\<close>

definition connect_rules :: "unicode_db \<Rightarrow> campaign_manifest \<Rightarrow> tool_request \<Rightarrow> (string list \<times> string list) result" where
  "connect_rules db c request =
     (if ''CONNECT'' \<notin> allowed_methods (spec_rules_of_engagement (campaign_spec c))
      then Inl (ValueError ''CONNECT egress requires reviewed Campaign authority'')
      else case normalize_target_url db (u (request_target request)) of
        Inl e \<Rightarrow> Inl e
      | Inr normalized \<Rightarrow>
          (case urlsplit db normalized of
             Inl e \<Rightarrow> Inl e
           | Inr target \<Rightarrow>
               (if sp_scheme target \<noteq> u ''https'' \<or> sp_netloc target = [] \<or> sp_path target \<noteq> u ''/'' \<or>
                   sp_query target \<noteq> [] \<or> sp_fragment target \<noteq> []
                then Inl (ValueError ''CONNECT egress requires one exact HTTPS authority'')
                else let exact_rule = u ''https://'' @ sp_netloc target @ u ''/**'' in
                  case normalize_rules db (scope_allow (spec_scope (campaign_spec c))) of
                    Inl e \<Rightarrow> Inl e
                  | Inr normalized_allow \<Rightarrow>
                      (case normalize_rules db (scope_deny (spec_scope (campaign_spec c))) of
                         Inl e \<Rightarrow> Inl e
                       | Inr normalized_deny \<Rightarrow>
                           (if exact_rule \<notin> set normalized_allow
                            then Inl (ValueError ''CONNECT egress requires an exact host-wide Campaign allow rule'')
                            else case py_any (\<lambda>rule. map_sum id (\<lambda>p. sp_netloc p = sp_netloc target) (urlsplit db rule)) normalized_deny of
                              Inl e \<Rightarrow> Inl e
                            | Inr True \<Rightarrow> Inl (ValueError ''CONNECT egress authority overlaps a Campaign deny rule'')
                            | Inr False \<Rightarrow> Inr ([ascii_text exact_rule], []))))))"

definition grant_egress ::
  "gateway_env \<Rightarrow> campaign_manifest \<Rightarrow> worker_job \<Rightarrow> tool_request \<Rightarrow> int \<Rightarrow> int option \<Rightarrow> worker_job result" where
  "grant_egress env c job request request_cost response_byte_limit =
     (case (if request_method request = ''CONNECT'' then connect_rules (env_unicode (ge_policy env)) c request
            else Inr (scope_allow (spec_scope (campaign_spec c)), scope_deny (spec_scope (campaign_spec c)))) of
        Inl e \<Rightarrow> Inl e
      | Inr (allow_rules, deny_rules) \<Rightarrow>
          (case make_egress_policy
             \<lparr>ep_allow = allow_rules, ep_deny = deny_rules,
              ep_allowed_methods = allowed_methods (spec_rules_of_engagement (campaign_spec c)),
              ep_allow_private_networks = allow_private_networks (spec_rules_of_engagement (campaign_spec c)),
              ep_max_response_bytes = (case response_byte_limit of Some n \<Rightarrow> n | None \<Rightarrow> MAX_EGRESS_PROXY_RESPONSE_BYTES),
              ep_max_requests = request_cost, ep_max_request_bytes = request_byte_limit_override job\<rparr> of
             Inl e \<Rightarrow> Inl e
           | Inr policy \<Rightarrow>
               validate_worker_job (job\<lparr>wj_network := EGRESS_PROXY, wj_egress_policy := Some policy\<rparr>)))"

definition prepared_job :: "gateway_env \<Rightarrow> campaign_manifest \<Rightarrow> tool_request \<Rightarrow> tool_adapter \<Rightarrow> tool_spec \<Rightarrow> int \<Rightarrow> worker_job result" where
  "prepared_job env c request tool t request_cost =
     (case ta_prepare tool request of
        Inl e \<Rightarrow> Inl e
      | Inr None \<Rightarrow> Inl AttributeError
      | Inr (Some raw) \<Rightarrow>
          (case validate_worker_job raw of
             Inl e \<Rightarrow> Inl e
           | Inr job \<Rightarrow>
               (if wj_secret_requests job \<noteq> [] \<and> \<not> ge_allow_secret_requests env
                then Inl (ValueError ''this Tool Gateway execution forbids Secret Lease requests'')
                else if wj_network job \<noteq> NETWORK_NONE \<or> wj_egress_policy job \<noteq> None
                then Inl (ValueError ''Tool Adapter cannot grant itself network access'')
                else if tool_network_access t
                then (case ta_network_response_byte_limit tool request of
                        Inl e \<Rightarrow> Inl e
                      | Inr response_limit \<Rightarrow> grant_egress env c job request request_cost response_limit)
                else Inr job)))"

text \<open>\<open>_prepare_job\<close>: \<open>Inl\<close> of a text is a failure the gateway reports.\<close>

definition prepare_job ::
  "gateway_env \<Rightarrow> campaign_manifest \<Rightarrow> tool_request \<Rightarrow> tool_adapter \<Rightarrow> tool_spec \<Rightarrow> int \<Rightarrow> (string + worker_job \<times> job_metadata) result" where
  "prepare_job env c request tool t request_cost =
     (case (case prepared_job env c request tool t request_cost of
              Inl e \<Rightarrow> Inl e | Inr job \<Rightarrow> map_sum id (\<lambda>metadata. (job, metadata)) (safe_job_metadata request job)) of
        Inr p \<Rightarrow> Inr (Inr p)
      | Inl e \<Rightarrow>
          (if is_exception e
           then Inr (Inl (''tool preparation failed; '' @ audit_safe_exception_diagnostic e ''tool-preparation''))
           else Inl e))"

definition fresh_uuid :: "gateway_env \<Rightarrow> nat gateway_call" where
  "fresh_uuid env s = (Inr (gs_uuids s), s\<lparr>gs_uuids := Suc (gs_uuids s)\<rparr>)"

definition on_rates :: "(rate_ledger \<Rightarrow> 'a result \<times> rate_ledger) \<Rightarrow> 'a gateway_call" where
  "on_rates f s = (case f (gs_rates s) of (r, L) \<Rightarrow> (r, s\<lparr>gs_rates := L\<rparr>))"

definition on_broker :: "(secret_broker \<Rightarrow> 'a result \<times> secret_broker) \<Rightarrow> 'a gateway_call" where
  "on_broker f s = (case f (gs_broker s) of (r, B) \<Rightarrow> (r, s\<lparr>gs_broker := B\<rparr>))"

definition reserve_dispatch ::
  "gateway_env \<Rightarrow> campaign_manifest \<Rightarrow> instant \<Rightarrow> int \<Rightarrow> (policy_decision option \<times> rate_reservation option) gateway_call" where
  "reserve_dispatch env c evaluated_at request_cost =
     call_bind (fresh_uuid env) (\<lambda>n.
     call_catch
       (on_rates (\<lambda>L. reserve_for_dispatch L c (NowDatetime (utc_datetime evaluated_at)) (PyInt request_cost) (ge_uuid env n)))
       is_exception
       (\<lambda>_. call_return (Some (deny ''campaign rate-limit authority failed closed'' ''rate-limit''), None)))"

definition release_if :: "rate_reservation option \<Rightarrow> unit gateway_call" where
  "release_if reservation = (case reservation of None \<Rightarrow> call_return () | Some r \<Rightarrow> on_rates (\<lambda>L. rate_release L r))"

text \<open>The end of \<open>_preflight\<close>: the rate-limit units are reserved and the decision is recorded.\<close>

definition approve_dispatch ::
  "gateway_env \<Rightarrow> campaign_manifest \<Rightarrow> tool_request \<Rightarrow> tool_adapter \<Rightarrow> tool_spec \<Rightarrow> policy_decision \<Rightarrow> int \<Rightarrow> instant \<Rightarrow>
   worker_job \<Rightarrow> job_metadata \<Rightarrow> (gateway_outcome + preflight_approval) gateway_call" where
  "approve_dispatch env c request tool t decision request_cost evaluated_at job metadata =
     call_bind (reserve_dispatch env c evaluated_at request_cost) (\<lambda>(denial, reservation).
     case denial of
       Some d \<Rightarrow> call_bind (deny_request env request d) (\<lambda>out. call_return (Inl out))
     | None \<Rightarrow>
       call_bind
         (call_catch (record_policy env request decision) (\<lambda>_. True)
           (\<lambda>e. call_bind (release_if reservation) (\<lambda>_. call_raise e)))
         (\<lambda>_. call_return (Inr
            \<lparr>pa_campaign = c, pa_request = request, pa_tool = tool, pa_spec = t, pa_decision = decision,
             pa_job = job, pa_job_metadata = metadata, pa_request_cost = request_cost,
             pa_rate_reservation = reservation\<rparr>)))"

text \<open>The two returns of \<open>_preflight\<close> after a guard or a preparation that failed.\<close>

definition fail_preflight ::
  "gateway_env \<Rightarrow> tool_request \<Rightarrow> policy_decision \<Rightarrow> string \<Rightarrow> (gateway_outcome + preflight_approval) gateway_call" where
  "fail_preflight env request decision error =
     call_bind (record_policy env request decision) (\<lambda>_.
     call_bind (fail_before_dispatch env request decision False error None) (\<lambda>out. call_return (Inl out)))"

definition preflight_checked ::
  "gateway_env \<Rightarrow> campaign_manifest \<Rightarrow> capability_grant \<Rightarrow> tool_request \<Rightarrow> tool_adapter \<Rightarrow> tool_spec \<Rightarrow> py_num \<Rightarrow>
   (gateway_outcome + preflight_approval) gateway_call" where
  "preflight_checked env c g request tool t used =
     call_bind (evaluate_policy env c g request tool t used) (\<lambda>approved.
     case approved of
       Inl out \<Rightarrow> call_return (Inl out)
     | Inr (decision, request_cost, evaluated_at) \<Rightarrow>
       call_bind (call_lift (guard_worker_dispatch env 0)) (\<lambda>guard_failure.
       case guard_failure of
         Some error \<Rightarrow> fail_preflight env request decision error
       | None \<Rightarrow>
         call_bind (call_lift (prepare_job env c request tool t request_cost)) (\<lambda>prepared.
         case prepared of
           Inl error \<Rightarrow> fail_preflight env request decision error
         | Inr (job, metadata) \<Rightarrow>
             approve_dispatch env c request tool t decision request_cost evaluated_at job metadata)))"

definition gateway_preflight ::
  "gateway_env \<Rightarrow> campaign_manifest option \<Rightarrow> capability_grant option \<Rightarrow> tool_request \<Rightarrow> py_num \<Rightarrow>
   (gateway_outcome + preflight_approval) gateway_call" where
  "gateway_preflight env c g request used =
     call_bind (canonical_inputs env c g request used) (\<lambda>canonical.
     case canonical of
       Inl out \<Rightarrow> call_return (Inl out)
     | Inr (c', g', request') \<Rightarrow>
       call_bind (resolve_tool env request') (\<lambda>resolved.
       case resolved of
         Inl out \<Rightarrow> call_return (Inl out)
       | Inr (tool, t) \<Rightarrow> preflight_checked env c' g' request' tool t used))"

section \<open>Secrets\<close>

fun revoke_each :: "gateway_env \<Rightarrow> string \<Rightarrow> secret_lease list \<Rightarrow> gateway_state \<Rightarrow> (secret_lease list \<times> nat) \<times> gateway_state" where
  "revoke_each env reason [] s = (([], 0), s)"
| "revoke_each env reason (l # ls) s =
     (case revoke_lease (gs_broker s) (sl_id l) reason (Some (ge_run_id env)) of
        (Inl e, B) \<Rightarrow>
          (case revoke_each env reason ls (s\<lparr>gs_broker := B\<rparr>) of ((rs, failures), s') \<Rightarrow> ((rs, Suc failures), s'))
      | (Inr r, B) \<Rightarrow>
          (case revoke_each env reason ls (s\<lparr>gs_broker := B\<rparr>) of ((rs, failures), s') \<Rightarrow> ((r # rs, failures), s')))"

text \<open>The audit events of the revocations: \<open>Inl\<close> is an exception that is no \<open>Exception\<close>.\<close>

fun record_revoked :: "gateway_env \<Rightarrow> secret_lease list \<Rightarrow> nat gateway_call" where
  "record_revoked env [] s = (Inr 0, s)"
| "record_revoked env (l # ls) s =
     (case append_event env (SecretLeaseRevoked (sl_id l) (sl_scope l) (sl_binding l) (sl_revoked_reason l)) s of
        (Inr _, s') \<Rightarrow> record_revoked env ls s'
      | (Inl e, s') \<Rightarrow>
          (if is_exception e
           then (case record_revoked env ls s' of (r, s'') \<Rightarrow> (map_sum id Suc r, s''))
           else (Inl e, s')))"

definition revoke_leases :: "gateway_env \<Rightarrow> secret_lease list \<Rightarrow> string \<Rightarrow> secret_lease list gateway_call" where
  "revoke_leases env leases reason s =
     (case revoke_each env reason leases s of
        ((revoked, failures), s') \<Rightarrow>
          call_bind (record_revoked env revoked) (\<lambda>more.
            if failures + more > 0
            then call_raise (RuntimeError ''one or more Secret Lease cleanup operations failed'')
            else call_return revoked) s')"

definition issue_one ::
  "gateway_env \<Rightarrow> tool_request \<Rightarrow> worker_job \<Rightarrow> worker_secret_request \<Rightarrow> secret_lease gateway_call" where
  "issue_one env request job x =
     call_bind (fresh_uuid env) (\<lambda>n.
     on_broker (\<lambda>B. secret_issue B (ws_secret_ref x) (ge_uuid env n)
       (request_agent_id request @ '':'' @ wj_execution_id job) (ws_binding x) (Some (ge_run_id env)) (ws_ttl_seconds x) 1
       (ge_broker_clock env n)))"

definition materialize_one ::
  "gateway_env \<Rightarrow> tool_request \<Rightarrow> worker_job \<Rightarrow> secret_lease \<Rightarrow> secret_material gateway_call" where
  "materialize_one env request job l =
     call_bind (fresh_uuid env) (\<lambda>n.
     on_broker (\<lambda>B. materialize B (sl_id l) (request_agent_id request @ '':'' @ wj_execution_id job) (Some (ge_run_id env))
       (ge_broker_clock env n)))"

text \<open>The loop of \<open>_materialize_secrets\<close>; the leases issued so far are known also when it raises.\<close>

fun materialize_each ::
  "gateway_env \<Rightarrow> tool_request \<Rightarrow> worker_job \<Rightarrow> worker_secret_request list \<Rightarrow> secret_lease list \<Rightarrow> secret_material list \<Rightarrow>
   gateway_state \<Rightarrow> (secret_material list result \<times> secret_lease list) \<times> gateway_state" where
  "materialize_each env request job [] leases materials s = ((Inr materials, leases), s)"
| "materialize_each env request job (x # xs) leases materials s =
     (case issue_one env request job x s of
        (Inl e, s1) \<Rightarrow> ((Inl e, leases), s1)
      | (Inr l, s1) \<Rightarrow>
          (case append_event env (SecretLeaseIssued (sl_id l) (sl_scope l) (sl_binding l) (sl_fingerprint l) (sl_expires_at l)) s1 of
             (Inl e, s2) \<Rightarrow> ((Inl e, leases @ [l]), s2)
           | (Inr _, s2) \<Rightarrow>
               (case materialize_one env request job l s2 of
                  (Inl e, s3) \<Rightarrow> ((Inl e, leases @ [l]), s3)
                | (Inr m, s3) \<Rightarrow> materialize_each env request job xs (leases @ [l]) (materials @ [m]) s3)))"

definition materialize_secrets :: "gateway_env \<Rightarrow> tool_request \<Rightarrow> worker_job \<Rightarrow> secret_execution_scope gateway_call" where
  "materialize_secrets env request job s =
     (case materialize_each env request job (wj_secret_requests job) [] [] s of
        ((Inr materials, leases), s') \<Rightarrow> (Inr \<lparr>ss_leases = leases, ss_materials = materials\<rparr>, s')
      | ((Inl e, leases), s') \<Rightarrow>
          (if is_exception e
           then call_bind (revoke_leases env leases ''secret setup failed'') (\<lambda>_. call_raise e) s'
           else (Inl e, s')))"

definition release_rate_reservation :: "gateway_env \<Rightarrow> preflight_approval \<Rightarrow> string \<Rightarrow> unit gateway_call" where
  "release_rate_reservation env a reason =
     (case pa_rate_reservation a of
        None \<Rightarrow> call_return ()
      | Some r \<Rightarrow>
          call_bind (on_rates (\<lambda>L. rate_release L r)) (\<lambda>_.
          append_event env (RateReservationReleased (request_id (pa_request a)) (res_id r) (res_request_cost r) reason)))"

definition open_secret_scope ::
  "gateway_env \<Rightarrow> preflight_approval \<Rightarrow> (gateway_outcome + secret_execution_scope) gateway_call" where
  "open_secret_scope env a =
     call_catch
       (call_bind (materialize_secrets env (pa_request a) (pa_job a)) (\<lambda>scp. call_return (Inr scp)))
       is_exception
       (\<lambda>e. call_bind (release_rate_reservation env a ''secret-lease-failed'') (\<lambda>_.
            call_bind (fail_before_dispatch env (pa_request a) (pa_decision a) True
              (''secret lease failed; '' @ audit_safe_exception_diagnostic e ''secret-lease'') (Some (pa_job a)))
              (\<lambda>out. call_return (Inl out))))"

section \<open>Dispatch\<close>

definition cancel_before_dispatch :: "gateway_env \<Rightarrow> preflight_approval \<Rightarrow> secret_execution_scope \<Rightarrow> 'a gateway_call" where
  "cancel_before_dispatch env a scp =
     call_bind
       (call_finally (revoke_leases env (ss_leases scp) ''Worker dispatch cancelled before start'')
          (release_rate_reservation env a ''cancelled-before-dispatch''))
       (\<lambda>revoked. call_bind (append_event env
          (WorkerCancelled (request_id (pa_request a)) (wj_execution_id (pa_job a)) (length revoked) True))
          (\<lambda>_. call_raise CancelledError))"

definition worker_exception_result ::
  "gateway_env \<Rightarrow> worker_job \<Rightarrow> secret_material list \<Rightarrow> exn \<Rightarrow> worker_result result" where
  "worker_exception_result env job materials e =
     (case redact_text (re_order (ge_receipt env))
         (u (''worker backend failed; '' @ audit_safe_exception_diagnostic e ''worker-backend'')) materials of
        Inl f \<Rightarrow> Inl f
      | Inr diagnostic \<Rightarrow>
          (case bound_utf8 diagnostic (wl_stderr_bytes (wj_limits job)) of
             Inl f \<Rightarrow> Inl f
           | Inr (bounded, truncated) \<Rightarrow>
               validate_worker_model
                 \<lparr>wr_execution_id = wj_execution_id job, wr_backend = ''backend-error'', wr_status = WORKER_FAILED,
                  wr_failure_code = None, wr_exit_code = None, wr_stdout = [], wr_stderr = bounded, wr_network_log = [],
                  wr_stdout_truncated = False, wr_stderr_truncated = truncated,
                  wr_started_at = utc_datetime (ge_dispatch_started env), wr_finished_at = utc_datetime (re_now (ge_receipt env))\<rparr>))"

text \<open>The \<open>try\<close> of \<open>_run_worker\<close>: the last guard and the call of the backend, which is recorded.\<close>

definition worker_attempt ::
  "gateway_env \<Rightarrow> preflight_approval \<Rightarrow> secret_execution_scope \<Rightarrow> worker_result option gateway_call" where
  "worker_attempt env a scp s =
     (case guard_worker_dispatch env 2 of
        Inl e \<Rightarrow> (Inl e, s)
      | Inr (Some failure) \<Rightarrow> (Inl (RuntimeError failure), s)
      | Inr None \<Rightarrow>
          (ge_worker env (pa_job a) (ss_materials scp),
           s\<lparr>gs_runs := gs_runs s @ [\<lparr>run_request = pa_request a, run_job = pa_job a, run_materials = ss_materials scp\<rparr>]\<rparr>))"

definition worker_answer ::
  "gateway_env \<Rightarrow> preflight_approval \<Rightarrow> secret_execution_scope \<Rightarrow> worker_result option result \<Rightarrow> worker_result option gateway_call" where
  "worker_answer env a scp attempt =
     (case attempt of
        Inr answer \<Rightarrow> call_return answer
      | Inl e \<Rightarrow>
          (if e = CancelledError then call_raise e
           else if e = WorkerCleanupError
           then call_bind (append_event env (WorkerCleanupFailed (request_id (pa_request a)) (wj_execution_id (pa_job a))))
                  (\<lambda>_. call_raise e)
           else call_bind (call_lift (worker_exception_result env (pa_job a) (ss_materials scp) e)) (\<lambda>w. call_return (Some w))))"

definition worker_cleanup ::
  "gateway_env \<Rightarrow> preflight_approval \<Rightarrow> secret_execution_scope \<Rightarrow> bool \<Rightarrow> secret_lease list gateway_call" where
  "worker_cleanup env a scp cancelled =
     call_bind (revoke_leases env (ss_leases scp) ''Worker execution finished'') (\<lambda>revoked.
       if cancelled
       then call_bind (append_event env
              (WorkerCancelled (request_id (pa_request a)) (wj_execution_id (pa_job a)) (length revoked) False))
              (\<lambda>_. call_return revoked)
       else call_return revoked)"

definition run_worker ::
  "gateway_env \<Rightarrow> preflight_approval \<Rightarrow> secret_execution_scope \<Rightarrow> (worker_result option \<times> secret_lease list) gateway_call" where
  "run_worker env a scp s =
     (case worker_attempt env a scp s of
        (attempt, s1) \<Rightarrow>
          (case worker_answer env a scp attempt s1 of
             (answer, s2) \<Rightarrow>
               (case worker_cleanup env a scp (attempt = Inl CancelledError) s2 of
                  (Inl e, s3) \<Rightarrow> (Inl e, s3)
                | (Inr revoked, s3) \<Rightarrow> (map_sum id (\<lambda>w. (w, revoked)) answer, s3))))"

definition record_worker_completed :: "gateway_env \<Rightarrow> tool_request \<Rightarrow> worker_result \<Rightarrow> unit gateway_call" where
  "record_worker_completed env request w =
     append_event env (WorkerCompleted (request_id request) (wr_execution_id w) (wr_backend w) (wr_status w)
       (wr_exit_code w) (wr_stdout_truncated w) (wr_stderr_truncated w))"

definition record_tool_result ::
  "gateway_env \<Rightarrow> preflight_approval \<Rightarrow> tool_result \<Rightarrow> worker_result \<Rightarrow> secret_lease list \<Rightarrow> string gateway_call" where
  "record_tool_result env a r w leases =
     call_bind (write_evidence env (pa_request a) (pa_decision a) r (Some (pa_job a)) (Some w) leases) (\<lambda>path.
     call_bind (append_event env ((if tr_success r then ToolCompleted else ToolFailed)
        (request_id (pa_request a)) (request_tool_id (pa_request a)) path))
       (\<lambda>_. call_return path))"

definition finalize_execution ::
  "gateway_env \<Rightarrow> preflight_approval \<Rightarrow> secret_material list \<Rightarrow> secret_lease list \<Rightarrow> worker_result option \<Rightarrow> gateway_outcome gateway_call" where
  "finalize_execution env a materials leases answer =
     (let receipt = normalize_host_receipt (ge_receipt env) (pa_job a) answer materials in
      call_bind (record_worker_completed env (pa_request a) (nr_worker_result receipt)) (\<lambda>_.
      call_bind (call_lift (project_tool_result (ge_receipt env) (pa_request a) (pa_tool a) receipt materials)) (\<lambda>(r, identity_valid).
      call_bind (record_tool_result env a r (nr_worker_result receipt) leases) (\<lambda>path.
      call_return
        \<lparr>go_decision = pa_decision a, go_result = r\<lparr>tr_evidence := tr_evidence r @ [path]\<rparr>,
         go_worker_result = Some (nr_worker_result receipt), go_network_log_trusted = nr_network_log_trusted receipt,
         go_result_identity_valid = identity_valid, go_executed = True\<rparr>))))"

definition start_dispatch :: "gateway_env \<Rightarrow> preflight_approval \<Rightarrow> secret_execution_scope \<Rightarrow> unit gateway_call" where
  "start_dispatch env a scp =
     call_catch (append_event env (WorkerDispatched (pa_job_metadata a) (map sl_id (ss_leases scp)))) (\<lambda>_. True)
       (\<lambda>e. call_bind
          (call_finally (revoke_leases env (ss_leases scp) ''Worker dispatch did not start'')
             (release_rate_reservation env a ''dispatch-audit-failed''))
          (\<lambda>_. call_raise e))"

definition gateway_dispatch ::
  "gateway_env \<Rightarrow> preflight_approval \<Rightarrow> secret_execution_scope \<Rightarrow> gateway_outcome gateway_call" where
  "gateway_dispatch env a scp =
     (if ge_cancelling env 1 then cancel_before_dispatch env a scp
      else call_bind (start_dispatch env a scp) (\<lambda>_.
           call_bind (run_worker env a scp) (\<lambda>(answer, revoked).
           finalize_execution env a (ss_materials scp) revoked answer)))"

text \<open>The rest of \<open>execute\<close> once the request is approved.\<close>

definition execute_approved :: "gateway_env \<Rightarrow> preflight_approval \<Rightarrow> gateway_outcome gateway_call" where
  "execute_approved env a =
     call_bind (call_lift (guard_worker_dispatch env 1)) (\<lambda>guard_failure.
     case guard_failure of
       Some error \<Rightarrow>
         call_bind (release_rate_reservation env a ''worker-dispatch-guard-failed'') (\<lambda>_.
         fail_before_dispatch env (pa_request a) (pa_decision a) False error (Some (pa_job a)))
     | None \<Rightarrow>
         call_bind (open_secret_scope env a) (\<lambda>opened.
         case opened of
           Inl out \<Rightarrow> call_return out
         | Inr scp \<Rightarrow> gateway_dispatch env a scp))"

definition gateway_execute ::
  "gateway_env \<Rightarrow> campaign_manifest option \<Rightarrow> capability_grant option \<Rightarrow> tool_request \<Rightarrow> py_num \<Rightarrow> gateway_outcome gateway_call" where
  "gateway_execute env c g request used =
     (if ge_cancelling env 0 then call_raise CancelledError
      else call_bind (gateway_preflight env c g request used) (\<lambda>preflight.
        case preflight of Inl out \<Rightarrow> call_return out | Inr a \<Rightarrow> execute_approved env a))"

end
