(* ===== verification/Gateway_Samples.thy ===== *)
theory Gateway_Samples
  imports Tool_Gateway
begin

text \<open>
  A concrete gateway at which the properties of the gateway are evaluated: the sample campaign, grant and tool, a
  store whose calls end as given, and a job without secrets or with one. Digests stay symbolic.
\<close>

section \<open>Samples\<close>

definition secret_job :: worker_job where
  "secret_job = sample_job\<lparr>wj_secret_requests := [\<lparr>ws_secret_ref = u ''db'', ws_binding = ''password'', ws_ttl_seconds = 30\<rparr>]\<rparr>"

definition sample_registry :: "worker_job \<Rightarrow> tool_registry" where
  "sample_registry job =
     snd (registry_register \<lparr>reg_tools = [], reg_specs = []\<rparr> (sample_adapter\<lparr>ta_prepare := (\<lambda>_. Inr (Some job))\<rparr>))"

definition sample_gateway :: "worker_job \<Rightarrow> (nat \<Rightarrow> store_outcome) \<Rightarrow> gateway_env" where
  "sample_gateway job store =
     \<lparr>ge_policy = sample_env, ge_receipt = sample_receipt_env, ge_tools = sample_registry job, ge_store = store,
      ge_clock = NowDatetime (utc_datetime (seconds 5)), ge_broker_clock = (\<lambda>_. seconds 5), ge_uuid = (\<lambda>n. replicate n CHR ''a''),
      ge_guard = None, ge_worker = (\<lambda>_ _. Inr (Some sample_worker_result)), ge_cancelling = (\<lambda>_. False),
      ge_dispatch_started = seconds 5, ge_run_id = ''run'', ge_allow_secret_requests = True\<rparr>"

definition idle_gateway :: gateway_state where
  "idle_gateway = \<lparr>gs_events = [], gs_files = [], gs_rates = sample_rates0, gs_broker = sample_broker0, gs_runs = [],
     gs_store_calls = 0, gs_uuids = 0\<rparr>"

definition granted_request :: tool_request where
  "granted_request = sample_request ''http://a.test/x''"

definition sample_policy :: egress_policy where
  "sample_policy = \<lparr>ep_allow = [''http://a.test/*''], ep_deny = [''http://a.test/admin*''], ep_allowed_methods = {''GET''},
     ep_allow_private_networks = False, ep_max_response_bytes = MAX_EGRESS_PROXY_RESPONSE_BYTES, ep_max_requests = 1,
     ep_max_request_bytes = None\<rparr>"

definition sample_call :: "worker_job \<Rightarrow> (nat \<Rightarrow> store_outcome) \<Rightarrow> gateway_outcome result \<times> gateway_state" where
  "sample_call job store =
     gateway_execute (sample_gateway job store) (Some sample_campaign) (Some sample_grant) granted_request (PyInt 0) idle_gateway"

section \<open>Evaluation\<close>

lemma sample_decision:
  "evaluate_tool_request sample_env (Some sample_campaign) (Some sample_grant) (Some granted_request) (Some sample_tool) (PyInt 0)
     (NowDatetime (utc_datetime (seconds 5))) = allow"
  by code_simp

lemma sample_validated: "validate_tool_request granted_request = Inr granted_request"
  by code_simp

lemma sample_strict: "validate_strict_json (request_payload granted_request) ''Tool request'' = Inr ()"
  by code_simp

lemma sample_encoded: "\<exists>bs. canonical_json_bytes no_floats (request_payload granted_request) ''Tool request'' None = Inr bs \<and> length bs \<le> 10000000"
  by (rule exI [of _ "projr (canonical_json_bytes no_floats (request_payload granted_request) ''Tool request'' None)"]) code_simp

lemma sample_granted_job:
  "prepared_job (sample_gateway sample_job store) sample_campaign granted_request (sample_adapter\<lparr>ta_prepare := (\<lambda>_. Inr (Some sample_job))\<rparr>) sample_tool 1 =
   Inr (sample_job\<lparr>wj_network := EGRESS_PROXY, wj_egress_policy := Some sample_policy\<rparr>)"
  by code_simp

lemma sample_granted_secret_job:
  "prepared_job (sample_gateway secret_job store) sample_campaign granted_request (sample_adapter\<lparr>ta_prepare := (\<lambda>_. Inr (Some secret_job))\<rparr>) sample_tool 1 =
   Inr (secret_job\<lparr>wj_network := EGRESS_PROXY, wj_egress_policy := Some sample_policy\<rparr>)"
  by code_simp

lemma registry_sample:
  "registry_tool (sample_registry job) ''http.get'' = Inr (sample_adapter\<lparr>ta_prepare := (\<lambda>_. Inr (Some job))\<rparr>)"
  "registry_spec (sample_registry job) ''http.get'' = Inr sample_tool"
  by (simp_all add: sample_registry_def registry_register_def registry_tool_def registry_spec_def registry_get_def snapshot_spec_def
    sample_adapter_def valid_tool_spec_def sample_tool_def)

lemma store_at: "store (gs_store_calls s) = StoreOk \<Longrightarrow>
   store_call (sample_gateway job store) effect s = (Inr (), effect (s\<lparr>gs_store_calls := Suc (gs_store_calls s)\<rparr>))"
  by (simp add: store_call_def sample_gateway_def)

lemma sample_gateway_fields:
  "ge_policy (sample_gateway job store) = sample_env" "ge_receipt (sample_gateway job store) = sample_receipt_env"
  "ge_tools (sample_gateway job store) = sample_registry job" "ge_clock (sample_gateway job store) = NowDatetime (utc_datetime (seconds 5))"
  "ge_store (sample_gateway job store) = store"
  "guard_worker_dispatch (sample_gateway job store) k = Inr None" "ge_cancelling (sample_gateway job store) k = False"
  "ge_worker (sample_gateway job store) j m = Inr (Some sample_worker_result)"
  by (simp_all add: sample_gateway_def guard_worker_dispatch_def)

lemma sample_canonical_request:
  "\<exists>d. canonical_tool_request_with_digest (sample_gateway job store) granted_request = Inr (granted_request, d)"
  using sample_encoded
  by (auto simp: canonical_tool_request_with_digest_def sample_validated sample_strict sample_gateway_fields sample_receipt_env_def)

lemma sample_reading: "normalized_time (NowDatetime (utc_datetime (seconds 5))) = Inr (seconds 5)"
  by code_simp

lemma sample_cost:
  "network_request_cost (sample_adapter\<lparr>ta_prepare := p\<rparr>) sample_tool r = Inr (Some 1)"
  by (simp add: network_request_cost_def sample_adapter_def sample_tool_def)

lemma sample_texts: "utf8_encode (u ''{}'') = Some [123, 125]" "utf8_encode (u ''db'') = Some [100, 98]"
  by code_simp+

lemma sample_metadata:
  "\<exists>m. safe_job_metadata r (sample_job\<lparr>wj_network := n, wj_egress_policy := p\<rparr>) = Inr m"
  "\<exists>m. safe_job_metadata r (secret_job\<lparr>wj_network := n, wj_egress_policy := p\<rparr>) = Inr m"
  by (simp_all add: safe_job_metadata_def sample_job_def secret_job_def secret_fingerprint_def require_utf8_def sample_texts)

lemma sample_reservation:
  "reserve_for_dispatch sample_rates0 sample_campaign (NowDatetime (utc_datetime (seconds 5))) (PyInt 1) [] =
     (Inr (None, Some (sample_granted [] 1)),
      sample_rates0\<lparr>request_times := [(''demo'', [\<lparr>unit_evaluated_at = seconds 5, unit_reservation_id = ''rate-reservation_''\<rparr>])]\<rparr>)"
  by code_simp

lemmas store_rules = append_event_def write_json_create_only_def artifact_exists_def store_at call_bind_def call_catch_def call_finally_def call_return_def call_raise_def call_lift_def

lemma sample_evaluated:
  "evaluate_policy (sample_gateway job store) sample_campaign sample_grant granted_request (sample_adapter\<lparr>ta_prepare := p\<rparr>) sample_tool (PyInt 0) s =
   (Inr (Inr (allow, 1, seconds 5)), s)"
  by (simp add: evaluate_policy_def sample_gateway_fields sample_reading sample_decision sample_cost call_bind_def call_lift_def call_return_def)

lemma sample_prepared:
  "\<exists>m. prepare_job (sample_gateway sample_job store) sample_campaign granted_request (sample_adapter\<lparr>ta_prepare := (\<lambda>_. Inr (Some sample_job))\<rparr>) sample_tool 1 =
     Inr (Inr (sample_job\<lparr>wj_network := EGRESS_PROXY, wj_egress_policy := Some sample_policy\<rparr>, m))"
  "\<exists>m. prepare_job (sample_gateway secret_job store) sample_campaign granted_request (sample_adapter\<lparr>ta_prepare := (\<lambda>_. Inr (Some secret_job))\<rparr>) sample_tool 1 =
     Inr (Inr (secret_job\<lparr>wj_network := EGRESS_PROXY, wj_egress_policy := Some sample_policy\<rparr>, m))"
  using sample_metadata [where r = granted_request and n = EGRESS_PROXY and p = "Some sample_policy"]
  by (auto simp: prepare_job_def sample_granted_job sample_granted_secret_job)

lemma sample_preflight:
  assumes "store 0 = StoreOk" "store 1 = StoreOk" "store 2 = StoreOk" "store 3 = StoreOk"
    and job: "prepare_job (sample_gateway job store) sample_campaign granted_request (sample_adapter\<lparr>ta_prepare := (\<lambda>_. Inr (Some job))\<rparr>)
       sample_tool 1 = Inr (Inr (job', m))"
  shows "\<exists>d. gateway_preflight (sample_gateway job store) (Some sample_campaign) (Some sample_grant) granted_request (PyInt 0) idle_gateway =
     (Inr (Inr \<lparr>pa_campaign = sample_campaign, pa_request = granted_request,
        pa_tool = sample_adapter\<lparr>ta_prepare := (\<lambda>_. Inr (Some job))\<rparr>, pa_spec = sample_tool, pa_decision = allow, pa_job = job',
        pa_job_metadata = m, pa_request_cost = 1, pa_rate_reservation = Some (sample_granted [] 1)\<rparr>),
      idle_gateway\<lparr>gs_events := [RequestReserved ''tool_1'' d ''requests/tool_1.json'', PolicyEvaluated ''tool_1'' ''http.get'' allow],
        gs_files := [(''requests/tool_1.json'', ReservationFile ''tool_1'' d)],
        gs_rates := sample_rates0\<lparr>request_times := [(''demo'', [\<lparr>unit_evaluated_at = seconds 5, unit_reservation_id = ''rate-reservation_''\<rparr>])]\<rparr>,
        gs_store_calls := 4, gs_uuids := 1\<rparr>)"
proof -
  obtain d where d: "canonical_tool_request_with_digest (sample_gateway job store) granted_request = Inr (granted_request, d)"
    using sample_canonical_request by blast
  have i: "request_id granted_request = ''tool_1''" "request_tool_id granted_request = ''http.get''"
    by (simp_all add: granted_request_def sample_request_def)
  have u: "ge_uuid (sample_gateway job store) 0 = []" by (simp add: sample_gateway_def)
  have n: "store (Suc 0) = StoreOk" "store (Suc (Suc 0)) = StoreOk" "store (Suc (Suc (Suc 0))) = StoreOk"
    using assms(2-4) by (simp_all add: numeral_2_eq_2 numeral_3_eq_3)
  have t: "tool_id sample_tool = ''http.get''" "valid_tool_spec sample_tool" by (simp_all add: sample_tool_def valid_tool_spec_def)
  show ?thesis
    by (rule exI [of _ d])
      (simp add: gateway_preflight_def canonical_inputs_def d reserve_request_def canonical_authority_inputs_def i
        resolve_tool_def preflight_checked_def registry_sample t sample_evaluated sample_gateway_fields job approve_dispatch_def
        reserve_dispatch_def fresh_uuid_def on_rates_def sample_reservation u record_policy_def
        store_rules assms(1) n Let_def reservation_path_def evidence_path_def idle_gateway_def)
qed

end
