(* ===== verification/Gateway_Safety.thy ===== *)
theory Gateway_Safety
  imports Gateway_Samples
begin

text \<open>
  What the gateway guarantees about Worker calls. The first part says which parts of the state each step of
  \<open>ToolGateway.execute\<close> may change, as relations that every outcome of the step keeps; the rest shows that a
  Worker runs only for an approved, freshly claimed request, and that the gateway implements an abstract
  dispatcher that spends an identifier at most once.
\<close>

section \<open>Relations and the abstract dispatcher\<close>

definition files_grow :: "(string, artifact) dict \<Rightarrow> (string, artifact) dict \<Rightarrow> bool" where
  "files_grow F F' \<longleftrightarrow> (\<forall>p v. dict_get F p = Some v \<longrightarrow> dict_get F' p = Some v)"

text \<open>The log, the artifacts and the recorded Worker calls only grow.\<close>

definition log_grows :: "gateway_state \<Rightarrow> gateway_state \<Rightarrow> bool" where
  "log_grows s s' \<longleftrightarrow> (\<exists>es. gs_events s' = gs_events s @ es) \<and> files_grow (gs_files s) (gs_files s') \<and>
     (\<exists>rs. gs_runs s' = gs_runs s @ rs) \<and> gs_uuids s \<le> gs_uuids s'"

text \<open>Nothing ran.\<close>

definition no_run :: "gateway_state \<Rightarrow> gateway_state \<Rightarrow> bool" where
  "no_run s s' \<longleftrightarrow> log_grows s s' \<and> gs_runs s' = gs_runs s"

definition rates_kept :: "gateway_state \<Rightarrow> gateway_state \<Rightarrow> bool" where
  "rates_kept s s' \<longleftrightarrow> log_grows s s' \<and> gs_rates s' = gs_rates s"

definition broker_kept :: "gateway_state \<Rightarrow> gateway_state \<Rightarrow> bool" where
  "broker_kept s s' \<longleftrightarrow> log_grows s s' \<and> gs_broker s' = gs_broker s"

text \<open>Only the log and the artifacts change.\<close>

definition audit_only :: "gateway_state \<Rightarrow> gateway_state \<Rightarrow> bool" where
  "audit_only s s' \<longleftrightarrow> no_run s s' \<and> rates_kept s s' \<and> broker_kept s s'"

text \<open>The facts behind an approval, read off the code of \<open>_preflight\<close>.\<close>

definition approval_facts ::
  "gateway_env \<Rightarrow> campaign_manifest \<Rightarrow> capability_grant \<Rightarrow> py_num \<Rightarrow> instant \<Rightarrow> preflight_approval \<Rightarrow> bool" where
  "approval_facts env c g used at_time a \<longleftrightarrow>
     registry_tool (ge_tools env) (request_tool_id (pa_request a)) = Inr (pa_tool a) \<and>
     registry_spec (ge_tools env) (request_tool_id (pa_request a)) = Inr (pa_spec a) \<and>
     tool_id (pa_spec a) = request_tool_id (pa_request a) \<and>
     normalized_time (ge_clock env) = Inr at_time \<and>
     pa_decision a = evaluate_tool_request (ge_policy env) (Some c) (Some g) (Some (pa_request a)) (Some (pa_spec a)) used
       (NowDatetime (utc_datetime at_time)) \<and> allowed (pa_decision a) \<and>
     network_request_cost (pa_tool a) (pa_spec a) (pa_request a) = Inr (Some (pa_request_cost a)) \<and>
     guard_worker_dispatch env 0 = Inr None \<and> pa_campaign a = c \<and>
     prepare_job env c (pa_request a) (pa_tool a) (pa_spec a) (pa_request_cost a) = Inr (Inr (pa_job a, pa_job_metadata a))"

text \<open>A call touches only the two artifacts of its request.\<close>

definition touches :: "string \<Rightarrow> gateway_state \<Rightarrow> gateway_state \<Rightarrow> bool" where
  "touches i s s' \<longleftrightarrow> (\<forall>p. p \<noteq> reservation_path i \<and> p \<noteq> evidence_path i \<longrightarrow> dict_get (gs_files s') p = dict_get (gs_files s) p)"

text \<open>What the gateway promises about identifiers: one is claimed at most once, and only the call that claims
  it may dispatch.\<close>

record one_shot =
  os_claimed :: "string set"
  os_dispatched :: "string list"

datatype one_shot_event = Refused | Claimed string | Dispatched string

inductive one_shot_step :: "one_shot \<Rightarrow> one_shot_event \<Rightarrow> one_shot \<Rightarrow> bool" where
  one_shot_refused: "one_shot_step A Refused A"
| one_shot_claimed: "i \<notin> os_claimed A \<Longrightarrow> one_shot_step A (Claimed i) (A\<lparr>os_claimed := insert i (os_claimed A)\<rparr>)"
| one_shot_dispatched:
    "i \<notin> os_claimed A \<Longrightarrow>
     one_shot_step A (Dispatched i) \<lparr>os_claimed = insert i (os_claimed A), os_dispatched = os_dispatched A @ [i]\<rparr>"

definition one_shot_of :: "gateway_state \<Rightarrow> one_shot" where
  "one_shot_of s =
     \<lparr>os_claimed = {i. dict_get (gs_files s) (reservation_path i) \<noteq> None},
      os_dispatched = map (\<lambda>x. request_id (run_request x)) (gs_runs s)\<rparr>"

record gateway_request =
  gr_env :: gateway_env
  gr_campaign :: "campaign_manifest option"
  gr_grant :: "capability_grant option"
  gr_request :: tool_request
  gr_used_calls :: py_num

definition gateway_step :: "gateway_state \<Rightarrow> gateway_request \<Rightarrow> gateway_state \<Rightarrow> bool" where
  "gateway_step s q s' \<longleftrightarrow>
     (\<exists>r. gateway_execute (gr_env q) (gr_campaign q) (gr_grant q) (gr_request q) (gr_used_calls q) s = (r, s'))"

definition one_shot_ok :: "one_shot \<Rightarrow> bool" where
  "one_shot_ok A \<longleftrightarrow> distinct (os_dispatched A) \<and> set (os_dispatched A) \<subseteq> os_claimed A"

text \<open>The exact rule of a CONNECT request is an allow rule of the campaign, and no deny rule has its authority.\<close>

definition exact_authority :: "unicode_db \<Rightarrow> campaign_manifest \<Rightarrow> ustr \<Rightarrow> bool" where
  "exact_authority db c netloc \<longleftrightarrow>
     (\<exists>r \<in> set (scope_allow (spec_scope (campaign_spec c))). normalize_scope_pattern db (u r) = Inr (u ''https://'' @ netloc @ u ''/**'')) \<and>
     (\<forall>r \<in> set (scope_deny (spec_scope (campaign_spec c))). \<exists>n q. normalize_scope_pattern db (u r) = Inr n \<and> urlsplit db n = Inr q \<and>
        sp_netloc q \<noteq> netloc)"

section \<open>What the parts of a call may change\<close>

lemma log_grows_refl: "log_grows s s"
  by (simp add: log_grows_def files_grow_def)

lemma log_grows_trans: "log_grows s t \<Longrightarrow> log_grows t s' \<Longrightarrow> log_grows s s'"
  by (auto simp: log_grows_def files_grow_def)

interpretation quiet: state_preorder no_run
  by unfold_locales (auto simp: no_run_def intro: log_grows_refl log_grows_trans)

interpretation rates: state_preorder rates_kept
  by unfold_locales (auto simp: rates_kept_def intro: log_grows_refl log_grows_trans)

interpretation broker: state_preorder broker_kept
  by unfold_locales (auto simp: broker_kept_def intro: log_grows_refl log_grows_trans)

interpretation audit: state_preorder audit_only
  by unfold_locales
    (auto simp: audit_only_def no_run_def rates_kept_def broker_kept_def intro: log_grows_refl log_grows_trans)

lemma audit_onlyD:
  "audit_only s s' \<Longrightarrow> no_run s s'" "audit_only s s' \<Longrightarrow> rates_kept s s'" "audit_only s s' \<Longrightarrow> broker_kept s s'"
  "audit_only s s' \<Longrightarrow> log_grows s s'"
  by (auto simp: audit_only_def no_run_def)

lemma no_run_grows: "no_run s s' \<Longrightarrow> log_grows s s'"
  by (simp add: no_run_def)

lemma audit_frames:
  "call_in audit_only m \<Longrightarrow> call_in no_run m" "call_in audit_only m \<Longrightarrow> call_in rates_kept m"
  "call_in audit_only m \<Longrightarrow> call_in broker_kept m"
  by (auto intro: call_in_mono audit_onlyD)

lemma store_call_cases:
  assumes "store_call env effect s = (r, s')"
  obtains (written) "s' = effect (s\<lparr>gs_store_calls := Suc (gs_store_calls s)\<rparr>)"
    | (lost) e where "r = Inl e" "s' = s\<lparr>gs_store_calls := Suc (gs_store_calls s)\<rparr>"
  using assms by (auto simp: store_call_def Let_def split: store_outcome.splits if_splits)

lemma append_event_audit: "call_in audit_only (append_event env e)"
  unfolding call_in_def append_event_def
  by (auto elim!: store_call_cases
    simp: audit_only_def no_run_def rates_kept_def broker_kept_def log_grows_def files_grow_def)

lemma write_json_audit: "call_in audit_only (write_json_create_only env path content)"
  unfolding call_in_def write_json_create_only_def
  by (auto elim!: store_call_cases split: if_splits
    simp: call_bind_eq audit_only_def no_run_def rates_kept_def broker_kept_def log_grows_def files_grow_def dict_simps)

lemma artifact_exists_audit: "call_in audit_only (artifact_exists env path)"
  unfolding call_in_def artifact_exists_def
  by (auto elim!: store_call_cases
    simp: call_bind_eq audit_only_def no_run_def rates_kept_def broker_kept_def log_grows_def files_grow_def)

lemmas audit_rules = append_event_audit write_json_audit artifact_exists_audit audit.in_rules

lemma write_evidence_audit: "call_in audit_only (write_evidence env request d r job w ls)"
  unfolding write_evidence_def by (intro audit_rules)

lemma record_policy_audit: "call_in audit_only (record_policy env request d)"
  unfolding record_policy_def by (intro audit_rules)

lemma deny_request_audit: "call_in audit_only (deny_request env request d)"
  unfolding deny_request_def Let_def by (intro audit_rules record_policy_audit write_evidence_audit)

lemma reject_invalid_audit: "call_in audit_only (reject_invalid_request env e)"
  unfolding reject_invalid_request_def Let_def by (intro audit_rules)

lemma fail_before_dispatch_audit: "call_in audit_only (fail_before_dispatch env request d b e job)"
  unfolding fail_before_dispatch_def Let_def by (intro audit_rules write_evidence_audit)

lemma reserve_request_audit: "call_in audit_only (reserve_request env request digest)"
  unfolding reserve_request_def Let_def by (intro audit_rules)

lemma canonical_inputs_audit: "call_in audit_only (canonical_inputs env c g request used)"
proof -
  have "call_in audit_only (canonical_authority_inputs env c g r used)" for r
    unfolding canonical_authority_inputs_def prod.case
    by (cases used) (auto intro!: audit_rules deny_request_audit)
  then show ?thesis
    unfolding canonical_inputs_def by (intro audit_rules reject_invalid_audit reserve_request_audit)
qed

lemma resolve_tool_audit: "call_in audit_only (resolve_tool env request)"
  unfolding resolve_tool_def prod.case by (intro audit_rules deny_request_audit)

lemma evaluate_policy_audit: "call_in audit_only (evaluate_policy env c g request tool t used)"
  unfolding evaluate_policy_def Let_def by (intro audit_rules deny_request_audit)

lemma fresh_uuid_audit: "call_in audit_only (fresh_uuid env)"
  by (auto simp: call_in_def fresh_uuid_def audit_only_def no_run_def rates_kept_def broker_kept_def log_grows_def files_grow_def)

lemma on_rates_kept: "call_in no_run (on_rates f)" "call_in broker_kept (on_rates f)"
  by (auto simp: call_in_def on_rates_def no_run_def broker_kept_def log_grows_def files_grow_def split: prod.splits)

lemma on_broker_kept: "call_in no_run (on_broker f)" "call_in rates_kept (on_broker f)"
  by (auto simp: call_in_def on_broker_def no_run_def rates_kept_def log_grows_def files_grow_def split: prod.splits)

lemmas audit_calls = append_event_audit write_json_audit artifact_exists_audit write_evidence_audit record_policy_audit
  deny_request_audit reject_invalid_audit fail_before_dispatch_audit reserve_request_audit canonical_inputs_audit
  resolve_tool_audit evaluate_policy_audit fresh_uuid_audit

lemmas quiet_rules = quiet.in_rules on_rates_kept(1) on_broker_kept(1) audit_calls [THEN audit_frames(1)]
lemmas rates_rules = rates.in_rules on_broker_kept(2) audit_calls [THEN audit_frames(2)]
lemmas broker_rules = broker.in_rules on_rates_kept(2) audit_calls [THEN audit_frames(3)]

lemma release_kept:
  "call_in no_run (release_rate_reservation env a reason)" "call_in broker_kept (release_rate_reservation env a reason)"
  unfolding release_rate_reservation_def by - (intro quiet_rules, intro broker_rules)

lemma reserve_dispatch_kept:
  "call_in no_run (reserve_dispatch env c t n)" "call_in broker_kept (reserve_dispatch env c t n)"
  unfolding reserve_dispatch_def by - (intro quiet_rules, intro broker_rules)

lemma release_if_kept: "call_in no_run (release_if v)" "call_in broker_kept (release_if v)"
  unfolding release_if_def by - (intro quiet_rules, intro broker_rules)

lemma preflight_kept:
  "call_in no_run (gateway_preflight env c g request used)" "call_in broker_kept (gateway_preflight env c g request used)"
  unfolding gateway_preflight_def preflight_checked_def approve_dispatch_def fail_preflight_def
  by - (intro quiet_rules reserve_dispatch_kept release_if_kept, intro broker_rules reserve_dispatch_kept release_if_kept)

lemma revoke_each_kept:
  "revoke_each env reason ls s = (v, s') \<Longrightarrow> \<exists>B. s' = s\<lparr>gs_broker := B\<rparr>"
proof (induction ls arbitrary: s v)
  case Nil
  then show ?case by (auto intro: exI [of _ "gs_broker s"])
next
  case (Cons l ls)
  then show ?case by (fastforce split: prod.splits sum.splits)
qed

lemma record_revoked_audit: "call_in audit_only (record_revoked env ls)"
proof (induction ls)
  case Nil
  then show ?case by (simp add: call_in_def audit.refl)
next
  case (Cons l ls)
  then show ?case
    using append_event_audit unfolding call_in_def
    by (auto split: prod.splits sum.splits if_splits) (blast intro: audit.trans)+
qed

lemma revoke_leases_kept:
  "call_in no_run (revoke_leases env ls reason)" "call_in rates_kept (revoke_leases env ls reason)"
proof -
  have "no_run s s' \<and> rates_kept s s'" if run: "revoke_leases env ls reason s = (r, s')" for s r s'
  proof -
    obtain v t where e: "revoke_each env reason ls s = (v, t)" by fastforce
    obtain B where t: "t = s\<lparr>gs_broker := B\<rparr>" using revoke_each_kept [OF e] by blast
    have "audit_only t s'"
      using run e by (auto simp: revoke_leases_def call_bind_eq split: prod.splits if_splits
        dest: call_inD [OF record_revoked_audit])
    then show ?thesis
      by (auto simp: t audit_only_def no_run_def rates_kept_def log_grows_def)
  qed
  then show "call_in no_run (revoke_leases env ls reason)" "call_in rates_kept (revoke_leases env ls reason)"
    by (auto simp: call_in_def)
qed

lemma issue_one_kept: "call_in no_run (issue_one env request job x)" "call_in rates_kept (issue_one env request job x)"
  unfolding issue_one_def by - (intro quiet_rules, intro rates_rules)

lemma materialize_one_kept:
  "call_in no_run (materialize_one env request job l)" "call_in rates_kept (materialize_one env request job l)"
  unfolding materialize_one_def by - (intro quiet_rules, intro rates_rules)

lemma materialize_each_kept:
  "materialize_each env request job xs ls ms s = (v, s') \<Longrightarrow> no_run s s' \<and> rates_kept s s'"
proof (induction xs arbitrary: ls ms s)
  case Nil
  then show ?case by (simp add: quiet.refl rates.refl)
next
  case (Cons x xs)
  note kept = call_inD [OF issue_one_kept(1)] call_inD [OF issue_one_kept(2)] call_inD [OF materialize_one_kept(1)]
    call_inD [OF materialize_one_kept(2)] call_inD [OF append_event_audit, THEN audit_onlyD(1)]
    call_inD [OF append_event_audit, THEN audit_onlyD(2)]
  show ?case
    using Cons.prems by (auto split: prod.splits sum.splits dest!: Cons.IH) (meson kept quiet.trans rates.trans)+
qed

lemma materialize_secrets_kept:
  "call_in no_run (materialize_secrets env request job)" "call_in rates_kept (materialize_secrets env request job)"
proof -
  have "no_run s s' \<and> rates_kept s s'" if "materialize_secrets env request job s = (r, s')" for s r s'
    using that materialize_each_kept [of env request job _ "[]" "[]" s]
      call_inD [OF revoke_leases_kept(1)] call_inD [OF revoke_leases_kept(2)]
    by (auto simp: materialize_secrets_def call_bind_eq split: prod.splits sum.splits if_splits)
      (meson quiet.trans rates.trans)+
  then show "call_in no_run (materialize_secrets env request job)" "call_in rates_kept (materialize_secrets env request job)"
    by (auto simp: call_in_def)
qed

lemma open_secret_scope_quiet: "call_in no_run (open_secret_scope env a)"
  unfolding open_secret_scope_def by (intro quiet_rules release_kept materialize_secrets_kept)

lemma cancel_before_dispatch_quiet: "call_in no_run (cancel_before_dispatch env a scp)"
  unfolding cancel_before_dispatch_def by (intro quiet_rules release_kept revoke_leases_kept)

lemma start_dispatch_quiet: "call_in no_run (start_dispatch env a scp)"
  unfolding start_dispatch_def by (intro quiet_rules release_kept revoke_leases_kept)

lemma worker_answer_audit: "call_in audit_only (worker_answer env a scp attempt)"
  unfolding worker_answer_def by (intro audit_calls audit.in_rules)

lemma worker_cleanup_kept:
  "call_in no_run (worker_cleanup env a scp b)" "call_in rates_kept (worker_cleanup env a scp b)"
  unfolding worker_cleanup_def
  by - (intro quiet_rules revoke_leases_kept, intro rates_rules revoke_leases_kept)

lemma finalize_execution_audit: "call_in audit_only (finalize_execution env a ms ls w)"
  unfolding finalize_execution_def record_worker_completed_def record_tool_result_def Let_def
  by (intro audit_calls audit.in_rules)

lemma run_worker_cases:
  assumes "run_worker env a scp s = (r, s')"
  obtains (guarded) "no_run s s'" "rates_kept s s'" "guard_worker_dispatch env 2 \<noteq> Inr None"
    | (ran) t where "guard_worker_dispatch env 2 = Inr None" "rates_kept s s'"
      "t = s\<lparr>gs_runs := gs_runs s @ [\<lparr>run_request = pa_request a, run_job = pa_job a, run_materials = ss_materials scp\<rparr>]\<rparr>"
      "no_run t s'"
proof -
  obtain attempt t answer t' where
    one: "worker_attempt env a scp s = (attempt, t)" and two: "worker_answer env a scp attempt t = (answer, t')"
    by fastforce
  have "\<exists>q. worker_cleanup env a scp (attempt = Inl CancelledError) t' = (q, s')"
    using assms one two by (auto simp: run_worker_def split: prod.splits sum.splits)
  then have rest: "no_run t s'" "rates_kept t s'"
    using call_inD [OF worker_answer_audit two] call_inD [OF worker_cleanup_kept(1)] call_inD [OF worker_cleanup_kept(2)]
    by (meson audit_onlyD quiet.trans rates.trans)+
  show thesis
  proof (cases "guard_worker_dispatch env 2 = Inr None")
    case True
    then have t: "t = s\<lparr>gs_runs := gs_runs s @ [\<lparr>run_request = pa_request a, run_job = pa_job a, run_materials = ss_materials scp\<rparr>]\<rparr>"
      using one by (simp add: worker_attempt_def)
    then have "rates_kept s t" by (simp add: rates_kept_def log_grows_def files_grow_def)
    then show thesis using ran [OF True _ t rest(1)] rest(2) rates.trans by blast
  next
    case False
    then have "t = s" using one by (auto simp: worker_attempt_def split: sum.splits option.splits)
    then show thesis using guarded rest False by blast
  qed
qed

section \<open>What an approval rests on\<close>

lemma append_event_ok: "append_event env e s = (Inr x, s') \<Longrightarrow> gs_events s' = gs_events s @ [e] \<and> gs_files s' = gs_files s \<and> gs_rates s' = gs_rates s"
  by (auto simp: append_event_def store_call_def Let_def split: store_outcome.splits)

lemma write_json_ok:
  "write_json_create_only env path content s = (Inr x, s') \<Longrightarrow>
   x = path \<and> dict_get (gs_files s) path = None \<and> gs_files s' = dict_set path content (gs_files s) \<and> gs_events s' = gs_events s"
  by (auto simp: write_json_create_only_def call_bind_eq store_call_def Let_def split: store_outcome.splits if_splits)

lemma artifact_exists_ok:
  "artifact_exists env path s = (Inr x, s') \<Longrightarrow>
   x = (dict_get (gs_files s) path \<noteq> None) \<and> gs_files s' = gs_files s \<and> gs_events s' = gs_events s"
  by (auto simp: artifact_exists_def call_bind_eq store_call_def Let_def split: store_outcome.splits)

lemma paths_differ: "evidence_path i \<noteq> reservation_path j"
  by (simp add: evidence_path_def reservation_path_def)

lemma reserve_request_fresh:
  assumes "reserve_request env request digest s = (Inr None, s')"
  shows "dict_get (gs_files s) (reservation_path (request_id request)) = None \<and>
    dict_get (gs_files s) (evidence_path (request_id request)) = None \<and>
    gs_files s' = dict_set (reservation_path (request_id request)) (ReservationFile (request_id request) digest) (gs_files s) \<and>
    gs_events s' = gs_events s @ [RequestReserved (request_id request) digest (reservation_path (request_id request))]"
  using assms paths_differ [of "request_id request" "request_id request"] unfolding reserve_request_def Let_def
  by (auto simp: call_bind_eq call_catch_eq dict_simps dest!: write_json_ok artifact_exists_ok append_event_ok split: if_splits)

lemma evaluate_policy_ok:
  assumes "evaluate_policy env c g request tool t used s = (Inr (Inr (d, n, at_time)), s')"
  shows "s' = s \<and> normalized_time (ge_clock env) = Inr at_time \<and> allowed d \<and>
    d = evaluate_tool_request (ge_policy env) (Some c) (Some g) (Some request) (Some t) used (NowDatetime (utc_datetime at_time)) \<and>
    network_request_cost tool t request = Inr (Some n)"
proof (cases "normalized_time (ge_clock env)")
  case (Inl e)
  then show ?thesis using assms by (auto simp: evaluate_policy_def elim!: call_bind_okE)
next
  case (Inr v)
  then show ?thesis
    using assms unfolding evaluate_policy_def Let_def
    by (auto elim!: call_bind_okE split: if_splits option.splits)
qed

lemma resolve_tool_ok:
  assumes "resolve_tool env request s = (Inr (Inr (tool, t)), s')"
  shows "s' = s \<and> registry_tool (ge_tools env) (request_tool_id request) = Inr tool \<and>
    registry_spec (ge_tools env) (request_tool_id request) = Inr t \<and> tool_id t = request_tool_id request"
  using assms unfolding resolve_tool_def
  by (auto simp: call_bind_eq split: sum.splits if_splits)

lemma canonical_authority_ok:
  assumes "canonical_authority_inputs env c g request used s = (Inr (Inr (c', g', request')), s')"
  shows "c = Some c' \<and> g = Some g' \<and> request' = request \<and> (\<exists>n. used = PyInt n \<and> 0 \<le> n) \<and> s' = s"
  using assms unfolding canonical_authority_inputs_def
  by (auto elim!: call_bind_okE split: if_splits option.splits py_num.splits)

lemma canonical_inputs_ok:
  assumes "canonical_inputs env c g request used s = (Inr (Inr (c', g', request')), s')"
  shows "c = Some c' \<and> g = Some g' \<and> (\<exists>n. used = PyInt n \<and> 0 \<le> n) \<and>
    (\<exists>digest. canonical_tool_request_with_digest env request = Inr (request', digest) \<and>
       reserve_request env request' digest s = (Inr None, s'))"
  using assms unfolding canonical_inputs_def
  by (auto elim!: call_bind_okE split: sum.splits option.splits prod.splits dest!: canonical_authority_ok)

lemma reserve_dispatch_events:
  assumes "reserve_dispatch env c at_time n s = (r, s')"
  shows "gs_events s' = gs_events s \<and> gs_files s' = gs_files s"
  using assms by (auto simp: reserve_dispatch_def call_bind_eq call_catch_eq fresh_uuid_def on_rates_def split: prod.splits)

lemma preflight_checked_ok:
  assumes "preflight_checked env c g request tool t used s = (Inr (Inr a), s')"
    and "registry_tool (ge_tools env) (request_tool_id request) = Inr tool"
    and "registry_spec (ge_tools env) (request_tool_id request) = Inr t" and "tool_id t = request_tool_id request"
  shows "\<exists>at_time s1. approval_facts env c g used at_time a \<and> pa_request a = request \<and>
    reserve_dispatch env c at_time (pa_request_cost a) s = (Inr (None, pa_rate_reservation a), s1) \<and>
    record_policy env request (pa_decision a) s1 = (Inr (), s')"
  using assms unfolding preflight_checked_def approve_dispatch_def fail_preflight_def
  by (auto elim!: call_bind_okE simp: call_catch_eq approval_facts_def dest!: evaluate_policy_ok
    split: sum.splits option.splits prod.splits)

lemma gateway_preflight_ok:
  assumes "gateway_preflight env c g request used s = (Inr (Inr a), s')"
  shows "\<exists>c' g' digest at_time s1 s2. c = Some c' \<and> g = Some g' \<and> (\<exists>n. used = PyInt n \<and> 0 \<le> n) \<and>
    canonical_tool_request_with_digest env request = Inr (pa_request a, digest) \<and>
    reserve_request env (pa_request a) digest s = (Inr None, s1) \<and> approval_facts env c' g' used at_time a \<and>
    reserve_dispatch env c' at_time (pa_request_cost a) s1 = (Inr (None, pa_rate_reservation a), s2) \<and>
    record_policy env (pa_request a) (pa_decision a) s2 = (Inr (), s')"
proof -
  obtain c' g' request' s1 tool t s1' where
    one: "canonical_inputs env c g request used s = (Inr (Inr (c', g', request')), s1)" and
    two: "resolve_tool env request' s1 = (Inr (Inr (tool, t)), s1')" and
    three: "preflight_checked env c' g' request' tool t used s1' = (Inr (Inr a), s')"
    using assms unfolding gateway_preflight_def by (auto elim!: call_bind_okE split: sum.splits prod.splits)
  note r = resolve_tool_ok [OF two]
  then show ?thesis
    using canonical_inputs_ok [OF one] preflight_checked_ok [OF three] by blast
qed

lemma files_growD: "log_grows s s' \<Longrightarrow> dict_get (gs_files s) p = Some v \<Longrightarrow> dict_get (gs_files s') p = Some v"
  by (simp add: log_grows_def files_grow_def)

lemma events_growD: "log_grows s s' \<Longrightarrow> \<exists>es. gs_events s' = gs_events s @ es"
  by (simp add: log_grows_def)

text \<open>An approval leaves the reservation of the request and the two events in the log.\<close>

lemma gateway_preflight_log:
  assumes "gateway_preflight env c g request used s = (Inr (Inr a), s')"
  shows "\<exists>c' g' digest at_time. c = Some c' \<and> g = Some g' \<and> approval_facts env c' g' used at_time a \<and>
    canonical_tool_request_with_digest env request = Inr (pa_request a, digest) \<and>
    dict_get (gs_files s) (reservation_path (request_id (pa_request a))) = None \<and>
    dict_get (gs_files s') (reservation_path (request_id (pa_request a))) = Some (ReservationFile (request_id (pa_request a)) digest) \<and>
    gs_events s' = gs_events s @
      [RequestReserved (request_id (pa_request a)) digest (reservation_path (request_id (pa_request a))),
       PolicyEvaluated (request_id (pa_request a)) (request_tool_id (pa_request a)) (pa_decision a)]"
proof -
  obtain c' g' digest at_time s1 s2 where
    facts: "c = Some c'" "g = Some g'" "approval_facts env c' g' used at_time a"
      "canonical_tool_request_with_digest env request = Inr (pa_request a, digest)" and
    one: "reserve_request env (pa_request a) digest s = (Inr None, s1)" and
    two: "reserve_dispatch env c' at_time (pa_request_cost a) s1 = (Inr (None, pa_rate_reservation a), s2)" and
    three: "record_policy env (pa_request a) (pa_decision a) s2 = (Inr (), s')"
    using gateway_preflight_ok [OF assms] by blast
  note log = reserve_request_fresh [OF one] reserve_dispatch_events [OF two] append_event_ok [OF three [unfolded record_policy_def]]
  show ?thesis
    by (rule exI [of _ c'], rule exI [of _ g'], rule exI [of _ digest], rule exI [of _ at_time])
      (simp add: facts log dict_simps)
qed

lemma start_dispatch_ok:
  assumes "start_dispatch env a scp s = (Inr x, s')"
  shows "gs_events s' = gs_events s @ [WorkerDispatched (pa_job_metadata a) (map sl_id (ss_leases scp))] \<and>
    gs_rates s' = gs_rates s"
  using assms by (auto simp: start_dispatch_def call_catch_eq call_bind_eq dest!: append_event_ok)

text \<open>A call runs at most one Worker, after \<open>worker.dispatched\<close> is in the log.\<close>

lemma gateway_dispatch_cases:
  assumes "gateway_dispatch env a scp s = (r, s')"
  obtains (quiet) "no_run s s'"
    | (ran) "gs_runs s' = gs_runs s @ [\<lparr>run_request = pa_request a, run_job = pa_job a, run_materials = ss_materials scp\<rparr>]"
      "guard_worker_dispatch env 2 = Inr None" "\<not> ge_cancelling env 1" "log_grows s s'"
      "\<exists>es. gs_events s' = gs_events s @ WorkerDispatched (pa_job_metadata a) (map sl_id (ss_leases scp)) # es"
proof (cases "ge_cancelling env 1")
  case True
  then have "cancel_before_dispatch env a scp s = (r, s')" using assms by (simp add: gateway_dispatch_def)
  then show thesis using quiet call_inD [OF cancel_before_dispatch_quiet] by blast
next
  case False
  then consider (unstarted) e where "start_dispatch env a scp s = (Inl e, s')"
    | (started) t q t' where "start_dispatch env a scp s = (Inr (), t)" "run_worker env a scp t = (q, t')"
        "no_run t' s'"
    using assms call_inD [OF finalize_execution_audit] audit_onlyD quiet.refl
    by (fastforce simp: gateway_dispatch_def call_bind_eq split: prod.splits)
  then show thesis
  proof cases
    case unstarted
    then show thesis using quiet call_inD [OF start_dispatch_quiet] by blast
  next
    case started
    note q1 = call_inD [OF start_dispatch_quiet started(1)]
    show thesis
      using started(2)
    proof (cases rule: run_worker_cases)
      case guarded
      then show thesis using quiet q1 started(3) quiet.trans by blast
    next
      case (ran v)
      have g1: "log_grows t v" by (simp add: ran log_grows_def files_grow_def)
      then have g: "log_grows t s'" using ran(4) started(3) no_run_grows log_grows_trans by blast
      have "gs_runs s' = gs_runs v" using ran(4) started(3) by (simp add: no_run_def)
      then have runs: "gs_runs s' = gs_runs s @
          [\<lparr>run_request = pa_request a, run_job = pa_job a, run_materials = ss_materials scp\<rparr>]"
        using q1 ran(3) by (simp add: no_run_def)
      have "\<exists>es. gs_events s' = gs_events s @ WorkerDispatched (pa_job_metadata a) (map sl_id (ss_leases scp)) # es"
        using start_dispatch_ok [OF started(1)] events_growD [OF g] by auto
      then show thesis
        using that(2) [OF runs ran(1) False] log_grows_trans [OF no_run_grows [OF q1] g] by blast
    qed
  qed
qed

lemma execute_approved_cases:
  assumes "execute_approved env a s = (r, s')"
  obtains (interrupted) e where "guard_worker_dispatch env 1 = Inl e" "s' = s"
    | (guarded) error where "guard_worker_dispatch env 1 = Inr (Some error)"
      "call_bind (release_rate_reservation env a ''worker-dispatch-guard-failed'') (\<lambda>_.
         fail_before_dispatch env (pa_request a) (pa_decision a) False error (Some (pa_job a))) s = (r, s')"
    | (unopened) q where "guard_worker_dispatch env 1 = Inr None" "open_secret_scope env a s = (q, s')"
      "\<And>scp. q \<noteq> Inr (Inr scp)"
    | (opened) scp t where "guard_worker_dispatch env 1 = Inr None" "open_secret_scope env a s = (Inr (Inr scp), t)"
      "gateway_dispatch env a scp t = (r, s')"
proof (cases "guard_worker_dispatch env 1")
  case (Inl e)
  then show thesis using assms that(1) by (simp add: execute_approved_def call_bind_eq)
next
  case (Inr v)
  then have run: "(case v of Some error \<Rightarrow> call_bind (release_rate_reservation env a ''worker-dispatch-guard-failed'') (\<lambda>_.
         fail_before_dispatch env (pa_request a) (pa_decision a) False error (Some (pa_job a)))
     | None \<Rightarrow> call_bind (open_secret_scope env a) (\<lambda>opened.
         case opened of Inl out \<Rightarrow> call_return out | Inr scp \<Rightarrow> gateway_dispatch env a scp)) s = (r, s')"
    using assms unfolding execute_approved_def by (simp add: call_bind_eq [of "call_lift _"])
  show thesis
  proof (cases v)
    case None
    then show thesis
      using run Inr that(3, 4) unfolding None option.case by (auto elim!: call_bindE split: sum.splits)
  next
    case (Some error)
    then show thesis using run Inr that(2) by simp
  qed
qed

lemma gateway_execute_cases:
  assumes "gateway_execute env c g request used s = (r, s')"
  obtains (quiet) "no_run s s'"
    | (ran) a t and scp :: secret_execution_scope where
      "gateway_preflight env c g request used s = (Inr (Inr a), t)" "log_grows t s'"
      "gs_runs s' = gs_runs s @ [\<lparr>run_request = pa_request a, run_job = pa_job a, run_materials = ss_materials scp\<rparr>]"
      "guard_worker_dispatch env 1 = Inr None" "guard_worker_dispatch env 2 = Inr None"
      "\<not> ge_cancelling env 0" "\<not> ge_cancelling env 1"
      "\<exists>es es'. gs_events s' = gs_events t @ es @ WorkerDispatched (pa_job_metadata a) (map sl_id (ss_leases scp)) # es'"
proof -
  consider (refused) q where "gateway_preflight env c g request used s = (q, s')" | (cancelled) "s' = s"
    | (approved) a t where "\<not> ge_cancelling env 0" "gateway_preflight env c g request used s = (Inr (Inr a), t)"
      "execute_approved env a t = (r, s')"
    using assms unfolding gateway_execute_def by (auto elim!: call_bindE split: if_splits sum.splits)
  then show thesis
  proof cases
    case refused
    then show thesis using that(1) call_inD [OF preflight_kept(1)] by blast
  next
    case cancelled
    then show thesis using that(1) quiet.refl by simp
  next
    case approved
    note q = call_inD [OF preflight_kept(1) approved(2)]
    show thesis
      using approved(3)
    proof (cases rule: execute_approved_cases)
      case interrupted
      then show thesis using that(1) q by simp
    next
      case guarded
      from guarded(2) have "no_run t s'"
        by (rule call_inD [rotated]) (intro quiet_rules release_kept)
      then show thesis using that(1) q quiet.trans by blast
    next
      case unopened
      then show thesis using that(1) q quiet.trans call_inD [OF open_secret_scope_quiet] by blast
    next
      case (opened scp t')
      note q3 = call_inD [OF open_secret_scope_quiet opened(2)]
      show thesis
        using opened(3)
      proof (cases rule: gateway_dispatch_cases)
        case quiet
        then show thesis using that(1) q q3 quiet.trans by blast
      next
        case ran
        obtain es where es: "gs_events t' = gs_events t @ es" using events_growD no_run_grows q3 by blast
        then have "\<exists>es es'. gs_events s' = gs_events t @ es @ WorkerDispatched (pa_job_metadata a) (map sl_id (ss_leases scp)) # es'"
          using ran(5) by (metis append.assoc)
        moreover have "log_grows t s'" using q3 no_run_grows ran(4) log_grows_trans by blast
        moreover have "gs_runs t' = gs_runs s" using q q3 by (simp add: no_run_def)
        ultimately show thesis
          using that(2) [OF approved(2) _ ran(1) [unfolded \<open>gs_runs t' = gs_runs s\<close>] opened(1) ran(2) approved(1) ran(3)] by blast
      qed
    qed
  qed
qed

text \<open>C1. A Worker runs only on an approval: if a call adds a run, it adds exactly one; the request was canonical, its
  identifier was free and is now claimed, the policy allowed it at the reading of the clock for the re-validated
  campaign, grant and registered tool, the dispatch guard passed at each of its three calls, no cancellation was
  pending, the job is the prepared one, and the claim, the decision and the dispatch are in the log, in this order.\<close>

theorem worker_runs_only_approved:
  assumes "gateway_execute env c g request used s = (r, s')" and "gs_runs s' \<noteq> gs_runs s"
  shows "\<exists>c' g' at_time a digest scp es es'. c = Some c' \<and> g = Some g' \<and>
    canonical_tool_request_with_digest env request = Inr (pa_request a, digest) \<and>
    approval_facts env c' g' used at_time a \<and>
    guard_worker_dispatch env 1 = Inr None \<and> guard_worker_dispatch env 2 = Inr None \<and>
    \<not> ge_cancelling env 0 \<and> \<not> ge_cancelling env 1 \<and>
    dict_get (gs_files s) (reservation_path (request_id (pa_request a))) = None \<and>
    dict_get (gs_files s') (reservation_path (request_id (pa_request a))) = Some (ReservationFile (request_id (pa_request a)) digest) \<and>
    gs_runs s' = gs_runs s @ [\<lparr>run_request = pa_request a, run_job = pa_job a, run_materials = ss_materials scp\<rparr>] \<and>
    gs_events s' = gs_events s @
      [RequestReserved (request_id (pa_request a)) digest (reservation_path (request_id (pa_request a))),
       PolicyEvaluated (request_id (pa_request a)) (request_tool_id (pa_request a)) (pa_decision a)] @ es @
      WorkerDispatched (pa_job_metadata a) (map sl_id (ss_leases (scp :: secret_execution_scope))) # es'"
  using assms(1)
proof (cases rule: gateway_execute_cases)
  case quiet
  then show ?thesis using assms(2) by (simp add: no_run_def)
next
  case (ran a t scp)
  obtain c' g' digest at_time where facts: "c = Some c'" "g = Some g'" "approval_facts env c' g' used at_time a"
    "canonical_tool_request_with_digest env request = Inr (pa_request a, digest)"
    "dict_get (gs_files s) (reservation_path (request_id (pa_request a))) = None"
    "dict_get (gs_files t) (reservation_path (request_id (pa_request a))) = Some (ReservationFile (request_id (pa_request a)) digest)"
    "gs_events t = gs_events s @
      [RequestReserved (request_id (pa_request a)) digest (reservation_path (request_id (pa_request a))),
       PolicyEvaluated (request_id (pa_request a)) (request_tool_id (pa_request a)) (pa_decision a)]"
    using gateway_preflight_log [OF ran(1)] by blast
  obtain es es' where "gs_events s' = gs_events t @ es @ WorkerDispatched (pa_job_metadata a) (map sl_id (ss_leases scp)) # es'"
    using ran(8) by blast
  with facts ran files_growD [OF ran(2) facts(6)] show ?thesis
    by (intro exI [of _ c'] exI [of _ g'] exI [of _ at_time] exI [of _ a] exI [of _ digest] exI [of _ scp] exI [of _ es]
      exI [of _ es'] conjI) simp_all
qed

section \<open>One dispatch per request identifier\<close>

inductive_simps one_shot_step_simps: "one_shot_step A e A'"

interpretation touched: state_preorder "touches i"
  by unfold_locales (auto simp: touches_def)

lemma append_event_touches: "call_in (touches i) (append_event env e)"
  unfolding call_in_def append_event_def by (auto elim!: store_call_cases simp: touches_def)

lemma write_json_touches:
  "path \<in> {reservation_path i, evidence_path i} \<Longrightarrow> call_in (touches i) (write_json_create_only env path content)"
  unfolding call_in_def write_json_create_only_def
  by (auto elim!: store_call_cases simp: call_bind_eq touches_def dict_simps split: if_splits)

lemma artifact_exists_touches: "call_in (touches i) (artifact_exists env path)"
  unfolding call_in_def artifact_exists_def by (auto elim!: store_call_cases simp: call_bind_eq touches_def)

lemma other_touches:
  "call_in (touches i) (fresh_uuid env)" "call_in (touches i) (on_rates f)" "call_in (touches i) (on_broker h)"
  by (auto simp: call_in_def fresh_uuid_def on_rates_def on_broker_def touches_def split: prod.splits)

lemma write_evidence_touches: "call_in (touches (request_id request)) (write_evidence env request d r job w ls)"
  unfolding write_evidence_def by (intro touched.in_rules write_json_touches) simp

lemmas touch_rules = touched.in_rules append_event_touches artifact_exists_touches other_touches write_evidence_touches

lemma deny_request_touches: "call_in (touches (request_id request)) (deny_request env request d)"
  unfolding deny_request_def record_policy_def Let_def by (intro touch_rules)

lemma fail_before_dispatch_touches: "call_in (touches (request_id request)) (fail_before_dispatch env request d b e job)"
  unfolding fail_before_dispatch_def Let_def by (intro touch_rules)

lemma canonical_id: "canonical_tool_request_with_digest env request = Inr (request', digest) \<Longrightarrow> request_id request' = request_id request"
  by (auto simp: canonical_tool_request_with_digest_def validate_tool_request_def split: sum.splits if_splits)

lemma reserve_request_touches: "call_in (touches (request_id request)) (reserve_request env request digest)"
  unfolding reserve_request_def Let_def by (intro touch_rules write_json_touches) simp

lemma canonical_authority_touches: "call_in (touches (request_id request)) (canonical_authority_inputs env c g request used)"
  unfolding canonical_authority_inputs_def prod.case
  by (cases used) (auto intro!: touch_rules deny_request_touches)

lemma canonical_inputs_touches: "call_in (touches (request_id request)) (canonical_inputs env c g request used)"
proof (cases "canonical_tool_request_with_digest env request")
  case (Inl e)
  then show ?thesis
    unfolding canonical_inputs_def reject_invalid_request_def Let_def by (simp add: touch_rules)
next
  case (Inr v)
  obtain request' digest where v: "v = (request', digest)" by fastforce
  show ?thesis
    using canonical_id [OF Inr [unfolded v]] reserve_request_touches [of request' env digest]
      canonical_authority_touches [of request' env c g used]
    unfolding canonical_inputs_def Inr v by (auto intro!: touch_rules)
qed

lemma resolve_tool_touches: "call_in (touches (request_id request)) (resolve_tool env request)"
  unfolding resolve_tool_def prod.case by (intro touch_rules deny_request_touches)

lemma evaluate_policy_touches: "call_in (touches (request_id request)) (evaluate_policy env c g request tool t used)"
  unfolding evaluate_policy_def Let_def by (intro touch_rules deny_request_touches)

lemma release_if_touches: "call_in (touches i) (release_if v)"
  unfolding release_if_def by (intro touch_rules)

lemma preflight_checked_touches: "call_in (touches (request_id request)) (preflight_checked env c g request tool t used)"
  unfolding preflight_checked_def approve_dispatch_def fail_preflight_def record_policy_def reserve_dispatch_def
  by (intro touch_rules evaluate_policy_touches fail_before_dispatch_touches deny_request_touches release_if_touches)

lemma gateway_preflight_touches: "call_in (touches (request_id request)) (gateway_preflight env c g request used)"
proof -
  have "touches (request_id request) s s'" if "gateway_preflight env c g request used s = (r, s')" for s r s'
    using that call_inD [OF canonical_inputs_touches] unfolding gateway_preflight_def
  proof (cases rule: call_bindE)
    case (returned x t)
    note t = call_inD [OF canonical_inputs_touches returned(1)]
    show ?thesis
    proof (cases x)
      case (Inl out)
      then show ?thesis using returned(2) t by simp
    next
      case (Inr v)
      obtain c' g' request' where v: "v = (c', g', request')" by (cases v)
      have i: "request_id request' = request_id request"
        using canonical_inputs_ok [OF returned(1) [unfolded Inr v]] canonical_id by blast
      have "call_in (touches (request_id request')) (call_bind (resolve_tool env request') (\<lambda>resolved.
          case resolved of Inl out \<Rightarrow> call_return (Inl out)
          | Inr (tool, t) \<Rightarrow> preflight_checked env c' g' request' tool t used))"
        by (intro touch_rules resolve_tool_touches preflight_checked_touches)
      then have "touches (request_id request) t s'"
        using returned(2) unfolding Inr v sum.case prod.case i by (rule call_inD)
      then show ?thesis using t touched.trans by blast
    qed
  qed blast
  then show ?thesis by (simp add: call_in_def)
qed

lemma record_revoked_touches: "call_in (touches i) (record_revoked env ls)"
proof (induction ls)
  case (Cons l ls)
  then show ?case
    using append_event_touches unfolding call_in_def
    by (auto split: prod.splits sum.splits if_splits) (blast intro: touched.trans)+
qed (simp add: call_in_def touched.refl)

lemma revoke_leases_touches: "call_in (touches i) (revoke_leases env ls reason)"
proof -
  have "touches i s s'" if run: "revoke_leases env ls reason s = (r, s')" for s r s'
  proof -
    obtain v t where e: "revoke_each env reason ls s = (v, t)" by fastforce
    obtain B where t: "t = s\<lparr>gs_broker := B\<rparr>" using revoke_each_kept [OF e] by blast
    have "touches i t s'"
      using run e by (auto simp: revoke_leases_def call_bind_eq split: prod.splits if_splits
        dest: call_inD [OF record_revoked_touches])
    then show ?thesis by (simp add: t touches_def)
  qed
  then show ?thesis by (simp add: call_in_def)
qed

lemma materialize_each_touches: "materialize_each env request job xs ls ms s = (v, s') \<Longrightarrow> touches i s s'"
proof (induction xs arbitrary: ls ms s)
  case (Cons x xs)
  have one: "call_in (touches i) (issue_one env request job x)" for x
    unfolding issue_one_def by (intro touch_rules)
  have two: "call_in (touches i) (materialize_one env request job l)" for l
    unfolding materialize_one_def by (intro touch_rules)
  show ?case
    using Cons.prems
    by (auto split: prod.splits sum.splits dest!: Cons.IH)
      (meson call_inD [OF one] call_inD [OF two] call_inD [OF append_event_touches] touched.trans)+
qed (simp add: touched.refl)

lemma materialize_secrets_touches: "call_in (touches i) (materialize_secrets env request job)"
  unfolding call_in_def materialize_secrets_def
  by (auto simp: call_bind_eq split: prod.splits sum.splits if_splits dest!: materialize_each_touches [of _ _ _ _ _ _ _ _ _ i])
    (meson call_inD [OF revoke_leases_touches] touched.trans)+

lemma release_touches: "call_in (touches i) (release_rate_reservation env a reason)"
  unfolding release_rate_reservation_def by (intro touch_rules)

lemma open_secret_scope_touches: "call_in (touches (request_id (pa_request a))) (open_secret_scope env a)"
  unfolding open_secret_scope_def by (intro touch_rules release_touches materialize_secrets_touches fail_before_dispatch_touches)

lemma run_worker_touches: "call_in (touches i) (run_worker env a scp)"
proof -
  have one: "call_in (touches i) (worker_answer env a scp v)" for v
    unfolding worker_answer_def by (intro touch_rules)
  have two: "call_in (touches i) (worker_cleanup env a scp b)" for b
    unfolding worker_cleanup_def by (intro touch_rules revoke_leases_touches)
  have "touches i s t" if "worker_attempt env a scp s = (v, t)" for s v t
    using that by (auto simp: worker_attempt_def touches_def split: sum.splits option.splits)
  then show ?thesis
    unfolding call_in_def run_worker_def
    by (auto split: prod.splits sum.splits) (meson call_inD [OF one] call_inD [OF two] touched.trans)+
qed

lemma gateway_dispatch_touches: "call_in (touches (request_id (pa_request a))) (gateway_dispatch env a scp)"
  unfolding gateway_dispatch_def cancel_before_dispatch_def start_dispatch_def finalize_execution_def
    record_worker_completed_def record_tool_result_def Let_def
  by (intro touch_rules revoke_leases_touches release_touches run_worker_touches)

lemma execute_approved_touches: "call_in (touches (request_id (pa_request a))) (execute_approved env a)"
  unfolding execute_approved_def
  by (intro touch_rules open_secret_scope_touches gateway_dispatch_touches release_touches fail_before_dispatch_touches)

lemma gateway_execute_touches:
  assumes "gateway_execute env c g request used s = (r, s')"
  shows "touches (request_id request) s s'"
proof (cases "ge_cancelling env 0")
  case True
  then show ?thesis using assms by (simp add: gateway_execute_def touched.refl)
next
  case False
  then obtain p t where p: "gateway_preflight env c g request used s = (p, t)" by fastforce
  note one = call_inD [OF gateway_preflight_touches p]
  show ?thesis
  proof (cases "\<exists>a. p = Inr (Inr a)")
    case True
    then obtain a where a: "p = Inr (Inr a)" by blast
    then have "request_id (pa_request a) = request_id request"
      using gateway_preflight_log p canonical_id by blast
    then show ?thesis
      using assms False p a one call_inD [OF execute_approved_touches] touched.trans
      unfolding gateway_execute_def by (fastforce simp: call_bind_eq)
  next
    case ref: False
    then show ?thesis
      using assms False p one unfolding gateway_execute_def by (auto elim!: call_bindE split: sum.splits)
  qed
qed

lemma reservation_path_inj [simp]: "reservation_path i = reservation_path j \<longleftrightarrow> i = j"
  by (simp add: reservation_path_def)

lemma grown_by_one: "D - {i} = C - {i} \<Longrightarrow> (i \<in> C \<Longrightarrow> i \<in> D) \<Longrightarrow> D = C \<or> D = insert i C"
  by (cases "i \<in> D") auto

text \<open>The simulation step, whatever the outcome of the call.\<close>

lemma gateway_execute_one_shot:
  assumes "gateway_execute env c g request used s = (r, s')"
  shows "\<exists>e. one_shot_step (one_shot_of s) e (one_shot_of s') \<and> e \<in> {Refused, Claimed (request_id request), Dispatched (request_id request)}"
proof -
  note t = gateway_execute_touches [OF assms]
  define i where "i = request_id request"
  have claimed: "os_claimed (one_shot_of s') = os_claimed (one_shot_of s) \<or> os_claimed (one_shot_of s') = insert i (os_claimed (one_shot_of s))"
    if g: "log_grows s s'"
  proof -
    have "dict_get (gs_files s') (reservation_path j) = dict_get (gs_files s) (reservation_path j)" if "j \<noteq> i" for j
      using t that paths_differ [of i j] by (simp add: touches_def i_def paths_differ [symmetric])
    then have same: "os_claimed (one_shot_of s') - {i} = os_claimed (one_shot_of s) - {i}"
      by (auto simp: one_shot_of_def)
    have "i \<in> os_claimed (one_shot_of s')" if "i \<in> os_claimed (one_shot_of s)"
      using that files_growD [OF g] by (auto simp: one_shot_of_def)
    then show ?thesis
      using grown_by_one [OF same] by blast
  qed
  show ?thesis
    using assms
  proof (cases rule: gateway_execute_cases)
    case quiet
    then have d: "os_dispatched (one_shot_of s') = os_dispatched (one_shot_of s)" by (simp add: no_run_def one_shot_of_def)
    have "one_shot_of s' = one_shot_of s \<or> one_shot_of s' = (one_shot_of s)\<lparr>os_claimed := insert i (os_claimed (one_shot_of s))\<rparr>"
      using claimed [OF no_run_grows [OF quiet]] d by (cases "one_shot_of s'"; cases "one_shot_of s") auto
    then show ?thesis
      using i_def by (cases "i \<in> os_claimed (one_shot_of s)") (auto simp: one_shot_step_simps insert_absorb)
  next
    case (ran a u scp)
    have g: "log_grows s s'" using call_inD [OF preflight_kept(1) ran(1)] ran(2) no_run_grows log_grows_trans by blast
    obtain digest where id: "request_id (pa_request a) = i" and
      f: "dict_get (gs_files s) (reservation_path i) = None" "dict_get (gs_files u) (reservation_path i) = Some (ReservationFile i digest)"
      using gateway_preflight_log [OF ran(1)] canonical_id i_def by metis
    have "i \<notin> os_claimed (one_shot_of s)" "i \<in> os_claimed (one_shot_of s')"
      using f files_growD [OF ran(2)] by (auto simp: one_shot_of_def)
    moreover have "os_dispatched (one_shot_of s') = os_dispatched (one_shot_of s) @ [i]"
      using ran(3) id by (simp add: one_shot_of_def)
    ultimately show ?thesis
      using claimed [OF g] i_def by (intro exI [of _ "Dispatched i"]) (auto simp: one_shot_step_simps)
  qed
qed

interpretation one_shots: transition_invariant one_shot_step one_shot_ok
  by unfold_locales (auto simp: one_shot_step_simps one_shot_ok_def)

lemma gateway_run_one_shot:
  assumes "steps gateway_step s qs s'"
  shows "\<exists>es. steps one_shot_step (one_shot_of s) es (one_shot_of s')"
  using assms
proof (induction rule: steps.induct)
  case (steps_nil s)
  show ?case by (rule exI, rule steps.steps_nil)
next
  case (steps_snoc s qs t q v)
  then obtain e where "one_shot_step (one_shot_of t) e (one_shot_of v)"
    using gateway_execute_one_shot unfolding gateway_step_def by blast
  moreover obtain es where "steps one_shot_step (one_shot_of s) es (one_shot_of t)" using steps_snoc.IH by blast
  ultimately show ?case by (intro exI) (rule steps.steps_snoc)
qed

text \<open>C7. The gateway implements one-shot dispatch: whatever a call does and however it ends, it is one step of the
  abstract dispatcher, under the identifier of its own request. It refuses, or it claims an identifier that was
  free, and only then may it dispatch.\<close>

theorem gateway_refines_one_shot:
  "gateway_execute env c g request used s = (r, s') \<Longrightarrow>
   \<exists>e. one_shot_step (one_shot_of s) e (one_shot_of s') \<and>
     e \<in> {Refused, Claimed (request_id request), Dispatched (request_id request)}"
  by (rule gateway_execute_one_shot)

text \<open>C2. Over any sequence of calls, by any gateways on one Run and with any store faults, no two Worker runs have the
  same request identifier, and the identifier of each run stays claimed by its reservation file.\<close>

theorem at_most_one_dispatch:
  assumes "steps gateway_step s qs s'" and "gs_runs s = []"
  shows "distinct (map (\<lambda>x. request_id (run_request x)) (gs_runs s')) \<and>
    (\<forall>x \<in> set (gs_runs s'). dict_get (gs_files s') (reservation_path (request_id (run_request x))) \<noteq> None)"
proof -
  obtain es where run: "steps one_shot_step (one_shot_of s) es (one_shot_of s')"
    using gateway_run_one_shot [OF assms(1)] by blast
  have "one_shot_ok (one_shot_of s)" using assms(2) by (simp add: one_shot_ok_def one_shot_of_def)
  with run have "one_shot_ok (one_shot_of s')" by (rule one_shots.run_inv)
  then show ?thesis by (auto simp: one_shot_ok_def one_shot_of_def)
qed

section \<open>A run of the sample\<close>

lemma sample_opened:
  assumes "wj_secret_requests (pa_job a) = []"
  shows "open_secret_scope env a s = (Inr (Inr \<lparr>ss_leases = [], ss_materials = []\<rparr>), s)"
  by (simp add: open_secret_scope_def materialize_secrets_def assms call_catch_def call_bind_def call_return_def)

lemma sample_started:
  assumes "store (gs_store_calls s) = StoreOk"
  shows "\<exists>t. start_dispatch (sample_gateway job store) a scp s = (Inr (), t)"
  using assms by (simp add: start_dispatch_def store_rules)

lemma sample_ran: "gs_runs (snd (sample_call sample_job (\<lambda>_. StoreOk))) \<noteq> []"
proof -
  let ?env = "sample_gateway sample_job (\<lambda>_. StoreOk)"
  obtain m where m: "prepare_job ?env sample_campaign granted_request (sample_adapter\<lparr>ta_prepare := (\<lambda>_. Inr (Some sample_job))\<rparr>) sample_tool 1 =
     Inr (Inr (sample_job\<lparr>wj_network := EGRESS_PROXY, wj_egress_policy := Some sample_policy\<rparr>, m))"
    using sample_prepared(1) by blast
  obtain a t where p: "gateway_preflight ?env (Some sample_campaign) (Some sample_grant) granted_request (PyInt 0) idle_gateway = (Inr (Inr a), t)"
    and a: "wj_secret_requests (pa_job a) = []"
    using sample_preflight [OF _ _ _ _ m] by (auto simp: sample_job_def)
  obtain v where v: "start_dispatch ?env a \<lparr>ss_leases = [], ss_materials = []\<rparr> t = (Inr (), v)"
    using sample_started [of "\<lambda>_. StoreOk" t] by blast
  obtain q w where q: "run_worker ?env a \<lparr>ss_leases = [], ss_materials = []\<rparr> v = (q, w)" by fastforce
  have "gs_runs w \<noteq> []"
    using q by (cases rule: run_worker_cases) (auto simp: sample_gateway_fields no_run_def)
  moreover have "gs_runs (snd (gateway_dispatch ?env a \<lparr>ss_leases = [], ss_materials = []\<rparr> t)) = gs_runs w"
  proof (cases q)
    case (Inl e)
    then show ?thesis using q v by (simp add: gateway_dispatch_def sample_gateway_fields call_bind_def)
  next
    case (Inr x)
    obtain answer revoked where x: "x = (answer, revoked)" by fastforce
    obtain r s' where f: "finalize_execution ?env a [] revoked answer w = (r, s')" by fastforce
    then have "gs_runs s' = gs_runs w" using call_inD [OF finalize_execution_audit f] by (auto simp: audit_only_def no_run_def)
    then show ?thesis using Inr q v f x by (simp add: gateway_dispatch_def sample_gateway_fields call_bind_def)
  qed
  ultimately show ?thesis
    using p a by (simp add: sample_call_def gateway_execute_def execute_approved_def sample_gateway_fields sample_opened call_bind_def call_lift_def)
qed

theorem worker_runs_only_approved_witness:
  "gs_runs (snd (sample_call sample_job (\<lambda>_. StoreOk))) \<noteq> [] \<and>
   (\<exists>at_time a scp. approval_facts (sample_gateway sample_job (\<lambda>_. StoreOk)) sample_campaign sample_grant (PyInt 0) at_time a \<and>
      gs_runs (snd (sample_call sample_job (\<lambda>_. StoreOk))) =
        [\<lparr>run_request = pa_request a, run_job = pa_job a, run_materials = ss_materials (scp :: secret_execution_scope)\<rparr>])"
proof -
  obtain r s' where call: "sample_call sample_job (\<lambda>_. StoreOk) = (r, s')" by fastforce
  have "gs_runs s' \<noteq> gs_runs idle_gateway" using sample_ran call by (simp add: idle_gateway_def)
  then show ?thesis
    using worker_runs_only_approved [OF call [unfolded sample_call_def]] call by (auto simp: idle_gateway_def)
qed

theorem gateway_refines_one_shot_witness:
  "\<exists>e. one_shot_step (one_shot_of idle_gateway) e (one_shot_of (snd (sample_call sample_job (\<lambda>_. StoreOk)))) \<and>
     e \<in> {Refused, Claimed ''tool_1'', Dispatched ''tool_1''}"
proof -
  obtain r s' where call: "sample_call sample_job (\<lambda>_. StoreOk) = (r, s')" by fastforce
  have "request_id granted_request = ''tool_1''" by (simp add: granted_request_def sample_request_def)
  then show ?thesis using gateway_refines_one_shot [OF call [unfolded sample_call_def]] call by simp
qed

theorem at_most_one_dispatch_witness:
  "gs_runs (snd (sample_call sample_job (\<lambda>_. StoreOk))) \<noteq> [] \<and>
   distinct (map (\<lambda>x. request_id (run_request x)) (gs_runs (snd (sample_call sample_job (\<lambda>_. StoreOk)))))"
proof -
  obtain r s' where call: "sample_call sample_job (\<lambda>_. StoreOk) = (r, s')" by fastforce
  then have run: "gateway_step idle_gateway \<lparr>gr_env = sample_gateway sample_job (\<lambda>_. StoreOk), gr_campaign = Some sample_campaign,
      gr_grant = Some sample_grant, gr_request = granted_request, gr_used_calls = PyInt 0\<rparr> s'"
    by (auto simp: gateway_step_def sample_call_def)
  show ?thesis using at_most_one_dispatch [OF steps_single [of gateway_step, OF run]] sample_ran call by (simp add: idle_gateway_def)
qed

section \<open>Network authority\<close>

lemma validated_job:
  assumes "validate_worker_job j = Inr j'"
  shows "\<exists>v. j' = j\<lparr>wj_egress_policy := v\<rparr> \<and>
    (case wj_egress_policy j of None \<Rightarrow> v = None | Some p \<Rightarrow> v = Some (p\<lparr>ep_allowed_methods := upper_method ` ep_allowed_methods p\<rparr>))"
  using assms by (cases "wj_egress_policy j")
    (auto simp: validate_worker_job_def make_egress_policy_def Let_def split: if_splits intro: exI [of _ "None"])

lemma made_policy: "make_egress_policy p = Inr q \<Longrightarrow> q = p\<lparr>ep_allowed_methods := upper_method ` ep_allowed_methods p\<rparr>"
  by (auto simp: make_egress_policy_def Let_def split: if_splits)

lemma granted_job:
  assumes "grant_egress env c job request n limit = Inr job'"
  shows "\<exists>p rules. (if request_method request = ''CONNECT'' then connect_rules (env_unicode (ge_policy env)) c request
        else Inr (scope_allow (spec_scope (campaign_spec c)), scope_deny (spec_scope (campaign_spec c)))) = Inr rules \<and>
     job' = job\<lparr>wj_network := EGRESS_PROXY, wj_egress_policy := Some p\<rparr> \<and>
     (ep_allow p, ep_deny p) = rules \<and> ep_max_requests p = n \<and>
     ep_allow_private_networks p = allow_private_networks (spec_rules_of_engagement (campaign_spec c)) \<and>
     ep_allowed_methods p = upper_method ` upper_method ` allowed_methods (spec_rules_of_engagement (campaign_spec c))"
proof -
  let ?roe = "spec_rules_of_engagement (campaign_spec c)"
  obtain allow_rules deny_rules policy where
    rules: "(if request_method request = ''CONNECT'' then connect_rules (env_unicode (ge_policy env)) c request
        else Inr (scope_allow (spec_scope (campaign_spec c)), scope_deny (spec_scope (campaign_spec c)))) = Inr (allow_rules, deny_rules)" and
    made: "make_egress_policy
       \<lparr>ep_allow = allow_rules, ep_deny = deny_rules, ep_allowed_methods = allowed_methods ?roe,
        ep_allow_private_networks = allow_private_networks ?roe,
        ep_max_response_bytes = (case limit of Some n \<Rightarrow> n | None \<Rightarrow> MAX_EGRESS_PROXY_RESPONSE_BYTES),
        ep_max_requests = n, ep_max_request_bytes = request_byte_limit_override job\<rparr> = Inr policy" and
    valid: "validate_worker_job (job\<lparr>wj_network := EGRESS_PROXY, wj_egress_policy := Some policy\<rparr>) = Inr job'"
    using assms unfolding grant_egress_def by (auto split: sum.splits prod.splits simp del: if_split)
  let ?p = "policy\<lparr>ep_allowed_methods := upper_method ` ep_allowed_methods policy\<rparr>"
  have "job' = job\<lparr>wj_network := EGRESS_PROXY, wj_egress_policy := Some ?p\<rparr>" using validated_job [OF valid] by auto
  moreover note made_policy [OF made]
  ultimately show ?thesis using rules by (intro exI [of _ ?p] exI [of _ "(allow_rules, deny_rules)"]) auto
qed

lemma normalize_rules_member:
  "normalize_rules db rules = Inr ns \<Longrightarrow> n \<in> set ns \<longleftrightarrow> (\<exists>r \<in> set rules. normalize_scope_pattern db (u r) = Inr n)"
proof (induction rules arbitrary: ns)
  case (Cons r rules)
  then show ?case by (auto split: sum.splits)
qed simp

lemma normalize_rules_all: "normalize_rules db rules = Inr ns \<Longrightarrow> r \<in> set rules \<Longrightarrow> \<exists>n \<in> set ns. normalize_scope_pattern db (u r) = Inr n"
proof (induction rules arbitrary: ns)
  case (Cons a rules)
  then show ?case by (auto split: sum.splits)
qed simp

lemma connect_rules_exact:
  assumes "connect_rules db c request = Inr (allow_rules, deny_rules)"
  shows "\<exists>netloc. allow_rules = [ascii_text (u ''https://'' @ netloc @ u ''/**'')] \<and> deny_rules = [] \<and> exact_authority db c netloc \<and>
    ''CONNECT'' \<in> allowed_methods (spec_rules_of_engagement (campaign_spec c))"
proof -
  obtain target :: split_result and ns ds where
    ns: "normalize_rules db (scope_allow (spec_scope (campaign_spec c))) = Inr ns" and
    ds: "normalize_rules db (scope_deny (spec_scope (campaign_spec c))) = Inr ds" and
    rule: "u ''https://'' @ sp_netloc target @ u ''/**'' \<in> set ns" and
    no: "py_any (\<lambda>rule. map_sum id (\<lambda>p. sp_netloc p = sp_netloc target) (urlsplit db rule)) ds = Inr False" and
    rules: "allow_rules = [ascii_text (u ''https://'' @ sp_netloc target @ u ''/**'')]" "deny_rules = []"
      "''CONNECT'' \<in> allowed_methods (spec_rules_of_engagement (campaign_spec c))"
    using assms unfolding connect_rules_def Let_def by (auto split: if_splits sum.splits bool.splits)
  have "\<exists>n q. normalize_scope_pattern db (u r) = Inr n \<and> urlsplit db n = Inr q \<and> sp_netloc q \<noteq> sp_netloc target"
    if mem: "r \<in> set (scope_deny (spec_scope (campaign_spec c)))" for r
  proof -
    obtain n where n: "n \<in> set ds" "normalize_scope_pattern db (u r) = Inr n" using normalize_rules_all [OF ds mem] by blast
    then have "map_sum id (\<lambda>p. sp_netloc p = sp_netloc target) (urlsplit db n) = Inr False" using no by (simp add: py_any_False)
    then show ?thesis using n(2) by (cases "urlsplit db n") auto
  qed
  then have "exact_authority db c (sp_netloc target)"
    using normalize_rules_member [OF ns] rule by (auto simp: exact_authority_def)
  then show ?thesis using rules by blast
qed

text \<open>C15. The network of a Worker is the campaign's: a prepared job is the adapter's, except for its network. A tool
  without network access gets none. Any other gets the egress proxy with the campaign's methods and private-network
  flag and the approved number of requests; its rules are the campaign's, and for CONNECT the one exact rule of the
  authority, which the campaign allows host-wide and no deny rule names. Secrets need the gateway's permission.\<close>

theorem network_is_the_campaigns:
  assumes "prepare_job env c request tool t n = Inr (Inr (job, metadata))"
    and policy: "wj_egress_policy job = policy"
  shows "\<exists>raw. ta_prepare tool request = Inr (Some raw) \<and> job = raw\<lparr>wj_network := wj_network job, wj_egress_policy := policy\<rparr> \<and>
    (wj_secret_requests job = [] \<or> ge_allow_secret_requests env) \<and>
    (if \<not> tool_network_access t then wj_network job = NETWORK_NONE \<and> policy = None
     else wj_network job = EGRESS_PROXY \<and> (\<exists>p. policy = Some p \<and> ep_max_requests p = n \<and>
       ep_allow_private_networks p = allow_private_networks (spec_rules_of_engagement (campaign_spec c)) \<and>
       ep_allowed_methods p = upper_method ` upper_method ` allowed_methods (spec_rules_of_engagement (campaign_spec c)) \<and>
       (if request_method request = ''CONNECT''
        then ''CONNECT'' \<in> allowed_methods (spec_rules_of_engagement (campaign_spec c)) \<and> ep_deny p = [] \<and>
          (\<exists>netloc. ep_allow p = [ascii_text (u ''https://'' @ netloc @ u ''/**'')] \<and>
             exact_authority (env_unicode (ge_policy env)) c netloc)
        else ep_allow p = scope_allow (spec_scope (campaign_spec c)) \<and> ep_deny p = scope_deny (spec_scope (campaign_spec c)))))"
proof -
  obtain raw job0 where raw: "ta_prepare tool request = Inr (Some raw)" and v: "validate_worker_job raw = Inr job0"
    and secrets: "wj_secret_requests job0 = [] \<or> ge_allow_secret_requests env"
    and plain: "wj_network job0 = NETWORK_NONE" "wj_egress_policy job0 = None"
    and job: "if tool_network_access t then \<exists>limit. grant_egress env c job0 request n limit = Inr job else job = job0"
    using assms(1) unfolding prepare_job_def prepared_job_def by (auto split: sum.splits option.splits if_splits)
  have job0: "job0 = raw\<lparr>wj_network := NETWORK_NONE, wj_egress_policy := None\<rparr>"
    using validated_job [OF v] plain by auto
  show ?thesis
  proof (cases "tool_network_access t")
    case False
    then show ?thesis using raw job job0 secrets policy by (intro exI [of _ raw]) auto
  next
    case True
    then obtain limit where "grant_egress env c job0 request n limit = Inr job" using job by auto
    from granted_job [OF this] obtain p rules where
      rules: "(if request_method request = ''CONNECT'' then connect_rules (env_unicode (ge_policy env)) c request
        else Inr (scope_allow (spec_scope (campaign_spec c)), scope_deny (spec_scope (campaign_spec c)))) = Inr rules"
      and p: "job = job0\<lparr>wj_network := EGRESS_PROXY, wj_egress_policy := Some p\<rparr>" "(ep_allow p, ep_deny p) = rules" "ep_max_requests p = n"
        "ep_allow_private_networks p = allow_private_networks (spec_rules_of_engagement (campaign_spec c))"
        "ep_allowed_methods p = upper_method ` upper_method ` allowed_methods (spec_rules_of_engagement (campaign_spec c))"
      by blast
    have "if request_method request = ''CONNECT''
        then ''CONNECT'' \<in> allowed_methods (spec_rules_of_engagement (campaign_spec c)) \<and> ep_deny p = [] \<and>
          (\<exists>netloc. ep_allow p = [ascii_text (u ''https://'' @ netloc @ u ''/**'')] \<and>
             exact_authority (env_unicode (ge_policy env)) c netloc)
        else ep_allow p = scope_allow (spec_scope (campaign_spec c)) \<and> ep_deny p = scope_deny (spec_scope (campaign_spec c))"
    proof (cases "request_method request = ''CONNECT''")
      case True
      then have "connect_rules (env_unicode (ge_policy env)) c request = Inr (ep_allow p, ep_deny p)" using rules p(2) by simp
      from connect_rules_exact [OF this] True show ?thesis by auto
    next
      case False
      then show ?thesis using rules p(2) by auto
    qed
    then show ?thesis using True raw job0 p secrets policy by (intro exI [of _ raw] conjI) auto
  qed
qed

theorem network_is_the_campaigns_witness:
  "\<exists>m. prepare_job (sample_gateway sample_job (\<lambda>_. StoreOk)) sample_campaign granted_request
       (sample_adapter\<lparr>ta_prepare := (\<lambda>_. Inr (Some sample_job))\<rparr>) sample_tool 1 =
     Inr (Inr (sample_job\<lparr>wj_network := EGRESS_PROXY, wj_egress_policy := Some sample_policy\<rparr>, m)) \<and>
   ep_max_requests sample_policy = 1 \<and> ep_allow sample_policy = scope_allow (spec_scope (campaign_spec sample_campaign)) \<and>
   ep_deny sample_policy = scope_deny (spec_scope (campaign_spec sample_campaign))"
proof -
  obtain m where m: "prepare_job (sample_gateway sample_job (\<lambda>_. StoreOk)) sample_campaign granted_request
      (sample_adapter\<lparr>ta_prepare := (\<lambda>_. Inr (Some sample_job))\<rparr>) sample_tool 1 =
     Inr (Inr (sample_job\<lparr>wj_network := EGRESS_PROXY, wj_egress_policy := Some sample_policy\<rparr>, m))"
    using sample_prepared(1) by blast
  have "tool_network_access sample_tool" "request_method granted_request \<noteq> ''CONNECT''"
    by (simp_all add: sample_tool_def granted_request_def sample_request_def)
  then show ?thesis using network_is_the_campaigns [OF m, of "Some sample_policy"] m by auto
qed

end
