(* ===== verification/Gateway_Resources.thy ===== *)
theory Gateway_Resources
  imports Gateway_Safety
begin

text \<open>
  What a call of the gateway leaves behind: rate-limit units and secret leases. The store may fail at every
  call; the results need that it raises only ordinary exceptions and that \<open>uuid4\<close> gives values not in use.
\<close>

section \<open>Hypotheses and outcomes\<close>

text \<open>The store and the guard raise only what \<open>except Exception\<close> catches.\<close>

definition ordinary_faults :: "gateway_env \<Rightarrow> bool" where
  "ordinary_faults env \<longleftrightarrow>
     (\<forall>n landed e. ge_store env n = StoreFails landed e \<longrightarrow> is_exception e) \<and>
     (\<forall>guard k e. ge_guard env = Some guard \<longrightarrow> guard k = Inl e \<longrightarrow> is_exception e)"

text \<open>The next \<open>uuid4\<close> values are not yet in use in the ledger.\<close>

definition fresh_reservations :: "gateway_env \<Rightarrow> gateway_state \<Rightarrow> bool" where
  "fresh_reservations env s \<longleftrightarrow>
     (\<forall>n name. gs_uuids s \<le> n \<longrightarrow>
        ''rate-reservation_'' @ ge_uuid env n \<notin> unit_reservation_id ` set (units_of_campaign (gs_rates s) name))"

text \<open>Per campaign the ledger has the units it had, or those of them the reading of the clock leaves in the minute.\<close>

definition expired_dropped :: "now_argument \<Rightarrow> rate_ledger \<Rightarrow> rate_ledger \<Rightarrow> bool" where
  "expired_dropped now L L' \<longleftrightarrow>
     (\<forall>name. units_of_campaign L' name = units_of_campaign L name \<or>
        (\<exists>t. normalized_time now = Inr t \<and>
           units_of_campaign L' name = popleft_expired (t - rate_minute) (units_of_campaign L name)))"

definition returnable :: "now_argument \<Rightarrow> rate_ledger \<Rightarrow> rate_ledger \<Rightarrow> rate_reservation option \<Rightarrow> bool" where
  "returnable now L L' v \<longleftrightarrow>
     (case v of None \<Rightarrow> expired_dropped now L L' | Some r \<Rightarrow> \<exists>L''. rate_release L' r = (Inr (), L'') \<and> expired_dropped now L L'')"

definition dispatch_recorded :: "gateway_state \<Rightarrow> gateway_state \<Rightarrow> bool" where
  "dispatch_recorded s s' \<longleftrightarrow>
     (\<exists>es metadata ids es'. gs_events s' = gs_events s @ es @ WorkerDispatched metadata ids # es')"

text \<open>A refused preflight leaves the capacity as it was; an approved one holds a reservation that can be returned.\<close>

definition capacity_of :: "now_argument \<Rightarrow> rate_ledger \<Rightarrow> (gateway_outcome + preflight_approval) result \<Rightarrow> rate_ledger \<Rightarrow> bool" where
  "capacity_of now L r L' \<longleftrightarrow>
     (case r of Inr (Inr a) \<Rightarrow> returnable now L L' (pa_rate_reservation a) | _ \<Rightarrow> expired_dropped now L L')"

definition fresh_leases :: "gateway_env \<Rightarrow> gateway_state \<Rightarrow> bool" where
  "fresh_leases env s \<longleftrightarrow>
     (\<forall>n. gs_uuids s \<le> n \<longrightarrow> dict_get (sb_leases (gs_broker s)) (''lease_'' @ ge_uuid env n) = None)"

text \<open>The leases of a call are new, belong to the Run, and no other lease changed.\<close>

definition owned_leases :: "gateway_env \<Rightarrow> secret_broker \<Rightarrow> secret_lease list \<Rightarrow> secret_broker \<Rightarrow> bool" where
  "owned_leases env B0 ls B \<longleftrightarrow>
     (\<forall>l \<in> set ls. dict_get (sb_leases B0) (sl_id l) = None \<and>
        (\<exists>l'. dict_get (sb_leases B) (sl_id l) = Some l' \<and> sl_id l' = sl_id l \<and> sl_scope l' = Some (ge_run_id env))) \<and>
     (\<forall>i. i \<notin> sl_id ` set ls \<longrightarrow> dict_get (sb_leases B) i = dict_get (sb_leases B0) i) \<and>
     (ls \<noteq> [] \<longrightarrow> check_scope_argument (Some (ge_run_id env)) = Inr ())"

definition lease_inactive :: "secret_broker \<Rightarrow> string \<Rightarrow> bool" where
  "lease_inactive B i \<longleftrightarrow> (\<forall>l. dict_get (sb_leases B) i = Some l \<longrightarrow> sl_status l \<noteq> LEASE_ACTIVE)"

definition leases_ended :: "secret_broker \<Rightarrow> secret_broker \<Rightarrow> bool" where
  "leases_ended B B' \<longleftrightarrow>
     (\<forall>i. dict_get (sb_leases B') i = dict_get (sb_leases B) i \<or>
        dict_get (sb_leases B) i = None \<and> lease_inactive B' i)"

definition failing_store :: "nat \<Rightarrow> nat \<Rightarrow> store_outcome" where
  "failing_store k n = (if n = k then StoreFails False OSError else StoreOk)"

definition issued_lease :: secret_lease where
  "issued_lease = \<lparr>sl_id = ''lease_a'', sl_fingerprint = take 16 (sha256_hex [100, 98]), sl_audience = ''agent:exec_1'',
     sl_binding = ''password'', sl_scope = Some ''run'', sl_issued_at = seconds 5, sl_expires_at = seconds 35, sl_max_uses = 1,
     sl_remaining_uses = 1, sl_status = LEASE_ACTIVE, sl_revoked_reason = None\<rparr>"

section \<open>Rate-limit capacity\<close>

lemma expired_dropped_refl [simp]: "expired_dropped now L L"
  by (simp add: expired_dropped_def)

lemma popleft_subset: "set (popleft_expired cutoff us) \<subseteq> set us"
  by (induction us) auto

lemma reserve_untouched:
  assumes "reserve_for_dispatch L c now cost hex = (q, L')" and "(\<exists>e. q = Inl e) \<or> (\<exists>e. normalized_time now = Inl e)"
  shows "L' = L \<and> (\<forall>e. q = Inl e \<longrightarrow> is_exception e) \<and> (\<forall>d v. q = Inr (d, v) \<longrightarrow> v = None)"
  using assms
  by (auto simp: reserve_for_dispatch_def normalized_time_def is_exception_def Let_def
    split: if_splits option.splits sum.splits now_argument.splits)

lemma release_block:
  assumes "res_id r \<notin> unit_reservation_id ` set us" and "1 \<le> res_request_cost r"
    and "dict_get (request_times L) (res_campaign r) = Some (us @ block_units (r, t))"
  shows "\<exists>L'. rate_release L r = (Inr (), L') \<and>
    (\<forall>name. units_of_campaign L' name = (if name = res_campaign r then us else units_of_campaign L name))"
proof -
  have "filter (\<lambda>x. unit_reservation_id x \<noteq> res_id r) us = us"
    by (rule filter_True) (use assms(1) in \<open>metis imageI\<close>)
  then have "filter (\<lambda>x. unit_reservation_id x \<noteq> res_id r) (us @ block_units (r, t)) = us"
    by (simp add: block_units_def)
  then show ?thesis
    using assms(2, 3) by (simp add: rate_release_def Let_def block_units_def)
qed

lemma reserve_returnable:
  assumes run: "reserve_for_dispatch L c now cost hex = (Inr (d, v), L')"
    and fresh: "\<And>name. ''rate-reservation_'' @ hex \<notin> unit_reservation_id ` set (units_of_campaign L name)"
  shows "returnable now L L' v \<and> (v = None \<longrightarrow> expired_dropped now L L')"
proof (cases "normalized_time now")
  case (Inl e)
  then show ?thesis using reserve_untouched [OF run] by (simp add: returnable_def)
next
  case (Inr t)
  show ?thesis
    using run Inr
  proof (cases rule: reserve_cases)
    case (reserved limit us n r')
    have "res_id r' \<notin> unit_reservation_id ` set us"
      using fresh [of "metadata_name c"] popleft_subset [of "t - rate_minute" "units_of_campaign L (metadata_name c)"]
      unfolding reserved(2, 6) by (simp only: rate_reservation.simps) blast
    then obtain L'' where r: "rate_release L' r' = (Inr (), L'')" and
      us: "\<forall>name. units_of_campaign L'' name = (if name = res_campaign r' then us else units_of_campaign L' name)"
      using release_block [of r' us L' t] reserved(3, 6, 7) by (auto simp: dict_simps)
    have "expired_dropped now L L''"
      unfolding expired_dropped_def us [rule_format] using reserved(2, 6, 7) Inr by auto
    then show ?thesis using r reserved(5) by (simp add: returnable_def)
  qed (use Inr in \<open>auto simp: returnable_def expired_dropped_def\<close>)
qed

lemma same_reading:
  assumes "normalized_time now = Inr t"
  shows "expired_dropped (NowDatetime (utc_datetime t)) = expired_dropped now" "returnable (NowDatetime (utc_datetime t)) = returnable now"
proof -
  have "normalized_time (NowDatetime (utc_datetime t)) = normalized_time now"
    using assms by (auto simp: normalized_time_def utc_datetime_def utcoffset_def split: now_argument.splits option.splits if_splits)
  then show e: "expired_dropped (NowDatetime (utc_datetime t)) = expired_dropped now"
    by (intro ext) (simp add: expired_dropped_def)
  show "returnable (NowDatetime (utc_datetime t)) = returnable now"
    by (intro ext) (unfold returnable_def e, rule refl)
qed

lemma fresh_reservations_later:
  "fresh_reservations env s \<Longrightarrow> rates_kept s t \<Longrightarrow> fresh_reservations env t"
  by (simp add: fresh_reservations_def rates_kept_def log_grows_def)

lemma reserve_dispatch_returnable:
  assumes "reserve_dispatch env c at_time n s = (q, s')" and "fresh_reservations env s"
  shows "\<exists>d v. q = Inr (d, v) \<and> returnable (NowDatetime (utc_datetime at_time)) (gs_rates s) (gs_rates s') v \<and> (d \<noteq> None \<longrightarrow> expired_dropped (NowDatetime (utc_datetime at_time)) (gs_rates s) (gs_rates s'))"
proof -
  obtain p L where r: "reserve_for_dispatch (gs_rates s) c (NowDatetime (utc_datetime at_time)) (PyInt n) (ge_uuid env (gs_uuids s)) = (p, L)"
    by fastforce
  have q: "(case p of Inl e \<Rightarrow> q = (if is_exception e then Inr (Some (deny ''campaign rate-limit authority failed closed'' ''rate-limit''), None)
      else Inl e) | Inr w \<Rightarrow> q = Inr w) \<and> gs_rates s' = L"
    using assms(1) r unfolding reserve_dispatch_def
    by (auto simp: call_bind_eq call_catch_eq fresh_uuid_def on_rates_def split: prod.splits)
  show ?thesis
  proof (cases p)
    case (Inl e)
    then show ?thesis using q reserve_untouched [OF r] by (auto simp: returnable_def)
  next
    case (Inr w)
    obtain d v where w: "w = (d, v)" by fastforce
    have "returnable (NowDatetime (utc_datetime at_time)) (gs_rates s) L v \<and> (v = None \<longrightarrow> expired_dropped (NowDatetime (utc_datetime at_time)) (gs_rates s) L)"
      by (rule reserve_returnable [OF r [unfolded Inr w]]) (use assms(2) in \<open>auto simp only: fresh_reservations_def order_refl\<close>)
    moreover have "d \<noteq> None \<Longrightarrow> v = None"
      using r unfolding Inr w reserve_for_dispatch_def Let_def by (auto split: option.splits sum.splits if_splits)
    ultimately show ?thesis using q Inr w by auto
  qed
qed

lemma release_if_returns:
  assumes "release_if v s = (r, s')" and "returnable now L (gs_rates s) v"
  shows "expired_dropped now L (gs_rates s')"
  using assms by (auto simp: release_if_def returnable_def on_rates_def split: option.splits prod.splits)

lemma release_rate_reservation_returns:
  assumes "release_rate_reservation env a reason s = (r, s')" and "returnable now L (gs_rates s) (pa_rate_reservation a)"
  shows "expired_dropped now L (gs_rates s')"
proof (cases "pa_rate_reservation a")
  case None
  then show ?thesis using assms by (simp add: release_rate_reservation_def returnable_def)
next
  case (Some v)
  then obtain L'' where L: "rate_release (gs_rates s) v = (Inr (), L'')" "expired_dropped now L L''"
    using assms(2) by (auto simp: returnable_def)
  then have "gs_rates s' = L''"
    using assms(1) Some call_inD [OF append_event_audit]
    by (auto simp: release_rate_reservation_def call_bind_eq on_rates_def dest!: audit_onlyD(2) call_inD [OF append_event_audit] simp: rates_kept_def)
  then show ?thesis using L by simp
qed


lemma audit_rates: "call_in audit_only m \<Longrightarrow> m s = (r, s') \<Longrightarrow> gs_rates s' = gs_rates s"
  by (auto dest!: call_inD audit_onlyD(2) simp: rates_kept_def)

lemma approve_dispatch_capacity:
  assumes "approve_dispatch env c request tool spec decision cost at_time job metadata s = (r, s')" and "fresh_reservations env s"
    and clock: "normalized_time (ge_clock env) = Inr at_time"
  shows "capacity_of (ge_clock env) (gs_rates s) r (gs_rates s')"
proof -
  obtain q t where q: "reserve_dispatch env c at_time cost s = (q, t)" by fastforce
  obtain d v where d: "q = Inr (d, v)" and v: "returnable (ge_clock env) (gs_rates s) (gs_rates t) v"
    and denied: "d \<noteq> None \<Longrightarrow> expired_dropped (ge_clock env) (gs_rates s) (gs_rates t)"
    using reserve_dispatch_returnable [OF q assms(2)] same_reading [OF clock] by metis
  show ?thesis
  proof (cases d)
    case None
    obtain p t' where p: "record_policy env request decision t = (p, t')" by fastforce
    note t' = audit_rates [OF record_policy_audit p]
    show ?thesis
      using assms(1) q d None p t' v release_if_returns [of v t' _ _ "ge_clock env"] unfolding approve_dispatch_def
      by (cases p) (auto simp: call_bind_eq call_catch_eq capacity_of_def)
  next
    case (Some x)
    then show ?thesis
      using assms(1) q d denied audit_rates [OF deny_request_audit] unfolding approve_dispatch_def
      by (auto simp: call_bind_eq capacity_of_def)
  qed
qed

lemma preflight_checked_capacity:
  assumes "preflight_checked env c g request tool t used s = (r, s')" and "fresh_reservations env s"
  shows "capacity_of (ge_clock env) (gs_rates s) r (gs_rates s')"
  using assms(1) unfolding preflight_checked_def
proof (cases rule: call_bindE)
  case (raised e)
  then show ?thesis using audit_rates [OF evaluate_policy_audit raised(1)] by (simp add: capacity_of_def)
next
  case (returned x s1)
  note s1 = call_inD [OF evaluate_policy_audit returned(1)]
  have fresh: "fresh_reservations env s1" using fresh_reservations_later [OF assms(2) audit_onlyD(2) [OF s1]] .
  have same: "gs_rates s1 = gs_rates s" using s1 by (simp add: audit_only_def rates_kept_def)
  have fail: "call_in audit_only (fail_preflight env request d error)" for d error
    unfolding fail_preflight_def by (intro audit_calls audit.in_rules)
  have failed: "capacity_of (ge_clock env) (gs_rates s) r (gs_rates s')" if run: "fail_preflight env request d error s1 = (r, s')" for d error
    using audit_rates [OF fail run] same run
    by (auto simp: capacity_of_def fail_preflight_def call_bind_eq split: sum.splits)
  show ?thesis
  proof (cases x)
    case (Inl out)
    then show ?thesis using returned(2) same by (simp add: capacity_of_def)
  next
    case (Inr v)
    then show ?thesis
      using returned(2) failed approve_dispatch_capacity [OF _ fresh] evaluate_policy_ok returned(1) same
      by (cases v) (auto elim!: call_bindE split: option.splits sum.splits prod.splits simp: capacity_of_def [of _ _ "Inl _"])
  qed
qed

lemma gateway_preflight_capacity:
  assumes "gateway_preflight env c g request used s = (r, s')" and "fresh_reservations env s"
  shows "capacity_of (ge_clock env) (gs_rates s) r (gs_rates s')"
  using assms(1) unfolding gateway_preflight_def
proof (cases rule: call_bindE)
  case (raised e)
  then show ?thesis using audit_rates [OF canonical_inputs_audit raised(1)] by (simp add: capacity_of_def)
next
  case (returned x s1)
  note s1 = call_inD [OF canonical_inputs_audit returned(1)]
  show ?thesis
  proof (cases x)
    case (Inl out)
    then show ?thesis using returned(2) s1 by (simp add: capacity_of_def audit_only_def rates_kept_def)
  next
    case (Inr v)
    obtain c' g' request' where v: "v = (c', g', request')" by (cases v)
    obtain q s2 where q: "resolve_tool env request' s1 = (q, s2)" by fastforce
    note s2 = call_inD [OF resolve_tool_audit q]
    have kept: "rates_kept s s2" using s1 s2 audit_onlyD(2) rates.trans by blast
    show ?thesis
      using returned(2) q kept preflight_checked_capacity [OF _ fresh_reservations_later [OF assms(2) kept]]
      unfolding Inr v sum.case prod.case
      by (auto elim!: call_bindE split: sum.splits prod.splits simp: rates_kept_def capacity_of_def [of _ _ "Inl _"]
        capacity_of_def [of _ _ "Inr (Inl _)"])
  qed
qed

section \<open>Ordinary failures\<close>

lemma append_event_raises: "append_event env ev s = (Inl e, s') \<Longrightarrow> ordinary_faults env \<Longrightarrow> is_exception e"
  by (auto simp: append_event_def store_call_def Let_def ordinary_faults_def split: store_outcome.splits)

lemma guard_raises: "guard_worker_dispatch env k = Inl e \<Longrightarrow> ordinary_faults env \<Longrightarrow> False"
  by (auto simp: guard_worker_dispatch_def ordinary_faults_def split: option.splits sum.splits if_splits)

lemma check_scope_raises: "check_scope_argument v = Inl e \<Longrightarrow> is_exception e"
  by (auto simp: check_scope_argument_def validate_lease_scope_def is_exception_def split: option.splits if_splits)

lemma fingerprint_raises: "secret_fingerprint v = Inl e \<Longrightarrow> is_exception e"
  by (auto simp: secret_fingerprint_def require_utf8_def is_exception_def split: option.splits if_splits sum.splits)

lemma secret_value_raises: "validate_secret_value v = Inl e \<Longrightarrow> is_exception e"
  by (auto simp: validate_secret_value_def require_utf8_def is_exception_def Let_def split: option.splits if_splits sum.splits)

lemma find_lease_raises: "find_lease B i scp = Inl e \<Longrightarrow> is_exception e"
  by (auto simp: find_lease_def is_exception_def split: sum.splits option.splits if_splits dest!: check_scope_raises)

lemma secret_issue_raises: "secret_issue B ref hex audience binding scp ttl uses now = (Inl e, B') \<Longrightarrow> is_exception e"
  unfolding secret_issue_def issue_lease_def Let_def
  by (auto split: if_splits sum.splits dest!: check_scope_raises fingerprint_raises simp: is_exception_def)

lemma materialize_raises: "materialize B i audience scp now = (Inl e, B') \<Longrightarrow> is_exception e"
  unfolding materialize_def Let_def
  by (auto split: if_splits sum.splits option.splits dest!: find_lease_raises secret_value_raises simp: is_exception_def)

lemma record_revoked_raises: "record_revoked env ls s = (Inl e, s') \<Longrightarrow> ordinary_faults env \<Longrightarrow> False"
proof (induction ls arbitrary: s)
  case (Cons l ls)
  then show ?case
    by (auto split: prod.splits sum.splits if_splits dest: append_event_raises)
qed simp

lemma revoke_leases_raises: "revoke_leases env ls reason s = (Inl e, s') \<Longrightarrow> ordinary_faults env \<Longrightarrow> is_exception e"
  by (auto simp: revoke_leases_def call_bind_eq is_exception_def split: prod.splits if_splits dest: record_revoked_raises)

lemma materialize_each_raises:
  "materialize_each env request job xs ls ms s = ((Inl e, ls'), s') \<Longrightarrow> ordinary_faults env \<Longrightarrow> is_exception e"
proof (induction xs arbitrary: ls ms s)
  case (Cons x xs)
  then show ?case
    by (auto simp: issue_one_def materialize_one_def call_bind_eq fresh_uuid_def on_broker_def
      split: prod.splits sum.splits dest: append_event_raises secret_issue_raises materialize_raises)
qed simp

lemma materialize_secrets_raises:
  "materialize_secrets env request job s = (Inl e, s') \<Longrightarrow> ordinary_faults env \<Longrightarrow> is_exception e"
  by (auto simp: materialize_secrets_def call_bind_eq split: prod.splits sum.splits if_splits
    dest: materialize_each_raises revoke_leases_raises)

section \<open>Capacity after a call\<close>

lemma dispatch_recorded_before: "log_grows s t \<Longrightarrow> dispatch_recorded t s' \<Longrightarrow> dispatch_recorded s s'"
  unfolding dispatch_recorded_def log_grows_def by (metis append.assoc)

lemma undo_returns:
  assumes "call_finally (revoke_leases env ls reason) (release_rate_reservation env a why) s = (r, s')"
    and "returnable now L (gs_rates s) (pa_rate_reservation a)"
  shows "expired_dropped now L (gs_rates s')"
proof -
  obtain q t where q: "revoke_leases env ls reason s = (q, t)" by fastforce
  have "gs_rates t = gs_rates s" using call_inD [OF revoke_leases_kept(2) q] by (simp add: rates_kept_def)
  then show ?thesis
    using assms q release_rate_reservation_returns [of env a why t _ s' now L] by (auto simp: call_finally_eq)
qed

lemma open_secret_scope_capacity:
  assumes "open_secret_scope env a s = (q, s')" and "ordinary_faults env" and "returnable now L (gs_rates s) (pa_rate_reservation a)"
  shows "case q of Inr (Inr _) \<Rightarrow> gs_rates s' = gs_rates s | _ \<Rightarrow> expired_dropped now L (gs_rates s')"
proof -
  obtain p t where p: "materialize_secrets env (pa_request a) (pa_job a) s = (p, t)" by fastforce
  have t: "gs_rates t = gs_rates s" using call_inD [OF materialize_secrets_kept(2) p] by (simp add: rates_kept_def)
  show ?thesis
  proof (cases p)
    case (Inl e)
    then have "is_exception e" using materialize_secrets_raises p assms(2) by blast
    then have h: "call_bind (release_rate_reservation env a ''secret-lease-failed'') (\<lambda>_.
        call_bind (fail_before_dispatch env (pa_request a) (pa_decision a) True
          (''secret lease failed; '' @ audit_safe_exception_diagnostic e ''secret-lease'') (Some (pa_job a)))
          (\<lambda>out. call_return (Inl out))) t = (q, s')"
      using assms(1) p Inl unfolding open_secret_scope_def by (simp add: call_catch_def call_bind_def)
    show ?thesis
      using h
    proof (cases rule: call_bindE)
      case (raised f)
      then show ?thesis using release_rate_reservation_returns assms(3) t by fastforce
    next
      case (returned x v)
      have "expired_dropped now L (gs_rates v)" using release_rate_reservation_returns [OF returned(1)] assms(3) t by simp
      then show ?thesis
        using returned(2) audit_rates [OF fail_before_dispatch_audit] by (auto simp: call_bind_eq split: sum.splits)
    qed
  next
    case (Inr v)
    then show ?thesis using assms(1) p t unfolding open_secret_scope_def by (auto simp: call_catch_eq call_bind_eq)
  qed
qed

lemma gateway_dispatch_capacity:
  assumes "gateway_dispatch env a scp s = (r, s')" and "returnable now L (gs_rates s) (pa_rate_reservation a)"
  shows "dispatch_recorded s s' \<or> expired_dropped now L (gs_rates s')"
proof (cases "ge_cancelling env 1")
  case True
  then have "cancel_before_dispatch env a scp s = (r, s')" using assms(1) by (simp add: gateway_dispatch_def)
  then show ?thesis
    unfolding cancel_before_dispatch_def
    using undo_returns [OF _ assms(2)] audit_rates [OF append_event_audit] by (fastforce elim!: call_bindE)
next
  case False
  obtain q t where q: "start_dispatch env a scp s = (q, t)" by fastforce
  show ?thesis
  proof (cases q)
    case (Inl e)
    then have "t = s'" using q assms(1) False by (simp add: gateway_dispatch_def call_bind_eq)
    then obtain e' u where "append_event env (WorkerDispatched (pa_job_metadata a) (map sl_id (ss_leases scp))) s = (Inl e', u)"
      "call_bind (call_finally (revoke_leases env (ss_leases scp) ''Worker dispatch did not start'')
        (release_rate_reservation env a ''dispatch-audit-failed'')) (\<lambda>_. call_raise e') u = (q, s')"
      using q Inl unfolding start_dispatch_def by (auto simp: call_catch_eq)
    then show ?thesis
      using undo_returns [where s = u] assms(2) audit_rates [OF append_event_audit] by (fastforce elim!: call_bindE)
  next
    case (Inr x)
    have "log_grows t s'"
    proof -
      obtain p v where p: "run_worker env a scp t = (p, v)" by fastforce
      have v: "log_grows t v" using p by (cases rule: run_worker_cases) (auto simp: no_run_def rates_kept_def)
      have "log_grows v s'"
        using assms(1) q Inr p False call_inD [OF finalize_execution_audit] audit_onlyD(4) log_grows_refl
        by (fastforce simp: gateway_dispatch_def call_bind_eq)
      with v show ?thesis by (rule log_grows_trans)
    qed
    then show ?thesis
      using start_dispatch_ok [OF q [unfolded Inr]] events_growD unfolding dispatch_recorded_def
      by (metis append.assoc append_Cons append_Nil)
  qed
qed

lemma execute_approved_capacity:
  assumes "execute_approved env a s = (r, s')" and "ordinary_faults env" and "returnable now L (gs_rates s) (pa_rate_reservation a)"
  shows "dispatch_recorded s s' \<or> expired_dropped now L (gs_rates s')"
  using assms(1)
proof (cases rule: execute_approved_cases)
  case (interrupted e)
  then show ?thesis using guard_raises assms(2) by blast
next
  case (guarded error)
  then show ?thesis
    using release_rate_reservation_returns [OF _ assms(3)] audit_rates [OF fail_before_dispatch_audit]
    by (fastforce elim!: call_bindE)
next
  case (unopened q)
  then show ?thesis
    using open_secret_scope_capacity [OF unopened(2) assms(2, 3)] by (auto split: sum.splits)
next
  case (opened scp t)
  have "gs_rates t = gs_rates s" using open_secret_scope_capacity [OF opened(2) assms(2, 3)] by simp
  moreover have "log_grows s t" using call_inD [OF open_secret_scope_quiet opened(2)] by (rule no_run_grows)
  ultimately show ?thesis
    using gateway_dispatch_capacity [OF opened(3)] assms(3) dispatch_recorded_before by fastforce
qed

text \<open>C6. A call that does not record a dispatch consumes no rate-limit capacity, on any outcome: if the log got no
  \<open>worker.dispatched\<close> event, the ledger holds for every campaign the units it held before, except those that had left the
  minute at the reading of the clock. The store may fail at any call, before or after its effect; it and the dispatch guard raise
  ordinary exceptions, and the identifiers of new reservations are not in the ledger.\<close>

theorem undispatched_capacity_is_returned:
  assumes "gateway_execute env c g request used s = (r, s')" and "ordinary_faults env" and "fresh_reservations env s"
    and "\<not> dispatch_recorded s s'"
  shows "expired_dropped (ge_clock env) (gs_rates s) (gs_rates s')"
proof (cases "ge_cancelling env 0")
  case True
  then show ?thesis using assms(1) by (simp add: gateway_execute_def)
next
  case False
  obtain p t where p: "gateway_preflight env c g request used s = (p, t)" by fastforce
  note cap = gateway_preflight_capacity [OF p assms(3)]
  show ?thesis
  proof (cases "\<exists>a. p = Inr (Inr a)")
    case True
    then obtain a where a: "p = Inr (Inr a)" by blast
    then have "execute_approved env a t = (r, s')"
      using assms(1) False p by (simp add: gateway_execute_def call_bind_eq)
    then show ?thesis
      using execute_approved_capacity [OF _ assms(2)] cap a assms(4)
        dispatch_recorded_before [OF no_run_grows [OF call_inD [OF preflight_kept(1) p]]]
      by (fastforce simp: capacity_of_def)
  next
    case refused: False
    then have "t = s'" using assms(1) False p by (auto simp: gateway_execute_def elim!: call_bindE split: sum.splits)
    then show ?thesis using cap refused by (auto simp: capacity_of_def split: sum.splits)
  qed
qed

section \<open>Secret leases\<close>

lemma leases_put [simp]: "dict_get (sb_leases (put_lease B l)) i = (if i = sl_id l then Some l else dict_get (sb_leases B) i)"
  by (simp add: put_lease_def dict_simps)

lemma revoked_lease_simps [simp]:
  "sl_id (revoked_lease reason l) = sl_id l" "sl_scope (revoked_lease reason l) = sl_scope l"
  "sl_status (revoked_lease reason l) \<noteq> LEASE_ACTIVE"
  by (auto simp: revoked_lease_def)

lemma revoke_lease_owned:
  assumes "owned_leases env B0 ls B" and "l \<in> set ls"
  shows "\<exists>l'. revoke_lease B (sl_id l) reason (Some (ge_run_id env)) = (Inr (revoked_lease reason l'), put_lease B (revoked_lease reason l')) \<and>
    sl_id l' = sl_id l \<and> sl_scope l' = Some (ge_run_id env)"
proof -
  obtain l' where "dict_get (sb_leases B) (sl_id l) = Some l'" "sl_id l' = sl_id l" "sl_scope l' = Some (ge_run_id env)"
    using assms by (auto simp: owned_leases_def)
  moreover have "check_scope_argument (Some (ge_run_id env)) = Inr ()" using assms by (auto simp: owned_leases_def)
  ultimately show ?thesis by (intro exI [of _ l']) (simp add: revoke_lease_def find_lease_def)
qed

lemma owned_put:
  assumes "owned_leases env B0 ls B" and "sl_id l' \<in> sl_id ` set ls" and "sl_scope l' = Some (ge_run_id env)"
  shows "owned_leases env B0 ls (put_lease B l')"
  using assms unfolding owned_leases_def by auto

lemma revoke_each_owned:
  assumes "revoke_each env reason ms s = ((rs, failures), s')" and "owned_leases env B0 ls (gs_broker s)" and "set ms \<subseteq> set ls"
  shows "owned_leases env B0 ls (gs_broker s') \<and> failures = 0 \<and>
    (\<forall>i. i \<in> sl_id ` set ms \<or> lease_inactive (gs_broker s) i \<longrightarrow> lease_inactive (gs_broker s') i)"
  using assms
proof (induction ms arbitrary: s rs failures)
  case (Cons m ms)
  obtain l' where r: "revoke_lease (gs_broker s) (sl_id m) reason (Some (ge_run_id env)) =
      (Inr (revoked_lease reason l'), put_lease (gs_broker s) (revoked_lease reason l'))"
    and l': "sl_id l' = sl_id m" "sl_scope l' = Some (ge_run_id env)"
    using revoke_lease_owned [OF Cons.prems(2), of m reason] Cons.prems(3) by auto
  let ?s = "s\<lparr>gs_broker := put_lease (gs_broker s) (revoked_lease reason l')\<rparr>"
  obtain rs' where run: "revoke_each env reason ms ?s = ((rs', failures), s')"
    using Cons.prems(1) r by (auto split: prod.splits)
  have "owned_leases env B0 ls (gs_broker ?s)"
    using owned_put [OF Cons.prems(2), of "revoked_lease reason l'"] l' Cons.prems(3) by auto
  note ih = Cons.IH [OF run this] 
  have "lease_inactive (gs_broker ?s) (sl_id m)" using l' by (simp add: lease_inactive_def)
  moreover have "lease_inactive (gs_broker ?s) i" if "lease_inactive (gs_broker s) i" for i
    using that by (simp add: lease_inactive_def)
  ultimately show ?case using ih Cons.prems(3) by auto
qed simp

lemma owned_ended:
  assumes "owned_leases env B0 ls B" and "\<And>l. l \<in> set ls \<Longrightarrow> lease_inactive B (sl_id l)"
  shows "leases_ended B0 B"
  unfolding leases_ended_def
proof
  fix i
  show "dict_get (sb_leases B) i = dict_get (sb_leases B0) i \<or> dict_get (sb_leases B0) i = None \<and> lease_inactive B i"
    using assms by (cases "i \<in> sl_id ` set ls") (auto simp: owned_leases_def)
qed

lemma audit_broker: "call_in audit_only m \<Longrightarrow> m s = (r, s') \<Longrightarrow> gs_broker s' = gs_broker s"
  by (auto dest!: call_inD audit_onlyD(3) simp: broker_kept_def)

lemma revoke_leases_ended:
  assumes "revoke_leases env ls reason s = (r, s')" and "owned_leases env B0 ls (gs_broker s)"
  shows "leases_ended B0 (gs_broker s')"
proof -
  obtain rs failures t where e: "revoke_each env reason ls s = ((rs, failures), t)" by (metis prod.exhaust)
  have "owned_leases env B0 ls (gs_broker t)" "\<And>l. l \<in> set ls \<Longrightarrow> lease_inactive (gs_broker t) (sl_id l)"
    using revoke_each_owned [OF e assms(2)] by auto
  then have "leases_ended B0 (gs_broker t)" by (rule owned_ended)
  moreover have "gs_broker s' = gs_broker t"
    using assms(1) e audit_broker [OF record_revoked_audit]
    by (auto simp: revoke_leases_def call_bind_eq split: if_splits)
  ultimately show ?thesis by simp
qed

lemma secret_issue_owned:
  assumes "secret_issue B ref hex audience binding (Some (ge_run_id env)) ttl uses now = (Inr l, B')"
    and "owned_leases env B0 ls B" and "dict_get (sb_leases B0) (''lease_'' @ hex) = None"
  shows "owned_leases env B0 (ls @ [l]) B'"
proof -
  have l: "sl_id l = ''lease_'' @ hex" "sl_scope l = Some (ge_run_id env)" "check_scope_argument (Some (ge_run_id env)) = Inr ()"
    "sb_leases B' = dict_set (sl_id l) l (sb_leases B)"
    using assms(1) unfolding secret_issue_def issue_lease_def Let_def put_lease_def
    by (auto split: if_splits sum.splits)
  show ?thesis
    unfolding owned_leases_def
  proof (intro conjI ballI allI impI)
    fix l1
    assume "l1 \<in> set (ls @ [l])"
    then show "dict_get (sb_leases B0) (sl_id l1) = None"
      "\<exists>l'. dict_get (sb_leases B') (sl_id l1) = Some l' \<and> sl_id l' = sl_id l1 \<and> sl_scope l' = Some (ge_run_id env)"
      using assms(2, 3) unfolding l(4) by (auto simp: owned_leases_def dict_simps l(1, 2) simp del: append_Cons)
  next
    fix i
    assume "i \<notin> sl_id ` set (ls @ [l])"
    then show "dict_get (sb_leases B') i = dict_get (sb_leases B0) i"
      using assms(2) unfolding l(4) by (auto simp: owned_leases_def dict_simps)
  qed (rule l(3))
qed

lemma materialize_owned:
  assumes "materialize B (sl_id l) audience (Some (ge_run_id env)) now = (r, B')"
    and "owned_leases env B0 ls B" and "l \<in> set ls"
  shows "owned_leases env B0 ls B'"
proof -
  have "\<exists>l'. find_lease B (sl_id l) (Some (ge_run_id env)) = Inr l' \<and> sl_id l' = sl_id l \<and> sl_scope l' = Some (ge_run_id env)"
    using assms(2, 3) by (fastforce simp: owned_leases_def find_lease_def)
  then obtain l' where l': "find_lease B (sl_id l) (Some (ge_run_id env)) = Inr l'" "sl_id l' = sl_id l" "sl_scope l' = Some (ge_run_id env)"
    by blast
  have put: "owned_leases env B0 ls (put_lease B x)" if "sl_id x = sl_id l" "sl_scope x = Some (ge_run_id env)" for x
    using owned_put [OF assms(2)] that assms(3) by (metis imageI)
  have "\<exists>x. B' = put_lease B x \<and> sl_id x = sl_id l \<and> sl_scope x = Some (ge_run_id env)"
    using assms(1) l' unfolding materialize_def Let_def refresh_status_def
    by (auto split: if_splits option.splits sum.splits)
  then show ?thesis using put by blast
qed

lemma materialize_each_owned:
  assumes "materialize_each env request job xs ls ms s = ((q, ls'), s')" and "owned_leases env B0 ls (gs_broker s)"
    and "\<And>n. gs_uuids s \<le> n \<Longrightarrow> dict_get (sb_leases B0) (''lease_'' @ ge_uuid env n) = None"
  shows "owned_leases env B0 ls' (gs_broker s')"
  using assms
proof (induction xs arbitrary: ls ms s)
  case (Cons x xs)
  note fresh = Cons.prems(3)
  obtain p1 s1 where one: "issue_one env request job x s = (p1, s1)" by fastforce
  show ?case
  proof (cases p1)
    case (Inl e)
    then have "gs_broker s1 = gs_broker s"
      using one by (auto simp: issue_one_def call_bind_eq fresh_uuid_def on_broker_def secret_issue_def issue_lease_def Let_def
        split: prod.splits if_splits sum.splits)
    then show ?thesis using Cons.prems one Inl by simp
  next
    case (Inr l)
    have own1: "owned_leases env B0 (ls @ [l]) (gs_broker s1)"
      using one Inr Cons.prems(2) fresh [of "gs_uuids s"]
      by (auto simp: issue_one_def call_bind_eq fresh_uuid_def on_broker_def split: prod.splits elim!: secret_issue_owned)
    obtain p2 s2 where two: "append_event env (SecretLeaseIssued (sl_id l) (sl_scope l) (sl_binding l) (sl_fingerprint l) (sl_expires_at l)) s1 = (p2, s2)"
      by fastforce
    have own2: "owned_leases env B0 (ls @ [l]) (gs_broker s2)" using own1 audit_broker [OF append_event_audit two] by simp
    obtain p3 s3 where three: "materialize_one env request job l s2 = (p3, s3)" by fastforce
    have own3: "owned_leases env B0 (ls @ [l]) (gs_broker s3)"
      using three own2
      by (auto simp: materialize_one_def call_bind_eq fresh_uuid_def on_broker_def split: prod.splits elim!: materialize_owned)
    have "gs_uuids s \<le> gs_uuids s3"
      using call_inD [OF issue_one_kept(1) one] call_inD [OF append_event_audit two, THEN audit_onlyD(1)]
        call_inD [OF materialize_one_kept(1) three] by (auto simp: no_run_def log_grows_def)
    then show ?thesis
      using Cons.prems(1) one Inr two three own2 own3 fresh Cons.IH [of "ls @ [l]" _ s3]
      by (auto split: sum.splits)
  qed
qed simp

lemma owned_none: "owned_leases env B [] B"
  by (simp add: owned_leases_def)

lemma leases_ended_refl [simp]: "leases_ended B B"
  by (simp add: leases_ended_def)

lemma broker_same: "call_in broker_kept m \<Longrightarrow> m s = (r, s') \<Longrightarrow> gs_broker s' = gs_broker s"
  by (auto dest!: call_inD simp: broker_kept_def)

lemma materialize_secrets_leases:
  assumes "materialize_secrets env request job s = (q, s')" and "ordinary_faults env" and "fresh_leases env s"
  shows "case q of Inr scp \<Rightarrow> owned_leases env (gs_broker s) (ss_leases scp) (gs_broker s') | Inl _ \<Rightarrow> leases_ended (gs_broker s) (gs_broker s')"
proof -
  obtain p ls t where p: "materialize_each env request job (wj_secret_requests job) [] [] s = ((p, ls), t)" by (metis prod.exhaust)
  have own: "owned_leases env (gs_broker s) ls (gs_broker t)"
    using materialize_each_owned [OF p owned_none] assms(3) by (simp add: fresh_leases_def)
  show ?thesis
  proof (cases p)
    case (Inl e)
    then have "call_bind (revoke_leases env ls ''secret setup failed'') (\<lambda>_. call_raise e) t = (q, s')"
      using assms(1) p materialize_each_raises [OF p [unfolded Inl] assms(2)] by (simp add: materialize_secrets_def)
    then show ?thesis using revoke_leases_ended [OF _ own] by (auto simp: call_bind_eq)
  next
    case (Inr ms)
    then show ?thesis using assms(1) p own by (auto simp: materialize_secrets_def)
  qed
qed

lemma open_secret_scope_leases:
  assumes "open_secret_scope env a s = (q, s')" and "ordinary_faults env" and "fresh_leases env s"
  shows "case q of Inr (Inr scp) \<Rightarrow> owned_leases env (gs_broker s) (ss_leases scp) (gs_broker s')
    | _ \<Rightarrow> leases_ended (gs_broker s) (gs_broker s')"
proof -
  obtain p t where p: "materialize_secrets env (pa_request a) (pa_job a) s = (p, t)" by fastforce
  note m = materialize_secrets_leases [OF p assms(2, 3)]
  show ?thesis
  proof (cases p)
    case (Inl e)
    have "call_in broker_kept (call_bind (release_rate_reservation env a ''secret-lease-failed'') (\<lambda>_.
        call_bind (fail_before_dispatch env (pa_request a) (pa_decision a) True
          (''secret lease failed; '' @ audit_safe_exception_diagnostic e ''secret-lease'') (Some (pa_job a)))
          (\<lambda>out. call_return (Inl out))))"
      by (intro broker_rules release_kept)
    moreover have "is_exception e" using materialize_secrets_raises p Inl assms(2) by blast
    ultimately have "gs_broker s' = gs_broker t \<and> (\<forall>scp. q \<noteq> Inr (Inr scp))"
      using assms(1) p Inl broker_same unfolding open_secret_scope_def
      by (fastforce simp: call_catch_eq call_bind_eq [of "materialize_secrets env (pa_request a) (pa_job a)"] elim: call_bindE)
    then show ?thesis using m Inl by (auto split: sum.splits)
  next
    case (Inr v)
    then show ?thesis using assms(1) p m unfolding open_secret_scope_def by (auto simp: call_catch_eq call_bind_eq)
  qed
qed

lemma undo_ended:
  assumes "call_finally (revoke_leases env ls reason) (release_rate_reservation env a why) s = (r, s')"
    and "owned_leases env B0 ls (gs_broker s)"
  shows "leases_ended B0 (gs_broker s')"
proof -
  obtain q t where q: "revoke_leases env ls reason s = (q, t)" by fastforce
  show ?thesis
    using assms(1) q revoke_leases_ended [OF q assms(2)] broker_same [OF release_kept(2)] by (auto simp: call_finally_eq)
qed

lemma run_worker_leases:
  assumes "run_worker env a scp s = (r, s')" and "owned_leases env B0 (ss_leases scp) (gs_broker s)"
  shows "leases_ended B0 (gs_broker s')"
proof -
  obtain attempt t answer t' q where
    one: "worker_attempt env a scp s = (attempt, t)" and two: "worker_answer env a scp attempt t = (answer, t')" and
    three: "worker_cleanup env a scp (attempt = Inl CancelledError) t' = (q, s')"
    using assms(1) by (auto simp: run_worker_def split: prod.splits sum.splits)
  have "gs_broker t = gs_broker s" using one by (auto simp: worker_attempt_def split: sum.splits option.splits)
  then have own: "owned_leases env B0 (ss_leases scp) (gs_broker t')"
    using assms(2) audit_broker [OF worker_answer_audit two] by simp
  show ?thesis
    using three audit_broker [OF append_event_audit] unfolding worker_cleanup_def
    by (auto elim!: call_bindE split: if_splits dest!: revoke_leases_ended [OF _ own])
qed

lemma gateway_dispatch_leases:
  assumes "gateway_dispatch env a scp s = (r, s')" and own: "owned_leases env B0 (ss_leases scp) (gs_broker s)"
  shows "leases_ended B0 (gs_broker s')"
proof (cases "ge_cancelling env 1")
  case True
  then have "cancel_before_dispatch env a scp s = (r, s')" using assms(1) by (simp add: gateway_dispatch_def)
  then show ?thesis
    unfolding cancel_before_dispatch_def using audit_broker [OF append_event_audit]
    by (auto elim!: call_bindE dest!: undo_ended [OF _ own])
next
  case False
  obtain q t where q: "start_dispatch env a scp s = (q, t)" by fastforce
  obtain p u where p: "append_event env (WorkerDispatched (pa_job_metadata a) (map sl_id (ss_leases scp))) s = (p, u)" by fastforce
  have u: "owned_leases env B0 (ss_leases scp) (gs_broker u)" using audit_broker [OF append_event_audit p] own by simp
  show ?thesis
  proof (cases q)
    case (Inl e)
    then have "t = s'" using q assms(1) False by (simp add: gateway_dispatch_def call_bind_eq)
    then show ?thesis
      using q p Inl unfolding start_dispatch_def by (auto simp: call_catch_eq elim!: call_bindE dest!: undo_ended [OF _ u])
  next
    case (Inr x)
    then have "t = u" using q p by (auto simp: start_dispatch_def call_catch_eq call_bind_eq)
    moreover obtain v w where v: "run_worker env a scp t = (v, w)" by fastforce
    ultimately have "leases_ended B0 (gs_broker w)" using run_worker_leases u by blast
    moreover have "gs_broker s' = gs_broker w"
      using assms(1) False q Inr v audit_broker [OF finalize_execution_audit]
      by (fastforce simp: gateway_dispatch_def call_bind_eq)
    ultimately show ?thesis by simp
  qed
qed

lemma execute_approved_leases:
  assumes "execute_approved env a s = (r, s')" and "ordinary_faults env" and "fresh_leases env s"
  shows "leases_ended (gs_broker s) (gs_broker s')"
  using assms(1)
proof (cases rule: execute_approved_cases)
  case (guarded error)
  have "call_in broker_kept (call_bind (release_rate_reservation env a ''worker-dispatch-guard-failed'') (\<lambda>_.
         fail_before_dispatch env (pa_request a) (pa_decision a) False error (Some (pa_job a))))"
    by (intro broker_rules release_kept)
  then show ?thesis using broker_same guarded(2) by fastforce
next
  case (unopened q)
  then show ?thesis using open_secret_scope_leases [OF unopened(2) assms(2, 3)] by (auto split: sum.splits)
next
  case (opened scp t)
  then show ?thesis
    using open_secret_scope_leases [OF opened(2) assms(2, 3)] gateway_dispatch_leases [OF opened(3)] by simp
qed simp

text \<open>C5. No secret lease outlives the call that issued it: on every outcome, errors of the store, the Worker and a
  cancellation included, each lease that was not in the broker before is revoked or expired, and the leases that
  were there are unchanged. The store and the dispatch guard raise ordinary exceptions, and the identifiers of new leases are
  not in the broker.\<close>

theorem no_lease_outlives_the_call:
  assumes "gateway_execute env c g request used s = (r, s')" and "ordinary_faults env" and "fresh_leases env s"
  shows "leases_ended (gs_broker s) (gs_broker s')"
proof (cases "ge_cancelling env 0")
  case True
  then show ?thesis using assms(1) by (simp add: gateway_execute_def)
next
  case False
  obtain p t where p: "gateway_preflight env c g request used s = (p, t)" by fastforce
  have t: "gs_broker t = gs_broker s" "gs_uuids s \<le> gs_uuids t"
    using call_inD [OF preflight_kept(2) p] by (auto simp: broker_kept_def log_grows_def)
  then have "fresh_leases env t" using assms(3) by (simp add: fresh_leases_def)
  then show ?thesis
    using assms(1) False p t execute_approved_leases [OF _ assms(2)]
    by (fastforce simp: gateway_execute_def elim!: call_bindE split: sum.splits)
qed

section \<open>Two failing calls of the sample\<close>

lemma sample_hypotheses:
  "ordinary_faults (sample_gateway job (failing_store k))" "fresh_reservations (sample_gateway job store) idle_gateway"
  "fresh_leases (sample_gateway job store) idle_gateway"
proof -
  show "ordinary_faults (sample_gateway job (failing_store k))"
    by (auto simp: ordinary_faults_def sample_gateway_def failing_store_def is_exception_def)
  have "units_of_campaign sample_rates0 name = []" for name
    by (simp add: units_of_campaign_def sample_rates0_def new_rate_ledger_def)
  then show "fresh_reservations (sample_gateway job store) idle_gateway"
    by (simp add: fresh_reservations_def idle_gateway_def)
  have "sb_leases sample_broker0 = []" by code_simp
  then show "fresh_leases (sample_gateway job store) idle_gateway"
    by (simp add: fresh_leases_def idle_gateway_def)
qed

lemma store_failing:
  "gs_store_calls s = k \<Longrightarrow> store_call (sample_gateway job (failing_store k)) effect s = (Inl OSError, s\<lparr>gs_store_calls := Suc k\<rparr>)"
  by (simp add: store_call_def sample_gateway_def failing_store_def)

lemma sample_undispatched:
  "fst (sample_call sample_job (failing_store 4)) = Inl OSError \<and>
   \<not> dispatch_recorded idle_gateway (snd (sample_call sample_job (failing_store 4)))"
proof -
  let ?env = "sample_gateway sample_job (failing_store 4)"
  obtain m where m: "prepare_job ?env sample_campaign granted_request (sample_adapter\<lparr>ta_prepare := (\<lambda>_. Inr (Some sample_job))\<rparr>) sample_tool 1 =
     Inr (Inr (sample_job\<lparr>wj_network := EGRESS_PROXY, wj_egress_policy := Some sample_policy\<rparr>, m))"
    using sample_prepared(1) by blast
  obtain d where p: "gateway_preflight ?env (Some sample_campaign) (Some sample_grant) granted_request (PyInt 0) idle_gateway =
     (Inr (Inr \<lparr>pa_campaign = sample_campaign, pa_request = granted_request,
        pa_tool = sample_adapter\<lparr>ta_prepare := (\<lambda>_. Inr (Some sample_job))\<rparr>, pa_spec = sample_tool, pa_decision = allow,
        pa_job = sample_job\<lparr>wj_network := EGRESS_PROXY, wj_egress_policy := Some sample_policy\<rparr>,
        pa_job_metadata = m, pa_request_cost = 1, pa_rate_reservation = Some (sample_granted [] 1)\<rparr>),
      idle_gateway\<lparr>gs_events := [RequestReserved ''tool_1'' d ''requests/tool_1.json'', PolicyEvaluated ''tool_1'' ''http.get'' allow],
        gs_files := [(''requests/tool_1.json'', ReservationFile ''tool_1'' d)],
        gs_rates := sample_rates0\<lparr>request_times := [(''demo'', [\<lparr>unit_evaluated_at = seconds 5, unit_reservation_id = ''rate-reservation_''\<rparr>])]\<rparr>,
        gs_store_calls := 4, gs_uuids := 1\<rparr>)"
    using sample_preflight [OF _ _ _ _ m] by (auto simp: failing_store_def)
  have r: "rate_release (sample_rates0\<lparr>request_times := [(''demo'', [\<lparr>unit_evaluated_at = seconds 5, unit_reservation_id = ''rate-reservation_''\<rparr>])]\<rparr>)
      (sample_granted [] 1) = (Inr (), sample_rates0)"
    by code_simp
  have g: "res_id (sample_granted [] 1) = ''rate-reservation_''" "res_request_cost (sample_granted [] 1) = 1"
    by (simp_all add: sample_granted_def)
  have j: "wj_secret_requests sample_job = []" by (simp add: sample_job_def)
  have "fst (sample_call sample_job (failing_store 4)) = Inl OSError \<and>
    gs_events (snd (sample_call sample_job (failing_store 4))) =
      [RequestReserved ''tool_1'' d ''requests/tool_1.json'', PolicyEvaluated ''tool_1'' ''http.get'' allow,
       RateReservationReleased (request_id granted_request) ''rate-reservation_'' 1 ''dispatch-audit-failed'']"
    unfolding sample_call_def gateway_execute_def
    by (simp add: p execute_approved_def sample_gateway_fields sample_opened j gateway_dispatch_def start_dispatch_def
      release_rate_reservation_def on_rates_def r revoke_leases_def store_rules store_failing failing_store_def g)
  then show ?thesis by (simp add: dispatch_recorded_def idle_gateway_def Cons_eq_append_conv)
qed

theorem undispatched_capacity_is_returned_witness:
  "fst (sample_call sample_job (failing_store 4)) = Inl OSError \<and>
   expired_dropped (NowDatetime (utc_datetime (seconds 5))) sample_rates0 (gs_rates (snd (sample_call sample_job (failing_store 4))))"
proof -
  obtain r s' where call: "sample_call sample_job (failing_store 4) = (r, s')" by fastforce
  show ?thesis
    using undispatched_capacity_is_returned [OF call [unfolded sample_call_def] sample_hypotheses(1, 2)] sample_undispatched call
    by (simp add: sample_gateway_fields) (simp add: idle_gateway_def)
qed

lemma sample_checks:
  "check_scope_argument (Some ''run'') = Inr ()" "sb_secrets sample_broker0 = [(u ''db'', u ''hunter2'')]"
  "sb_leases sample_broker0 = []" "sb_lease_refs sample_broker0 = []" "in_datetime_range (seconds 35)" "validate_secret_value (u ''hunter2'') = Inr ()"
  "seconds 5 + seconds 30 = seconds 35" "\<not> seconds 35 \<le> seconds 5"
  by code_simp+

lemma sample_issued:
  "secret_issue sample_broker0 (u ''db'') ''a'' ''agent:exec_1'' ''password'' (Some ''run'') 30 1 (seconds 5) =
   (Inr issued_lease, (put_lease sample_broker0 issued_lease)\<lparr>sb_lease_refs := [(''lease_a'', u ''db'')]\<rparr>)"
  by (simp add: secret_issue_def issue_lease_def sample_checks secret_fingerprint_def require_utf8_def sample_texts issued_lease_def Let_def)

lemma sample_materialized:
  "\<exists>m B. materialize ((put_lease sample_broker0 issued_lease)\<lparr>sb_lease_refs := [(''lease_a'', u ''db'')]\<rparr>) ''lease_a'' ''agent:exec_1'' (Some ''run'') (seconds 5) =
   (Inr m, B) \<and> sb_leases B = [(''lease_a'', issued_lease\<lparr>sl_remaining_uses := 0\<rparr>)]"
  by (simp add: materialize_def find_lease_def sample_checks refresh_status_def issued_lease_def put_lease_def Let_def)

lemma sample_secrets_opened:
  assumes "pa_request a = granted_request" "pa_job a = secret_job\<lparr>wj_network := n, wj_egress_policy := p\<rparr>" "store 4 = StoreOk"
    and s: "gs_broker s = sample_broker0" "gs_uuids s = 1" "gs_store_calls s = 4"
  shows "\<exists>scp t. open_secret_scope (sample_gateway job store) a s = (Inr (Inr scp), t) \<and>
    SecretLeaseIssued ''lease_a'' (Some ''run'') ''password'' (take 16 (sha256_hex [100, 98])) (seconds 35) \<in> set (gs_events t)"
proof -
  obtain m B where m: "materialize ((put_lease sample_broker0 issued_lease)\<lparr>sb_lease_refs := [(''lease_a'', u ''db'')]\<rparr>) ''lease_a'' ''agent:exec_1''
      (Some ''run'') (seconds 5) = (Inr m, B)"
    using sample_materialized by blast
  have r: "request_agent_id granted_request = ''agent''" "wj_execution_id secret_job = ''exec_1''"
    "wj_secret_requests secret_job = [\<lparr>ws_secret_ref = u ''db'', ws_binding = ''password'', ws_ttl_seconds = 30\<rparr>]"
    by (simp_all add: granted_request_def sample_request_def secret_job_def sample_job_def)
  have e: "ge_uuid (sample_gateway job store) (Suc 0) = ''a''" "ge_broker_clock (sample_gateway job store) k = seconds 5"
    "ge_run_id (sample_gateway job store) = ''run''" for k
    by (simp_all add: sample_gateway_def)
  have l: "sl_id issued_lease = ''lease_a''" "sl_scope issued_lease = Some ''run''" "sl_binding issued_lease = ''password''"
    "sl_fingerprint issued_lease = take 16 (sha256_hex [100, 98])" "sl_expires_at issued_lease = seconds 35"
    by (simp_all add: issued_lease_def)
  show ?thesis
    by (simp add: open_secret_scope_def materialize_secrets_def assms(1, 2) r issue_one_def materialize_one_def fresh_uuid_def on_broker_def
      e s sample_issued m l store_rules assms(3))
qed

lemma sample_lease_issued:
  "SecretLeaseIssued ''lease_a'' (Some ''run'') ''password'' (take 16 (sha256_hex [100, 98])) (seconds 35)
     \<in> set (gs_events (snd (sample_call secret_job (failing_store 5))))"
proof -
  let ?env = "sample_gateway secret_job (failing_store 5)"
  obtain m where m: "prepare_job ?env sample_campaign granted_request (sample_adapter\<lparr>ta_prepare := (\<lambda>_. Inr (Some secret_job))\<rparr>) sample_tool 1 =
     Inr (Inr (secret_job\<lparr>wj_network := EGRESS_PROXY, wj_egress_policy := Some sample_policy\<rparr>, m))"
    using sample_prepared(2) by blast
  obtain a t where p: "gateway_preflight ?env (Some sample_campaign) (Some sample_grant) granted_request (PyInt 0) idle_gateway = (Inr (Inr a), t)"
    and a: "pa_request a = granted_request" "pa_job a = secret_job\<lparr>wj_network := EGRESS_PROXY, wj_egress_policy := Some sample_policy\<rparr>"
    and t: "gs_broker t = sample_broker0" "gs_uuids t = 1" "gs_store_calls t = 4"
    using sample_preflight [OF _ _ _ _ m] by (auto simp: failing_store_def idle_gateway_def)
  have "failing_store 5 4 = StoreOk" by (simp add: failing_store_def)
  then obtain scp v where o1: "open_secret_scope ?env a t = (Inr (Inr scp), v)" and
    ev: "SecretLeaseIssued ''lease_a'' (Some ''run'') ''password'' (take 16 (sha256_hex [100, 98])) (seconds 35) \<in> set (gs_events v)"
    using sample_secrets_opened [OF a _ t] by blast
  obtain r s' where d: "gateway_dispatch ?env a scp v = (r, s')" by fastforce
  then have "log_grows v s'" by (cases rule: gateway_dispatch_cases) (auto simp: no_run_def)
  then have "set (gs_events v) \<subseteq> set (gs_events s')" by (auto simp: log_grows_def)
  moreover have "sample_call secret_job (failing_store 5) = (r, s')"
    unfolding sample_call_def gateway_execute_def
    by (simp add: p execute_approved_def sample_gateway_fields o1 d call_bind_def call_lift_def)
  ultimately show ?thesis using ev by auto
qed

theorem no_lease_outlives_the_call_witness:
  "SecretLeaseIssued ''lease_a'' (Some ''run'') ''password'' (take 16 (sha256_hex [100, 98])) (seconds 35)
     \<in> set (gs_events (snd (sample_call secret_job (failing_store 5)))) \<and>
   leases_ended sample_broker0 (gs_broker (snd (sample_call secret_job (failing_store 5))))"
proof -
  obtain r s' where call: "sample_call secret_job (failing_store 5) = (r, s')" by fastforce
  show ?thesis
    using no_lease_outlives_the_call [OF call [unfolded sample_call_def] sample_hypotheses(1, 3)] sample_lease_issued call
    by (simp add: idle_gateway_def)
qed

end
