(* ===== verification/Gateway_Progress.thy ===== *)
theory Gateway_Progress
  imports Gateway_Resources
begin

text \<open>
  That a call answers: with a store that does not fail, no cancellation, adapters that raise only ordinary
  exceptions and a Worker that returns, a call for a free identifier returns an outcome, and the evidence file of
  the request holds it.
\<close>

section \<open>Predicates\<close>

definition raises_ok :: "'a result \<Rightarrow> bool" where
  "raises_ok r \<longleftrightarrow> (\<forall>e. r = Inl e \<longrightarrow> is_exception e)"

text \<open>An adapter is not cancelled.\<close>

definition ordinary_adapter :: "tool_adapter \<Rightarrow> bool" where
  "ordinary_adapter tool \<longleftrightarrow>
     (\<forall>r. raises_ok (ta_network_request_cost tool r) \<and> raises_ok (ta_network_response_byte_limit tool r) \<and>
       raises_ok (ta_prepare tool r)) \<and>
     (\<forall>r w. raises_ok (ta_interpret tool r w)) \<and>
     (\<forall>r x w b. raises_ok (ta_validate_trusted_execution tool r x w b))"

text \<open>The evidence file of the request holds what the caller gets.\<close>

definition evidenced :: "tool_request \<Rightarrow> gateway_outcome \<Rightarrow> gateway_state \<Rightarrow> bool" where
  "evidenced request out s \<longleftrightarrow>
     (\<exists>ev. dict_get (gs_files s) (evidence_path (request_id request)) = Some (EvidenceFile ev) \<and>
        ev_request ev = request \<and> ev_decision ev = go_decision out \<and> ev_worker_result ev = go_worker_result out \<and>
        go_result out = (ev_result ev)\<lparr>tr_evidence := tr_evidence (ev_result ev) @ [evidence_path (request_id request)]\<rparr>)"

definition reliable_store :: "gateway_env \<Rightarrow> bool" where
  "reliable_store env \<longleftrightarrow> (\<forall>n. ge_store env n = StoreOk)"

definition unrecorded :: "tool_request \<Rightarrow> gateway_state \<Rightarrow> bool" where
  "unrecorded request s \<longleftrightarrow>
     CHR ''/'' \<notin> set (request_id request) \<and> dict_get (gs_files s) (evidence_path (request_id request)) = None"

definition answered :: "tool_request \<Rightarrow> gateway_outcome gateway_call \<Rightarrow> gateway_state \<Rightarrow> bool" where
  "answered request m s \<longleftrightarrow> (\<exists>out t. m s = (Inr out, t) \<and> evidenced request out t)"

definition staged :: "tool_request \<Rightarrow> (gateway_outcome + 'a) gateway_call \<Rightarrow> ('a \<Rightarrow> gateway_state \<Rightarrow> bool) \<Rightarrow> gateway_state \<Rightarrow> bool" where
  "staged request m P s \<longleftrightarrow> (\<exists>v t. m s = (Inr v, t) \<and> (case v of Inl out \<Rightarrow> evidenced request out t | Inr x \<Rightarrow> P x t))"

text \<open>What an approval needs for the rest of the call to answer.\<close>

definition answerable :: "gateway_env \<Rightarrow> tool_request \<Rightarrow> gateway_state \<Rightarrow> preflight_approval \<Rightarrow> gateway_state \<Rightarrow> bool" where
  "answerable env request s a t \<longleftrightarrow>
     pa_request a = request \<and> ordinary_adapter (pa_tool a) \<and> (\<exists>m. safe_job_metadata request (pa_job a) = Inr m) \<and>
     unrecorded request t \<and> (\<exists>now L. returnable now L (gs_rates t) (pa_rate_reservation a)) \<and>
     gs_broker t = gs_broker s \<and> gs_uuids s \<le> gs_uuids t"

text \<open>The hypotheses under which a call cannot raise.\<close>

definition calm_gateway :: "gateway_env \<Rightarrow> bool" where
  "calm_gateway env \<longleftrightarrow>
     reliable_store env \<and> ordinary_faults env \<and> \<not> ge_cancelling env 0 \<and> \<not> ge_cancelling env 1 \<and>
     guard_worker_dispatch env 2 = Inr None \<and> (\<forall>j ms. \<exists>w. ge_worker env j ms = Inr w) \<and>
     (\<forall>i tool. registry_tool (ge_tools env) i = Inr tool \<longrightarrow> ordinary_adapter tool)"

section \<open>Calls that raise only ordinary exceptions\<close>

lemma raises_ok_returned: "raises_ok (Inr x)"
  by (simp add: raises_ok_def)

lemma raises_ok_raised: "is_exception e \<Longrightarrow> raises_ok (Inl e)"
  by (simp add: raises_ok_def)

lemma raises_ok_if: "raises_ok a \<Longrightarrow> raises_ok b \<Longrightarrow> raises_ok (if c then a else b)"
  by simp

lemma raises_ok_option: "raises_ok a \<Longrightarrow> (\<And>x. raises_ok (f x)) \<Longrightarrow> raises_ok (case v of None \<Rightarrow> a | Some x \<Rightarrow> f x)"
  by (cases v) auto

lemma raises_ok_bool: "raises_ok a \<Longrightarrow> raises_ok b \<Longrightarrow> raises_ok (case v of True \<Rightarrow> a | False \<Rightarrow> b)"
  by (cases v) auto

lemma raises_ok_prod: "(\<And>x y. raises_ok (f x y)) \<Longrightarrow> raises_ok (case v of (x, y) \<Rightarrow> f x y)"
  by (cases v) auto

lemma raises_ok_sum:
  "raises_ok v \<Longrightarrow> (\<And>e. is_exception e \<Longrightarrow> raises_ok (f e)) \<Longrightarrow> (\<And>x. raises_ok (g x)) \<Longrightarrow> raises_ok (case v of Inl e \<Rightarrow> f e | Inr x \<Rightarrow> g x)"
  by (cases v) (auto simp: raises_ok_def)

lemma raises_ok_map: "raises_ok v \<Longrightarrow> raises_ok (map_sum id f v)"
  by (cases v) (auto simp: raises_ok_def)

lemma ordinary_exceptions:
  "is_exception (ValueError x)" "is_exception (InvalidScopeURL x)" "is_exception UnicodeEncodeError" "is_exception ValidationError"
  "is_exception AttributeError"
  by (simp_all add: is_exception_def)

lemmas raises_rules = raises_ok_returned raises_ok_raised raises_ok_if raises_ok_option raises_ok_bool raises_ok_prod raises_ok_sum
  raises_ok_map ordinary_exceptions

lemma hostname_raises: "raises_ok (canonical_hostname db h b)"
  unfolding canonical_hostname_def Let_def by (intro raises_rules)

lemma url_port_raises: "raises_ok (url_port p)"
proof -
  have "raises_ok (sp_port p)" unfolding sp_port_def Let_def by (intro raises_rules)
  then show ?thesis unfolding url_port_def by (intro raises_rules)
qed

lemma quoting_raises: "raises_ok (unquote_to_bytes q)" "raises_ok (quote safe q)"
  unfolding unquote_to_bytes_def quote_def by (intro conjI raises_rules)+

lemma path_raises: "raises_ok (normalize_path p b)"
  unfolding normalize_path_def validate_path_representation_def Let_def by (intro raises_rules quoting_raises)

lemma query_raises: "raises_ok (normalize_query q)"
  unfolding normalize_query_def Let_def by (intro raises_rules quoting_raises)

lemma urlsplit_raises: "raises_ok (urlsplit db v)"
  unfolding urlsplit_def Let_def by (intro raises_rules)

lemma normalize_url_raises: "raises_ok (normalize_url db b v)"
  unfolding normalize_url_def parse_url_def
  by (intro raises_rules urlsplit_raises hostname_raises url_port_raises path_raises query_raises)

lemma py_any_raises: "(\<And>x. raises_ok (f x)) \<Longrightarrow> raises_ok (py_any f xs)"
  by (induction xs) (auto intro!: raises_rules)

lemma normalize_rules_raises: "raises_ok (normalize_rules db rules)"
  by (induction rules) (auto simp: normalize_scope_pattern_def intro!: raises_rules normalize_url_raises)

lemma connect_rules_raises: "raises_ok (connect_rules db c request)"
  unfolding connect_rules_def Let_def normalize_target_url_def
  by (intro raises_rules py_any_raises urlsplit_raises normalize_url_raises normalize_rules_raises)

lemma job_raises: "raises_ok (make_egress_policy p)" "raises_ok (validate_worker_job j)"
proof -
  show "raises_ok (make_egress_policy p)" for p
    unfolding make_egress_policy_def Let_def by (intro raises_rules)
  then show "raises_ok (validate_worker_job j)"
    unfolding validate_worker_job_def by (intro raises_rules)
qed

lemma safe_job_metadata_raises: "raises_ok (safe_job_metadata request job)"
proof -
  have "raises_ok (fingerprints xs)" for xs
    by (induction xs) (auto intro!: raises_rules simp: secret_fingerprint_def require_utf8_def)
  then show ?thesis unfolding safe_job_metadata_def by (intro raises_rules)
qed

lemma prepare_job_returns:
  assumes "ordinary_adapter tool"
  shows "prepare_job env c request tool t n \<noteq> Inl e"
proof -
  have "raises_ok (prepared_job env c request tool t n)"
    using assms unfolding prepared_job_def grant_egress_def ordinary_adapter_def
    by (intro raises_rules job_raises connect_rules_raises) auto
  then have "raises_ok (case prepared_job env c request tool t n of
      Inl e \<Rightarrow> Inl e | Inr job \<Rightarrow> map_sum id (\<lambda>metadata. (job, metadata)) (safe_job_metadata request job))"
    by (intro raises_rules safe_job_metadata_raises)
  then show ?thesis unfolding prepare_job_def by (auto simp: raises_ok_def split: sum.splits if_splits)
qed

lemma network_cost_returns: "ordinary_adapter tool \<Longrightarrow> network_request_cost tool t request \<noteq> Inl e"
  by (auto simp: network_request_cost_def ordinary_adapter_def raises_ok_def split: sum.splits if_splits py_num.splits)

lemma project_returns:
  assumes "ordinary_adapter tool"
  shows "project_tool_result env request tool receipt materials \<noteq> Inl e"
proof -
  have one: "interpret_worker_result env request tool w b \<noteq> Inl e" for w b e
    using assms by (auto simp: interpret_worker_result_def ordinary_adapter_def raises_ok_def split: sum.splits if_splits)
  have two: "validate_trusted_result env request tool w r b \<noteq> Inl e" for w r b e
    using assms by (auto simp: validate_trusted_result_def ordinary_adapter_def raises_ok_def split: sum.splits if_splits prod.splits)
  show ?thesis
    unfolding project_tool_result_def Let_def by (auto simp: one two split: sum.splits prod.splits)
qed

section \<open>Answers\<close>

lemma staged_answered:
  assumes "staged request m P s" and "\<And>x t. P x t \<Longrightarrow> answered request (f x) t"
  shows "answered request (call_bind m (\<lambda>v. case v of Inl out \<Rightarrow> call_return out | Inr x \<Rightarrow> f x)) s"
  using assms unfolding staged_def answered_def by (fastforce simp: call_bind_eq split: sum.splits)

lemma staged_bind:
  assumes "staged request m P s" and "\<And>x t. P x t \<Longrightarrow> staged request (f x) Q t"
  shows "staged request (call_bind m (\<lambda>v. case v of Inl out \<Rightarrow> call_return (Inl out) | Inr x \<Rightarrow> f x)) Q s"
  using assms unfolding staged_def by (fastforce simp: call_bind_eq split: sum.splits)

lemma answered_staged: "answered request m s \<Longrightarrow> staged request (call_bind m (\<lambda>out. call_return (Inl out))) P s"
  unfolding answered_def staged_def by (fastforce simp: call_bind_eq)

lemma append_reliable:
  "reliable_store env \<Longrightarrow> append_event env e s = (Inr (), s\<lparr>gs_store_calls := Suc (gs_store_calls s), gs_events := gs_events s @ [e]\<rparr>)"
  by (simp add: append_event_def store_call_def reliable_store_def)

lemma write_reliable:
  "reliable_store env \<Longrightarrow> dict_get (gs_files s) path = None \<Longrightarrow>
   write_json_create_only env path content s =
     (Inr path, s\<lparr>gs_store_calls := Suc (gs_store_calls s), gs_files := dict_set path content (gs_files s)\<rparr>)"
  by (simp add: write_json_create_only_def store_call_def reliable_store_def call_bind_def call_return_def)

lemma evidence_reliable:
  assumes "reliable_store env" and "unrecorded request s" and "case job of None \<Rightarrow> True | Some j \<Rightarrow> \<exists>m. safe_job_metadata request j = Inr m"
  shows "\<exists>ev t. write_evidence env request d r job w ls s = (Inr (evidence_path (request_id request)), t) \<and>
    dict_get (gs_files t) (evidence_path (request_id request)) = Some (EvidenceFile ev) \<and>
    ev_request ev = request \<and> ev_decision ev = d \<and> ev_worker_result ev = w \<and> ev_result ev = r"
proof -
  obtain v where "(case job of None \<Rightarrow> Inr None | Some j \<Rightarrow> map_sum id Some (safe_job_metadata request j)) = Inr v"
    using assms(3) by (cases job) auto
  then show ?thesis
    using assms(1, 2) by (simp add: write_evidence_def call_bind_def call_lift_def unrecorded_def write_reliable dict_simps)
qed

lemma evidence_then_event:
  assumes "reliable_store env" and "unrecorded request s" and "case job of None \<Rightarrow> True | Some j \<Rightarrow> \<exists>m. safe_job_metadata request j = Inr m"
    and out: "go_decision (mk (evidence_path (request_id request))) = d" "go_worker_result (mk (evidence_path (request_id request))) = w"
      "go_result (mk (evidence_path (request_id request))) = r\<lparr>tr_evidence := tr_evidence r @ [evidence_path (request_id request)]\<rparr>"
  shows "answered request (call_bind (write_evidence env request d r job w ls) (\<lambda>path.
     call_bind (append_event env (e path)) (\<lambda>_. call_return (mk path)))) s"
proof -
  obtain ev t where ev: "write_evidence env request d r job w ls s = (Inr (evidence_path (request_id request)), t)"
    "dict_get (gs_files t) (evidence_path (request_id request)) = Some (EvidenceFile ev)"
    "ev_request ev = request" "ev_decision ev = d" "ev_worker_result ev = w" "ev_result ev = r"
    using evidence_reliable [OF assms(1, 2, 3)] by blast
  then show ?thesis
    using assms(1) out by (simp add: answered_def evidenced_def call_bind_def append_reliable call_return_def)
qed

lemma unrecorded_files: "gs_files t = gs_files s \<Longrightarrow> unrecorded request t = unrecorded request s"
  by (simp add: unrecorded_def)

lemma answered_after:
  "m s = (Inr x, t) \<Longrightarrow> answered request (f x) t \<Longrightarrow> answered request (call_bind m f) s"
  by (simp add: answered_def call_bind_def)

lemma staged_after:
  "m s = (Inr x, t) \<Longrightarrow> staged request (f x) P t \<Longrightarrow> staged request (call_bind m f) P s"
  by (simp add: staged_def call_bind_def)

lemma deny_request_answers:
  assumes "reliable_store env" and "unrecorded request s"
  shows "answered request (deny_request env request d) s"
  unfolding deny_request_def Let_def record_policy_def
  by (rule answered_after [OF append_reliable [OF assms(1)]], rule evidence_then_event)
    (use assms in \<open>simp_all add: unrecorded_def rejected_outcome_def\<close>)

lemma failed_result_evidence: "tr_evidence (failed_tool_result env request e) = []"
  by (simp add: failed_tool_result_def)

lemma fail_before_dispatch_answers:
  assumes "reliable_store env" and "unrecorded request s" and "case job of None \<Rightarrow> True | Some j \<Rightarrow> \<exists>m. safe_job_metadata request j = Inr m"
  shows "answered request (fail_before_dispatch env request d b e job) s"
  unfolding fail_before_dispatch_def Let_def
  by (rule answered_after [OF append_reliable [OF assms(1)]], rule evidence_then_event [where r = "failed_tool_result (ge_receipt env) request (u e)"])
    (use assms in \<open>simp_all add: unrecorded_def rejected_outcome_def failed_result_evidence\<close>)

section \<open>The stages of a call\<close>

lemma authority_answers:
  assumes "reliable_store env" and "unrecorded request s"
  shows "staged request (canonical_authority_inputs env c g request used) (\<lambda>(c', g', r) t. r = request \<and> t = s) s"
proof -
  have denied: "staged request (call_bind (deny_request env request d) (\<lambda>out. call_return (Inl out))) P s" for d P
    by (rule answered_staged [OF deny_request_answers [OF assms]])
  show ?thesis
    unfolding canonical_authority_inputs_def using denied
    by (auto split: option.splits py_num.splits) (simp_all add: staged_def)
qed

lemma portable_no_slash: "safe_portable_identifier i \<Longrightarrow> CHR ''/'' \<notin> set i"
  by (auto simp: safe_portable_identifier_def ident_text_def ident_first_def ident_rest_def list_all_iff Let_def ascii_alpha_def ascii_digit_def
    split: list.splits)

lemma canonical_portable:
  "canonical_tool_request_with_digest env request = Inr (request', digest) \<Longrightarrow> CHR ''/'' \<notin> set (request_id request')"
  by (auto simp: canonical_tool_request_with_digest_def validate_tool_request_def split: sum.splits if_splits dest: portable_no_slash)

lemma reserve_reliable:
  assumes "reliable_store env" and "dict_get (gs_files s) (reservation_path (request_id request)) = None"
    and "dict_get (gs_files s) (evidence_path (request_id request)) = None"
  shows "\<exists>t. reserve_request env request digest s = (Inr None, t) \<and>
    dict_get (gs_files t) (evidence_path (request_id request)) = None \<and>
    gs_rates t = gs_rates s \<and> gs_broker t = gs_broker s \<and> gs_uuids t = gs_uuids s"
  using assms paths_differ [of "request_id request" "request_id request"]
  by (simp add: reserve_request_def Let_def call_bind_def call_catch_def call_return_def write_reliable artifact_exists_def
    store_call_def reliable_store_def append_reliable [unfolded reliable_store_def] dict_simps)

lemma resolve_answers:
  assumes "reliable_store env" and "unrecorded request s"
  shows "staged request (resolve_tool env request) (\<lambda>(tool, t) u. registry_tool (ge_tools env) (request_tool_id request) = Inr tool \<and> u = s) s"
proof -
  have denied: "staged request (call_bind (deny_request env request d) (\<lambda>out. call_return (Inl out))) P s" for d P
    by (rule answered_staged [OF deny_request_answers [OF assms]])
  show ?thesis
    unfolding resolve_tool_def using denied by (auto split: sum.splits) (simp_all add: staged_def)
qed

lemma evaluate_answers:
  assumes "reliable_store env" and "unrecorded request s" and "ordinary_adapter tool"
  shows "staged request (evaluate_policy env c g request tool t used)
    (\<lambda>(d, n, at_time) u. normalized_time (ge_clock env) = Inr at_time \<and> u = s) s"
proof -
  have denied: "staged request (call_bind (deny_request env request d) (\<lambda>out. call_return (Inl out))) P s" for d P
    by (rule answered_staged [OF deny_request_answers [OF assms(1, 2)]])
  obtain n where n: "network_request_cost tool t request = Inr n"
    using network_cost_returns [OF assms(3)] by (cases "network_request_cost tool t request") auto
  show ?thesis
    unfolding evaluate_policy_def Let_def n using denied
    by (auto split: sum.splits option.splits simp: call_bind_def [of "call_lift _"] call_lift_def cong: if_cong)
      (auto simp: staged_def call_bind_def call_lift_def split: option.splits)
qed

lemma approve_answers:
  assumes "reliable_store env" and "unrecorded request s" and "fresh_reservations env s" and "normalized_time (ge_clock env) = Inr at_time"
    and "ordinary_adapter tool" and "safe_job_metadata request job = Inr m"
  shows "staged request (approve_dispatch env c request tool t d n at_time job m) (answerable env request s) s"
proof -
  obtain q u where q: "reserve_dispatch env c at_time n s = (q, u)" by fastforce
  obtain denial v where v: "q = Inr (denial, v)" using reserve_dispatch_returnable [OF q assms(3)] by blast
  have u: "unrecorded request u" "gs_broker u = gs_broker s" "gs_uuids s \<le> gs_uuids u"
    using assms(2) reserve_dispatch_events [OF q] call_inD [OF reserve_dispatch_kept(2) q]
    by (auto simp: unrecorded_def broker_kept_def log_grows_def)
  show ?thesis
  proof (cases denial)
    case (Some x)
    then show ?thesis
      unfolding approve_dispatch_def using q v answered_staged [OF deny_request_answers [OF assms(1) u(1)]]
      by (auto simp: staged_def call_bind_def [of "reserve_dispatch _ _ _ _"])
  next
    case None
    obtain w where w: "record_policy env request d u = (Inr (), w)" "gs_files w = gs_files u" "gs_broker w = gs_broker u" "gs_uuids w = gs_uuids u"
      "gs_rates w = gs_rates u"
      using append_reliable [OF assms(1)] by (simp add: record_policy_def)
    let ?a = "\<lparr>pa_campaign = c, pa_request = request, pa_tool = tool, pa_spec = t, pa_decision = d, pa_job = job,
      pa_job_metadata = m, pa_request_cost = n, pa_rate_reservation = v\<rparr>"
    have run: "approve_dispatch env c request tool t d n at_time job m s = (Inr (Inr ?a), w)"
      using q v None w by (simp add: approve_dispatch_def call_bind_def call_catch_def call_return_def)
    have "returnable (ge_clock env) (gs_rates s) (gs_rates w) v"
      using approve_dispatch_capacity [OF run assms(3, 4)] by (simp add: capacity_of_def)
    then have "answerable env request s ?a w"
      using assms(5, 6) u w unrecorded_files [OF w(2)] by (auto simp: answerable_def)
    then show ?thesis using run by (simp add: staged_def)
  qed
qed

lemma call_bind_lift: "call_bind (call_lift (Inr x)) f = f x"
  by (rule ext) (simp add: call_bind_def call_lift_def)

lemma prepared_metadata:
  "prepare_job env c request tool t n = Inr (Inr (job, m)) \<Longrightarrow> safe_job_metadata request job = Inr m"
  by (cases "safe_job_metadata request job") (auto simp: prepare_job_def split: sum.splits if_splits)

lemma fail_preflight_answers:
  assumes "reliable_store env" and "unrecorded request s"
  shows "staged request (fail_preflight env request d e) P s"
  unfolding fail_preflight_def record_policy_def
  by (rule staged_after [OF append_reliable [OF assms(1)]], rule answered_staged, rule fail_before_dispatch_answers)
    (use assms in \<open>simp_all add: unrecorded_def\<close>)

lemma preflight_checked_answers:
  assumes "reliable_store env" and "unrecorded request s" and "fresh_reservations env s" and "ordinary_adapter tool"
    and guard: "guard_worker_dispatch env 0 = Inr v"
  shows "staged request (preflight_checked env c g request tool t used) (answerable env request s) s"
proof -
  have checked: "staged request (call_bind (call_lift (guard_worker_dispatch env 0)) (\<lambda>guard_failure.
       case guard_failure of
         Some error \<Rightarrow> fail_preflight env request d error
       | None \<Rightarrow>
         call_bind (call_lift (prepare_job env c request tool t n)) (\<lambda>prepared.
         case prepared of
           Inl error \<Rightarrow> fail_preflight env request d error
         | Inr (job, metadata) \<Rightarrow> approve_dispatch env c request tool t d n at_time job metadata))) (answerable env request s) s"
    if clock: "normalized_time (ge_clock env) = Inr at_time" for d n at_time
  proof -
    obtain p where p: "prepare_job env c request tool t n = Inr p"
      using prepare_job_returns [OF assms(4)] by (cases "prepare_job env c request tool t n") auto
    note failed = fail_preflight_answers [OF assms(1, 2)]
    show ?thesis
    proof (cases v)
      case None
      have "staged request (case p of Inl error \<Rightarrow> fail_preflight env request d error
          | Inr (job, metadata) \<Rightarrow> approve_dispatch env c request tool t d n at_time job metadata) (answerable env request s) s"
        using failed approve_answers [OF assms(1-3) clock assms(4) prepared_metadata] p by (auto split: sum.splits prod.splits)
      then show ?thesis
        unfolding guard None p
        by (simp add: call_bind_lift)
    next
      case (Some error)
      then show ?thesis
        unfolding guard by (simp add: call_bind_lift failed)
    qed
  qed
  show ?thesis
    unfolding preflight_checked_def
    using staged_bind [OF evaluate_answers [OF assms(1, 2, 4)], where f = "\<lambda>(d, n, at_time). call_bind (call_lift (guard_worker_dispatch env 0)) (\<lambda>guard_failure.
       case guard_failure of
         Some error \<Rightarrow> fail_preflight env request d error
       | None \<Rightarrow>
         call_bind (call_lift (prepare_job env c request tool t n)) (\<lambda>prepared.
         case prepared of
           Inl error \<Rightarrow> fail_preflight env request d error
         | Inr (job, metadata) \<Rightarrow> approve_dispatch env c request tool t d n at_time job metadata))"] checked
    by (auto split: prod.splits)
qed

lemma gateway_preflight_answers:
  assumes rel: "reliable_store env" and fresh: "fresh_reservations env s"
    and canonical: "canonical_tool_request_with_digest env request = Inr (request', digest)"
    and absent: "dict_get (gs_files s) (reservation_path (request_id request')) = None"
      "dict_get (gs_files s) (evidence_path (request_id request')) = None"
    and adapters: "\<And>i tool. registry_tool (ge_tools env) i = Inr tool \<Longrightarrow> ordinary_adapter tool"
    and guard: "guard_worker_dispatch env 0 = Inr v"
  shows "staged request' (gateway_preflight env c g request used) (answerable env request' s) s"
proof -
  obtain s1 where one: "reserve_request env request' digest s = (Inr None, s1)" and
    s1: "dict_get (gs_files s1) (evidence_path (request_id request')) = None" "gs_rates s1 = gs_rates s" "gs_broker s1 = gs_broker s" "gs_uuids s1 = gs_uuids s"
    using reserve_reliable [OF rel absent] by blast
  have un: "unrecorded request' s1" using s1(1) canonical_portable [OF canonical] by (simp add: unrecorded_def)
  have fresh1: "fresh_reservations env s1" using fresh s1 by (simp add: fresh_reservations_def)
  have same: "answerable env request' s1 = answerable env request' s" using s1 by (intro ext) (simp add: answerable_def)
  have inputs: "staged request' (canonical_inputs env c g request used) (\<lambda>(c', g', r) t. r = request' \<and> t = s1) s"
    unfolding canonical_inputs_def canonical sum.case prod.case
    by (rule staged_after [where m = "reserve_request env request' digest", OF one]) (simp add: authority_answers [OF rel un])
  have tail: "staged request' (call_bind (resolve_tool env request') (\<lambda>resolved.
      case resolved of Inl out \<Rightarrow> call_return (Inl out) | Inr w \<Rightarrow> (case w of (tool, t) \<Rightarrow> preflight_checked env c' g' request' tool t used)))
      (answerable env request' s) s1" for c' g'
    by (rule staged_bind [OF resolve_answers [OF rel un]])
      (auto simp: same [symmetric] intro!: preflight_checked_answers [OF rel un fresh1 _ guard] adapters)
  show ?thesis
    unfolding gateway_preflight_def
    using staged_bind [OF inputs, where f = "\<lambda>(c', g', r). call_bind (resolve_tool env r) (\<lambda>resolved.
      case resolved of Inl out \<Rightarrow> call_return (Inl out) | Inr w \<Rightarrow> (case w of (tool, t) \<Rightarrow> preflight_checked env c' g' r tool t used))"] tail
    by (auto split: prod.splits)
qed

lemma release_reliable:
  assumes "reliable_store env" and "returnable now L (gs_rates s) (pa_rate_reservation a)"
  shows "\<exists>t. release_rate_reservation env a reason s = (Inr (), t) \<and> gs_files t = gs_files s"
  using assms append_reliable [OF assms(1)]
  by (auto simp: release_rate_reservation_def returnable_def on_rates_def call_bind_def call_return_def split: option.splits)

lemma untouched:
  assumes "\<And>i. touches i s t"
  shows "dict_get (gs_files t) p = dict_get (gs_files s) p"
proof -
  have "length (reservation_path p) \<noteq> length p" "length (evidence_path p) \<noteq> length p"
    by (simp_all add: reservation_path_def evidence_path_def)
  then show ?thesis using assms [of p] unfolding touches_def by metis
qed

lemma open_scope_answers:
  assumes rel: "reliable_store env" "ordinary_faults env" and fresh: "fresh_leases env s" and a: "answerable env request s0 a s"
  shows "staged request (open_secret_scope env a)
    (\<lambda>scp t. unrecorded request t \<and> owned_leases env (gs_broker s) (ss_leases scp) (gs_broker t)) s"
proof -
  obtain p t where p: "materialize_secrets env (pa_request a) (pa_job a) s = (p, t)" by fastforce
  have files: "unrecorded request t"
    using a untouched [OF call_inD [OF materialize_secrets_touches p]] by (simp add: answerable_def unrecorded_def)
  have rates: "gs_rates t = gs_rates s" using call_inD [OF materialize_secrets_kept(2) p] by (simp add: rates_kept_def)
  show ?thesis
  proof (cases p)
    case (Inl e)
    have e: "is_exception e" using materialize_secrets_raises p Inl rel(2) by blast
    obtain now L where "returnable now L (gs_rates t) (pa_rate_reservation a)" using a rates by (auto simp: answerable_def)
    then obtain w where w: "release_rate_reservation env a ''secret-lease-failed'' t = (Inr (), w)" "gs_files w = gs_files t"
      using release_reliable [OF rel(1)] by blast
    let ?err = "''secret lease failed; '' @ audit_safe_exception_diagnostic e ''secret-lease''"
    have "answered request (fail_before_dispatch env request (pa_decision a) True ?err (Some (pa_job a))) w"
      by (rule fail_before_dispatch_answers [OF rel(1)])
        (use a files unrecorded_files [OF w(2)] in \<open>auto simp: answerable_def\<close>)
    then obtain out t' where out: "fail_before_dispatch env request (pa_decision a) True ?err (Some (pa_job a)) w = (Inr out, t')"
      "evidenced request out t'" unfolding answered_def by blast
    have "pa_request a = request" using a by (simp add: answerable_def)
    then have "open_secret_scope env a s = (Inr (Inl out), t')"
      using p [unfolded Inl] e w(1) out(1) by (simp add: open_secret_scope_def call_catch_def call_bind_def call_return_def del: append_Cons)
    then show ?thesis using out(2) by (simp add: staged_def)
  next
    case (Inr scp)
    have "owned_leases env (gs_broker s) (ss_leases scp) (gs_broker t)"
      using materialize_secrets_leases [OF p rel(2) fresh] Inr by simp
    then show ?thesis
      using p Inr files by (simp add: staged_def open_secret_scope_def call_catch_def call_bind_def call_return_def)
  qed
qed

lemma record_revoked_reliable:
  "reliable_store env \<Longrightarrow> \<exists>t. record_revoked env ls s = (Inr 0, t) \<and> gs_files t = gs_files s"
proof (induction ls arbitrary: s)
  case (Cons l ls)
  then show ?case
    using Cons.IH [of "s\<lparr>gs_store_calls := Suc (gs_store_calls s), gs_events := gs_events s @
      [SecretLeaseRevoked (sl_id l) (sl_scope l) (sl_binding l) (sl_revoked_reason l)]\<rparr>"]
    by (simp add: append_reliable)
qed simp

lemma revoke_leases_reliable:
  assumes "reliable_store env" and "owned_leases env B0 ls (gs_broker s)"
  shows "\<exists>rs t. revoke_leases env ls reason s = (Inr rs, t) \<and> gs_files t = gs_files s"
proof -
  obtain rs failures t where e: "revoke_each env reason ls s = ((rs, failures), t)" by (metis prod.exhaust)
  have "failures = 0" using revoke_each_owned [OF e assms(2)] by simp
  moreover have "gs_files t = gs_files s" using revoke_each_kept [OF e] by auto
  ultimately show ?thesis
    using e record_revoked_reliable [OF assms(1), of rs t] by (auto simp: revoke_leases_def call_bind_def call_return_def)
qed

lemma dispatch_answers:
  assumes rel: "reliable_store env" and calm: "\<not> ge_cancelling env 1" "guard_worker_dispatch env 2 = Inr None"
    and worker: "\<And>j ms. \<exists>w. ge_worker env j ms = Inr w"
    and a: "pa_request a = request" "ordinary_adapter (pa_tool a)" "\<exists>m. safe_job_metadata request (pa_job a) = Inr m"
    and s: "unrecorded request s" "owned_leases env B0 (ss_leases scp) (gs_broker s)"
  shows "answered request (gateway_dispatch env a scp) s"
proof -
  define s1 where "s1 = s\<lparr>gs_store_calls := Suc (gs_store_calls s), gs_events := gs_events s @ [WorkerDispatched (pa_job_metadata a) (map sl_id (ss_leases scp))]\<rparr>"
  have start: "start_dispatch env a scp s = (Inr (), s1)"
    by (simp add: start_dispatch_def call_catch_def append_reliable [OF rel] s1_def)
  obtain w where w: "ge_worker env (pa_job a) (ss_materials scp) = Inr w" using worker by blast
  define s2 where "s2 = s1\<lparr>gs_runs := gs_runs s1 @ [\<lparr>run_request = pa_request a, run_job = pa_job a, run_materials = ss_materials scp\<rparr>]\<rparr>"
  have "gs_broker s2 = gs_broker s" "gs_files s2 = gs_files s" by (simp_all add: s1_def s2_def)
  moreover obtain rs s3 where revoke: "revoke_leases env (ss_leases scp) ''Worker execution finished'' s2 = (Inr rs, s3)" "gs_files s3 = gs_files s2"
    using revoke_leases_reliable [OF rel] s(2) \<open>gs_broker s2 = gs_broker s\<close> by metis
  ultimately have un: "unrecorded request s3" using s(1) unrecorded_files by metis
  have run: "run_worker env a scp s1 = (Inr (w, rs), s3)"
    using w calm(2) revoke(1)
    by (simp add: run_worker_def worker_attempt_def worker_answer_def worker_cleanup_def call_bind_def call_return_def s2_def)
  let ?receipt = "normalize_host_receipt (ge_receipt env) (pa_job a) w (ss_materials scp)"
  obtain r identity where r: "project_tool_result (ge_receipt env) request (pa_tool a) ?receipt (ss_materials scp) = Inr (r, identity)"
    using project_returns [OF a(2)] by (cases "project_tool_result (ge_receipt env) request (pa_tool a) ?receipt (ss_materials scp)") auto
  define s4 where "s4 = snd (record_worker_completed env request (nr_worker_result ?receipt) s3)"
  have done_: "record_worker_completed env request (nr_worker_result ?receipt) s3 = (Inr (), s4)" and un4: "unrecorded request s4"
    using un by (simp_all add: s4_def record_worker_completed_def append_reliable [OF rel] unrecorded_def)
  have "\<exists>out t. finalize_execution env a (ss_materials scp) rs w s3 = (Inr out, t) \<and> evidenced request out t"
    using evidence_reliable [OF rel un4, of "Some (pa_job a)" "pa_decision a" r "Some (nr_worker_result ?receipt)" rs] a(1, 3) done_ r
    by (auto simp: finalize_execution_def Let_def record_tool_result_def call_bind_def call_lift_def call_return_def append_reliable [OF rel] evidenced_def)
  then show ?thesis
    using calm(1) start run by (simp add: answered_def gateway_dispatch_def call_bind_def)
qed

lemma execute_approved_answers:
  assumes rel: "reliable_store env" "ordinary_faults env" and calm: "\<not> ge_cancelling env 1" "guard_worker_dispatch env 2 = Inr None"
    and worker: "\<And>j ms. \<exists>w. ge_worker env j ms = Inr w"
    and a: "answerable env request s0 a s" and fresh: "fresh_leases env s"
  shows "answered request (execute_approved env a) s"
proof -
  obtain v where v: "guard_worker_dispatch env 1 = Inr v"
    using guard_raises [OF _ rel(2)] by (cases "guard_worker_dispatch env 1") auto
  show ?thesis
  proof (cases v)
    case None
    have "answered request (call_bind (open_secret_scope env a) (\<lambda>v. case v of Inl out \<Rightarrow> call_return out | Inr scp \<Rightarrow> gateway_dispatch env a scp)) s"
      by (rule staged_answered [OF open_scope_answers [OF rel fresh a]], rule dispatch_answers [OF rel(1) calm worker])
        (use a in \<open>auto simp: answerable_def\<close>)
    then show ?thesis unfolding execute_approved_def v None by (simp add: call_bind_lift)
  next
    case (Some error)
    obtain now L where "returnable now L (gs_rates s) (pa_rate_reservation a)" using a by (auto simp: answerable_def)
    then obtain t where t: "release_rate_reservation env a ''worker-dispatch-guard-failed'' s = (Inr (), t)" "gs_files t = gs_files s"
      using release_reliable [OF rel(1)] by blast
    have "answered request (fail_before_dispatch env request (pa_decision a) False error (Some (pa_job a))) t"
      by (rule fail_before_dispatch_answers [OF rel(1)])
        (use a unrecorded_files [OF t(2)] in \<open>auto simp: answerable_def\<close>)
    then show ?thesis
      using a answered_after [where m = "release_rate_reservation env a ''worker-dispatch-guard-failed''", OF t(1)] unfolding execute_approved_def v Some by (simp add: call_bind_lift answerable_def)
  qed
qed

text \<open>C16. A call for a free identifier is answered: when the store, the adapters and the Worker do not fail and nothing
  is cancelled, \<open>execute\<close> returns an outcome for every campaign, grant, request and usage count, allowed or not, and the evidence
  file of the request holds the decision, the Worker result and the result that the caller gets.\<close>

theorem every_fresh_call_is_answered:
  assumes "calm_gateway env" and "fresh_reservations env s" and "fresh_leases env s"
    and "canonical_tool_request_with_digest env request = Inr (request', digest)"
    and "dict_get (gs_files s) (reservation_path (request_id request')) = None"
    and "dict_get (gs_files s) (evidence_path (request_id request')) = None"
  shows "\<exists>out s'. gateway_execute env c g request used s = (Inr out, s') \<and> evidenced request' out s'"
proof -
  have calm: "reliable_store env" "ordinary_faults env" "\<not> ge_cancelling env 0" "\<not> ge_cancelling env 1"
    "guard_worker_dispatch env 2 = Inr None" "\<And>j ms. \<exists>w. ge_worker env j ms = Inr w"
    "\<And>i tool. registry_tool (ge_tools env) i = Inr tool \<Longrightarrow> ordinary_adapter tool"
    using assms(1) by (auto simp: calm_gateway_def)
  obtain v where "guard_worker_dispatch env 0 = Inr v"
    using guard_raises [OF _ calm(2)] by (cases "guard_worker_dispatch env 0") auto
  note preflight = gateway_preflight_answers [OF calm(1) assms(2, 4-6) calm(7) this]
  have "answered request' (execute_approved env a) t" if a: "answerable env request' s a t" for a t
  proof (rule execute_approved_answers [OF calm(1, 2, 4-6) a])
    show "fresh_leases env t" using a assms(3) by (simp add: answerable_def fresh_leases_def)
  qed
  then have "answered request' (gateway_execute env c g request used) s"
    using staged_answered [OF preflight] calm(3) by (simp add: gateway_execute_def)
  then show ?thesis by (auto simp: answered_def)
qed

lemma sample_calm: "calm_gateway (sample_gateway sample_job (\<lambda>_. StoreOk))"
proof -
  have "ordinary_adapter tool" if "registry_tool (sample_registry sample_job) i = Inr tool" for i tool
  proof -
    have "tool = sample_adapter\<lparr>ta_prepare := (\<lambda>_. Inr (Some sample_job))\<rparr>"
      using that by (auto simp: sample_registry_def registry_register_def registry_tool_def registry_get_def snapshot_spec_def
        sample_adapter_def valid_tool_spec_def sample_tool_def split: if_splits)
    then show ?thesis by (simp add: ordinary_adapter_def sample_adapter_def raises_ok_def)
  qed
  then show ?thesis
    by (simp add: calm_gateway_def reliable_store_def sample_gateway_fields ordinary_faults_def)
      (simp add: sample_gateway_def)
qed

theorem every_fresh_call_is_answered_witness:
  "calm_gateway (sample_gateway sample_job (\<lambda>_. StoreOk)) \<and>
   (\<exists>out s'. sample_call sample_job (\<lambda>_. StoreOk) = (Inr out, s') \<and> evidenced granted_request out s')"
proof -
  obtain d where "canonical_tool_request_with_digest (sample_gateway sample_job (\<lambda>_. StoreOk)) granted_request = Inr (granted_request, d)"
    using sample_canonical_request by blast
  then show ?thesis
    using every_fresh_call_is_answered [OF sample_calm sample_hypotheses(2, 3)] sample_calm
    by (simp add: sample_call_def idle_gateway_def)
qed

end
