(* ===== verification/Run_Paths.thy ===== *)
theory Run_Paths
  imports Python_Text Result_Calls
begin

text \<open>
  Names of Run artifacts: \<open>_canonical_path_key\<close> and \<open>_validated_relative_artifact_path\<close> of
  \<^verbatim>\<open>src/src/pajin/runtime/store.py\<close>, with the parts of \<open>pathlib\<close> in use. NFC normalization, case folding and the
  general categories of Unicode are fields of the environment. A validated path resolves to itself below
  every directory it is joined to.
\<close>

record path_env =
  pe_nfc :: "ustr \<Rightarrow> ustr"
  pe_casefold :: "ustr \<Rightarrow> ustr"
  pe_control :: "nat \<Rightarrow> bool"

definition WINDOWS_INVALID_PATH_CHARACTERS :: "nat list" where
  "WINDOWS_INVALID_PATH_CHARACTERS = u ''<>:\"|?*''"

definition WINDOWS_RESERVED_PATH_STEMS :: "ustr list" where
  "WINDOWS_RESERVED_PATH_STEMS =
     map u [''con'', ''prn'', ''aux'', ''nul''] @ map (\<lambda>i. u ''com'' @ [48 + i]) [1..<10] @ map (\<lambda>i. u ''lpt'' @ [48 + i]) [1..<10]"

definition canonical_path_key :: "path_env \<Rightarrow> ustr \<Rightarrow> ustr" where
  "canonical_path_key pe value = pe_casefold pe (pe_nfc pe value)"

definition RESERVED_ARTIFACTS :: "ustr list" where
  "RESERVED_ARTIFACTS = map u [''events.jsonl'', ''run-integrity.jsonl'', ''.pajin-run.lock'']"

definition RESERVED_ARTIFACT_KEYS :: "path_env \<Rightarrow> ustr list" where
  "RESERVED_ARTIFACT_KEYS pe = map (canonical_path_key pe) RESERVED_ARTIFACTS"

text \<open>\<open>part.split(".", 1)[0].rstrip(" ").casefold()\<close>.\<close>

definition device_stem :: "path_env \<Rightarrow> ustr \<Rightarrow> ustr" where
  "device_stem pe part = pe_casefold pe (rev (dropWhile (\<lambda>c. c = 32) (rev (fst (partition_at 46 part)))))"

definition validate_path_part :: "path_env \<Rightarrow> ustr \<Rightarrow> unit \<Rightarrow> unit result" where
  "validate_path_part pe part _ =
     (if list_ex (pe_control pe) part
      then Inl (ValueError ''artifact path cannot contain Unicode control or format characters'')
      else if list_ex (\<lambda>c. c \<in> set WINDOWS_INVALID_PATH_CHARACTERS) part
      then Inl (ValueError ''artifact path contains a character forbidden by Windows filesystems'')
      else if ends_with [32] part \<or> ends_with [46] part
      then Inl (ValueError ''artifact path components cannot end in a space or period'')
      else if device_stem pe part \<in> set WINDOWS_RESERVED_PATH_STEMS
      then Inl (ValueError ''artifact path contains a reserved Windows device name'')
      else Inr ())"

definition path_parts :: "ustr \<Rightarrow> ustr list" where
  "path_parts value = split_at {47} value"

text \<open>A path whose components are all proper is what \<open>PurePosixPath(value).as_posix()\<close> gives back.\<close>

definition validated_relative_artifact_path :: "path_env \<Rightarrow> ustr \<Rightarrow> ustr result" where
  "validated_relative_artifact_path pe value =
     (if value = [] then Inl (ValueError ''artifact path must be a non-empty string'')
      else if value \<noteq> pe_nfc pe value then Inl (ValueError ''artifact path must use NFC Unicode normalization'')
      else if 92 \<in> set value \<or> 0 \<in> set value
      then Inl (ValueError ''artifact path contains a non-portable separator or NUL'')
      else if starts_with [47] value \<or> list_ex (\<lambda>part. part \<in> {[], [46], [46, 46]}) (path_parts value)
      then Inl (ValueError ''artifact path must be a normalized relative path'')
      else result_bind (result_fold (validate_path_part pe) (path_parts value) ()) (\<lambda>_. Inr value))"

definition validate_run_artifact_path :: "path_env \<Rightarrow> ustr \<Rightarrow> ustr result" where
  "validate_run_artifact_path pe value = validated_relative_artifact_path pe value"

text \<open>\<open>"/".join\<close>, the last component and \<open>PurePath.suffix\<close>.\<close>

fun join_path :: "ustr list \<Rightarrow> ustr" where
  "join_path [] = []"
| "join_path [p] = p"
| "join_path (p # q # ps) = p @ [47] @ join_path (q # ps)"

definition path_name :: "ustr \<Rightarrow> ustr" where
  "path_name value = last (path_parts value)"

definition path_suffix :: "ustr \<Rightarrow> ustr" where
  "path_suffix value =
     (case rpartition_at 46 (path_name value) of
        (stem, found, ext) \<Rightarrow> if found \<and> stem \<noteq> [] \<and> ext \<noteq> [] then [46] @ ext else [])"

text \<open>How a file system follows a list of names from a directory, given as the names that lead to it.\<close>

fun follow_names :: "ustr list \<Rightarrow> ustr list \<Rightarrow> ustr list" where
  "follow_names d [] = d"
| "follow_names d (p # ps) =
     (if p = [] \<or> p = [46] then follow_names d ps
      else if p = [46, 46] then follow_names (butlast d) ps
      else follow_names (d @ [p]) ps)"

section \<open>Paths and their components\<close>

lemma path_parts_nonempty: "split_at cs s \<noteq> []"
  by (induction s) (auto split: list.splits)

lemma split_at_append:
  "47 \<notin> set a \<Longrightarrow> split_at {47} (a @ 47 # s) = a # split_at {47} s"
  by (induction a) auto

lemma split_at_plain: "47 \<notin> set a \<Longrightarrow> split_at {47} a = [a]"
  by (induction a) auto

lemma parts_plain: "p \<in> set (split_at {47} s) \<Longrightarrow> 47 \<notin> set p"
  by (induction s arbitrary: p) (fastforce split: if_splits list.splits)+

lemma join_path_Cons: "ps \<noteq> [] \<Longrightarrow> join_path (p # ps) = p @ [47] @ join_path ps"
  by (cases ps) auto

lemma join_parts [simp]: "join_path (path_parts s) = s"
  unfolding path_parts_def
proof (induction s)
  case (Cons x s)
  obtain y ys where y: "split_at {47} s = y # ys" using path_parts_nonempty by (cases "split_at {47} s") auto
  then show ?case using Cons by (cases ys) auto
qed simp

lemma parts_join: "ps \<noteq> [] \<Longrightarrow> \<forall>p \<in> set ps. 47 \<notin> set p \<Longrightarrow> path_parts (join_path ps) = ps"
  unfolding path_parts_def
  by (induction ps rule: join_path.induct) (auto simp: split_at_append split_at_plain)

lemma result_fold_unit:
  "result_fold f xs () = Inr () \<longleftrightarrow> (\<forall>x \<in> set xs. f x () = Inr ())"
  by (induction xs) (auto simp: result_bind_Inr)

lemma validated_same: "validated_relative_artifact_path pe v = Inr p \<Longrightarrow> p = v"
  by (auto simp: validated_relative_artifact_path_def result_bind_Inr split: if_splits)

lemma validated_parts:
  assumes "validated_relative_artifact_path pe v = Inr p" and "part \<in> set (path_parts v)"
  shows "part \<notin> {[], [46], [46, 46]}" and "validate_path_part pe part () = Inr ()" and "92 \<notin> set part" and "0 \<notin> set part"
proof -
  have "\<forall>x \<in> set (path_parts v). set x \<subseteq> set v" for v
    unfolding path_parts_def by (induction v) (fastforce split: if_splits list.splits)+
  then have sub: "set part \<subseteq> set v" using assms(2) by blast
  show "part \<notin> {[], [46], [46, 46]}" "validate_path_part pe part () = Inr ()" "92 \<notin> set part" "0 \<notin> set part"
    using assms sub by (auto simp: validated_relative_artifact_path_def result_bind_Inr result_fold_unit list_ex_iff split: if_splits)
qed

lemma follow_proper: "\<forall>p \<in> set ps. p \<notin> {[], [46], [46, 46]} \<Longrightarrow> follow_names d ps = d @ ps"
  by (induction ps arbitrary: d) auto

end
