(* ===== verification/Run_Records.thy ===== *)
theory Run_Records
  imports Run_Paths Strict_Json "HOL-Library.Monad_Syntax"
begin

text \<open>
  The two logs of a Run: \<open>AuditEvent\<close>, \<open>RunIntegritySeal\<close> and their loaders \<open>_load_events\<close> and \<open>_load_seals\<close> of
  \<^verbatim>\<open>src/src/pajin/runtime/store.py\<close>. A log is a file of JSON lines; every record carries the digest of its
  canonical content and the digest of the record before it. Pydantic's reading of integers and datetimes,
  its JSON text and the values of default factories are fields of the environment. The variable part of an
  exception's message is left out where it is text of the Run.
\<close>

section \<open>Files of a Run\<close>

datatype link_target = ToFile | ToDirectory | ToNothing

datatype run_node = RegularFile (node_content: "nat list") (node_links: nat) | Directory | SymbolicLink link_target | SpecialFile

type_synonym run_files = "(ustr, run_node) dict"

fun node_is_file :: "run_node option \<Rightarrow> bool" where
  "node_is_file (Some (RegularFile _ _)) = True"
| "node_is_file (Some (SymbolicLink ToFile)) = True"
| "node_is_file _ = False"

fun node_is_dir :: "run_node option \<Rightarrow> bool" where
  "node_is_dir (Some Directory) = True"
| "node_is_dir (Some (SymbolicLink ToDirectory)) = True"
| "node_is_dir _ = False"

fun node_exists :: "run_node option \<Rightarrow> bool" where
  "node_exists None = False"
| "node_exists (Some (SymbolicLink ToNothing)) = False"
| "node_exists (Some _) = True"

fun node_is_symlink :: "run_node option \<Rightarrow> bool" where
  "node_is_symlink (Some (SymbolicLink _)) = True"
| "node_is_symlink _ = False"

definition open_bounded_regular_file :: "run_node option \<Rightarrow> string \<Rightarrow> int \<Rightarrow> nat list result" where
  "open_bounded_regular_file node label max_bytes =
     (case node of
        None \<Rightarrow> Inl (RunIntegrityError (label @ '' cannot be inspected''))
      | Some (RegularFile content links) \<Rightarrow>
          (if links \<noteq> 1 then Inl (RunIntegrityError (label @ '' must not have additional hard links''))
           else if int (length content) > max_bytes
           then Inl (RunIntegrityError (label @ '' exceeds the '' @ show_int max_bytes @ ''-byte limit''))
           else Inr content)
      | Some _ \<Rightarrow> Inl (RunIntegrityError (label @ '' must be a regular file'')))"

text \<open>The lines of a file, each with its line feed.\<close>

fun jsonl_lines :: "nat list \<Rightarrow> nat list list" where
  "jsonl_lines [] = []"
| "jsonl_lines (c # cs) =
     (if c = 10 then [c] # jsonl_lines cs
      else case jsonl_lines cs of [] \<Rightarrow> [[c]] | l # ls \<Rightarrow> (c # l) # ls)"

fun jsonl_loop :: "string \<Rightarrow> int \<Rightarrow> int \<Rightarrow> int \<Rightarrow> int \<Rightarrow> int \<Rightarrow> nat list list \<Rightarrow> (int \<times> nat list) result list" where
  "jsonl_loop label max_file max_record max_records observed sequence [] = []"
| "jsonl_loop label max_file max_record max_records observed sequence (raw_line # rest) =
     (let observed' = observed + int (length raw_line) in
      if observed' > max_file
      then [Inl (RunIntegrityError (label @ '' exceeds the '' @ show_int max_file @ ''-byte limit''))]
      else if int (length raw_line) > max_record
      then [Inl (RunIntegrityError (label @ '' record exceeds the '' @ show_int max_record @ ''-byte limit''))]
      else if sequence + 1 > max_records
      then [Inl (RunIntegrityError (label @ '' exceeds the '' @ show_int max_records @ ''-record limit''))]
      else Inr (sequence + 1, raw_line) # jsonl_loop label max_file max_record max_records observed' (sequence + 1) rest)"

text \<open>The generator yields numbered lines and may end with an exception.\<close>

definition bounded_jsonl_records :: "run_node option \<Rightarrow> string \<Rightarrow> int \<Rightarrow> int \<Rightarrow> int \<Rightarrow> (int \<times> nat list) result list" where
  "bounded_jsonl_records node label max_file max_record max_records =
     (case open_bounded_regular_file node label max_file of
        Inl e \<Rightarrow> [Inl e]
      | Inr content \<Rightarrow> jsonl_loop label max_file max_record max_records 0 0 (jsonl_lines content))"

section \<open>Records\<close>

record store_env =
  se_paths :: path_env
  se_db :: unicode_db
  se_float :: "rat \<Rightarrow> ustr"
  se_dump_json :: "jv \<Rightarrow> ustr"
  se_int :: "jv \<Rightarrow> int option"
  se_datetime :: "jv \<Rightarrow> py_datetime option"
  se_iso :: "py_datetime \<Rightarrow> ustr"
  se_default_uuid :: "jv \<Rightarrow> ustr"
  se_default_now :: "jv \<Rightarrow> py_datetime"

record stored_event =
  ae_event_id :: ustr
  ae_run_id :: ustr
  ae_sequence :: int
  ae_event_type :: ustr
  ae_occurred_at :: py_datetime
  ae_payload :: "(ustr \<times> jv) list"
  ae_previous_hash :: "ustr option"
  ae_event_hash :: ustr

record artifact_provenance =
  ap_request_id :: "ustr option"
  ap_tool_id :: "ustr option"
  ap_execution_id :: "ustr option"
  ap_event_ids :: "ustr list"

record sealed_artifact =
  sa_path :: ustr
  sa_sha256 :: ustr
  sa_size_bytes :: int
  sa_media_type :: ustr
  sa_provenance :: "artifact_provenance option"

record run_seal =
  sl_api_version :: ustr
  sl_seal_id :: ustr
  sl_run_id :: ustr
  sl_sequence :: int
  sl_sealed_at :: py_datetime
  sl_previous_root_digest :: "ustr option"
  sl_event_count :: int
  sl_event_head_hash :: ustr
  sl_artifact_root_digest :: ustr
  sl_artifacts :: "sealed_artifact list"
  sl_root_digest :: ustr

definition INTEGRITY_API_VERSION :: ustr where
  "INTEGRITY_API_VERSION = u ''pajin.dev/run-integrity/v1''"

definition CAMPAIGN_TERMINAL_EVENTS :: "ustr list" where
  "CAMPAIGN_TERMINAL_EVENTS =
     map u [''campaign.completed'', ''campaign.failed'', ''campaign.cancelled'', ''campaign.budget-exhausted'']"

definition hash_pattern :: "ustr \<Rightarrow> bool" where
  "hash_pattern s = (length s = 64 \<and> list_all (\<lambda>c. 48 \<le> c \<and> c \<le> 57 \<or> 97 \<le> c \<and> c \<le> 102) s)"

definition is_aware :: "py_datetime \<Rightarrow> bool" where
  "is_aware d = (utcoffset d \<noteq> None)"

section \<open>Model dumps and digests\<close>

definition jv_optional :: "ustr option \<Rightarrow> jv" where
  "jv_optional v = (case v of None \<Rightarrow> JvNull | Some s \<Rightarrow> JvStr s)"

definition event_material :: "store_env \<Rightarrow> stored_event \<Rightarrow> (ustr \<times> jv) list" where
  "event_material E e =
     [(u ''event_id'', JvStr (ae_event_id e)), (u ''run_id'', JvStr (ae_run_id e)), (u ''sequence'', JvInt (ae_sequence e)),
      (u ''event_type'', JvStr (ae_event_type e)), (u ''occurred_at'', JvStr (se_iso E (ae_occurred_at e))),
      (u ''payload'', JvObj (ae_payload e)), (u ''previous_hash'', jv_optional (ae_previous_hash e))]"

definition event_json :: "store_env \<Rightarrow> stored_event \<Rightarrow> jv" where
  "event_json E e = JvObj (event_material E e @ [(u ''event_hash'', JvStr (ae_event_hash e))])"

definition provenance_json :: "artifact_provenance option \<Rightarrow> jv" where
  "provenance_json p =
     (case p of
        None \<Rightarrow> JvNull
      | Some v \<Rightarrow> JvObj [(u ''request_id'', jv_optional (ap_request_id v)), (u ''tool_id'', jv_optional (ap_tool_id v)),
          (u ''execution_id'', jv_optional (ap_execution_id v)), (u ''event_ids'', JvList (map JvStr (ap_event_ids v)))])"

definition artifact_json :: "sealed_artifact \<Rightarrow> jv" where
  "artifact_json a =
     JvObj [(u ''path'', JvStr (sa_path a)), (u ''sha256'', JvStr (sa_sha256 a)), (u ''size_bytes'', JvInt (sa_size_bytes a)),
       (u ''media_type'', JvStr (sa_media_type a)), (u ''provenance'', provenance_json (sa_provenance a))]"

definition seal_material :: "store_env \<Rightarrow> run_seal \<Rightarrow> (ustr \<times> jv) list" where
  "seal_material E s =
     [(u ''api_version'', JvStr (sl_api_version s)), (u ''seal_id'', JvStr (sl_seal_id s)), (u ''run_id'', JvStr (sl_run_id s)),
      (u ''sequence'', JvInt (sl_sequence s)), (u ''sealed_at'', JvStr (se_iso E (sl_sealed_at s))),
      (u ''previous_root_digest'', jv_optional (sl_previous_root_digest s)), (u ''event_count'', JvInt (sl_event_count s)),
      (u ''event_head_hash'', JvStr (sl_event_head_hash s)), (u ''artifact_root_digest'', JvStr (sl_artifact_root_digest s)),
      (u ''artifacts'', JvList (map artifact_json (sl_artifacts s)))]"

definition seal_json :: "store_env \<Rightarrow> run_seal \<Rightarrow> jv" where
  "seal_json E s = JvObj (seal_material E s @ [(u ''root_digest'', JvStr (sl_root_digest s))])"

definition canonical_digest :: "store_env \<Rightarrow> jv \<Rightarrow> ustr result" where
  "canonical_digest E value =
     (if \<not> json_dumpable value then Inl (ValueError ''Out of range float values are not JSON compliant'')
      else case utf8_encode (json_dump (se_float E) (sort_keys value)) of
        None \<Rightarrow> Inl UnicodeEncodeError
      | Some encoded \<Rightarrow> Inr (u (sha256_hex encoded)))"

definition computed_hash :: "store_env \<Rightarrow> stored_event \<Rightarrow> ustr result" where
  "computed_hash E e = canonical_digest E (JvObj (event_material E e))"

definition computed_artifact_root_digest :: "store_env \<Rightarrow> run_seal \<Rightarrow> ustr result" where
  "computed_artifact_root_digest E s = canonical_digest E (JvList (map artifact_json (sl_artifacts s)))"

definition computed_root_digest :: "store_env \<Rightarrow> run_seal \<Rightarrow> ustr result" where
  "computed_root_digest E s = canonical_digest E (JvObj (seal_material E s))"

section \<open>Validation of raw records\<close>

definition known_fields :: "string list \<Rightarrow> (ustr \<times> jv) list \<Rightarrow> bool" where
  "known_fields names kvs = list_all (\<lambda>kv. fst kv \<in> set (map u names)) kvs"

definition text_field :: "(ustr \<times> jv) list \<Rightarrow> string \<Rightarrow> ustr option" where
  "text_field kvs name =
     (case map_of kvs (u name) of Some (JvStr s) \<Rightarrow> if utf8_encode s \<noteq> None then Some s else None | _ \<Rightarrow> None)"

definition text_field_or :: "ustr \<Rightarrow> (ustr \<times> jv) list \<Rightarrow> string \<Rightarrow> ustr option" where
  "text_field_or fallback kvs name = (if map_of kvs (u name) = None then Some fallback else text_field kvs name)"

definition optional_text_field :: "(ustr \<times> jv) list \<Rightarrow> string \<Rightarrow> ustr option option" where
  "optional_text_field kvs name =
     (case map_of kvs (u name) of None \<Rightarrow> Some None | Some JvNull \<Rightarrow> Some None | _ \<Rightarrow> map_option Some (text_field kvs name))"

definition hash_field :: "(ustr \<times> jv) list \<Rightarrow> string \<Rightarrow> ustr option" where
  "hash_field kvs name = Option.bind (text_field kvs name) (\<lambda>s. if hash_pattern s then Some s else None)"

definition optional_hash_field :: "(ustr \<times> jv) list \<Rightarrow> string \<Rightarrow> ustr option option" where
  "optional_hash_field kvs name =
     (case map_of kvs (u name) of None \<Rightarrow> Some None | Some JvNull \<Rightarrow> Some None | _ \<Rightarrow> map_option Some (hash_field kvs name))"

definition int_field :: "store_env \<Rightarrow> int \<Rightarrow> (ustr \<times> jv) list \<Rightarrow> string \<Rightarrow> int option" where
  "int_field E least kvs name =
     Option.bind (map_of kvs (u name)) (\<lambda>v. Option.bind (se_int E v) (\<lambda>n. if least \<le> n then Some n else None))"

definition aware_field_or :: "store_env \<Rightarrow> py_datetime \<Rightarrow> (ustr \<times> jv) list \<Rightarrow> string \<Rightarrow> py_datetime option" where
  "aware_field_or E fallback kvs name =
     Option.bind (case map_of kvs (u name) of None \<Rightarrow> Some fallback | Some v \<Rightarrow> se_datetime E v)
       (\<lambda>d. if is_aware d then Some d else None)"

definition payload_field :: "(ustr \<times> jv) list \<Rightarrow> string \<Rightarrow> (ustr \<times> jv) list option" where
  "payload_field kvs name =
     (case map_of kvs (u name) of
        None \<Rightarrow> Some []
      | Some (JvObj m) \<Rightarrow> if list_all (\<lambda>kv. utf8_encode (fst kv) \<noteq> None) m then Some m else None
      | _ \<Rightarrow> None)"

definition validate_event :: "store_env \<Rightarrow> jv \<Rightarrow> stored_event option" where
  "validate_event E raw =
     (case raw of
        JvObj kvs \<Rightarrow>
          if \<not> known_fields [''event_id'', ''run_id'', ''sequence'', ''event_type'', ''occurred_at'', ''payload'',
               ''previous_hash'', ''event_hash''] kvs then None
          else do {
            event_id \<leftarrow> text_field_or (u ''event_'' @ se_default_uuid E raw) kvs ''event_id'';
            run_id \<leftarrow> text_field kvs ''run_id'';
            sequence \<leftarrow> int_field E 1 kvs ''sequence'';
            event_type \<leftarrow> text_field kvs ''event_type'';
            occurred_at \<leftarrow> aware_field_or E (se_default_now E raw) kvs ''occurred_at'';
            payload \<leftarrow> payload_field kvs ''payload'';
            previous_hash \<leftarrow> optional_hash_field kvs ''previous_hash'';
            event_hash \<leftarrow> hash_field kvs ''event_hash'';
            Some \<lparr>ae_event_id = event_id, ae_run_id = run_id, ae_sequence = sequence, ae_event_type = event_type,
              ae_occurred_at = occurred_at, ae_payload = payload, ae_previous_hash = previous_hash, ae_event_hash = event_hash\<rparr>
          }
      | _ \<Rightarrow> None)"

fun all_some :: "'a option list \<Rightarrow> 'a list option" where
  "all_some [] = Some []"
| "all_some (x # xs) = Option.bind x (\<lambda>y. map_option ((#) y) (all_some xs))"

definition texts_of :: "jv \<Rightarrow> ustr list option" where
  "texts_of v =
     (case v of
        JvList vs \<Rightarrow> all_some (map (\<lambda>w. case w of JvStr s \<Rightarrow> if utf8_encode s \<noteq> None then Some s else None | _ \<Rightarrow> None) vs)
      | _ \<Rightarrow> None)"

definition validate_provenance :: "jv \<Rightarrow> artifact_provenance option" where
  "validate_provenance raw =
     (case raw of
        JvObj kvs \<Rightarrow>
          if \<not> known_fields [''request_id'', ''tool_id'', ''execution_id'', ''event_ids''] kvs then None
          else do {
            request_id \<leftarrow> optional_text_field kvs ''request_id'';
            tool_id \<leftarrow> optional_text_field kvs ''tool_id'';
            execution_id \<leftarrow> optional_text_field kvs ''execution_id'';
            event_ids \<leftarrow> (case map_of kvs (u ''event_ids'') of None \<Rightarrow> Some [] | Some v \<Rightarrow> texts_of v);
            Some \<lparr>ap_request_id = request_id, ap_tool_id = tool_id, ap_execution_id = execution_id, ap_event_ids = event_ids\<rparr>
          }
      | _ \<Rightarrow> None)"

definition validate_artifact :: "store_env \<Rightarrow> jv \<Rightarrow> sealed_artifact option" where
  "validate_artifact E raw =
     (case raw of
        JvObj kvs \<Rightarrow>
          if \<not> known_fields [''path'', ''sha256'', ''size_bytes'', ''media_type'', ''provenance''] kvs then None
          else do {
            path \<leftarrow> text_field kvs ''path'';
            digest \<leftarrow> hash_field kvs ''sha256'';
            size_bytes \<leftarrow> int_field E 0 kvs ''size_bytes'';
            media_type \<leftarrow> text_field kvs ''media_type'';
            provenance \<leftarrow> (case map_of kvs (u ''provenance'') of
                None \<Rightarrow> Some None | Some JvNull \<Rightarrow> Some None | Some v \<Rightarrow> map_option Some (validate_provenance v));
            Some \<lparr>sa_path = path, sa_sha256 = digest, sa_size_bytes = size_bytes, sa_media_type = media_type,
              sa_provenance = provenance\<rparr>
          }
      | _ \<Rightarrow> None)"

definition artifacts_field :: "store_env \<Rightarrow> (ustr \<times> jv) list \<Rightarrow> string \<Rightarrow> sealed_artifact list option" where
  "artifacts_field E kvs name =
     (case map_of kvs (u name) of
        None \<Rightarrow> Some []
      | Some (JvList vs) \<Rightarrow> all_some (map (validate_artifact E) vs)
      | _ \<Rightarrow> None)"

definition validate_seal :: "store_env \<Rightarrow> jv \<Rightarrow> run_seal option" where
  "validate_seal E raw =
     (case raw of
        JvObj kvs \<Rightarrow>
          if \<not> known_fields [''api_version'', ''seal_id'', ''run_id'', ''sequence'', ''sealed_at'', ''previous_root_digest'',
               ''event_count'', ''event_head_hash'', ''artifact_root_digest'', ''artifacts'', ''root_digest''] kvs then None
          else do {
            api_version \<leftarrow> text_field_or INTEGRITY_API_VERSION kvs ''api_version'';
            seal_id \<leftarrow> text_field_or (u ''seal_'' @ se_default_uuid E raw) kvs ''seal_id'';
            run_id \<leftarrow> text_field kvs ''run_id'';
            sequence \<leftarrow> int_field E 1 kvs ''sequence'';
            sealed_at \<leftarrow> aware_field_or E (se_default_now E raw) kvs ''sealed_at'';
            previous_root_digest \<leftarrow> optional_hash_field kvs ''previous_root_digest'';
            event_count \<leftarrow> int_field E 1 kvs ''event_count'';
            event_head_hash \<leftarrow> hash_field kvs ''event_head_hash'';
            artifact_root_digest \<leftarrow> hash_field kvs ''artifact_root_digest'';
            artifacts \<leftarrow> artifacts_field E kvs ''artifacts'';
            root_digest \<leftarrow> hash_field kvs ''root_digest'';
            Some \<lparr>sl_api_version = api_version, sl_seal_id = seal_id, sl_run_id = run_id, sl_sequence = sequence,
              sl_sealed_at = sealed_at, sl_previous_root_digest = previous_root_digest, sl_event_count = event_count,
              sl_event_head_hash = event_head_hash, sl_artifact_root_digest = artifact_root_digest,
              sl_artifacts = artifacts, sl_root_digest = root_digest\<rparr>
          }
      | _ \<Rightarrow> None)"

section \<open>The loaders\<close>

definition MAX_EVENT_LOG_BYTES :: int where "MAX_EVENT_LOG_BYTES = 67108864"

definition MAX_INTEGRITY_LOG_BYTES :: int where "MAX_INTEGRITY_LOG_BYTES = 67108864"

definition MAX_AUDIT_EVENT_RECORD_BYTES :: int where "MAX_AUDIT_EVENT_RECORD_BYTES = 4194304"

definition MAX_INTEGRITY_SEAL_RECORD_BYTES :: int where "MAX_INTEGRITY_SEAL_RECORD_BYTES = 16777216"

definition MAX_AUDIT_EVENT_RECORDS :: int where "MAX_AUDIT_EVENT_RECORDS = 4000000"

definition MAX_INTEGRITY_SEAL_RECORDS :: int where "MAX_INTEGRITY_SEAL_RECORDS = 1000000"

text \<open>\<open>not line.strip()\<close> on bytes.\<close>

definition blank_line :: "nat list \<Rightarrow> bool" where
  "blank_line line = list_all (\<lambda>c. 9 \<le> c \<and> c \<le> 13 \<or> c = 32) line"

text \<open>\<open>except ValueError\<close> around the strict parse and the validation.\<close>

definition read_record :: "string \<Rightarrow> int \<Rightarrow> exn \<Rightarrow> (jv \<Rightarrow> 'a option) \<Rightarrow> nat list \<Rightarrow> 'a result" where
  "read_record label max_bytes invalid validate line =
     (case parse_strict_json_bytes line label max_bytes 64 200000 of
        Inl _ \<Rightarrow> Inl invalid
      | Inr raw \<Rightarrow> (case validate raw of None \<Rightarrow> Inl invalid | Some x \<Rightarrow> Inr x))"

definition read_event :: "store_env \<Rightarrow> int \<Rightarrow> nat list \<Rightarrow> stored_event result" where
  "read_event E n line =
     (if blank_line line then Inl (RunIntegrityError ''Run event stream contains a blank record'')
      else read_record (''Run Audit Event at sequence '' @ show_int n) MAX_AUDIT_EVENT_RECORD_BYTES
        (RunIntegrityError (''invalid Audit Event at sequence '' @ show_int n)) (validate_event E) line)"

definition check_event ::
  "store_env \<Rightarrow> ustr \<Rightarrow> int \<Rightarrow> ustr option \<Rightarrow> stored_event \<Rightarrow> unit result" where
  "check_event E run_id n previous_hash e =
     (if ae_run_id e \<noteq> run_id then Inl (RunIntegrityError ''Run event stream contains inconsistent run identifiers'')
      else if ae_sequence e \<noteq> n then Inl (RunIntegrityError ''Run event sequence is not contiguous'')
      else if ae_previous_hash e \<noteq> previous_hash then Inl (RunIntegrityError ''Run event previous-hash link is invalid'')
      else result_bind (computed_hash E e) (\<lambda>h.
        if ae_event_hash e \<noteq> h then Inl (RunIntegrityError ''Run event hash does not match its canonical content'')
        else Inr ()))"

text \<open>The variables of the loop: the identifier of the Run, the last hash, the events so far.\<close>

type_synonym event_loop = "ustr option \<times> ustr option \<times> stored_event list"

definition load_event_step :: "store_env \<Rightarrow> (int \<times> nat list) result \<Rightarrow> event_loop \<Rightarrow> event_loop result" where
  "load_event_step E item st =
     (case st of (expected, previous_hash, events) \<Rightarrow>
        result_bind item (\<lambda>(n, line).
          result_bind (read_event E n line) (\<lambda>e.
            let run_id = (case expected of None \<Rightarrow> ae_run_id e | Some r \<Rightarrow> r) in
            result_bind (check_event E run_id n previous_hash e) (\<lambda>_.
              Inr (Some run_id, Some (ae_event_hash e), events @ [e])))))"

definition is_terminal :: "stored_event \<Rightarrow> bool" where
  "is_terminal e = (ae_event_type e \<in> set CAMPAIGN_TERMINAL_EVENTS)"

definition load_events :: "store_env \<Rightarrow> run_node option \<Rightarrow> ustr option \<Rightarrow> stored_event list result" where
  "load_events E node expected_run_id =
     (if \<not> node_is_file node then Inl (RunIntegrityError ''Run event stream is missing'')
      else result_bind
        (result_fold (load_event_step E)
          (bounded_jsonl_records node ''Run event stream'' MAX_EVENT_LOG_BYTES MAX_AUDIT_EVENT_RECORD_BYTES
             MAX_AUDIT_EVENT_RECORDS)
          (expected_run_id, None, []))
        (\<lambda>(_, _, events).
           if events = [] then Inl (RunIntegrityError ''Run event stream is empty'')
           else if length (filter is_terminal events) > 1
           then Inl (RunIntegrityError ''Run event stream contains multiple Campaign terminal events'')
           else Inr events))"

definition read_seal :: "store_env \<Rightarrow> int \<Rightarrow> nat list \<Rightarrow> run_seal result" where
  "read_seal E n line =
     (if blank_line line then Inl (RunIntegrityError ''Run integrity log contains a blank record'')
      else read_record (''Run integrity seal at sequence '' @ show_int n) MAX_INTEGRITY_SEAL_RECORD_BYTES
        (RunIntegrityError (''invalid Run seal at sequence '' @ show_int n)) (validate_seal E) line)"

definition check_seal :: "store_env \<Rightarrow> ustr \<Rightarrow> int \<Rightarrow> ustr option \<Rightarrow> run_seal \<Rightarrow> unit result" where
  "check_seal E run_id n previous_root s =
     (if sl_api_version s \<noteq> INTEGRITY_API_VERSION then Inl (RunIntegrityError ''unsupported Run integrity version'')
      else if sl_run_id s \<noteq> run_id then Inl (RunIntegrityError ''Run seal belongs to a different run'')
      else if sl_sequence s \<noteq> n then Inl (RunIntegrityError ''Run seal sequence is not contiguous'')
      else if sl_previous_root_digest s \<noteq> previous_root then Inl (RunIntegrityError ''Run seal previous-root link is invalid'')
      else if sl_artifacts s \<noteq> sort_key sa_path (sl_artifacts s)
      then Inl (RunIntegrityError ''Run seal artifacts are not canonically ordered'')
      else result_bind (computed_artifact_root_digest E s) (\<lambda>a.
        if sl_artifact_root_digest s \<noteq> a
        then Inl (RunIntegrityError ''Run seal artifact root does not match its artifact records'')
        else result_bind (computed_root_digest E s) (\<lambda>r.
          if sl_root_digest s \<noteq> r
          then Inl (RunIntegrityError ''Run seal root digest does not match its canonical content'')
          else Inr ())))"

type_synonym seal_loop = "ustr option \<times> run_seal list"

definition load_seal_step :: "store_env \<Rightarrow> ustr \<Rightarrow> (int \<times> nat list) result \<Rightarrow> seal_loop \<Rightarrow> seal_loop result" where
  "load_seal_step E run_id item st =
     (case st of (previous_root, seals) \<Rightarrow>
        result_bind item (\<lambda>(n, line).
          result_bind (read_seal E n line) (\<lambda>s.
            result_bind (check_seal E run_id n previous_root s) (\<lambda>_.
              Inr (Some (sl_root_digest s), seals @ [s])))))"

definition load_seals :: "store_env \<Rightarrow> run_node option \<Rightarrow> ustr \<Rightarrow> run_seal list result" where
  "load_seals E node expected_run_id =
     (if \<not> node_is_file node then Inr []
      else result_bind
        (result_fold (load_seal_step E expected_run_id)
          (bounded_jsonl_records node ''Run integrity log'' MAX_INTEGRITY_LOG_BYTES MAX_INTEGRITY_SEAL_RECORD_BYTES
             MAX_INTEGRITY_SEAL_RECORDS)
          (None, []))
        (\<lambda>(_, seals).
           if seals = [] then Inl (RunIntegrityError ''Run integrity log is empty'') else Inr seals))"

end
