(* ===== verification/Run_Verification.thy ===== *)
theory Run_Verification
  imports Run_Records
begin

text \<open>
  Verification of a Run directory: the provenance index, the artifact records, \<open>_integrity_state\<close>,
  \<open>verify_run_integrity\<close> and \<open>load_verified_run_artifacts\<close> of \<^verbatim>\<open>src/src/pajin/runtime/store.py\<close>. A directory is a
  dictionary from relative paths to nodes, in the order in which \<open>rglob\<close> yields them; sets of paths are lists.
\<close>

section \<open>Equality of Python values\<close>

text \<open>Numbers of different types can be equal, the order of a dictionary does not matter, and aware datetimes
  are compared as instants.\<close>

fun py_number :: "jv \<Rightarrow> rat option" where
  "py_number (JvBool b) = Some (if b then 1 else 0)"
| "py_number (JvInt i) = Some (of_int i)"
| "py_number (JvFloat x) = Some x"
| "py_number _ = None"

fun py_eq :: "jv \<Rightarrow> jv \<Rightarrow> bool" and py_eq_list :: "jv list \<Rightarrow> jv list \<Rightarrow> bool"
  and py_eq_items :: "(ustr \<times> jv) list \<Rightarrow> (ustr \<times> jv) list \<Rightarrow> bool" where
  "py_eq (JvStr s) w = (w = JvStr s)"
| "py_eq JvNull w = (w = JvNull)"
| "py_eq (JvList vs) w = (case w of JvList ws \<Rightarrow> py_eq_list vs ws | _ \<Rightarrow> False)"
| "py_eq (JvObj kvs) w = (case w of JvObj kws \<Rightarrow> length kvs = length kws \<and> py_eq_items kvs kws | _ \<Rightarrow> False)"
| "py_eq v w = (py_number v \<noteq> None \<and> py_number v = py_number w)"
| "py_eq_list [] ws = (ws = [])"
| "py_eq_list (v # vs) ws = (case ws of [] \<Rightarrow> False | w # ws' \<Rightarrow> py_eq v w \<and> py_eq_list vs ws')"
| "py_eq_items [] kws = True"
| "py_eq_items ((k, v) # kvs) kws = ((case map_of kws k of None \<Rightarrow> False | Some w \<Rightarrow> py_eq v w) \<and> py_eq_items kvs kws)"

definition py_datetime_eq :: "py_datetime \<Rightarrow> py_datetime \<Rightarrow> bool" where
  "py_datetime_eq d1 d2 =
     (case (utcoffset d1, utcoffset d2) of
        (Some o1, Some o2) \<Rightarrow> wall d1 - o1 = wall d2 - o2
      | (None, None) \<Rightarrow> wall d1 = wall d2
      | _ \<Rightarrow> False)"

definition event_eq :: "stored_event \<Rightarrow> stored_event \<Rightarrow> bool" where
  "event_eq e1 e2 =
     (ae_event_id e1 = ae_event_id e2 \<and> ae_run_id e1 = ae_run_id e2 \<and> ae_sequence e1 = ae_sequence e2 \<and>
      ae_event_type e1 = ae_event_type e2 \<and> py_datetime_eq (ae_occurred_at e1) (ae_occurred_at e2) \<and>
      py_eq (JvObj (ae_payload e1)) (JvObj (ae_payload e2)) \<and> ae_previous_hash e1 = ae_previous_hash e2 \<and>
      ae_event_hash e1 = ae_event_hash e2)"

definition seal_eq :: "run_seal \<Rightarrow> run_seal \<Rightarrow> bool" where
  "seal_eq s1 s2 = (s1\<lparr>sl_sealed_at := sl_sealed_at s2\<rparr> = s2 \<and> py_datetime_eq (sl_sealed_at s1) (sl_sealed_at s2))"

section \<open>Provenance\<close>

type_synonym provenance_index = "(ustr, (int \<times> ustr) list) dict"

text \<open>The loop over the payload; the top of the stack is the head of the list.\<close>

function scalar_loop :: "jv list \<Rightarrow> ustr list \<Rightarrow> ustr list" where
  "scalar_loop [] scalars = scalars"
| "scalar_loop (value # stack) scalars =
     (case value of
        JvStr s \<Rightarrow> scalar_loop stack (List.insert s scalars)
      | JvList vs \<Rightarrow> scalar_loop (rev vs @ stack) scalars
      | JvObj kvs \<Rightarrow> scalar_loop (rev (map snd kvs) @ stack) scalars
      | _ \<Rightarrow> scalar_loop stack scalars)"
  by pat_completeness auto

termination scalar_loop
  by (relation "measure (\<lambda>(stack, _). sum_list (map jv_size stack))") (auto simp: rev_map [symmetric] comp_def split_def)

definition index_add :: "stored_event \<Rightarrow> provenance_index \<Rightarrow> provenance_index" where
  "index_add e index =
     fold (\<lambda>scalar d. dict_set scalar
         ((case dict_get d scalar of None \<Rightarrow> [] | Some l \<Rightarrow> l) @ [(ae_sequence e, ae_event_id e)]) d)
       (scalar_loop [JvObj (ae_payload e)] []) index"

definition index_from_events :: "stored_event list \<Rightarrow> provenance_index" where
  "index_from_events events = fold index_add events []"

definition index_event_ids :: "provenance_index \<Rightarrow> ustr option list \<Rightarrow> ustr list" where
  "index_event_ids index values =
     (let referenced = fold (\<lambda>value d.
          (case value of
             None \<Rightarrow> d
           | Some s \<Rightarrow> fold (\<lambda>(sequence, event_id) d'. dict_set sequence event_id d')
               (case dict_get index s of None \<Rightarrow> [] | Some l \<Rightarrow> l) d)) values []
      in map (\<lambda>sequence. the (dict_get referenced sequence)) (sort (map fst referenced)))"

definition read_bounded_regular_bytes :: "run_node option \<Rightarrow> string \<Rightarrow> int \<Rightarrow> bool \<Rightarrow> nat list result" where
  "read_bounded_regular_bytes node label max_bytes require_single_link =
     (if max_bytes < 1 then Inl (ValueError ''max_bytes must be a positive integer'')
      else case node of
        None \<Rightarrow> Inl (ValueError (label @ '' path cannot be inspected safely''))
      | Some (RegularFile content links) \<Rightarrow>
          (if require_single_link \<and> links \<noteq> 1 then Inl (ValueError (label @ '' path must have exactly one hard link''))
           else if int (length content) > max_bytes
           then Inl (ValueError (label @ '' exceeds the '' @ show_int max_bytes @ ''-byte limit''))
           else Inr content)
      | Some _ \<Rightarrow> Inl (ValueError (label @ '' path must be a regular file'')))"

definition read_bounded_regular_file :: "run_node option \<Rightarrow> string \<Rightarrow> int \<Rightarrow> nat list result" where
  "read_bounded_regular_file node label max_bytes =
     (case read_bounded_regular_bytes node label max_bytes False of
        Inl _ \<Rightarrow> Inl (RunIntegrityError (label @ '' could not be read safely''))
      | Inr content \<Rightarrow> Inr content)"

definition object_get :: "jv \<Rightarrow> string \<Rightarrow> jv option" where
  "object_get v key = (case v of JvObj kvs \<Rightarrow> map_of kvs (u key) | _ \<Rightarrow> None)"

definition text_member :: "jv option \<Rightarrow> string \<Rightarrow> ustr option" where
  "text_member v key =
     (case v of None \<Rightarrow> None | Some w \<Rightarrow> (case object_get w key of Some (JvStr s) \<Rightarrow> Some s | _ \<Rightarrow> None))"

definition MAX_PROVENANCE_JSON_BYTES :: int where "MAX_PROVENANCE_JSON_BYTES = 16777216"

definition truthy_text :: "ustr option \<Rightarrow> bool" where
  "truthy_text v = (case v of None \<Rightarrow> False | Some s \<Rightarrow> s \<noteq> [])"

definition encodable :: "ustr option \<Rightarrow> bool" where
  "encodable v = (case v of None \<Rightarrow> True | Some s \<Rightarrow> utf8_encode s \<noteq> None)"

definition provenance_of ::
  "ustr option \<Rightarrow> ustr option \<Rightarrow> ustr option \<Rightarrow> ustr list \<Rightarrow> artifact_provenance option result" where
  "provenance_of request_id tool_id execution_id event_ids =
     (if \<not> (truthy_text request_id \<or> truthy_text tool_id \<or> truthy_text execution_id \<or> event_ids \<noteq> []) then Inr None
      else if \<not> (encodable request_id \<and> encodable tool_id \<and> encodable execution_id \<and> list_all (\<lambda>s. encodable (Some s)) event_ids)
      then Inl ValidationError
      else Inr (Some \<lparr>ap_request_id = request_id, ap_tool_id = tool_id, ap_execution_id = execution_id,
             ap_event_ids = event_ids\<rparr>))"

definition artifact_provenance_of ::
  "store_env \<Rightarrow> run_files \<Rightarrow> ustr \<Rightarrow> provenance_index \<Rightarrow> artifact_provenance option result" where
  "artifact_provenance_of E files relative_path index =
     (if starts_with (u ''evidence/'') relative_path \<and> str_lower (se_db E) (path_suffix relative_path) = u ''.json''
      then result_bind
        (read_bounded_regular_file (dict_get files relative_path) ''Run evidence provenance source'' MAX_PROVENANCE_JSON_BYTES)
        (\<lambda>content.
           let raw = (case parse_strict_json_bytes content ''Run evidence provenance source'' MAX_PROVENANCE_JSON_BYTES 64 200000 of
                 Inl _ \<Rightarrow> JvNull | Inr v \<Rightarrow> v);
               request = object_get raw ''request'';
               request_id = text_member request ''request_id'';
               tool_id = text_member request ''tool_id'';
               execution_id = text_member (object_get raw ''workerJob'') ''executionId''
           in provenance_of request_id tool_id execution_id (index_event_ids index [Some relative_path, request_id]))
      else provenance_of None None None (index_event_ids index [Some relative_path, None]))"

section \<open>Artifact records\<close>

definition MEDIA_TYPES :: "(ustr, ustr) dict" where
  "MEDIA_TYPES = map (\<lambda>(k, v). (u k, u v))
     [(''.json'', ''application/json''), (''.jsonl'', ''application/x-ndjson''), (''.md'', ''text/markdown''),
      (''.txt'', ''text/plain''), (''.yaml'', ''application/yaml''), (''.yml'', ''application/yaml'')]"

definition media_type_of :: "store_env \<Rightarrow> ustr \<Rightarrow> ustr" where
  "media_type_of E path =
     (case dict_get MEDIA_TYPES (str_lower (se_db E) (path_suffix path)) of
        None \<Rightarrow> u ''application/octet-stream'' | Some m \<Rightarrow> m)"

fun file_digest :: "run_node option \<Rightarrow> ustr result" where
  "file_digest None = Inl (RunIntegrityError ''Run artifact cannot be inspected while hashing'')"
| "file_digest (Some (RegularFile content links)) =
     (if links \<noteq> 1 then Inl (RunIntegrityError ''Run artifacts must be single-link regular files'')
      else Inr (u (sha256_hex content)))"
| "file_digest (Some _) = Inl (RunIntegrityError ''Run artifacts must be single-link regular files'')"

definition artifact_record :: "store_env \<Rightarrow> run_files \<Rightarrow> ustr \<Rightarrow> provenance_index \<Rightarrow> sealed_artifact result" where
  "artifact_record E files relative_path index =
     (case dict_get files relative_path of
        None \<Rightarrow> Inl (RunIntegrityError ''Run artifact cannot be inspected'')
      | Some (RegularFile content links) \<Rightarrow>
          (if links \<noteq> 1 then Inl (RunIntegrityError ''Run artifacts must be single-link regular files'')
           else result_bind (file_digest (dict_get files relative_path)) (\<lambda>digest.
             result_bind (artifact_provenance_of E files relative_path index) (\<lambda>provenance.
             if utf8_encode relative_path = None then Inl ValidationError
             else Inr \<lparr>sa_path = relative_path, sa_sha256 = digest, sa_size_bytes = int (length content),
                  sa_media_type = media_type_of E relative_path, sa_provenance = provenance\<rparr>)))
      | Some _ \<Rightarrow> Inl (RunIntegrityError ''Run artifacts must be single-link regular files''))"

definition artifact_path_step ::
  "store_env \<Rightarrow> ustr \<times> run_node \<Rightarrow> ustr list \<times> (ustr, ustr) dict \<Rightarrow> (ustr list \<times> (ustr, ustr) dict) result" where
  "artifact_path_step E entry st =
     (case (entry, st) of ((relative, node), (paths, canonical_paths)) \<Rightarrow>
        if node_is_symlink (Some node) then Inl (RunIntegrityError ''Run artifacts cannot contain symbolic links'')
        else if \<not> node_is_file (Some node) then Inr st
        else if relative \<in> set RESERVED_ARTIFACTS then Inr st
        else case validated_relative_artifact_path (se_paths E) relative of
          Inl _ \<Rightarrow> Inl (RunIntegrityError ''Run artifact path is not portable'')
        | Inr relative' \<Rightarrow>
            (let canonical = canonical_path_key (se_paths E) relative' in
             if canonical \<in> set (RESERVED_ARTIFACT_KEYS (se_paths E))
             then Inl (RunIntegrityError ''Run artifact aliases a reserved RunStore path'')
             else case dict_get canonical_paths canonical of
               Some previous \<Rightarrow>
                 if previous \<noteq> relative' then Inl (RunIntegrityError ''Run contains canonically colliding artifact paths'')
                 else Inr (paths @ [relative'], dict_set canonical relative' canonical_paths)
             | None \<Rightarrow> Inr (paths @ [relative'], dict_set canonical relative' canonical_paths)))"

definition artifact_paths :: "store_env \<Rightarrow> run_files \<Rightarrow> ustr list result" where
  "artifact_paths E files =
     result_bind (result_fold (artifact_path_step E) files ([], [])) (\<lambda>(paths, _). Inr (sort paths))"

section \<open>The integrity state\<close>

type_synonym sealed_index = "ustr list \<times> (ustr, ustr) dict"

definition verify_sealed_artifact ::
  "store_env \<Rightarrow> run_files \<Rightarrow> provenance_index \<Rightarrow> (ustr, ustr) dict \<Rightarrow> sealed_artifact \<Rightarrow> sealed_index \<Rightarrow> (ustr \<times> ustr) result" where
  "verify_sealed_artifact E files index current_paths_by_key artifact sealed =
     (case validated_relative_artifact_path (se_paths E) (sa_path artifact) of
        Inl _ \<Rightarrow> Inl (RunIntegrityError ''Run seal contains a non-portable artifact path'')
      | Inr sealed_path \<Rightarrow>
          (let artifact_key = canonical_path_key (se_paths E) sealed_path in
           if artifact_key \<in> set (RESERVED_ARTIFACT_KEYS (se_paths E)) \<or> sa_path artifact \<in> set (fst sealed) \<or>
              dict_get (snd sealed) artifact_key \<noteq> None
           then Inl (RunIntegrityError ''Run seal contains a duplicate or reserved artifact path'')
           else case dict_get current_paths_by_key artifact_key of
             None \<Rightarrow> Inl (RunIntegrityError ''sealed Run artifact is missing'')
           | Some current_path \<Rightarrow>
               if current_path \<noteq> sa_path artifact then Inl (RunIntegrityError ''sealed Run artifact path identity changed'')
               else if \<not> node_is_file (dict_get files (sa_path artifact)) \<or> node_is_symlink (dict_get files (sa_path artifact))
               then Inl (RunIntegrityError ''sealed Run artifact is missing'')
               else result_bind (artifact_record E files (sa_path artifact) index) (\<lambda>current.
                 if current \<noteq> artifact then Inl (RunIntegrityError ''sealed Run artifact changed'')
                 else Inr (sa_path artifact, artifact_key))))"

definition index_sealed_artifact ::
  "store_env \<Rightarrow> run_files \<Rightarrow> provenance_index \<Rightarrow> (ustr, ustr) dict \<Rightarrow> sealed_artifact \<Rightarrow> sealed_index \<Rightarrow> sealed_index result" where
  "index_sealed_artifact E files index current artifact sealed =
     result_bind (verify_sealed_artifact E files index current artifact sealed) (\<lambda>(path, key).
       Inr (List.insert path (fst sealed), dict_set key path (snd sealed)))"

record integrity_state =
  ig_run_id :: ustr
  ig_events :: "stored_event list"
  ig_seals :: "run_seal list"
  ig_sealed_paths :: "ustr list"
  ig_unsealed_paths :: "ustr list"

text \<open>The variables of the loop over the seals: the last checkpoint, the provenance index, the sealed paths. The
  number of indexed events is the last checkpoint.\<close>

type_synonym seal_walk = "int \<times> provenance_index \<times> sealed_index"

definition integrity_step ::
  "store_env \<Rightarrow> run_files \<Rightarrow> stored_event list \<Rightarrow> (ustr, ustr) dict \<Rightarrow> run_seal \<Rightarrow> seal_walk \<Rightarrow> seal_walk result" where
  "integrity_step E files events current seal st =
     (case st of (previous_event_count, index, sealed) \<Rightarrow>
        if sl_event_count seal < previous_event_count \<or> int (length events) < sl_event_count seal
        then Inl (RunIntegrityError ''Run seal references an invalid event checkpoint'')
        else if ae_event_hash (events ! nat (sl_event_count seal - 1)) \<noteq> sl_event_head_hash seal
        then Inl (RunIntegrityError ''Run seal event checkpoint does not match the event chain'')
        else
          let index' = fold index_add (drop (nat previous_event_count) (take (nat (sl_event_count seal)) events)) index
          in result_bind (result_fold (index_sealed_artifact E files index' current) (sl_artifacts seal) sealed) (\<lambda>sealed'.
               Inr (sl_event_count seal, index', sealed')))"

definition events_log :: ustr where "events_log = u ''events.jsonl''"

definition integrity_log :: ustr where "integrity_log = u ''run-integrity.jsonl''"

definition integrity_state_of :: "store_env \<Rightarrow> run_files \<Rightarrow> bool \<Rightarrow> integrity_state result" where
  "integrity_state_of E files allow_extensions =
     result_bind (load_events E (dict_get files events_log) None) (\<lambda>events.
     let run_id = ae_run_id (hd events) in
     result_bind (load_seals E (dict_get files integrity_log) run_id) (\<lambda>seals.
     if seals = [] \<and> \<not> allow_extensions then Inl (RunIntegrityError ''Run has not been integrity-sealed'')
     else result_bind (artifact_paths E files) (\<lambda>current_paths.
     let current = fold (\<lambda>relative d. dict_set (canonical_path_key (se_paths E) relative) relative d) current_paths [] in
     result_bind (result_fold (integrity_step E files events current) seals (0, [], ([], []))) (\<lambda>(_, _, sealed_paths, _).
     let unsealed_paths = filter (\<lambda>p. p \<notin> set sealed_paths) current_paths in
     if \<not> allow_extensions \<and> sl_event_count (last seals) \<noteq> int (length events)
     then Inl (RunIntegrityError ''Run event stream has unsealed appended events'')
     else if \<not> allow_extensions \<and> unsealed_paths \<noteq> []
     then Inl (RunIntegrityError ''Run contains unsealed artifacts'')
     else Inr \<lparr>ig_run_id = run_id, ig_events = events, ig_seals = seals, ig_sealed_paths = sealed_paths,
               ig_unsealed_paths = unsealed_paths\<rparr>))))"

record run_verification =
  rv_run_id :: ustr
  rv_seal_count :: int
  rv_artifact_count :: int
  rv_event_count :: int
  rv_root_digest :: ustr
  rv_valid :: bool

definition verification_from_state :: "integrity_state \<Rightarrow> run_verification" where
  "verification_from_state st =
     \<lparr>rv_run_id = ig_run_id st, rv_seal_count = int (length (ig_seals st)), rv_artifact_count = int (length (ig_sealed_paths st)),
      rv_event_count = int (length (ig_events st)), rv_root_digest = sl_root_digest (last (ig_seals st)),
      rv_valid = True\<rparr>"

definition verify_run_integrity :: "store_env \<Rightarrow> run_files \<Rightarrow> run_verification result" where
  "verify_run_integrity E files =
     result_bind (integrity_state_of E files False) (\<lambda>st. Inr (verification_from_state st))"

section \<open>Verified snapshots\<close>

definition MAX_VERIFIED_SNAPSHOT_ARTIFACTS :: nat where "MAX_VERIFIED_SNAPSHOT_ARTIFACTS = 10000"

definition MAX_VERIFIED_SNAPSHOT_ARTIFACT_BYTES :: int where "MAX_VERIFIED_SNAPSHOT_ARTIFACT_BYTES = 67108864"

definition snapshot_request_step ::
  "store_env \<Rightarrow> ustr \<times> py_num \<Rightarrow> (ustr, int) dict \<times> ustr list \<Rightarrow> ((ustr, int) dict \<times> ustr list) result" where
  "snapshot_request_step E request st =
     (case (request, st) of ((raw_path, max_bytes), (validated, canonical_paths)) \<Rightarrow>
        result_bind (validated_relative_artifact_path (se_paths E) raw_path) (\<lambda>relative_path.
          let canonical = canonical_path_key (se_paths E) relative_path in
          if canonical \<in> set (RESERVED_ARTIFACT_KEYS (se_paths E))
          then Inl (ValueError ''verified artifact requests cannot include reserved Run paths'')
          else if canonical \<in> set canonical_paths
          then Inl (ValueError ''verified artifact requests contain canonically duplicate paths'')
          else case max_bytes of
            PyInt n \<Rightarrow>
              if n < 1 \<or> n > MAX_VERIFIED_SNAPSHOT_ARTIFACT_BYTES
              then Inl (ValueError ''verified artifact byte limits must be positive integers no greater than 67108864'')
              else Inr (dict_set relative_path n validated, List.insert canonical canonical_paths)
          | _ \<Rightarrow> Inl (ValueError ''verified artifact byte limits must be positive integers no greater than 67108864'')))"

definition validated_snapshot_requests :: "store_env \<Rightarrow> (ustr, py_num) dict \<Rightarrow> (ustr, int) dict result" where
  "validated_snapshot_requests E requests =
     (if length requests > MAX_VERIFIED_SNAPSHOT_ARTIFACTS
      then Inl (ValueError ''verified artifact request count exceeds the configured limit'')
      else result_bind (result_fold (snapshot_request_step E) requests ([], [])) (\<lambda>(validated, _). Inr (sort_key fst validated)))"

definition sealed_artifact_records :: "run_seal list \<Rightarrow> (ustr, sealed_artifact) dict result" where
  "sealed_artifact_records seals =
     (let artifacts = concat (map sl_artifacts seals);
          records = fold (\<lambda>a d. dict_set (sa_path a) a d) artifacts []
      in if length records \<noteq> length artifacts
         then Inl (RunIntegrityError ''Run seal chain contains duplicate artifact records'') else Inr records)"

definition bind_snapshot_artifact :: "(ustr, sealed_artifact) dict \<Rightarrow> ustr \<times> nat list \<Rightarrow> unit \<Rightarrow> unit result" where
  "bind_snapshot_artifact records entry _ =
     (case entry of (relative_path, content) \<Rightarrow>
        case dict_get records relative_path of
          None \<Rightarrow> Inl (RunIntegrityError ''loaded Run artifact differs from its final seal record'')
        | Some record \<Rightarrow>
            if sa_size_bytes record \<noteq> int (length content) \<or> sa_sha256 record \<noteq> u (sha256_hex content)
            then Inl (RunIntegrityError ''loaded Run artifact differs from its final seal record'') else Inr ())"

definition bind_snapshot_artifact_bytes :: "(ustr, nat list) dict \<Rightarrow> (ustr, sealed_artifact) dict \<Rightarrow> unit result" where
  "bind_snapshot_artifact_bytes loaded records = result_fold (bind_snapshot_artifact records) loaded ()"

definition load_snapshot_step ::
  "run_files \<Rightarrow> (ustr, sealed_artifact) dict \<Rightarrow> ustr \<times> int \<Rightarrow> (ustr, nat list) dict \<Rightarrow> (ustr, nat list) dict result" where
  "load_snapshot_step files records request loaded =
     (case request of (relative_path, max_bytes) \<Rightarrow>
        if dict_get records relative_path = None
        then Inl (RunIntegrityError ''verified artifact request is not sealed by this Run'')
        else case read_bounded_regular_bytes (dict_get files relative_path) ''sealed Run artifact '' max_bytes True of
          Inl _ \<Rightarrow> Inl (RunIntegrityError ''sealed Run artifact could not be loaded'')
        | Inr content \<Rightarrow> Inr (dict_set relative_path content loaded))"

definition load_snapshot_artifact_bytes ::
  "run_files \<Rightarrow> (ustr, int) dict \<Rightarrow> (ustr, sealed_artifact) dict \<Rightarrow> (ustr, nat list) dict result" where
  "load_snapshot_artifact_bytes files requests records =
     result_bind (result_fold (load_snapshot_step files records) requests []) (\<lambda>loaded.
     result_bind (bind_snapshot_artifact_bytes loaded records) (\<lambda>_. Inr loaded))"

record run_snapshot =
  sn_verification :: run_verification
  sn_events :: "stored_event list"
  sn_seals :: "run_seal list"
  sn_artifacts :: "(ustr, nat list) dict"

text \<open>A writer that ignores the lock may change the directory during the call: the arguments are the
  directory at the first verification, while the artifacts are read, and at the second verification.\<close>

definition load_verified_run_artifacts ::
  "store_env \<Rightarrow> run_files \<Rightarrow> run_files \<Rightarrow> run_files \<Rightarrow> (ustr, py_num) dict \<Rightarrow> ustr option \<Rightarrow> run_snapshot result" where
  "load_verified_run_artifacts E files1 files2 files3 requests expected_run_id =
     result_bind (validated_snapshot_requests E requests) (\<lambda>validated_requests.
     result_bind (integrity_state_of E files1 False) (\<lambda>initial.
     let initial_verification = verification_from_state initial in
     if expected_run_id \<noteq> None \<and> expected_run_id \<noteq> Some (rv_run_id initial_verification)
     then Inl (RunIntegrityError ''verified Run identifier differs from the expected Run'')
     else result_bind (sealed_artifact_records (ig_seals initial)) (\<lambda>initial_records.
     result_bind (load_snapshot_artifact_bytes files2 validated_requests initial_records) (\<lambda>loaded.
     result_bind (integrity_state_of E files3 False) (\<lambda>final.
     let final_verification = verification_from_state final in
     if final_verification \<noteq> initial_verification \<or> \<not> list_all2 event_eq (ig_events final) (ig_events initial) \<or>
        \<not> list_all2 seal_eq (ig_seals final) (ig_seals initial) \<or>
        set (ig_sealed_paths final) \<noteq> set (ig_sealed_paths initial)
     then Inl (RunIntegrityError ''verified Run changed while its snapshot was loaded'')
     else result_bind (sealed_artifact_records (ig_seals final)) (\<lambda>final_records.
     result_bind (bind_snapshot_artifact_bytes loaded final_records) (\<lambda>_.
     Inr \<lparr>sn_verification = final_verification, sn_events = ig_events final, sn_seals = ig_seals final,
          sn_artifacts = loaded\<rparr>)))))))"

definition load_verified_run_snapshot ::
  "store_env \<Rightarrow> run_files \<Rightarrow> run_files \<Rightarrow> run_files \<Rightarrow> ustr option \<Rightarrow> run_snapshot result" where
  "load_verified_run_snapshot E files1 files2 files3 expected_run_id =
     load_verified_run_artifacts E files1 files2 files3 [] expected_run_id"

definition load_verified_run_events ::
  "store_env \<Rightarrow> run_files \<Rightarrow> run_files \<Rightarrow> run_files \<Rightarrow> ustr option \<Rightarrow> stored_event list result" where
  "load_verified_run_events E files1 files2 files3 expected_run_id =
     result_bind (load_verified_run_snapshot E files1 files2 files3 expected_run_id) (\<lambda>snapshot. Inr (sn_events snapshot))"

definition snapshot_artifact_bytes :: "run_snapshot \<Rightarrow> ustr \<Rightarrow> nat list result" where
  "snapshot_artifact_bytes snapshot relative_path =
     (case dict_get (sn_artifacts snapshot) relative_path of
        None \<Rightarrow> Inl (KeyError ''artifact was not requested in this snapshot'') | Some content \<Rightarrow> Inr content)"

end
