(* ===== verification/Run_Store.thy ===== *)
theory Run_Store
  imports Run_Verification
begin

text \<open>
  \<open>RunStore\<close> of \<^verbatim>\<open>src/src/pajin/runtime/store.py\<close>: appending events, writing artifacts and sealing, one definition
  per method. Every mutation runs under the lock of its Run and first reads the logs again, so that any
  interleaving of stores on one directory is a sequence of whole calls. Faults of the operating system are in
  the argument \<open>io\<close>: whether \<open>os.open\<close> of a log fails, the results of the calls of \<open>os.write\<close> of an append, whether
  the file is installed, and whether a call fails after its effect. Modes of files, flushing and failures to remove a temporary file are left out.
\<close>

section \<open>State\<close>

record run_store =
  rs_run_id :: ustr
  rs_pinned :: "nat option"
  rs_files :: run_files
  rs_event_count :: "int option"
  rs_event_head_hash :: "ustr option"
  rs_campaign_terminal_event :: "ustr option"
  rs_path_identities :: "(ustr, ustr) dict option"

datatype install = Installed | InstalledThenFailed | NotInstalled

record store_io =
  io_pinned :: "nat option"
  io_uuid :: ustr
  io_now :: py_datetime
  io_open_fails :: bool
  io_writes :: "nat list"
  io_sync_fails :: bool
  io_install :: install

type_synonym 'a store_call = "(run_store, 'a) call"

definition new_store :: "ustr \<Rightarrow> nat option \<Rightarrow> run_files \<Rightarrow> run_store" where
  "new_store run_id pinned files =
     \<lparr>rs_run_id = run_id, rs_pinned = pinned, rs_files = files, rs_event_count = None, rs_event_head_hash = None,
      rs_campaign_terminal_event = None, rs_path_identities = None\<rparr>"

section \<open>Effects on files\<close>

text \<open>The bytes that the loop over \<open>os.write\<close> writes, and whether it reaches the end. A missing result is an
  exception of the call.\<close>

fun write_loop :: "nat list \<Rightarrow> nat list \<Rightarrow> nat list \<times> bool" where
  "write_loop ws [] = ([], True)"
| "write_loop [] (b # bs) = ([], False)"
| "write_loop (w # ws) (b # bs) =
     (if w < 1 then ([], False)
      else case write_loop ws (drop w (b # bs)) of (written, done) \<Rightarrow> (take w (b # bs) @ written, done))"

text \<open>\<open>O_APPEND | O_CREAT\<close> follows a symbolic link; its target is outside the directory.\<close>

definition append_private_line :: "store_io \<Rightarrow> ustr \<Rightarrow> ustr \<Rightarrow> unit store_call" where
  "append_private_line io path line st =
     (case utf8_encode line of
        None \<Rightarrow> (Inl UnicodeEncodeError, st)
      | Some encoded \<Rightarrow>
          if io_open_fails io then (Inl OSError, st)
          else (let (written, done) = write_loop (io_writes io) encoded;
               outcome = (if done \<and> \<not> io_sync_fails io then Inr () else Inl OSError) in
           case dict_get (rs_files st) path of
             None \<Rightarrow> (outcome, st\<lparr>rs_files := dict_set path (RegularFile written 1) (rs_files st)\<rparr>)
           | Some (RegularFile content links) \<Rightarrow>
               (outcome, st\<lparr>rs_files := dict_set path (RegularFile (content @ written) links) (rs_files st)\<rparr>)
           | Some (SymbolicLink ToFile) \<Rightarrow> (outcome, st)
           | Some (SymbolicLink ToNothing) \<Rightarrow>
               (outcome, st\<lparr>rs_files := dict_set path (SymbolicLink ToFile) (rs_files st)\<rparr>)
           | Some _ \<Rightarrow> (Inl OSError, st)))"

definition atomic_write_private :: "store_io \<Rightarrow> ustr \<Rightarrow> nat list \<Rightarrow> unit store_call" where
  "atomic_write_private io path content st =
     (let st' = st\<lparr>rs_files := dict_set path (RegularFile content 1) (rs_files st)\<rparr> in
      case io_install io of
        Installed \<Rightarrow> (Inr (), st')
      | InstalledThenFailed \<Rightarrow> (Inl OSError, st')
      | NotInstalled \<Rightarrow> (Inl OSError, st))"

definition atomic_create_private :: "store_io \<Rightarrow> ustr \<Rightarrow> nat list \<Rightarrow> unit store_call" where
  "atomic_create_private io path content st =
     (if io_install io \<noteq> NotInstalled \<and> dict_get (rs_files st) path \<noteq> None then (Inl FileExistsError, st)
      else atomic_write_private io path content st)"

section \<open>Path identities\<close>

definition path_identity_step :: "store_env \<Rightarrow> ustr \<times> run_node \<Rightarrow> (ustr, ustr) dict \<Rightarrow> (ustr, ustr) dict result" where
  "path_identity_step E entry identities =
     (case entry of (relative, node) \<Rightarrow>
        if node_is_symlink (Some node) then Inl (RunIntegrityError ''Run paths cannot contain symbolic links'')
        else if relative \<notin> set RESERVED_ARTIFACTS \<and> \<not> is_ok (validated_relative_artifact_path (se_paths E) relative)
        then Inl (RunIntegrityError ''Run path is not portable'')
        else
          let canonical = canonical_path_key (se_paths E) relative in
          case dict_get identities canonical of
            Some previous \<Rightarrow>
              if previous \<noteq> relative then Inl (RunIntegrityError ''Run contains canonically colliding paths'')
              else Inr (dict_set canonical relative identities)
          | None \<Rightarrow> Inr (dict_set canonical relative identities))"

definition path_identity_index :: "store_env \<Rightarrow> (ustr, ustr) dict store_call" where
  "path_identity_index E st =
     (case rs_path_identities st of
        Some identities \<Rightarrow> (Inr identities, st)
      | None \<Rightarrow>
          (case result_fold (path_identity_step E) (rs_files st) [] of
             Inl e \<Rightarrow> (Inl e, st)
           | Inr identities \<Rightarrow> (Inr identities, st\<lparr>rs_path_identities := Some identities\<rparr>)))"

definition record_path_identity :: "store_env \<Rightarrow> ustr \<Rightarrow> unit store_call" where
  "record_path_identity E relative st =
     (case rs_path_identities st of
        None \<Rightarrow> (Inr (), st)
      | Some identities \<Rightarrow>
          (let canonical = canonical_path_key (se_paths E) relative in
           if dict_get identities canonical \<notin> {None, Some relative}
           then (Inl (RunIntegrityError ''Run contains canonically colliding paths''), st)
           else (Inr (), st\<lparr>rs_path_identities := Some (dict_set canonical relative identities)\<rparr>)))"

section \<open>Destinations\<close>

text \<open>One turn of the loop over the components: \<open>component_path\<close> is the path up to the component.\<close>

definition check_component ::
  "store_env \<Rightarrow> run_files \<Rightarrow> (ustr, ustr) dict \<Rightarrow> ustr \<times> bool \<Rightarrow> unit \<Rightarrow> unit result" where
  "check_component E files identities component _ =
     (case component of (component_path, is_final) \<Rightarrow>
        let candidate = dict_get files component_path in
        if dict_get identities (canonical_path_key (se_paths E) component_path) \<notin> {None, Some component_path}
        then Inl (RunIntegrityError ''artifact path component collides after NFC and case-fold normalization'')
        else if node_is_symlink candidate then Inl (ValueError ''artifact path cannot contain symbolic links'')
        else if node_exists candidate \<and> \<not> is_final \<and> \<not> node_is_dir candidate
        then Inl (ValueError ''artifact path parent must be a directory'')
        else if node_exists candidate \<and> is_final \<and> \<not> node_is_file candidate
        then Inl (ValueError ''artifact destination must be a regular file'')
        else Inr ())"

definition path_prefixes :: "ustr \<Rightarrow> ustr list" where
  "path_prefixes relative =
     (let components = path_parts relative in map (\<lambda>i. join_path (take (Suc i) components)) [0..<length components])"

definition safe_destination :: "store_env \<Rightarrow> ustr \<Rightarrow> ustr store_call" where
  "safe_destination E relative_path =
     call_bind (call_lift (validated_relative_artifact_path (se_paths E) relative_path)) (\<lambda>relative.
     call_bind (path_identity_index E) (\<lambda>identities st.
       (result_bind (result_fold (check_component E (rs_files st) identities)
            (map (\<lambda>p. (p, p = relative)) (path_prefixes relative)) ()) (\<lambda>_. Inr relative), st)))"

definition ensure_private_directory :: "ustr \<Rightarrow> unit store_call" where
  "ensure_private_directory path st =
     (let node = dict_get (rs_files st) path in
      if node_is_symlink node then (Inl (ValueError ''RunStore directories cannot be symbolic links''), st)
      else if node = None then (Inr (), st\<lparr>rs_files := dict_set path Directory (rs_files st)\<rparr>)
      else if \<not> node_is_dir node then (Inl (ValueError ''RunStore path component must be a regular directory''), st)
      else (Inr (), st))"

fun prepare_directories :: "store_env \<Rightarrow> ustr list \<Rightarrow> unit store_call" where
  "prepare_directories E [] = call_return ()"
| "prepare_directories E (d # ds) =
     call_bind (ensure_private_directory d) (\<lambda>_.
     call_bind (record_path_identity E d) (\<lambda>_. prepare_directories E ds))"

definition prepare_destination_parent :: "store_env \<Rightarrow> ustr \<Rightarrow> unit store_call" where
  "prepare_destination_parent E destination = prepare_directories E (butlast (path_prefixes destination))"

definition require_unsealed :: "store_env \<Rightarrow> ustr \<Rightarrow> unit store_call" where
  "require_unsealed E relative =
     (let canonical = canonical_path_key (se_paths E) relative in
      if canonical \<in> set (RESERVED_ARTIFACT_KEYS (se_paths E))
      then call_raise (ValueError ''artifact path is reserved by RunStore'')
      else call_bind (path_identity_index E) (\<lambda>identities st.
        if dict_get identities canonical \<notin> {None, Some relative}
        then (Inl (RunIntegrityError ''artifact path collides after NFC and case-fold normalization''), st)
        else if \<not> node_exists (dict_get (rs_files st) integrity_log) then (Inr (), st)
        else (result_bind (load_seals E (dict_get (rs_files st) integrity_log) (rs_run_id st)) (\<lambda>seals.
               if list_ex (\<lambda>s. list_ex (\<lambda>a. canonical = canonical_path_key (se_paths E) (sa_path a)) (sl_artifacts s)) seals
               then Inl (RunIntegrityError ''sealed Run artifact cannot be overwritten'') else Inr ()), st)))"

section \<open>Mutations\<close>

definition require_pinned_workspace :: "store_io \<Rightarrow> unit store_call" where
  "require_pinned_workspace io st =
     (if rs_pinned st \<noteq> None \<and> io_pinned io \<noteq> rs_pinned st
      then (Inl (RunIntegrityError ''RunStore is outside its pinned workspace context''), st) else (Inr (), st))"

definition rebase_event_state :: "store_env \<Rightarrow> unit store_call" where
  "rebase_event_state E st =
     (let node = dict_get (rs_files st) events_log in
      if \<not> node_exists node
      then (Inr (), st\<lparr>rs_event_count := Some 0, rs_event_head_hash := None, rs_campaign_terminal_event := None\<rparr>)
      else if node_is_symlink node then (Inl (RunIntegrityError ''Run event stream cannot be a symbolic link''), st)
      else case load_events E node (Some (rs_run_id st)) of
        Inl e \<Rightarrow> (Inl e, st)
      | Inr events \<Rightarrow>
          (Inr (), st\<lparr>rs_event_count := Some (int (length events)), rs_event_head_hash := Some (ae_event_hash (last events)),
             rs_campaign_terminal_event := map_option ae_event_type (List.find is_terminal events)\<rparr>))"

definition rebase_mutation_state :: "store_env \<Rightarrow> unit store_call" where
  "rebase_mutation_state E st = rebase_event_state E (st\<lparr>rs_path_identities := None\<rparr>)"

definition mutation :: "store_env \<Rightarrow> store_io \<Rightarrow> 'a store_call \<Rightarrow> 'a store_call" where
  "mutation E io body =
     call_bind (require_pinned_workspace io) (\<lambda>_. call_bind (rebase_mutation_state E) (\<lambda>_. body))"

section \<open>Events\<close>

text \<open>What Pydantic checks when an event is built.\<close>

definition valid_event :: "stored_event \<Rightarrow> bool" where
  "valid_event e =
     (is_aware (ae_occurred_at e) \<and> 1 \<le> ae_sequence e \<and> list_all (\<lambda>kv. utf8_encode (fst kv) \<noteq> None) (ae_payload e) \<and>
      utf8_encode (ae_event_id e) \<noteq> None \<and> utf8_encode (ae_run_id e) \<noteq> None \<and> utf8_encode (ae_event_type e) \<noteq> None \<and>
      (case ae_previous_hash e of None \<Rightarrow> True | Some h \<Rightarrow> hash_pattern h))"

definition new_event ::
  "store_io \<Rightarrow> run_store \<Rightarrow> int \<Rightarrow> ustr \<Rightarrow> (ustr \<times> jv) list \<Rightarrow> py_datetime option \<Rightarrow> stored_event" where
  "new_event io st sequence event_type payload occurred_at =
     \<lparr>ae_event_id = u ''event_'' @ io_uuid io, ae_run_id = rs_run_id st, ae_sequence = sequence, ae_event_type = event_type,
      ae_occurred_at = (case occurred_at of None \<Rightarrow> io_now io | Some d \<Rightarrow> d), ae_payload = payload,
      ae_previous_hash = rs_event_head_hash st, ae_event_hash = replicate 64 48\<rparr>"

definition append_event_locked ::
  "store_env \<Rightarrow> store_io \<Rightarrow> ustr \<Rightarrow> (ustr \<times> jv) list option \<Rightarrow> py_datetime option \<Rightarrow> stored_event store_call" where
  "append_event_locked E io event_type payload occurred_at st =
     (case rs_event_count st of
        None \<Rightarrow> (Inl AssertionError, st)
      | Some event_count \<Rightarrow>
          (if event_type \<in> set CAMPAIGN_TERMINAL_EVENTS \<and> rs_campaign_terminal_event st \<noteq> None
           then (Inl (RunIntegrityError ''Run already contains Campaign terminal event''), st)
           else
             let sequence = event_count + 1;
                 draft = new_event io st sequence event_type (case payload of None \<Rightarrow> [] | Some p \<Rightarrow> p) occurred_at in
             if \<not> valid_event draft then (Inl ValidationError, st)
             else case computed_hash E draft of
               Inl e \<Rightarrow> (Inl e, st)
             | Inr h \<Rightarrow>
                 (let event = draft\<lparr>ae_event_hash := h\<rparr> in
                  call_bind (append_private_line io events_log (se_dump_json E (event_json E event) @ [10])) (\<lambda>_ st'.
                    (Inr event, st'\<lparr>rs_event_count := Some sequence, rs_event_head_hash := Some h,
                       rs_campaign_terminal_event :=
                         (if event_type \<in> set CAMPAIGN_TERMINAL_EVENTS then Some event_type else rs_campaign_terminal_event st')\<rparr>)) st)))"

definition store_append_event ::
  "store_env \<Rightarrow> store_io \<Rightarrow> ustr \<Rightarrow> (ustr \<times> jv) list option \<Rightarrow> py_datetime option \<Rightarrow> stored_event store_call" where
  "store_append_event E io event_type payload occurred_at =
     mutation E io (append_event_locked E io event_type payload occurred_at)"

text \<open>The part of \<open>append_unique_event\<close> under the lock.\<close>

definition append_unique_locked ::
  "store_env \<Rightarrow> store_io \<Rightarrow> ustr \<Rightarrow> (ustr \<times> jv) list \<Rightarrow> py_datetime option \<Rightarrow> ustr option \<Rightarrow> stored_event store_call" where
  "append_unique_locked E io event_type canonical_payload occurred_at unique_by st =
     (case (if node_exists (dict_get (rs_files st) events_log)
            then load_events E (dict_get (rs_files st) events_log) (Some (rs_run_id st)) else Inr []) of
        Inl e \<Rightarrow> (Inl e, st)
      | Inr events \<Rightarrow>
          (let same_type = filter (\<lambda>e. ae_event_type e = event_type) events;
               existing = (case unique_by of None \<Rightarrow> same_type
                 | Some k \<Rightarrow> filter (\<lambda>e. map_of (ae_payload e) k = map_of canonical_payload k) same_type) in
           if existing \<noteq> []
           then (if length existing \<noteq> 1 \<or> \<not> py_eq (JvObj (ae_payload (hd existing))) (JvObj canonical_payload)
                 then (Inl (RunIntegrityError ''unique Run event conflicts with existing audit''), st)
                 else (Inr (hd existing), st))
           else append_event_locked E io event_type (Some canonical_payload) occurred_at st))"

definition unique_identity_ok :: "(ustr \<times> jv) list \<Rightarrow> ustr option \<Rightarrow> bool" where
  "unique_identity_ok payload unique_by =
     (case unique_by of
        None \<Rightarrow> True
      | Some k \<Rightarrow> k \<noteq> [] \<and> (case map_of payload k of Some (JvStr s) \<Rightarrow> s \<noteq> [] | _ \<Rightarrow> False))"

definition store_append_unique_event ::
  "store_env \<Rightarrow> store_io \<Rightarrow> ustr \<Rightarrow> (ustr \<times> jv) list option \<Rightarrow> py_datetime option \<Rightarrow> ustr option \<Rightarrow> stored_event store_call" where
  "store_append_unique_event E io event_type payload occurred_at unique_by =
     (let canonical_payload = (case payload of None \<Rightarrow> [] | Some p \<Rightarrow> p) in
      if \<not> unique_identity_ok canonical_payload unique_by
      then call_raise (ValueError ''unique Run event identity must name a non-empty string field'')
      else mutation E io (append_unique_locked E io event_type canonical_payload occurred_at unique_by))"

section \<open>Artifacts\<close>

text \<open>\<open>json.dumps\<close> with an indent of two spaces.\<close>

fun join_lines :: "ustr \<Rightarrow> ustr list \<Rightarrow> ustr" where
  "join_lines sep [] = []"
| "join_lines sep [x] = x"
| "join_lines sep (x # y # xs) = x @ sep @ join_lines sep (y # xs)"

fun json_pretty :: "(rat \<Rightarrow> ustr) \<Rightarrow> nat \<Rightarrow> jv \<Rightarrow> ustr" where
  "json_pretty fr depth (JvList vs) =
     (if vs = [] then u ''[]''
      else let line = [10] @ replicate (2 * Suc depth) 32 in
        [91] @ line @ join_lines ([44] @ line) (map (json_pretty fr (Suc depth)) vs) @ [10] @ replicate (2 * depth) 32 @ [93])"
| "json_pretty fr depth (JvObj kvs) =
     (if kvs = [] then u ''{}''
      else let line = [10] @ replicate (2 * Suc depth) 32 in
        [123] @ line @ join_lines ([44] @ line) (map (\<lambda>(k, v). json_string k @ [58, 32] @ json_pretty fr (Suc depth) v) kvs) @
        [10] @ replicate (2 * depth) 32 @ [125])"
| "json_pretty fr depth v = json_dump fr v"

definition encode_text :: "ustr \<Rightarrow> nat list result" where
  "encode_text s = (case utf8_encode s of None \<Rightarrow> Inl UnicodeEncodeError | Some b \<Rightarrow> Inr b)"

definition strict_json_bytes :: "store_env \<Rightarrow> jv \<Rightarrow> nat list result" where
  "strict_json_bytes E value =
     (if \<not> json_dumpable value then Inl (ValueError ''Out of range float values are not JSON compliant'')
      else encode_text (json_pretty (se_float E) 0 (sort_keys value) @ [10]))"

definition text_bytes :: "ustr \<Rightarrow> nat list result" where
  "text_bytes content = encode_text (if ends_with [10] content then content else content @ [10])"

definition write_artifact ::
  "store_env \<Rightarrow> store_io \<Rightarrow> (ustr \<Rightarrow> nat list \<Rightarrow> unit store_call) \<Rightarrow> ustr \<Rightarrow> nat list result \<Rightarrow> ustr store_call" where
  "write_artifact E io install relative_path content =
     mutation E io
       (call_bind (safe_destination E relative_path) (\<lambda>destination.
        call_bind (require_unsealed E destination) (\<lambda>_.
        call_bind (call_lift content) (\<lambda>encoded.
        call_bind (prepare_destination_parent E destination) (\<lambda>_.
        call_bind (install destination encoded) (\<lambda>_.
        call_bind (record_path_identity E destination) (\<lambda>_. call_return destination)))))))"

definition store_write_json :: "store_env \<Rightarrow> store_io \<Rightarrow> ustr \<Rightarrow> jv \<Rightarrow> ustr store_call" where
  "store_write_json E io relative_path data =
     write_artifact E io (atomic_write_private io) relative_path (strict_json_bytes E data)"

definition store_write_json_create_only :: "store_env \<Rightarrow> store_io \<Rightarrow> ustr \<Rightarrow> jv \<Rightarrow> ustr store_call" where
  "store_write_json_create_only E io relative_path data =
     write_artifact E io (atomic_create_private io) relative_path (strict_json_bytes E data)"

definition store_write_text :: "store_env \<Rightarrow> store_io \<Rightarrow> ustr \<Rightarrow> ustr \<Rightarrow> ustr store_call" where
  "store_write_text E io relative_path content =
     write_artifact E io (atomic_write_private io) relative_path (text_bytes content)"

definition store_write_text_create_only :: "store_env \<Rightarrow> store_io \<Rightarrow> ustr \<Rightarrow> ustr \<Rightarrow> ustr store_call" where
  "store_write_text_create_only E io relative_path content =
     mutation E io
       (call_bind (safe_destination E relative_path) (\<lambda>destination.
        call_bind (require_unsealed E destination) (\<lambda>_.
        call_bind (prepare_destination_parent E destination) (\<lambda>_.
        call_bind (call_lift (text_bytes content)) (\<lambda>encoded.
        call_bind (atomic_create_private io destination encoded) (\<lambda>_.
        call_bind (record_path_identity E destination) (\<lambda>_. call_return destination)))))))"

definition store_write_bytes :: "store_env \<Rightarrow> store_io \<Rightarrow> ustr \<Rightarrow> nat list \<Rightarrow> ustr store_call" where
  "store_write_bytes E io relative_path content =
     write_artifact E io (atomic_write_private io) relative_path (Inr content)"

definition store_artifact_exists :: "store_env \<Rightarrow> store_io \<Rightarrow> ustr \<Rightarrow> bool store_call" where
  "store_artifact_exists E io relative_path =
     call_bind (require_pinned_workspace io) (\<lambda>_.
     call_bind (safe_destination E relative_path) (\<lambda>destination st.
       (Inr (node_exists (dict_get (rs_files st) destination)), st)))"

section \<open>Seals\<close>

fun artifact_records :: "store_env \<Rightarrow> run_files \<Rightarrow> provenance_index \<Rightarrow> ustr list \<Rightarrow> sealed_artifact list result" where
  "artifact_records E files index [] = Inr []"
| "artifact_records E files index (p # ps) =
     result_bind (artifact_record E files p index) (\<lambda>a. result_bind (artifact_records E files index ps) (\<lambda>as. Inr (a # as)))"

definition new_seal ::
  "store_io \<Rightarrow> ustr \<Rightarrow> integrity_state \<Rightarrow> sealed_artifact list \<Rightarrow> ustr \<Rightarrow> run_seal" where
  "new_seal io run_id state artifacts artifact_root =
     \<lparr>sl_api_version = INTEGRITY_API_VERSION, sl_seal_id = u ''seal_'' @ io_uuid io, sl_run_id = run_id,
      sl_sequence = int (length (ig_seals state)) + 1, sl_sealed_at = io_now io,
      sl_previous_root_digest = (if ig_seals state = [] then None else Some (sl_root_digest (last (ig_seals state)))),
      sl_event_count = int (length (ig_events state)), sl_event_head_hash = ae_event_hash (last (ig_events state)),
      sl_artifact_root_digest = artifact_root, sl_artifacts = artifacts, sl_root_digest = replicate 64 48\<rparr>"

definition seal_locked :: "store_env \<Rightarrow> store_io \<Rightarrow> run_seal store_call" where
  "seal_locked E io st =
     (case integrity_state_of E (rs_files st) True of
        Inl e \<Rightarrow> (Inl e, st)
      | Inr state \<Rightarrow>
          (if ig_run_id state \<noteq> rs_run_id st
           then (Inl (RunIntegrityError ''RunStore identifier differs from the Run event stream''), st)
           else if ig_seals state \<noteq> [] \<and> ig_unsealed_paths state = [] \<and>
             sl_event_count (last (ig_seals state)) = int (length (ig_events state))
           then (Inl (RunIntegrityError ''Run has no new artifacts or events to seal''), st)
           else case artifact_records E (rs_files st) (index_from_events (ig_events state)) (ig_unsealed_paths state) of
             Inl e \<Rightarrow> (Inl e, st)
           | Inr records \<Rightarrow>
               (let artifacts = sort_key sa_path records in
                case canonical_digest E (JvList (map artifact_json artifacts)) of
                  Inl e \<Rightarrow> (Inl e, st)
                | Inr artifact_root \<Rightarrow>
                    (let draft = new_seal io (rs_run_id st) state artifacts artifact_root in
                     if \<not> (is_aware (sl_sealed_at draft) \<and> utf8_encode (sl_seal_id draft) \<noteq> None \<and> utf8_encode (sl_run_id draft) \<noteq> None)
                     then (Inl ValidationError, st)
                     else case computed_root_digest E draft of
                       Inl e \<Rightarrow> (Inl e, st)
                     | Inr digest \<Rightarrow>
                         (let seal = draft\<lparr>sl_root_digest := digest\<rparr> in
                          call_bind (append_private_line io integrity_log (se_dump_json E (seal_json E seal) @ [10]))
                            (\<lambda>_. call_return seal) st)))))"

definition store_seal :: "store_env \<Rightarrow> store_io \<Rightarrow> run_seal store_call" where
  "store_seal E io = mutation E io (seal_locked E io)"

section \<open>Creating a Run\<close>

text \<open>\<open>re.fullmatch\<close> of the pattern of generated identifiers.\<close>

definition all_digits :: "ustr \<Rightarrow> bool" where
  "all_digits s = list_all (\<lambda>c. 48 \<le> c \<and> c \<le> 57) s"

definition generated_run_id :: "ustr \<Rightarrow> bool" where
  "generated_run_id s =
     (length s = 29 \<and> take 4 s = u ''run_'' \<and> all_digits (take 8 (drop 4 s)) \<and> s ! 12 = 84 \<and>
      all_digits (take 6 (drop 13 s)) \<and> take 2 (drop 19 s) = u ''Z_'' \<and>
      list_all (\<lambda>c. 48 \<le> c \<and> c \<le> 57 \<or> 97 \<le> c \<and> c \<le> 102) (drop 21 s))"

text \<open>\<open>_ensure_private_directory\<close> on the output root; with \<open>exist_ok=False\<close> an existing directory is an error.\<close>

definition make_directory :: "bool \<Rightarrow> ustr \<Rightarrow> run_files \<Rightarrow> run_files result" where
  "make_directory exist_ok path tree =
     (let node = dict_get tree path in
      if node_is_symlink node then Inl (ValueError ''RunStore directories cannot be symbolic links'')
      else if node = None then Inr (dict_set path Directory tree)
      else if \<not> exist_ok then Inl FileExistsError
      else if \<not> node_is_dir node then Inl (ValueError ''RunStore path component must be a regular directory'')
      else Inr tree)"

text \<open>The output root is a tree of its own; the new Run is the directory below the campaign's. Host recovery is
  not active, so that there is nothing to enroll.\<close>

definition store_create ::
  "store_env \<Rightarrow> run_files \<Rightarrow> ustr \<Rightarrow> ustr \<Rightarrow> nat option \<Rightarrow> (run_store \<times> run_files) result" where
  "store_create E tree campaign_name run_id pinned =
     result_bind (validated_relative_artifact_path (se_paths E) campaign_name) (\<lambda>campaign.
     if 47 \<in> set campaign then Inl (ValueError ''campaign name must be one portable path component'')
     else if list_ex (\<lambda>(name, _). 47 \<notin> set name \<and>
         canonical_path_key (se_paths E) name = canonical_path_key (se_paths E) campaign \<and> name \<noteq> campaign) tree
     then Inl (RunIntegrityError ''campaign output path collides after NFC and case-fold normalization'')
     else result_bind (make_directory True campaign tree) (\<lambda>tree1.
     if \<not> generated_run_id run_id then Inl (ValueError ''provided RunStore identifier is not a generated Run ID'')
     else let path = campaign @ [47] @ run_id in
     result_bind (make_directory False path tree1) (\<lambda>tree2.
     result_bind (make_directory False (path @ u ''/evidence'') tree2) (\<lambda>tree3.
     Inr (new_store run_id pinned [(u ''evidence'', Directory)], tree3)))))"

end
