(* ===== verification/Run_Chains.thy ===== *)
theory Run_Chains
  imports Run_Store
begin

text \<open>
  What the loaders of the two logs return: the locale \<open>digest_chain\<close> of records that are bound by the digests of their
  contents, and the characterisation of \<open>load_events\<close> and \<open>load_seals\<close> by the lines of the files. Both loaders are one
  loop, \<open>log_step\<close>, over different records.
\<close>

text \<open>Records that carry their position and the digest of the record before them.\<close>

fun linked :: "('r \<Rightarrow> int) \<Rightarrow> ('r \<Rightarrow> 'd option) \<Rightarrow> ('r \<Rightarrow> 'd) \<Rightarrow> int \<Rightarrow> 'd option \<Rightarrow> 'r list \<Rightarrow> bool" where
  "linked sq prev dg n p [] = True"
| "linked sq prev dg n p (r # rs) = (sq r = n \<and> prev r = p \<and> linked sq prev dg (n + 1) (Some (dg r)) rs)"

text \<open>The lines of a log are read and checked in turn.\<close>

fun log_reads ::
  "(int \<Rightarrow> nat list \<Rightarrow> 'r result) \<Rightarrow> (int \<Rightarrow> 'd option \<Rightarrow> 'r \<Rightarrow> unit result) \<Rightarrow> ('r \<Rightarrow> 'd) \<Rightarrow> int \<Rightarrow> 'd option \<Rightarrow>
   nat list list \<Rightarrow> 'r list \<Rightarrow> bool" where
  "log_reads read check dg n p [] rs = (rs = [])"
| "log_reads read check dg n p (l # ls) rs =
     (case rs of
        [] \<Rightarrow> False
      | r # rs' \<Rightarrow> read n l = Inr r \<and> check n p r = Inr () \<and> log_reads read check dg (n + 1) (Some (dg r)) ls rs')"

definition lines_fit :: "int \<Rightarrow> int \<Rightarrow> int \<Rightarrow> nat list list \<Rightarrow> bool" where
  "lines_fit max_file max_record max_records ls \<longleftrightarrow>
     int (length (concat ls)) \<le> max_file \<and> (\<forall>l \<in> set ls. int (length l) \<le> max_record) \<and> int (length ls) \<le> max_records"

definition log_step ::
  "(int \<Rightarrow> nat list \<Rightarrow> 'r result) \<Rightarrow> (int \<Rightarrow> 'd option \<Rightarrow> 'r \<Rightarrow> unit result) \<Rightarrow> ('r \<Rightarrow> 'd) \<Rightarrow>
   (int \<times> nat list) result \<Rightarrow> 'd option \<times> 'r list \<Rightarrow> ('d option \<times> 'r list) result" where
  "log_step read check dg item st =
     (case st of (p, acc) \<Rightarrow>
        result_bind item (\<lambda>(n, l). result_bind (read n l) (\<lambda>r. result_bind (check n p r) (\<lambda>_. Inr (Some (dg r), acc @ [r])))))"

text \<open>The content of a log file that is a single-link regular file.\<close>

definition log_content :: "run_node option \<Rightarrow> nat list option" where
  "log_content node = (case node of Some (RegularFile c links) \<Rightarrow> if links = 1 then Some c else None | _ \<Rightarrow> None)"

definition event_fit :: "nat list \<Rightarrow> bool" where
  "event_fit c = lines_fit MAX_EVENT_LOG_BYTES MAX_AUDIT_EVENT_RECORD_BYTES MAX_AUDIT_EVENT_RECORDS (jsonl_lines c)"

definition seal_fit :: "nat list \<Rightarrow> bool" where
  "seal_fit c = lines_fit MAX_INTEGRITY_LOG_BYTES MAX_INTEGRITY_SEAL_RECORD_BYTES MAX_INTEGRITY_SEAL_RECORDS (jsonl_lines c)"

definition events_read :: "store_env \<Rightarrow> ustr \<Rightarrow> nat list \<Rightarrow> stored_event list \<Rightarrow> bool" where
  "events_read E r c es = log_reads (read_event E) (check_event E r) ae_event_hash 1 None (jsonl_lines c) es"

definition seals_read :: "store_env \<Rightarrow> ustr \<Rightarrow> nat list \<Rightarrow> run_seal list \<Rightarrow> bool" where
  "seals_read E r c ss = log_reads (read_seal E) (check_seal E r) sl_root_digest 1 None (jsonl_lines c) ss"

text \<open>What the loaders return is linked and every digest is right.\<close>

abbreviation event_chain :: "stored_event list \<Rightarrow> bool" where
  "event_chain es \<equiv> linked ae_sequence ae_previous_hash ae_event_hash 1 None es"

abbreviation seal_chain :: "run_seal list \<Rightarrow> bool" where
  "seal_chain ss \<equiv> linked sl_sequence sl_previous_root_digest sl_root_digest 1 None ss"

section \<open>Chains of digests\<close>

lemma linked_append:
  "linked sq prev dg n p (rs @ [r]) \<longleftrightarrow>
     linked sq prev dg n p rs \<and> sq r = n + int (length rs) \<and> prev r = (if rs = [] then p else Some (dg (last rs)))"
  by (induction rs arbitrary: n p) (auto simp: algebra_simps)

text \<open>The contract of a log whose records are bound by digests of their content: the content of a record
  determines its position and its link. Two chains with the same last digest are the same, unless two of
  their records have different contents and one digest.\<close>

locale digest_chain =
  fixes sq :: "'r \<Rightarrow> int" and prev :: "'r \<Rightarrow> 'd option" and dg :: "'r \<Rightarrow> 'd" and content :: "'r \<Rightarrow> 'c"
  assumes position: "content r = content s \<Longrightarrow> sq r = sq s"
    and link: "content r = content s \<Longrightarrow> prev r = prev s"
begin

lemma determined:
  assumes "linked sq prev dg 1 None rs" "linked sq prev dg 1 None ss" "rs \<noteq> []" "ss \<noteq> []" "dg (last rs) = dg (last ss)"
    and "\<forall>r \<in> set rs. \<forall>s \<in> set ss. dg r = dg s \<longrightarrow> content r = content s"
  shows "map content rs = map content ss"
  using assms
proof (induction rs arbitrary: ss rule: rev_induct)
  case (snoc r rs)
  obtain ts s where ss: "ss = ts @ [s]" using snoc.prems(4) by (cases ss rule: rev_cases) auto
  have same: "content r = content s" using snoc.prems(5,6) by (simp add: ss)
  have l: "linked sq prev dg 1 None rs" "sq r = 1 + int (length rs)" "prev r = (if rs = [] then None else Some (dg (last rs)))"
    "linked sq prev dg 1 None ts" "sq s = 1 + int (length ts)" "prev s = (if ts = [] then None else Some (dg (last ts)))"
    using snoc.prems(1,2) by (auto simp: ss linked_append)
  have len: "length rs = length ts" using position [OF same] l(2,5) by simp
  have "map content rs = map content ts"
  proof (cases "rs = []")
    case False
    then have "ts \<noteq> []" using len by auto
    moreover have "dg (last rs) = dg (last ts)" using link [OF same] l(3,6) False calculation by simp
    ultimately show ?thesis using snoc.IH [of ts] l(1,4) False snoc.prems(6) by (auto simp: ss)
  qed (use len in simp)
  then show ?case using same by (simp add: ss)
qed simp

end

section \<open>What the loaders return\<close>

lemma log_step_Inr:
  "log_step read check dg item (p, acc) = Inr st \<longleftrightarrow>
     (\<exists>n l r. item = Inr (n, l) \<and> read n l = Inr r \<and> check n p r = Inr () \<and> st = (Some (dg r), acc @ [r]))"
  by (auto simp: log_step_def result_bind_Inr)

lemma log_fold:
  assumes "obs \<le> mf" "n \<le> mn"
  shows "result_fold (log_step read check dg) (jsonl_loop label mf mr mn obs n ls) (p, acc) = Inr (q, rs) \<longleftrightarrow>
    obs + int (length (concat ls)) \<le> mf \<and> (\<forall>l \<in> set ls. int (length l) \<le> mr) \<and> n + int (length ls) \<le> mn \<and>
    (\<exists>new. rs = acc @ new \<and> q = (if new = [] then p else Some (dg (last new))) \<and> log_reads read check dg (n + 1) p ls new)"
  using assms
proof (induction ls arbitrary: obs n p acc)
  case (Cons l ls)
  show ?case
  proof (cases "obs + int (length l) \<le> mf \<and> int (length l) \<le> mr \<and> n + 1 \<le> mn")
    case True
    have "result_fold (log_step read check dg) (jsonl_loop label mf mr mn obs n (l # ls)) (p, acc) = Inr (q, rs) \<longleftrightarrow>
        (\<exists>r. read (n + 1) l = Inr r \<and> check (n + 1) p r = Inr () \<and>
           result_fold (log_step read check dg) (jsonl_loop label mf mr mn (obs + int (length l)) (n + 1) ls) (Some (dg r), acc @ [r]) = Inr (q, rs))"
      using True by (auto simp: Let_def result_bind_Inr log_step_Inr)
    also have "\<dots> \<longleftrightarrow> obs + int (length (concat (l # ls))) \<le> mf \<and> (\<forall>l \<in> set (l # ls). int (length l) \<le> mr) \<and>
        n + int (length (l # ls)) \<le> mn \<and>
        (\<exists>r new. read (n + 1) l = Inr r \<and> check (n + 1) p r = Inr () \<and> rs = acc @ r # new \<and>
           q = Some (dg (last (r # new))) \<and> log_reads read check dg (n + 1 + 1) (Some (dg r)) ls new)"
      using True by (subst Cons.IH) (auto simp: algebra_simps)
    also have "(\<exists>r new. read (n + 1) l = Inr r \<and> check (n + 1) p r = Inr () \<and> rs = acc @ r # new \<and>
           q = Some (dg (last (r # new))) \<and> log_reads read check dg (n + 1 + 1) (Some (dg r)) ls new) \<longleftrightarrow>
        (\<exists>new. rs = acc @ new \<and> q = (if new = [] then p else Some (dg (last new))) \<and> log_reads read check dg (n + 1) p (l # ls) new)"
      (is "?L \<longleftrightarrow> ?R")
    proof
      assume ?L then show ?R by (fastforce intro: exI [of _ "_ # _"])
    next
      assume ?R
      then obtain new where "rs = acc @ new" "q = (if new = [] then p else Some (dg (last new)))"
        "log_reads read check dg (n + 1) p (l # ls) new" by blast
      then show ?L by (cases new) auto
    qed
    finally show ?thesis .
  next
    case False
    then have "\<not> (obs + int (length (concat (l # ls))) \<le> mf \<and> (\<forall>l \<in> set (l # ls). int (length l) \<le> mr) \<and> n + int (length (l # ls)) \<le> mn)"
      by auto
    moreover obtain e where "jsonl_loop label mf mr mn obs n (l # ls) = [Inl e]" using False by (force simp: Let_def)
    then have "result_fold (log_step read check dg) (jsonl_loop label mf mr mn obs n (l # ls)) (p, acc) \<noteq> Inr (q, rs)"
      by (simp add: result_bind_Inr log_step_Inr del: jsonl_loop.simps)
    ultimately show ?thesis by blast
  qed
qed auto

lemma jsonl_lines_line: "10 \<notin> set x \<Longrightarrow> jsonl_lines (x @ [10]) = [x @ [10]]"
  by (induction x) auto

lemma jsonl_lines_plain: "x \<noteq> [] \<Longrightarrow> 10 \<notin> set x \<Longrightarrow> jsonl_lines x = [x]"
proof (induction x)
  case (Cons a x)
  then show ?case by (cases "x = []") auto
qed simp

lemma concat_lines [simp]: "concat (jsonl_lines c) = c"
  by (induction c) (auto split: list.splits)

lemma event_step_generic:
  "load_event_step E item (Some r, p, acc) =
     map_sum id (\<lambda>(q, es). (Some r, q, es)) (log_step (read_event E) (check_event E r) ae_event_hash item (p, acc))"
  by (cases item) (auto simp: load_event_step_def log_step_def result_bind_def split: sum.splits)

lemma event_fold_generic:
  "result_fold (load_event_step E) items (Some r, p, acc) =
     map_sum id (\<lambda>(q, es). (Some r, q, es)) (result_fold (log_step (read_event E) (check_event E r) ae_event_hash) items (p, acc))"
proof (induction items arbitrary: p acc)
  case (Cons item items)
  then show ?case
    by (cases "log_step (read_event E) (check_event E r) ae_event_hash item (p, acc)") (auto simp: event_step_generic)
qed simp

lemma seal_step_generic: "load_seal_step E r = log_step (read_seal E) (check_seal E r) sl_root_digest"
  by (intro ext) (simp add: load_seal_step_def log_step_def split_def)

lemma open_log:
  "open_bounded_regular_file node label m = Inr c \<longleftrightarrow> log_content node = Some c \<and> int (length c) \<le> m"
  by (auto simp: open_bounded_regular_file_def log_content_def split: option.splits run_node.splits if_splits)

lemma log_content_is_file: "log_content node = Some c \<Longrightarrow> node_is_file node"
  by (auto simp: log_content_def split: option.splits run_node.splits if_splits)

lemma load_log:
  assumes "0 \<le> mf" "0 \<le> mn"
  shows "result_fold (log_step read check dg) (bounded_jsonl_records node label mf mr mn) (None, []) = Inr (q, rs) \<longleftrightarrow>
    (\<exists>c. log_content node = Some c \<and> lines_fit mf mr mn (jsonl_lines c) \<and>
       q = (if rs = [] then None else Some (dg (last rs))) \<and> log_reads read check dg 1 None (jsonl_lines c) rs)"
proof (cases "open_bounded_regular_file node label mf")
  case (Inl e)
  then have "\<not> (log_content node = Some c \<and> int (length c) \<le> mf)" for c using open_log [of node label mf c] by auto
  then show ?thesis using Inl by (auto simp: bounded_jsonl_records_def log_step_def lines_fit_def)
next
  case (Inr c)
  then have c: "log_content node = Some c" "int (length c) \<le> mf" using open_log by blast+
  then show ?thesis unfolding bounded_jsonl_records_def Inr sum.case
    by (subst log_fold) (use assms in \<open>auto simp: lines_fit_def\<close>)
qed

lemma load_events_iff:
  "load_events E node (Some r) = Inr es \<longleftrightarrow>
     (\<exists>c. log_content node = Some c \<and> event_fit c \<and> events_read E r c es) \<and> es \<noteq> [] \<and> length (filter is_terminal es) \<le> 1"
proof -
  have "0 \<le> MAX_EVENT_LOG_BYTES" "0 \<le> MAX_AUDIT_EVENT_RECORDS" by (simp_all add: MAX_EVENT_LOG_BYTES_def MAX_AUDIT_EVENT_RECORDS_def)
  note fold = load_log [OF this, of "read_event E" "check_event E r" ae_event_hash node "''Run event stream''" MAX_AUDIT_EVENT_RECORD_BYTES]
  show ?thesis
    unfolding load_events_def event_fold_generic event_fit_def events_read_def
    using log_content_is_file by (auto simp: result_bind_Inr fold not_less split: if_splits)
qed

lemma load_seals_iff:
  "load_seals E node r = Inr ss \<longleftrightarrow>
     (if node_is_file node then ss \<noteq> [] \<and> (\<exists>c. log_content node = Some c \<and> seal_fit c \<and> seals_read E r c ss) else ss = [])"
proof -
  have "0 \<le> MAX_INTEGRITY_LOG_BYTES" "0 \<le> MAX_INTEGRITY_SEAL_RECORDS" by (simp_all add: MAX_INTEGRITY_LOG_BYTES_def MAX_INTEGRITY_SEAL_RECORDS_def)
  note fold = load_log [OF this, of "read_seal E" "check_seal E r" sl_root_digest node "''Run integrity log''" MAX_INTEGRITY_SEAL_RECORD_BYTES]
  show ?thesis
    unfolding load_seals_def seal_step_generic seal_fit_def seals_read_def
    by (auto simp: result_bind_Inr fold split: if_splits)
qed

text \<open>Without an expected identifier the first event gives it.\<close>

lemma log_fold_extends: "result_fold (log_step read check dg) items (p, acc) = Inr (q, rs) \<Longrightarrow> \<exists>new. rs = acc @ new"
proof (induction items arbitrary: p acc)
  case (Cons item items)
  obtain r where "result_fold (log_step read check dg) items (Some (dg r), acc @ [r]) = Inr (q, rs)"
    using Cons.prems by (auto simp: log_step_Inr result_bind_Inr)
  then show ?case using Cons.IH by fastforce
qed simp

lemma load_events_any:
  assumes "load_events E node None = Inr es"
  shows "load_events E node (Some (ae_run_id (hd es))) = Inr es"
proof -
  let ?items = "bounded_jsonl_records node ''Run event stream'' MAX_EVENT_LOG_BYTES MAX_AUDIT_EVENT_RECORD_BYTES MAX_AUDIT_EVENT_RECORDS"
  obtain a b where fold: "result_fold (load_event_step E) ?items (None, None, []) = Inr (a, b, es)" and es: "es \<noteq> []"
    using assms by (auto simp: load_events_def result_bind_Inr split: if_splits)
  obtain item items where items: "?items = item # items" using fold es by (cases ?items) auto
  obtain e where e: "load_event_step E item (None, None, []) = Inr (Some (ae_run_id e), Some (ae_event_hash e), [e])"
    "load_event_step E item (Some (ae_run_id e), None, []) = Inr (Some (ae_run_id e), Some (ae_event_hash e), [e])"
    using fold by (cases item) (auto simp: items load_event_step_def result_bind_Inr Let_def)
  have rest: "result_fold (load_event_step E) items (Some (ae_run_id e), Some (ae_event_hash e), [e]) = Inr (a, b, es)"
    using fold by (simp add: items e(1))
  then have "hd es = e" by (auto simp: event_fold_generic dest!: log_fold_extends)
  moreover have "result_fold (load_event_step E) ?items (Some (ae_run_id e), None, []) = Inr (a, b, es)"
    by (simp add: items e(2) rest)
  ultimately show ?thesis using assms unfolding load_events_def fold by (simp split: if_splits)
qed

lemma reads_linked:
  assumes "log_reads read check dg n p ls rs" and "\<And>n p r. check n p r = Inr () \<Longrightarrow> sq r = n \<and> prev r = p"
  shows "linked sq prev dg n p rs"
  using assms(1) by (induction ls arbitrary: n p rs) (auto dest: assms(2) split: list.splits)

lemma reads_all:
  assumes "log_reads read check dg n p ls rs" "r \<in> set rs"
  shows "\<exists>n p l. l \<in> set ls \<and> read n l = Inr r \<and> check n p r = Inr ()"
  using assms by (induction ls arbitrary: n p rs) (fastforce split: list.splits)+

lemma reads_length: "log_reads read check dg n p ls rs \<Longrightarrow> length rs = length ls"
  by (induction ls arbitrary: n p rs) (auto split: list.splits)

lemma check_event_ok:
  "check_event E r n p e = Inr () \<longleftrightarrow>
     ae_run_id e = r \<and> ae_sequence e = n \<and> ae_previous_hash e = p \<and> computed_hash E e = Inr (ae_event_hash e)"
  by (auto simp: check_event_def result_bind_Inr)

lemma check_seal_ok:
  "check_seal E r n p s = Inr () \<longleftrightarrow>
     sl_api_version s = INTEGRITY_API_VERSION \<and> sl_run_id s = r \<and> sl_sequence s = n \<and> sl_previous_root_digest s = p \<and>
     sl_artifacts s = sort_key sa_path (sl_artifacts s) \<and> computed_artifact_root_digest E s = Inr (sl_artifact_root_digest s) \<and>
     computed_root_digest E s = Inr (sl_root_digest s)"
  by (auto simp: check_seal_def result_bind_Inr)

lemma loaded_events:
  assumes "load_events E node (Some r) = Inr es"
  shows "event_chain es" and "es \<noteq> []" and "\<And>e. e \<in> set es \<Longrightarrow> ae_run_id e = r \<and> computed_hash E e = Inr (ae_event_hash e)"
    and "int (length es) \<le> MAX_AUDIT_EVENT_RECORDS"
proof -
  obtain c where c: "event_fit c" "log_reads (read_event E) (check_event E r) ae_event_hash 1 None (jsonl_lines c) es" "es \<noteq> []"
    using assms unfolding load_events_iff events_read_def by blast
  show "event_chain es" by (rule reads_linked [OF c(2)]) (simp add: check_event_ok)
  show "es \<noteq> []" by (rule c(3))
  show "ae_run_id e = r \<and> computed_hash E e = Inr (ae_event_hash e)" if "e \<in> set es" for e
    using reads_all [OF c(2) that] by (auto simp: check_event_ok)
  show "int (length es) \<le> MAX_AUDIT_EVENT_RECORDS" using c(1) reads_length [OF c(2)] by (simp add: event_fit_def lines_fit_def)
qed

lemma loaded_seals:
  assumes "load_seals E node r = Inr ss"
  shows "seal_chain ss" and "\<And>s. s \<in> set ss \<Longrightarrow> sl_run_id s = r \<and> computed_root_digest E s = Inr (sl_root_digest s)"
    and "int (length ss) \<le> MAX_INTEGRITY_SEAL_RECORDS"
proof -
  have "seal_chain ss \<and> (\<forall>s \<in> set ss. sl_run_id s = r \<and> computed_root_digest E s = Inr (sl_root_digest s)) \<and>
      int (length ss) \<le> MAX_INTEGRITY_SEAL_RECORDS"
  proof (cases "ss = []")
    case False
    then obtain c where c: "seal_fit c" "log_reads (read_seal E) (check_seal E r) sl_root_digest 1 None (jsonl_lines c) ss"
      using assms unfolding load_seals_iff seals_read_def by (auto split: if_splits)
    have "seal_chain ss" by (rule reads_linked [OF c(2)]) (simp add: check_seal_ok)
    moreover have "sl_run_id s = r \<and> computed_root_digest E s = Inr (sl_root_digest s)" if "s \<in> set ss" for s
      using reads_all [OF c(2) that] by (auto simp: check_seal_ok)
    ultimately show ?thesis using c(1) reads_length [OF c(2)] by (simp add: seal_fit_def lines_fit_def)
  qed (simp add: MAX_INTEGRITY_SEAL_RECORDS_def)
  then show "seal_chain ss" "\<And>s. s \<in> set ss \<Longrightarrow> sl_run_id s = r \<and> computed_root_digest E s = Inr (sl_root_digest s)"
    "int (length ss) \<le> MAX_INTEGRITY_SEAL_RECORDS" by auto
qed

lemma load_events_unnamed:
  assumes "load_events E node (Some r) = Inr es"
  shows "load_events E node None = Inr es"
proof -
  let ?items = "bounded_jsonl_records node ''Run event stream'' MAX_EVENT_LOG_BYTES MAX_AUDIT_EVENT_RECORD_BYTES MAX_AUDIT_EVENT_RECORDS"
  obtain a b where fold: "result_fold (load_event_step E) ?items (Some r, None, []) = Inr (a, b, es)" and es: "es \<noteq> []"
    using assms by (auto simp: load_events_def result_bind_Inr split: if_splits)
  obtain item items where items: "?items = item # items" using fold es by (cases ?items) auto
  have "load_event_step E item (None, None, []) = load_event_step E item (Some r, None, [])"
    using fold by (cases item) (auto simp: items load_event_step_def result_bind_Inr Let_def check_event_ok)
  then have "result_fold (load_event_step E) ?items (None, None, []) = Inr (a, b, es)" using fold by (simp add: items)
  then show ?thesis using assms unfolding load_events_def fold by (simp split: if_splits)
qed

end
