(* ===== verification/Run_Binding.thy ===== *)
theory Run_Binding
  imports Run_Chains
begin

text \<open>
  The root digest of a verified Run binds the whole directory: two directories that verify with the same root
  digest hold the same events, the same seals and the same artifacts, or the messages hashed for them contain a
  collision of SHA-256. Both logs interpret the locale \<open>digest_chain\<close>.
\<close>

definition event_content :: "store_env \<Rightarrow> stored_event \<Rightarrow> jv" where
  "event_content E e = sort_keys (JvObj (event_material E e))"

definition seal_content :: "store_env \<Rightarrow> run_seal \<Rightarrow> jv" where
  "seal_content E s = sort_keys (JvObj (seal_material E s))"

text \<open>The bytes whose digest \<open>canonical_digest\<close> is.\<close>

definition canonical_message :: "store_env \<Rightarrow> jv \<Rightarrow> nat list" where
  "canonical_message E v = (case utf8_encode (json_dump (se_float E) (sort_keys v)) of None \<Rightarrow> [] | Some b \<Rightarrow> b)"

definition run_events :: "store_env \<Rightarrow> run_files \<Rightarrow> stored_event list" where
  "run_events E files = (case load_events E (dict_get files events_log) None of Inl _ \<Rightarrow> [] | Inr es \<Rightarrow> es)"

definition run_seals :: "store_env \<Rightarrow> run_files \<Rightarrow> run_seal list" where
  "run_seals E files =
     (case load_seals E (dict_get files integrity_log) (ae_run_id (hd (run_events E files))) of Inl _ \<Rightarrow> [] | Inr ss \<Rightarrow> ss)"

definition file_content :: "run_files \<Rightarrow> ustr \<Rightarrow> nat list option" where
  "file_content files p = (case dict_get files p of Some (RegularFile c _) \<Rightarrow> Some c | _ \<Rightarrow> None)"

text \<open>Every message that a verification hashes: the records of both logs and the artifacts.\<close>

definition run_messages :: "store_env \<Rightarrow> run_files \<Rightarrow> nat list set" where
  "run_messages E files =
     (\<lambda>e. canonical_message E (JvObj (event_material E e))) ` set (run_events E files) \<union>
     (\<lambda>s. canonical_message E (JvObj (seal_material E s))) ` set (run_seals E files) \<union>
     {c. \<exists>p. p \<notin> set RESERVED_ARTIFACTS \<and> file_content files p = Some c}"

definition hash_collision :: "nat list set \<Rightarrow> nat list set \<Rightarrow> bool" where
  "hash_collision A B \<longleftrightarrow> (\<exists>a \<in> A. \<exists>b \<in> B. a \<noteq> b \<and> sha256_hex a = sha256_hex b)"

text \<open>Payloads whose numbers read back, and files within the range of a file offset.\<close>

definition exact_run :: "store_env \<Rightarrow> run_files \<Rightarrow> bool" where
  "exact_run E files \<longleftrightarrow>
     (\<forall>e \<in> set (run_events E files). exact_value (se_float E) (JvObj (ae_payload e))) \<and>
     (\<forall>p c. file_content files p = Some c \<longrightarrow> int (length c) < 2 ^ 63)"

definition seal_verified :: "store_env \<Rightarrow> run_files \<Rightarrow> stored_event list \<Rightarrow> int \<Rightarrow> run_seal \<Rightarrow> bool" where
  "seal_verified E files events n s \<longleftrightarrow>
     n \<le> sl_event_count s \<and> sl_event_count s \<le> int (length events) \<and>
     ae_event_hash (events ! nat (sl_event_count s - 1)) = sl_event_head_hash s \<and>
     (\<forall>a \<in> set (sl_artifacts s). sa_path a \<notin> set RESERVED_ARTIFACTS \<and> (\<exists>i. artifact_record E files (sa_path a) i = Inr a))"

section \<open>Sorted objects\<close>

lemma map_of_sorted: "distinct (map fst xs) \<Longrightarrow> map_of (sort_key fst xs) = map_of xs"
  by (rule map_of_eqI) (auto simp: image_def, (metis distinct_map distinct_sort map_of_eq_Some_iff set_sort distinct_insort)?)

lemma sorted_object_field:
  assumes "sort_keys (JvObj a) = sort_keys (JvObj b)" "distinct (map fst a)" "distinct (map fst b)"
  shows "map_option sort_keys (map_of a k) = map_option sort_keys (map_of b k)"
proof -
  let ?f = "\<lambda>kv. (fst kv, sort_keys (snd kv))"
  have m: "map_of (map ?f xs) k = map_option sort_keys (map_of xs k)" for xs
    using map_of_map [of sort_keys xs] by (simp add: split_def)
  have "map fst (map ?f xs) = map fst xs" for xs :: "(ustr \<times> jv) list" by simp
  then have s: "map_of (sort_key fst (map ?f xs)) = map_of (map ?f xs)" if "distinct (map fst xs)" for xs
    using that map_of_sorted [of "map ?f xs"] by (simp add: comp_def)
  have "sort_key fst (map ?f a) = sort_key fst (map ?f b)" using assms(1) unfolding sort_keys_obj by simp
  then have "map_of (map ?f a) k = map_of (map ?f b) k" unfolding s [OF assms(2), symmetric] s [OF assms(3), symmetric] by simp
  then show ?thesis unfolding m .
qed

lemma u_inject [simp]: "u s = u t \<longleftrightarrow> s = t"
  by (simp add: u_def inj_map_eq_map inj_def)

lemma material_keys: "distinct (map fst (event_material E e))" "distinct (map fst (seal_material E s))"
  by (simp_all add: event_material_def seal_material_def)

lemma jv_optional_sorted [simp]: "sort_keys (jv_optional v) = jv_optional v"
  by (simp add: jv_optional_def split: option.splits)

lemma jv_optional_inject [simp]: "jv_optional v = jv_optional w \<longleftrightarrow> v = w"
  by (auto simp: jv_optional_def split: option.splits)

lemma event_content_fields:
  assumes "event_content E e = event_content E f"
  shows "ae_sequence e = ae_sequence f" "ae_previous_hash e = ae_previous_hash f" "ae_run_id e = ae_run_id f"
proof -
  note field = sorted_object_field [OF assms [unfolded event_content_def] material_keys(1) material_keys(1)]
  show "ae_sequence e = ae_sequence f" using field [of "u ''sequence''"] by (simp add: event_material_def)
  show "ae_previous_hash e = ae_previous_hash f" using field [of "u ''previous_hash''"] by (simp add: event_material_def)
  show "ae_run_id e = ae_run_id f" using field [of "u ''run_id''"] by (simp add: event_material_def)
qed

lemma artifact_json_keys: "distinct (map fst kvs)" if "artifact_json a = JvObj kvs" for kvs
  using that by (auto simp: artifact_json_def)

lemma artifact_json_fields:
  assumes "sort_keys (artifact_json a) = sort_keys (artifact_json b)"
  shows "sa_path a = sa_path b" "sa_sha256 a = sa_sha256 b"
proof -
  obtain k l where kl: "artifact_json a = JvObj k" "artifact_json b = JvObj l" by (simp add: artifact_json_def)
  note field = sorted_object_field [OF assms [unfolded kl] artifact_json_keys [OF kl(1)] artifact_json_keys [OF kl(2)]]
  show "sa_path a = sa_path b" using field [of "u ''path''"] kl by (auto simp: artifact_json_def)
  show "sa_sha256 a = sa_sha256 b" using field [of "u ''sha256''"] kl by (auto simp: artifact_json_def)
qed

lemma map_same_transfer: "map f xs = map f ys \<Longrightarrow> (\<And>x y. f x = f y \<Longrightarrow> g x = g y) \<Longrightarrow> map g xs = map g ys"
proof (induction xs arbitrary: ys)
  case (Cons x xs)
  obtain y zs where "ys = y # zs" "f x = f y" "map f xs = map f zs" using Cons.prems(1) by (cases ys) simp_all
  moreover have "map g xs = map g zs" by (rule Cons.IH [OF calculation(3) Cons.prems(2)])
  moreover have "g x = g y" by (rule Cons.prems(2) [OF calculation(2)])
  ultimately show ?case by simp
qed simp

lemma seal_content_fields:
  assumes "seal_content E s = seal_content E t"
  shows "sl_sequence s = sl_sequence t" "sl_previous_root_digest s = sl_previous_root_digest t"
    "sl_event_head_hash s = sl_event_head_hash t"
    "map (\<lambda>a. (sa_path a, sa_sha256 a)) (sl_artifacts s) = map (\<lambda>a. (sa_path a, sa_sha256 a)) (sl_artifacts t)"
proof -
  note field = sorted_object_field [OF assms [unfolded seal_content_def] material_keys(2) material_keys(2)]
  show "sl_sequence s = sl_sequence t" using field [of "u ''sequence''"] by (simp add: seal_material_def)
  show "sl_previous_root_digest s = sl_previous_root_digest t"
    using field [of "u ''previous_root_digest''"] by (simp add: seal_material_def)
  show "sl_event_head_hash s = sl_event_head_hash t" using field [of "u ''event_head_hash''"] by (simp add: seal_material_def)
  have "map (\<lambda>a. sort_keys (artifact_json a)) (sl_artifacts s) = map (\<lambda>a. sort_keys (artifact_json a)) (sl_artifacts t)"
    using field [of "u ''artifacts''"] by (simp add: seal_material_def comp_def)
  then show "map (\<lambda>a. (sa_path a, sa_sha256 a)) (sl_artifacts s) = map (\<lambda>a. (sa_path a, sa_sha256 a)) (sl_artifacts t)"
    by (rule map_same_transfer) (use artifact_json_fields in blast)
qed

interpretation event_log: digest_chain ae_sequence ae_previous_hash ae_event_hash "event_content E" for E
  by unfold_locales (auto dest: event_content_fields)

interpretation seal_log: digest_chain sl_sequence sl_previous_root_digest sl_root_digest "seal_content E" for E
  by unfold_locales (auto dest: seal_content_fields)

section \<open>Digests and contents\<close>

lemma canonical_digest_Inr:
  "canonical_digest E v = Inr h \<longleftrightarrow>
     json_dumpable v \<and> utf8_encode (json_dump (se_float E) (sort_keys v)) = Some (canonical_message E v) \<and>
     h = u (sha256_hex (canonical_message E v))"
  by (auto simp: canonical_digest_def canonical_message_def split: option.splits)

lemma message_determines:
  assumes "canonical_digest E v = Inr h1" "canonical_digest E w = Inr h2" "canonical_message E v = canonical_message E w"
    and "exact_value (se_float E) v" "exact_value (se_float E) w" "distinct_keys v" "distinct_keys w"
  shows "sort_keys v = sort_keys w"
proof -
  have read: "utf8_decode (canonical_message E x) = Some (json_dump (se_float E) (sort_keys x)) \<and>
      json_loads (json_dump (se_float E) (sort_keys x)) = Some (sort_keys x)"
    if "canonical_digest E x = Inr h" "exact_value (se_float E) x" "distinct_keys x" for x h
  proof
    show "utf8_decode (canonical_message E x) = Some (json_dump (se_float E) (sort_keys x))"
      using that(1) by (intro utf8_decode_encode) (simp add: canonical_digest_Inr)
    have "exact_value (se_float E) (sort_keys x)" using that(2) by (simp add: exact_value_def sort_keys_all)
    then show "json_loads (json_dump (se_float E) (sort_keys x)) = Some (sort_keys x)"
      by (rule json_loads_dump) (rule sort_keys_distinct [OF that(3)])
  qed
  show ?thesis using read [OF assms(1,4,6)] read [OF assms(2,5,7)] assms(3) by simp
qed

lemma small_int: "\<bar>i\<bar> < 10 ^ 4300" if "\<bar>i\<bar> \<le> 2 ^ 63" for i :: int
proof -
  have "(2::int) ^ 63 < 10 ^ 19" by simp
  also have "(10::int) ^ 19 \<le> 10 ^ 4300" by (rule power_increasing) simp_all
  finally show ?thesis using that by (rule le_less_trans [rotated])
qed

section \<open>Verified directories\<close>

lemma artifact_path_step_Inr:
  "artifact_path_step E (p, n) (ps, d) = Inr st \<Longrightarrow>
     \<not> node_is_symlink (Some n) \<and>
     fst st = (if node_is_file (Some n) \<and> p \<notin> set RESERVED_ARTIFACTS then ps @ [p] else ps)"
  by (auto simp: artifact_path_step_def Let_def dest: validated_same split: if_splits sum.splits option.splits)

lemma artifact_paths_fold:
  "result_fold (artifact_path_step E) files (ps, d) = Inr st \<Longrightarrow>
     fst st = ps @ map fst (filter (\<lambda>(p, n). node_is_file (Some n) \<and> p \<notin> set RESERVED_ARTIFACTS) files) \<and>
     (\<forall>(p, n) \<in> set files. \<not> node_is_symlink (Some n))"
proof (induction files arbitrary: ps d)
  case (Cons entry files)
  obtain p n where entry: "entry = (p, n)" by (cases entry)
  obtain ps' d' where step: "artifact_path_step E (p, n) (ps, d) = Inr (ps', d')"
    and rest: "result_fold (artifact_path_step E) files (ps', d') = Inr st"
    using Cons.prems by (auto simp: entry result_bind_Inr)
  show ?case using Cons.IH [OF rest] artifact_path_step_Inr [OF step] by (auto simp: entry)
qed auto

lemma artifact_paths_Inr:
  assumes "artifact_paths E files = Inr ps"
  shows "set ps = {p. \<exists>n. (p, n) \<in> set files \<and> node_is_file (Some n) \<and> p \<notin> set RESERVED_ARTIFACTS}"
    and "\<And>p n. (p, n) \<in> set files \<Longrightarrow> \<not> node_is_symlink (Some n)" and "sorted ps"
proof -
  obtain qs d where fold: "result_fold (artifact_path_step E) files ([], []) = Inr (qs, d)" and ps: "ps = sort qs"
    using assms by (auto simp: artifact_paths_def result_bind_Inr)
  note f = artifact_paths_fold [OF fold]
  show "set ps = {p. \<exists>n. (p, n) \<in> set files \<and> node_is_file (Some n) \<and> p \<notin> set RESERVED_ARTIFACTS}"
    using f by (force simp: ps)
  show "\<not> node_is_symlink (Some n)" if "(p, n) \<in> set files" for p n using f that by auto
  show "sorted ps" by (simp add: ps)
qed

lemma index_sealed_artifact_Inr:
  assumes "index_sealed_artifact E files index current a sealed = Inr sealed'"
  shows "artifact_record E files (sa_path a) index = Inr a" "set (fst sealed') = insert (sa_path a) (set (fst sealed))"
    "sa_path a \<notin> set RESERVED_ARTIFACTS"
  using assms
  by (auto simp: RESERVED_ARTIFACT_KEYS_def index_sealed_artifact_def verify_sealed_artifact_def Let_def result_bind_Inr dest!: validated_same split: sum.splits if_splits option.splits)

lemma index_sealed_fold:
  assumes "result_fold (index_sealed_artifact E files index current) as sealed = Inr sealed'"
  shows "\<forall>a \<in> set as. sa_path a \<notin> set RESERVED_ARTIFACTS \<and> artifact_record E files (sa_path a) index = Inr a" "set (fst sealed') = set (fst sealed) \<union> sa_path ` set as"
  using assms by (induction as arbitrary: sealed) (auto simp: result_bind_Inr dest: index_sealed_artifact_Inr)

lemma integrity_step_Inr:
  assumes "integrity_step E files events current s (n, index, sealed) = Inr (n', index', sealed')"
  shows "n' = sl_event_count s" "n \<le> n'" "n' \<le> int (length events)"
    "ae_event_hash (events ! nat (n' - 1)) = sl_event_head_hash s"
    "\<forall>a \<in> set (sl_artifacts s). sa_path a \<notin> set RESERVED_ARTIFACTS \<and> artifact_record E files (sa_path a) index' = Inr a"
    "set (fst sealed') = set (fst sealed) \<union> sa_path ` set (sl_artifacts s)"
    "index' = fold index_add (drop (nat n) (take (nat n') events)) index"
proof -
  let ?index = "fold index_add (drop (nat n) (take (nat (sl_event_count s)) events)) index"
  have s: "n' = sl_event_count s \<and> n \<le> n' \<and> n' \<le> int (length events) \<and> ae_event_hash (events ! nat (n' - 1)) = sl_event_head_hash s \<and>
      index' = ?index \<and> result_fold (index_sealed_artifact E files ?index current) (sl_artifacts s) sealed = Inr sealed'"
    using assms by (auto simp: integrity_step_def Let_def result_bind_Inr split: if_splits)
  then show "n' = sl_event_count s" "n \<le> n'" "n' \<le> int (length events)"
    "ae_event_hash (events ! nat (n' - 1)) = sl_event_head_hash s"
    "index' = fold index_add (drop (nat n) (take (nat n') events)) index" by auto
  show "\<forall>a \<in> set (sl_artifacts s). sa_path a \<notin> set RESERVED_ARTIFACTS \<and> artifact_record E files (sa_path a) index' = Inr a"
    "set (fst sealed') = set (fst sealed) \<union> sa_path ` set (sl_artifacts s)"
    using s index_sealed_fold [of E files ?index current "sl_artifacts s" sealed sealed'] by simp_all
qed

lemma integrity_fold:
  "result_fold (integrity_step E files events current) seals (n, index, sealed) = Inr (n', index', sealed') \<Longrightarrow>
   n \<le> n' \<and> n' = (if seals = [] then n else sl_event_count (last seals)) \<and> (\<forall>s \<in> set seals. seal_verified E files events n s) \<and>
   set (fst sealed') = set (fst sealed) \<union> sa_path ` (\<Union>s \<in> set seals. set (sl_artifacts s))"
proof (induction seals arbitrary: n index sealed)
  case (Cons s seals)
  obtain m i t where step: "integrity_step E files events current s (n, index, sealed) = Inr (m, i, t)"
    and rest: "result_fold (integrity_step E files events current) seals (m, i, t) = Inr (n', index', sealed')"
    using Cons.prems by (auto simp: result_bind_Inr)
  note a = integrity_step_Inr [OF step] and b = Cons.IH [OF rest]
  have "seal_verified E files events n s" using a(1-5) by (auto simp: seal_verified_def)
  moreover have "seal_verified E files events n r" if "r \<in> set seals" for r
    using b a(2) that by (fastforce simp: seal_verified_def)
  ultimately show ?case using a(1,2,6) b by auto
qed auto

lemma verified_state:
  assumes "integrity_state_of E files allow = Inr st"
  shows "load_events E (dict_get files events_log) None = Inr (ig_events st)" "ig_run_id st = ae_run_id (hd (ig_events st))"
    "load_seals E (dict_get files integrity_log) (ig_run_id st) = Inr (ig_seals st)"
    "\<And>s. s \<in> set (ig_seals st) \<Longrightarrow> seal_verified E files (ig_events st) 0 s"
    "set (ig_sealed_paths st) = sa_path ` (\<Union>s \<in> set (ig_seals st). set (sl_artifacts s))"
    "\<not> allow \<Longrightarrow> ig_seals st \<noteq> [] \<and> sl_event_count (last (ig_seals st)) = int (length (ig_events st)) \<and> ig_unsealed_paths st = []"
    "\<And>p n. (p, n) \<in> set files \<Longrightarrow> \<not> node_is_symlink (Some n)"
    "\<And>p n. (p, n) \<in> set files \<Longrightarrow> node_is_file (Some n) \<Longrightarrow> p \<notin> set RESERVED_ARTIFACTS \<Longrightarrow>
       p \<in> set (ig_sealed_paths st) \<union> set (ig_unsealed_paths st)"
proof -
  obtain events seals paths current n index sealed keys where
    l: "load_events E (dict_get files events_log) None = Inr events"
    "load_seals E (dict_get files integrity_log) (ae_run_id (hd events)) = Inr seals"
    "artifact_paths E files = Inr paths"
    "result_fold (integrity_step E files events current) seals (0, [], ([], [])) = Inr (n, index, (sealed, keys))"
    and st: "st = \<lparr>ig_run_id = ae_run_id (hd events), ig_events = events, ig_seals = seals, ig_sealed_paths = sealed,
       ig_unsealed_paths = filter (\<lambda>p. p \<notin> set sealed) paths\<rparr>"
    and c: "\<not> allow \<Longrightarrow> seals \<noteq> [] \<and> sl_event_count (last seals) = int (length events) \<and> filter (\<lambda>p. p \<notin> set sealed) paths = []"
    using assms unfolding integrity_state_of_def Let_def
    by (elim result_bindE; simp split: if_splits prod.splits add: result_bind_Inr; elim exE conjE result_bindE; simp split: if_splits; blast)
  note f = integrity_fold [OF l(4)] and p = artifact_paths_Inr [OF l(3)]
  show "load_events E (dict_get files events_log) None = Inr (ig_events st)" "ig_run_id st = ae_run_id (hd (ig_events st))"
    "load_seals E (dict_get files integrity_log) (ig_run_id st) = Inr (ig_seals st)"
    using l(1,2) by (simp_all add: st)
  show "\<And>s. s \<in> set (ig_seals st) \<Longrightarrow> seal_verified E files (ig_events st) 0 s"
    "set (ig_sealed_paths st) = sa_path ` (\<Union>s \<in> set (ig_seals st). set (sl_artifacts s))"
    using f by (simp_all add: st)
  show "ig_seals st \<noteq> [] \<and> sl_event_count (last (ig_seals st)) = int (length (ig_events st)) \<and> ig_unsealed_paths st = []" if "\<not> allow"
    using c [OF that] by (simp add: st)
  show "\<And>p n. (p, n) \<in> set files \<Longrightarrow> \<not> node_is_symlink (Some n)" by (rule p(2))
  show "q \<in> set (ig_sealed_paths st) \<union> set (ig_unsealed_paths st)"
    if "(q, n) \<in> set files" "node_is_file (Some n)" "q \<notin> set RESERVED_ARTIFACTS" for q n
    using that p(1) by (auto simp: st)
qed

section \<open>Records that are read\<close>

lemma payload_distinct:
  assumes "read_event E n l = Inr e"
  shows "distinct_keys (JvObj (ae_payload e))"
proof -
  obtain raw where raw: "distinct_keys raw" "validate_event E raw = Some e"
    using assms parsed_distinct unfolding read_event_def read_record_def by (fastforce split: if_splits sum.splits option.splits)
  obtain kvs where kvs: "raw = JvObj kvs" "payload_field kvs ''payload'' = Some (ae_payload e)"
    using raw(2) by (auto simp: validate_event_def Option.bind_eq_Some_conv split: jv.splits if_splits)
  show ?thesis
  proof (cases "map_of kvs (u ''payload'')")
    case None
    then show ?thesis using kvs(2) by (simp add: payload_field_def)
  next
    case (Some v)
    then have "(u ''payload'', v) \<in> set kvs" by (rule map_of_SomeD)
    then have "distinct_keys v" using raw(1) by (auto simp: kvs(1) list_all_iff)
    then show ?thesis using kvs(2) Some by (auto simp: payload_field_def split: jv.splits if_splits)
  qed
qed

lemma exact_scalars [simp]: "exact_value fr (JvStr s)" "exact_value fr JvNull" "exact_value fr (jv_optional v)"
  by (simp_all add: exact_value_def exact_leaf_def jv_optional_def split: option.splits)

lemma exact_small_int: "\<bar>i\<bar> \<le> 2 ^ 63 \<Longrightarrow> exact_value fr (JvInt i)"
  using small_int [of i] by (simp add: exact_value_def exact_leaf_def del: abs_less_iff power_numeral)

lemma event_material_exact:
  "exact_value fr (JvObj (ae_payload e)) \<Longrightarrow> \<bar>ae_sequence e\<bar> \<le> 2 ^ 63 \<Longrightarrow> exact_value fr (JvObj (event_material E e))"
  by (simp add: exact_value_simps(2) event_material_def exact_small_int)

lemma event_material_distinct:
  "distinct_keys (JvObj (ae_payload e)) \<Longrightarrow> distinct_keys (JvObj (event_material E e))"
  by (simp add: event_material_def jv_optional_def split: option.splits)

lemma artifact_json_distinct: "distinct_keys (artifact_json a)"
  by (simp add: artifact_json_def provenance_json_def jv_optional_def list_all_iff split: option.splits)

lemma seal_material_distinct: "distinct_keys (JvObj (seal_material E s))"
  by (simp add: seal_material_def jv_optional_def list_all_iff artifact_json_distinct split: option.splits)

lemma artifact_json_exact: "\<bar>sa_size_bytes a\<bar> \<le> 2 ^ 63 \<Longrightarrow> exact_value fr (artifact_json a)"
  by (simp add: artifact_json_def provenance_json_def exact_value_simps exact_small_int split: option.splits)

lemma seal_material_exact:
  "\<bar>sl_sequence s\<bar> \<le> 2 ^ 63 \<Longrightarrow> \<bar>sl_event_count s\<bar> \<le> 2 ^ 63 \<Longrightarrow> \<forall>a \<in> set (sl_artifacts s). \<bar>sa_size_bytes a\<bar> \<le> 2 ^ 63 \<Longrightarrow>
   exact_value fr (JvObj (seal_material E s))"
  by (simp add: seal_material_def exact_value_simps exact_small_int artifact_json_exact)

section \<open>The messages of a verified Run\<close>

lemma linked_positions: "linked sq prev dg n p rs \<Longrightarrow> r \<in> set rs \<Longrightarrow> n \<le> sq r \<and> sq r < n + int (length rs)"
  by (induction rs arbitrary: n p) fastforce+

lemma artifact_record_content:
  "artifact_record E files p i = Inr a \<Longrightarrow>
     \<exists>c. file_content files p = Some c \<and> sa_path a = p \<and> sa_sha256 a = u (sha256_hex c) \<and> sa_size_bytes a = int (length c)"
  by (auto simp: artifact_record_def file_content_def result_bind_Inr split: option.splits run_node.splits if_splits)

lemma verified_run:
  assumes "integrity_state_of E files False = Inr st"
  shows "run_events E files = ig_events st" "run_seals E files = ig_seals st"
  using verified_state(1,2,3) [OF assms] by (simp_all add: run_events_def run_seals_def)

lemma verified_event:
  assumes "integrity_state_of E files False = Inr st" "exact_run E files" "e \<in> set (ig_events st)"
  shows "canonical_digest E (JvObj (event_material E e)) = Inr (ae_event_hash e)"
    "exact_value (se_float E) (JvObj (event_material E e))" "distinct_keys (JvObj (event_material E e))"
    "canonical_message E (JvObj (event_material E e)) \<in> run_messages E files"
proof -
  have load: "load_events E (dict_get files events_log) (Some (ae_run_id (hd (ig_events st)))) = Inr (ig_events st)"
    by (rule load_events_any [OF verified_state(1) [OF assms(1)]])
  note l = loaded_events [OF load]
  show "canonical_digest E (JvObj (event_material E e)) = Inr (ae_event_hash e)"
    using l(3) [OF assms(3)] by (simp add: computed_hash_def)
  have "\<bar>ae_sequence e\<bar> \<le> 2 ^ 63" using linked_positions [OF l(1) assms(3)] l(4) by (simp add: MAX_AUDIT_EVENT_RECORDS_def)
  then show "exact_value (se_float E) (JvObj (event_material E e))"
    using assms(2,3) verified_run(1) [OF assms(1)] by (intro event_material_exact) (simp_all add: exact_run_def)
  obtain c where "log_reads (read_event E) (check_event E (ae_run_id (hd (ig_events st)))) ae_event_hash 1 None (jsonl_lines c) (ig_events st)"
    using load unfolding load_events_iff events_read_def by blast
  from reads_all [OF this assms(3)] show "distinct_keys (JvObj (event_material E e))"
    by (blast intro: event_material_distinct payload_distinct)
  show "canonical_message E (JvObj (event_material E e)) \<in> run_messages E files"
    using assms(3) verified_run(1) [OF assms(1)] by (simp add: run_messages_def)
qed

lemma verified_seal:
  assumes "integrity_state_of E files False = Inr st" "exact_run E files" "s \<in> set (ig_seals st)"
  shows "canonical_digest E (JvObj (seal_material E s)) = Inr (sl_root_digest s)"
    "exact_value (se_float E) (JvObj (seal_material E s))"
    "canonical_message E (JvObj (seal_material E s)) \<in> run_messages E files"
proof -
  note l = loaded_seals [OF verified_state(3) [OF assms(1)]]
  note e = loaded_events [OF load_events_any [OF verified_state(1) [OF assms(1)]]]
  show "canonical_digest E (JvObj (seal_material E s)) = Inr (sl_root_digest s)"
    using l(2) [OF assms(3)] by (simp add: computed_root_digest_def)
  have v: "seal_verified E files (ig_events st) 0 s" by (rule verified_state(4) [OF assms(1,3)])
  have "\<bar>sa_size_bytes a\<bar> \<le> 2 ^ 63" if "a \<in> set (sl_artifacts s)" for a
    using v that assms(2) by (fastforce simp: seal_verified_def exact_run_def dest: artifact_record_content)
  then show "exact_value (se_float E) (JvObj (seal_material E s))"
    using linked_positions [OF l(1) assms(3)] l(3) e(4) v
    by (intro seal_material_exact) (simp_all add: MAX_AUDIT_EVENT_RECORDS_def MAX_INTEGRITY_SEAL_RECORDS_def seal_verified_def)
  show "canonical_message E (JvObj (seal_material E s)) \<in> run_messages E files"
    using assms(3) verified_run(2) [OF assms(1)] by (simp add: run_messages_def)
qed

lemma same_digest_same_content:
  assumes "canonical_digest E v = Inr h" "canonical_digest E w = Inr h" "\<not> hash_collision A B"
    "canonical_message E v \<in> A" "canonical_message E w \<in> B"
    "exact_value (se_float E) v" "exact_value (se_float E) w" "distinct_keys v" "distinct_keys w"
  shows "sort_keys v = sort_keys w"
proof -
  have "sha256_hex (canonical_message E v) = sha256_hex (canonical_message E w)"
    using assms(1,2) by (simp add: canonical_digest_Inr)
  then have "canonical_message E v = canonical_message E w" using assms(3-5) by (auto simp: hash_collision_def)
  then show ?thesis using assms by (intro message_determines) auto
qed

lemma same_logs:
  assumes v: "integrity_state_of E F1 False = Inr s1" "exact_run E F1" "integrity_state_of E F2 False = Inr s2" "exact_run E F2"
    and same: "sl_root_digest (last (ig_seals s1)) = sl_root_digest (last (ig_seals s2))"
    and free: "\<not> hash_collision (run_messages E F1) (run_messages E F2)"
  shows "map (seal_content E) (ig_seals s1) = map (seal_content E) (ig_seals s2)"
    and "map (event_content E) (ig_events s1) = map (event_content E) (ig_events s2)"
proof -
  note n1 = verified_state(6) [OF v(1), simplified] and n2 = verified_state(6) [OF v(3), simplified]
  show seals: "map (seal_content E) (ig_seals s1) = map (seal_content E) (ig_seals s2)"
  proof (rule seal_log.determined)
    show "seal_chain (ig_seals s1)" "seal_chain (ig_seals s2)"
      by (rule loaded_seals(1) [OF verified_state(3) [OF v(1)]] loaded_seals(1) [OF verified_state(3) [OF v(3)]])+
    show "\<forall>r \<in> set (ig_seals s1). \<forall>s \<in> set (ig_seals s2). sl_root_digest r = sl_root_digest s \<longrightarrow> seal_content E r = seal_content E s"
      using same_digest_same_content [OF _ _ free] verified_seal [OF v(1,2)] verified_seal [OF v(3,4)] seal_material_distinct
      unfolding seal_content_def by metis
  qed (use n1 n2 same in simp_all)
  have head: "ae_event_hash (last (ig_events s)) = sl_event_head_hash (last (ig_seals s))"
    if "integrity_state_of E F False = Inr s" for s F
  proof -
    note n = verified_state(6) [OF that, simplified]
    have "ig_events s \<noteq> []" by (rule loaded_events(2) [OF load_events_any [OF verified_state(1) [OF that]]])
    moreover have "seal_verified E F (ig_events s) 0 (last (ig_seals s))" using n by (intro verified_state(4) [OF that]) simp
    then have "ae_event_hash (ig_events s ! nat (int (length (ig_events s)) - 1)) = sl_event_head_hash (last (ig_seals s))"
      using n by (simp add: seal_verified_def)
    moreover have "nat (int (length (ig_events s)) - 1) = length (ig_events s) - 1" by simp
    ultimately show ?thesis by (simp add: last_conv_nth)
  qed
  have "last (map (seal_content E) (ig_seals s1)) = last (map (seal_content E) (ig_seals s2))" using seals by simp
  then have "sl_event_head_hash (last (ig_seals s1)) = sl_event_head_hash (last (ig_seals s2))"
    using n1 n2 by (auto simp: last_map dest: seal_content_fields(3))
  then have heads: "ae_event_hash (last (ig_events s1)) = ae_event_hash (last (ig_events s2))" using head [OF v(1)] head [OF v(3)] by simp
  note l1 = loaded_events [OF load_events_any [OF verified_state(1) [OF v(1)]]]
    and l2 = loaded_events [OF load_events_any [OF verified_state(1) [OF v(3)]]]
  show "map (event_content E) (ig_events s1) = map (event_content E) (ig_events s2)"
  proof (rule event_log.determined [OF l1(1) l2(1) l1(2) l2(2) heads])
    show "\<forall>r \<in> set (ig_events s1). \<forall>s \<in> set (ig_events s2). ae_event_hash r = ae_event_hash s \<longrightarrow> event_content E r = event_content E s"
      using same_digest_same_content [OF _ _ free] verified_event [OF v(1,2)] verified_event [OF v(3,4)]
      unfolding event_content_def by metis
  qed
qed

lemma same_artifacts:
  assumes v: "integrity_state_of E F1 False = Inr s1" "integrity_state_of E F2 False = Inr s2"
    and seals: "map (seal_content E) (ig_seals s1) = map (seal_content E) (ig_seals s2)"
    and free: "\<not> hash_collision (run_messages E F1) (run_messages E F2)"
    and p: "p \<notin> set RESERVED_ARTIFACTS" "file_content F1 p = Some c"
  shows "file_content F2 p = Some c"
proof -
  have "(p, the (dict_get F1 p)) \<in> set F1 \<and> node_is_file (Some (the (dict_get F1 p)))"
    using p(2) by (auto simp: file_content_def map_of_SomeD split: option.splits run_node.splits)
  then have "p \<in> set (ig_sealed_paths s1)" using verified_state(6,8) [OF v(1)] p(1) by auto
  then obtain s a where s: "s \<in> set (ig_seals s1)" "a \<in> set (sl_artifacts s)" "p = sa_path a"
    unfolding verified_state(5) [OF v(1)] by auto
  have a: "sa_sha256 a = u (sha256_hex c)"
    using verified_state(4) [OF v(1) s(1)] s(2,3) p(2) by (fastforce simp: seal_verified_def dest: artifact_record_content)
  have "seal_content E s \<in> set (map (seal_content E) (ig_seals s2))" using s(1) seals by (metis image_eqI set_map)
  then obtain t where t: "t \<in> set (ig_seals s2)" "seal_content E s = seal_content E t" by auto
  have "(p, sa_sha256 a) \<in> set (map (\<lambda>a. (sa_path a, sa_sha256 a)) (sl_artifacts t))"
    using s(2,3) unfolding seal_content_fields(4) [OF t(2), symmetric] by auto
  then obtain b where b: "b \<in> set (sl_artifacts t)" "sa_path b = p" "sa_sha256 b = u (sha256_hex c)" using a by auto
  obtain d where d: "file_content F2 p = Some d" "sa_sha256 b = u (sha256_hex d)"
    using verified_state(4) [OF v(2) t(1)] b(1,2) by (fastforce simp: seal_verified_def dest: artifact_record_content)
  have "c \<in> run_messages E F1" "d \<in> run_messages E F2" using p d(1) by (auto simp: run_messages_def)
  then have "c = d" using free b(3) d(2) unfolding hash_collision_def by (metis u_inject)
  then show ?thesis using d(1) by simp
qed

end
