(* ===== verification/Run_Effects.thy ===== *)
theory Run_Effects
  imports Run_Binding
begin

text \<open>
  What each call of \<open>RunStore\<close> can do to the directory, whatever its cached fields are and whatever goes wrong: a write
  creates parents and installs a destination that no seal names; an append extends one of the two logs. Histories
  are runs of the step relation \<open>store_step\<close>.
\<close>

definition same_files :: "run_store \<Rightarrow> run_store \<Rightarrow> bool" where
  "same_files s t \<longleftrightarrow> rs_files t = rs_files s \<and> rs_run_id t = rs_run_id s \<and> rs_pinned t = rs_pinned s"

definition dirs_added :: "run_files \<Rightarrow> run_files \<Rightarrow> bool" where
  "dirs_added F G \<longleftrightarrow> (\<forall>p. dict_get G p = dict_get F p \<or> dict_get F p = None \<and> dict_get G p = Some Directory)"

definition unsealed :: "store_env \<Rightarrow> ustr \<Rightarrow> run_files \<Rightarrow> ustr \<Rightarrow> bool" where
  "unsealed E run_id F p \<longleftrightarrow>
     canonical_path_key (se_paths E) p \<notin> set (RESERVED_ARTIFACT_KEYS (se_paths E)) \<and>
     (node_exists (dict_get F integrity_log) \<longrightarrow>
       (\<exists>ss. load_seals E (dict_get F integrity_log) run_id = Inr ss \<and>
          (\<forall>s \<in> set ss. \<forall>a \<in> set (sl_artifacts s). canonical_path_key (se_paths E) p \<noteq> canonical_path_key (se_paths E) (sa_path a))))"

text \<open>What a write can do to a directory, with every fault: nothing, or create parents and perhaps install the
  destination, which then is not sealed.\<close>

definition write_effect :: "store_env \<Rightarrow> ustr \<Rightarrow> run_files \<Rightarrow> run_files \<Rightarrow> bool" where
  "write_effect E run_id F F' \<longleftrightarrow>
     (\<exists>p G. dirs_added F G \<and> unsealed E run_id F p \<and> (F' = G \<or> (\<exists>c. F' = dict_set p (RegularFile c 1) G))) \<or> F' = F"

definition dirs_relation :: "run_store \<Rightarrow> run_store \<Rightarrow> bool" where
  "dirs_relation s t \<longleftrightarrow> dirs_added (rs_files s) (rs_files t) \<and> rs_run_id t = rs_run_id s"

text \<open>What the body of a write does after its destination is checked.\<close>

definition installs :: "ustr \<Rightarrow> run_store \<Rightarrow> run_store \<Rightarrow> bool" where
  "installs p s t \<longleftrightarrow> rs_run_id t = rs_run_id s \<and>
     (\<exists>G. dirs_added (rs_files s) G \<and> (rs_files t = G \<or> (\<exists>c. rs_files t = dict_set p (RegularFile c 1) G)))"

definition append_effect :: "ustr \<Rightarrow> run_files \<Rightarrow> run_files \<Rightarrow> bool" where
  "append_effect path F F' \<longleftrightarrow>
     F' = F \<or> (\<exists>w. dict_get F path = None \<and> F' = dict_set path (RegularFile w 1) F) \<or>
     (\<exists>w c l. dict_get F path = Some (RegularFile c l) \<and> F' = dict_set path (RegularFile (c @ w) l) F) \<or>
     dict_get F path = Some (SymbolicLink ToNothing) \<and> F' = dict_set path (SymbolicLink ToFile) F"

datatype store_op =
    AppendEvent ustr "(ustr \<times> jv) list option" "py_datetime option"
  | AppendUniqueEvent ustr "(ustr \<times> jv) list option" "py_datetime option" "ustr option"
  | WriteJson ustr jv
  | WriteJsonCreateOnly ustr jv
  | WriteText ustr ustr
  | WriteTextCreateOnly ustr ustr
  | WriteBytes ustr "nat list"
  | ArtifactExists ustr
  | Seal

definition call_unit :: "('s, 'a) call \<Rightarrow> ('s, unit) call" where
  "call_unit m = call_bind m (\<lambda>_. call_return ())"

fun run_op :: "store_env \<Rightarrow> store_io \<Rightarrow> store_op \<Rightarrow> unit store_call" where
  "run_op E io (AppendEvent ty payload at_time) = call_unit (store_append_event E io ty payload at_time)"
| "run_op E io (AppendUniqueEvent ty payload at_time k) = call_unit (store_append_unique_event E io ty payload at_time k)"
| "run_op E io (WriteJson p v) = call_unit (store_write_json E io p v)"
| "run_op E io (WriteJsonCreateOnly p v) = call_unit (store_write_json_create_only E io p v)"
| "run_op E io (WriteText p s) = call_unit (store_write_text E io p s)"
| "run_op E io (WriteTextCreateOnly p s) = call_unit (store_write_text_create_only E io p s)"
| "run_op E io (WriteBytes p b) = call_unit (store_write_bytes E io p b)"
| "run_op E io (ArtifactExists p) = call_unit (store_artifact_exists E io p)"
| "run_op E io Seal = call_unit (store_seal E io)"

text \<open>One call of any store object for the Run, whatever its cached fields are and whatever goes wrong.\<close>

inductive store_step :: "store_env \<Rightarrow> ustr \<Rightarrow> run_files \<Rightarrow> store_io \<times> store_op \<Rightarrow> run_files \<Rightarrow> bool" for E run_id where
  store_stepI: "rs_run_id s = run_id \<Longrightarrow> run_op E io opn s = (r, t) \<Longrightarrow> store_step E run_id (rs_files s) (io, opn) (rs_files t)"

inductive_cases store_stepE: "store_step E run_id F (io, opn) F'"

section \<open>Calls that leave the directory alone\<close>

interpretation unchanged: state_preorder same_files
  by unfold_locales (auto simp: same_files_def)

lemma pinned_same: "call_in same_files (require_pinned_workspace io)"
  by (auto simp: call_in_def same_files_def require_pinned_workspace_def split: if_splits)

lemma rebase_same: "call_in same_files (rebase_mutation_state E)"
  by (auto simp: call_in_def same_files_def rebase_mutation_state_def rebase_event_state_def Let_def split: if_splits sum.splits)

lemma identity_same: "call_in same_files (path_identity_index E)"
  by (auto simp: call_in_def same_files_def path_identity_index_def split: option.splits sum.splits)

lemma record_same: "call_in same_files (record_path_identity E p)"
  by (auto simp: call_in_def same_files_def record_path_identity_def Let_def split: option.splits if_splits)

lemma destination_same: "call_in same_files (safe_destination E p)"
  unfolding safe_destination_def
  by (intro unchanged.in_rules identity_same) (auto simp: call_in_def unchanged.refl)

lemma unsealed_same: "call_in same_files (require_unsealed E p)"
  unfolding require_unsealed_def Let_def
  by (intro unchanged.in_rules identity_same) (auto simp: call_in_def unchanged.refl split: if_splits)

lemma exists_same: "call_in same_files (store_artifact_exists E io p)"
  unfolding store_artifact_exists_def
  by (intro unchanged.in_rules pinned_same destination_same) (auto simp: call_in_def unchanged.refl)

lemma mutation_outcome:
  assumes "mutation E io body s = (r, t)"
  shows "(\<exists>e. r = Inl e \<and> same_files s t) \<or> (\<exists>m. same_files s m \<and> body m = (r, t) \<and> rebase_mutation_state E s = (Inr (), m))"
proof -
  consider (raised) e where "r = Inl e" "require_pinned_workspace io s = (Inl e, t)"
    | (rebase) e where "r = Inl e" "require_pinned_workspace io s = (Inr (), s)" "rebase_mutation_state E s = (Inl e, t)"
    | (ran) m where "require_pinned_workspace io s = (Inr (), s)" "rebase_mutation_state E s = (Inr (), m)" "body m = (r, t)"
    using assms unfolding mutation_def
    by (elim call_bindE) (auto simp: require_pinned_workspace_def split: if_splits)
  then show ?thesis
    using call_inD [OF pinned_same] call_inD [OF rebase_same] by cases blast+
qed

section \<open>Effects of a write\<close>

lemma require_unsealed_ok:
  assumes "require_unsealed E p s = (Inr x, t)"
  shows "unsealed E (rs_run_id s) (rs_files s) p"
proof -
  let ?key = "canonical_path_key (se_paths E) p"
  have key: "?key \<notin> set (RESERVED_ARTIFACT_KEYS (se_paths E))"
    using assms by (auto simp: require_unsealed_def Let_def)
  then obtain i m where i: "path_identity_index E s = (Inr i, m)"
    and m: "(if dict_get i ?key \<notin> {None, Some p}
        then (Inl (RunIntegrityError ''artifact path collides after NFC and case-fold normalization''), m)
        else if \<not> node_exists (dict_get (rs_files m) integrity_log) then (Inr (), m)
        else (result_bind (load_seals E (dict_get (rs_files m) integrity_log) (rs_run_id m)) (\<lambda>seals.
               if list_ex (\<lambda>s. list_ex (\<lambda>a. ?key = canonical_path_key (se_paths E) (sa_path a)) (sl_artifacts s)) seals
               then Inl (RunIntegrityError ''sealed Run artifact cannot be overwritten'') else Inr ()), m)) = (Inr x, t)"
    using assms unfolding require_unsealed_def Let_def by (auto elim: call_bind_okE)
  have "rs_files m = rs_files s" "rs_run_id m = rs_run_id s" using call_inD [OF identity_same i] by (auto simp: same_files_def)
  then show ?thesis using m key by (auto simp: unsealed_def result_bind_Inr list_ex_iff split: if_splits)
qed

interpretation grown: state_preorder dirs_relation
proof
  show "dirs_relation s s'" if "dirs_relation s t" "dirs_relation t s'" for s t s'
    using that unfolding dirs_relation_def dirs_added_def by (metis option.distinct(1))
qed (simp add: dirs_relation_def dirs_added_def)

lemma same_is_grown: "same_files s t \<Longrightarrow> dirs_relation s t"
  by (simp add: same_files_def dirs_relation_def dirs_added_def)

lemma prepare_grows: "call_in dirs_relation (prepare_directories E ds)"
proof (induction ds)
  case (Cons d ds)
  have "call_in dirs_relation (ensure_private_directory d)"
    by (auto simp: call_in_def ensure_private_directory_def Let_def dirs_relation_def dirs_added_def dict_simps split: if_splits)
  then show ?case unfolding prepare_directories.simps
    by (intro grown.in_rules Cons.IH call_in_mono [OF record_same same_is_grown])
qed (simp add: grown.in_rules)

lemma install_effect:
  assumes "i = atomic_write_private io \<or> i = atomic_create_private io" and "i p c s = (r, t)"
  shows "rs_run_id t = rs_run_id s \<and> (rs_files t = rs_files s \<or> rs_files t = dict_set p (RegularFile c 1) (rs_files s))"
  using assms by (auto simp: atomic_write_private_def atomic_create_private_def Let_def split: if_splits install.splits)


lemma parents_install:
  assumes "\<And>s r t. body s = (r, t) \<Longrightarrow> rs_run_id t = rs_run_id s \<and> (rs_files t = rs_files s \<or> (\<exists>c. rs_files t = dict_set p (RegularFile c 1) (rs_files s)))"
  shows "call_in (installs p) (call_bind (prepare_destination_parent E p) (\<lambda>_. body))"
  unfolding call_in_def
proof (intro allI impI)
  fix s r t assume run: "call_bind (prepare_destination_parent E p) (\<lambda>_. body) s = (r, t)"
  have grow: "dirs_relation s m" if "prepare_destination_parent E p s = (x, m)" for x m
    using call_inD [OF prepare_grows] that by (auto simp: prepare_destination_parent_def)
  from run show "installs p s t"
  proof (cases rule: call_bindE)
    case (raised e)
    then show ?thesis using grow by (auto simp: dirs_relation_def installs_def)
  next
    case (returned x m)
    then show ?thesis using grow [OF returned(1)] assms [OF returned(2)] by (auto simp: dirs_relation_def installs_def)
  qed
qed

lemma install_and_record:
  assumes "i = atomic_write_private io \<or> i = atomic_create_private io"
    and "call_bind (i p c) (\<lambda>_. call_bind (record_path_identity E p) (\<lambda>_. call_return p)) s = (r, t)"
  shows "rs_run_id t = rs_run_id s \<and> (rs_files t = rs_files s \<or> (\<exists>c. rs_files t = dict_set p (RegularFile c 1) (rs_files s)))"
proof -
  obtain y n where n: "i p c s = (y, n)" by (cases "i p c s")
  have "rs_files t = rs_files n \<and> rs_run_id t = rs_run_id n"
    using assms(2) n by (auto simp: same_files_def elim!: call_bindE dest!: call_inD [OF record_same])
  then show ?thesis using install_effect [OF assms(1) n] by auto
qed

lemma checked_destination:
  assumes "safe_destination E p s = (Inr d, m)" "require_unsealed E d m = (Inr x, n)"
  shows "same_files s n" "unsealed E (rs_run_id s) (rs_files s) d"
proof -
  have "same_files s m" "same_files m n" using call_inD [OF destination_same assms(1)] call_inD [OF unsealed_same assms(2)] by auto
  then show "same_files s n" "unsealed E (rs_run_id s) (rs_files s) d"
    using require_unsealed_ok [OF assms(2)] by (auto simp: same_files_def)
qed

lemma same_effect: "same_files s t \<Longrightarrow> write_effect E (rs_run_id s) (rs_files s) (rs_files t) \<and> rs_run_id t = rs_run_id s"
  by (simp add: same_files_def write_effect_def)

lemma mutation_write_effect:
  assumes body: "\<And>d. call_in (installs d) (body d)"
    and run: "mutation E io (call_bind (safe_destination E p) (\<lambda>d. call_bind (require_unsealed E d) (\<lambda>_. body d))) s = (r, t)"
  shows "write_effect E (rs_run_id s) (rs_files s) (rs_files t) \<and> rs_run_id t = rs_run_id s"
proof -
  have body: "write_effect E (rs_run_id m) (rs_files m) (rs_files t) \<and> rs_run_id t = rs_run_id m"
    if "call_bind (safe_destination E p) (\<lambda>d. call_bind (require_unsealed E d) (\<lambda>_. body d)) m = (r, t)" for m
    using that
  proof (cases rule: call_bindE)
    case (raised e)
    then show ?thesis using call_inD [OF destination_same] same_effect by blast
  next
    case (returned d m1)
    from returned(2) show ?thesis
    proof (cases rule: call_bindE)
      case (raised e)
      then have "same_files m t"
        using call_inD [OF destination_same returned(1)] call_inD [OF unsealed_same] unchanged.trans by blast
      then show ?thesis by (rule same_effect)
    next
      case inner: (returned x m2)
      note c = checked_destination [OF returned(1) inner(1)]
      show ?thesis using call_inD [OF body inner(2)] c by (auto simp: same_files_def installs_def write_effect_def)
    qed
  qed
  from mutation_outcome [OF run] show ?thesis
  proof
    assume "\<exists>e. r = Inl e \<and> same_files s t"
    then show ?thesis using same_effect by blast
  next
    assume "\<exists>m. same_files s m \<and>
      call_bind (safe_destination E p) (\<lambda>d. call_bind (require_unsealed E d) (\<lambda>_. body d)) m = (r, t) \<and> rebase_mutation_state E s = (Inr (), m)"
    then obtain m where "same_files s m" "call_bind (safe_destination E p) (\<lambda>d. call_bind (require_unsealed E d) (\<lambda>_. body d)) m = (r, t)"
      by blast
    then show ?thesis using body [of m] by (simp add: same_files_def)
  qed
qed

lemma in_installs_lift: "(\<And>x. call_in (installs p) (f x)) \<Longrightarrow> call_in (installs p) (call_bind (call_lift q) f)"
  by (auto simp: call_in_def call_bind_def call_lift_def installs_def dirs_added_def split: sum.splits)

lemma write_artifact_effect:
  assumes i: "i = atomic_write_private io \<or> i = atomic_create_private io" and run: "write_artifact E io i p content s = (r, t)"
  shows "write_effect E (rs_run_id s) (rs_files s) (rs_files t) \<and> rs_run_id t = rs_run_id s"
  by (rule mutation_write_effect [OF _ run [unfolded write_artifact_def]])
    (intro in_installs_lift parents_install install_and_record [OF i])

lemma store_writes_effect:
  "store_write_json E io p v s = (r, t) \<Longrightarrow> write_effect E (rs_run_id s) (rs_files s) (rs_files t)"
  "store_write_json_create_only E io p v s = (r, t) \<Longrightarrow> write_effect E (rs_run_id s) (rs_files s) (rs_files t)"
  "store_write_text E io p x s = (r, t) \<Longrightarrow> write_effect E (rs_run_id s) (rs_files s) (rs_files t)"
  "store_write_bytes E io p x s = (r, t) \<Longrightarrow> write_effect E (rs_run_id s) (rs_files s) (rs_files t)"
  unfolding store_write_json_def store_write_json_create_only_def store_write_text_def store_write_bytes_def
  using write_artifact_effect [OF disjI1 [OF refl]] write_artifact_effect [OF disjI2 [OF refl]] by blast+

lemma write_text_create_only_effect:
  assumes run: "store_write_text_create_only E io p content s = (r, t)"
  shows "write_effect E (rs_run_id s) (rs_files s) (rs_files t) \<and> rs_run_id t = rs_run_id s"
proof (rule mutation_write_effect [OF _ run [unfolded store_write_text_create_only_def]])
  show "call_in (installs d) (call_bind (prepare_destination_parent E d) (\<lambda>_.
      call_bind (call_lift (text_bytes content)) (\<lambda>encoded.
      call_bind (atomic_create_private io d encoded) (\<lambda>_. call_bind (record_path_identity E d) (\<lambda>_. call_return d)))))" for d
  proof (rule parents_install)
    fix s and r :: "ustr result" and t
    assume "call_bind (call_lift (text_bytes content)) (\<lambda>encoded.
      call_bind (atomic_create_private io d encoded) (\<lambda>_. call_bind (record_path_identity E d) (\<lambda>_. call_return d))) s = (r, t)"
    then show "rs_run_id t = rs_run_id s \<and> (rs_files t = rs_files s \<or> (\<exists>c. rs_files t = dict_set d (RegularFile c 1) (rs_files s)))"
      by (rule call_bindE) (use install_and_record [of "atomic_create_private io" io] in auto)
  qed
qed

section \<open>Effects of an append\<close>

lemma append_effect_refl: "append_effect path F F"
  by (simp add: append_effect_def)

lemma append_private_line_effect:
  "append_private_line io path line s = (r, t) \<Longrightarrow> append_effect path (rs_files s) (rs_files t) \<and> rs_run_id t = rs_run_id s"
  by (auto simp: append_private_line_def append_effect_def Let_def split: if_splits option.splits prod.splits run_node.splits link_target.splits)

lemma append_locked_effect:
  assumes "append_event_locked E io ty payload at_time s = (r, t)"
  shows "append_effect events_log (rs_files s) (rs_files t) \<and> rs_run_id t = rs_run_id s"
  using assms unfolding append_event_locked_def Let_def
  by (auto simp: append_effect_refl split: option.splits if_splits sum.splits elim!: call_bindE dest!: append_private_line_effect)

lemma seal_locked_effect:
  assumes "seal_locked E io s = (r, t)"
  shows "append_effect integrity_log (rs_files s) (rs_files t) \<and> rs_run_id t = rs_run_id s"
  using assms unfolding seal_locked_def Let_def
  by (auto simp: append_effect_refl split: sum.splits if_splits elim!: call_bindE dest!: append_private_line_effect)

lemma mutation_append_effect:
  assumes run: "mutation E io body s = (r, t)"
    and body: "\<And>m. body m = (r, t) \<Longrightarrow> append_effect path (rs_files m) (rs_files t) \<and> rs_run_id t = rs_run_id m"
  shows "append_effect path (rs_files s) (rs_files t) \<and> rs_run_id t = rs_run_id s"
  using mutation_outcome [OF run]
proof
  assume "\<exists>e. r = Inl e \<and> same_files s t"
  then show ?thesis by (auto simp: same_files_def append_effect_def)
next
  assume "\<exists>m. same_files s m \<and> body m = (r, t) \<and> rebase_mutation_state E s = (Inr (), m)"
  then obtain m where m: "same_files s m" "body m = (r, t)" by blast
  show ?thesis using body [OF m(2)] m(1) by (simp add: same_files_def)
qed

lemma append_event_effect:
  assumes "store_append_event E io ty payload at_time s = (r, t)"
  shows "append_effect events_log (rs_files s) (rs_files t) \<and> rs_run_id t = rs_run_id s"
  using assms unfolding store_append_event_def by (rule mutation_append_effect) (rule append_locked_effect)

lemma append_unique_locked_effect:
  assumes "append_unique_locked E io ty payload at_time k s = (r, t)"
  shows "append_effect events_log (rs_files s) (rs_files t) \<and> rs_run_id t = rs_run_id s"
proof -
  have "t = s \<or> append_event_locked E io ty (Some payload) at_time s = (r, t)"
    using assms unfolding append_unique_locked_def Let_def by (auto split: sum.splits if_splits)
  then show ?thesis using append_locked_effect append_effect_refl by blast
qed

lemma append_unique_effect:
  assumes "store_append_unique_event E io ty payload at_time k s = (r, t)"
  shows "append_effect events_log (rs_files s) (rs_files t) \<and> rs_run_id t = rs_run_id s"
proof (cases "unique_identity_ok (case payload of None \<Rightarrow> [] | Some p \<Rightarrow> p) k")
  case True
  show ?thesis
    by (rule mutation_append_effect [OF _ append_unique_locked_effect])
      (use assms True in \<open>simp_all add: store_append_unique_event_def\<close>)
next
  case False
  then show ?thesis using assms by (simp add: store_append_unique_event_def append_effect_def)
qed

lemma seal_effect:
  assumes "store_seal E io s = (r, t)"
  shows "append_effect integrity_log (rs_files s) (rs_files t) \<and> rs_run_id t = rs_run_id s"
  using assms unfolding store_seal_def by (rule mutation_append_effect) (rule seal_locked_effect)

section \<open>Histories\<close>

lemma call_unit_state: "call_unit m s = (r, t) \<Longrightarrow> \<exists>q. m s = (q, t)"
  by (auto simp: call_unit_def elim!: call_bindE)

lemma run_op_effect:
  assumes "run_op E io opn s = (r, t)"
  shows "write_effect E (rs_run_id s) (rs_files s) (rs_files t) \<or>
    append_effect events_log (rs_files s) (rs_files t) \<or> append_effect integrity_log (rs_files s) (rs_files t)"
proof (cases opn)
  case (AppendEvent ty payload at_time)
  then show ?thesis using assms append_event_effect by (auto dest!: call_unit_state)
next
  case (AppendUniqueEvent ty payload at_time k)
  then show ?thesis using assms append_unique_effect by (auto dest!: call_unit_state)
next
  case (WriteJson p v)
  then show ?thesis using assms store_writes_effect by (auto dest!: call_unit_state)
next
  case (WriteJsonCreateOnly p v)
  then show ?thesis using assms store_writes_effect by (auto dest!: call_unit_state)
next
  case (WriteText p v)
  then show ?thesis using assms store_writes_effect by (auto dest!: call_unit_state)
next
  case (WriteTextCreateOnly p v)
  then show ?thesis using assms write_text_create_only_effect by (auto dest!: call_unit_state)
next
  case (WriteBytes p v)
  then show ?thesis using assms store_writes_effect by (auto dest!: call_unit_state)
next
  case (ArtifactExists p)
  then obtain q where "store_artifact_exists E io p s = (q, t)" using assms by (auto dest!: call_unit_state)
  then show ?thesis using call_inD [OF exists_same] same_effect by blast
next
  case Seal
  then show ?thesis using assms seal_effect by (auto dest!: call_unit_state)
qed

lemma step_effect:
  "store_step E run_id F op F' \<Longrightarrow> write_effect E run_id F F' \<or> append_effect events_log F F' \<or> append_effect integrity_log F F'"
  by (cases op) (auto elim!: store_stepE dest!: run_op_effect)

end
