(* ===== verification/Run_Histories.thy ===== *)
theory Run_Histories
  imports Run_Effects
begin

text \<open>
  Histories of a Run: the logs only grow, and what a seal names never changes, for every sequence of calls of any
  number of store objects, with torn writes and failing calls among them. Both are invariants of \<open>store_step\<close>.
\<close>

definition terminated :: "nat list \<Rightarrow> bool" where
  "terminated c \<longleftrightarrow> c = [] \<or> last c = 10"

definition log_extends :: "ustr \<Rightarrow> nat list \<Rightarrow> nat \<Rightarrow> run_files \<Rightarrow> bool" where
  "log_extends lg c l F \<longleftrightarrow> (\<exists>d. dict_get F lg = Some (RegularFile (c @ d) l))"

text \<open>A path that the seals in the first bytes of the integrity log name.\<close>

definition sealed_in :: "store_env \<Rightarrow> ustr \<Rightarrow> nat list \<Rightarrow> ustr \<Rightarrow> bool" where
  "sealed_in E run_id c p \<longleftrightarrow> terminated c \<and> p \<notin> set RESERVED_ARTIFACTS \<and>
     (\<exists>ss. seals_read E run_id c ss \<and> (\<exists>s \<in> set ss. \<exists>a \<in> set (sl_artifacts s). sa_path a = p))"

definition keeps_sealed :: "store_env \<Rightarrow> ustr \<Rightarrow> nat list \<Rightarrow> ustr \<Rightarrow> run_node \<Rightarrow> run_files \<Rightarrow> bool" where
  "keeps_sealed E run_id c p n F \<longleftrightarrow> sealed_in E run_id c p \<and> log_extends integrity_log c 1 F \<and> dict_get F p = Some n"

section \<open>Logs that grow\<close>

lemma lines_append: "terminated c \<Longrightarrow> jsonl_lines (c @ d) = jsonl_lines c @ jsonl_lines d"
proof (induction c)
  case (Cons x c)
  show ?case
  proof (cases "c = []")
    case False
    then have "terminated c" using Cons.prems by (simp add: terminated_def)
    moreover obtain l ls where "jsonl_lines c = l # ls"
      using False concat_lines [of c] by (cases "jsonl_lines c") auto
    ultimately show ?thesis using Cons.IH by auto
  qed (use Cons.prems in \<open>simp add: terminated_def\<close>)
qed simp

lemma reads_append:
  "log_reads read check dg n p (ls @ ms) rs \<longleftrightarrow>
     (\<exists>as bs. rs = as @ bs \<and> log_reads read check dg n p ls as \<and>
        log_reads read check dg (n + int (length ls)) (if as = [] then p else Some (dg (last as))) ms bs)"
proof (induction ls arbitrary: n p rs)
  case (Cons l ls)
  show ?case
  proof (cases rs)
    case Nil
    then show ?thesis by simp
  next
    case rs: (Cons r rs')
    have eq: "n + 1 + int (length ls) = n + int (length (l # ls))" by simp
    have "(\<exists>as bs. rs' = as @ bs \<and> log_reads read check dg (n + 1) (Some (dg r)) ls as \<and>
          log_reads read check dg (n + int (length (l # ls))) (if as = [] then Some (dg r) else Some (dg (last as))) ms bs) \<and>
        read n l = Inr r \<and> check n p r = Inr () \<longleftrightarrow>
      (\<exists>as bs. rs = as @ bs \<and> log_reads read check dg n p (l # ls) as \<and>
        log_reads read check dg (n + int (length (l # ls))) (if as = [] then p else Some (dg (last as))) ms bs)" (is "?L \<longleftrightarrow> ?R")
    proof
      assume ?L
      then obtain as bs where "rs' = as @ bs" "log_reads read check dg (n + 1) (Some (dg r)) ls as"
        "log_reads read check dg (n + int (length (l # ls))) (if as = [] then Some (dg r) else Some (dg (last as))) ms bs"
        "read n l = Inr r" "check n p r = Inr ()" by blast
      then show ?R using rs by (intro exI [of _ "r # as"] exI [of _ bs]) auto
    next
      assume ?R
      then obtain as bs where "rs = as @ bs" "log_reads read check dg n p (l # ls) as"
        "log_reads read check dg (n + int (length (l # ls))) (if as = [] then p else Some (dg (last as))) ms bs" by blast
      moreover from this obtain xs where "as = r # xs" "rs' = xs @ bs" using rs by (cases as) auto
      ultimately show ?L by (intro conjI exI [of _ xs] exI [of _ bs]) auto
    qed
    moreover have "log_reads read check dg n p ((l # ls) @ ms) rs \<longleftrightarrow>
        log_reads read check dg (n + 1) (Some (dg r)) (ls @ ms) rs' \<and> read n l = Inr r \<and> check n p r = Inr ()" by (auto simp: rs)
    moreover have "(if as = [] then Some (dg r) else Some (dg (last as))) = Some (dg (last (r # as)))" for as by simp
    ultimately show ?thesis unfolding Cons.IH eq by blast
  qed
qed auto

lemma reads_unique: "log_reads read check dg n p ls rs \<Longrightarrow> log_reads read check dg n p ls ss \<Longrightarrow> rs = ss"
  by (induction ls arbitrary: n p rs ss) (auto split: list.splits)

lemma reserved_logs: "events_log \<in> set RESERVED_ARTIFACTS" "integrity_log \<in> set RESERVED_ARTIFACTS" "events_log \<noteq> integrity_log"
  by (simp_all add: events_log_def integrity_log_def RESERVED_ARTIFACTS_def)

lemma unsealed_not_reserved: "unsealed E r F p \<Longrightarrow> q \<in> set RESERVED_ARTIFACTS \<Longrightarrow> p \<noteq> q"
  by (auto simp: unsealed_def RESERVED_ARTIFACT_KEYS_def)

lemma step_extends:
  assumes "store_step E run_id F op F'" "lg \<in> {events_log, integrity_log}" "log_extends lg c l F"
  shows "log_extends lg c l F'"
proof -
  obtain d where d: "dict_get F lg = Some (RegularFile (c @ d) l)" using assms(3) by (auto simp: log_extends_def)
  have app: "log_extends lg c l F'" if "append_effect path F F'" for path
    using that d by (auto simp: append_effect_def log_extends_def dict_simps split: if_splits)
  from step_effect [OF assms(1)] consider "write_effect E run_id F F'" | path where "append_effect path F F'" by blast
  then show ?thesis
  proof cases
    case 1
    then consider "F' = F" | p G where "dirs_added F G" "unsealed E run_id F p" "F' = G \<or> (\<exists>c. F' = dict_set p (RegularFile c 1) G)"
      by (auto simp: write_effect_def)
    then show ?thesis
    proof cases
      case (2 p G)
      have "dict_get G lg = dict_get F lg" using 2(1) d by (auto simp: dirs_added_def dest: spec [of _ lg])
      moreover have "p \<noteq> lg" using unsealed_not_reserved [OF 2(2)] assms(2) reserved_logs by auto
      ultimately show ?thesis using 2(3) d by (auto simp: log_extends_def dict_simps)
    qed (use assms(3) in simp)
  qed (rule app)
qed

lemma sealed_stays:
  assumes "unsealed E run_id F q" "sealed_in E run_id c p" "log_extends integrity_log c 1 F"
  shows "q \<noteq> p"
proof -
  obtain d where d: "dict_get F integrity_log = Some (RegularFile (c @ d) 1)" using assms(3) by (auto simp: log_extends_def)
  obtain ss s a where s: "seals_read E run_id c ss" "s \<in> set ss" "a \<in> set (sl_artifacts s)" "sa_path a = p" "terminated c"
    using assms(2) by (auto simp: sealed_in_def)
  obtain ts where ts: "load_seals E (dict_get F integrity_log) run_id = Inr ts"
    "\<forall>s \<in> set ts. \<forall>a \<in> set (sl_artifacts s). canonical_path_key (se_paths E) q \<noteq> canonical_path_key (se_paths E) (sa_path a)"
    using assms(1) d by (auto simp: unsealed_def)
  have "seals_read E run_id (c @ d) ts" using ts(1) d by (auto simp: load_seals_iff log_content_def)
  then obtain us where "log_reads (read_seal E) (check_seal E run_id) sl_root_digest 1 None (jsonl_lines c) us" "set us \<subseteq> set ts"
    by (auto simp: seals_read_def lines_append [OF s(5)] reads_append)
  moreover have "us = ss" using calculation(1) s(1) by (auto simp: seals_read_def intro: reads_unique)
  ultimately have "s \<in> set ts" using s(2) by blast
  then show ?thesis using ts(2) s(3,4) by blast
qed

interpretation sealed: transition_invariant "store_step E run_id" "keeps_sealed E run_id c p n" for E run_id c p n
proof
  fix F e F' assume inv: "keeps_sealed E run_id c p n F" and step: "store_step E run_id F e F'"
  have log: "log_extends integrity_log c 1 F'" using step_extends [OF step] inv by (simp add: keeps_sealed_def)
  have p: "p \<noteq> events_log" "p \<noteq> integrity_log" using inv reserved_logs by (auto simp: keeps_sealed_def sealed_in_def)
  have get: "dict_get F p = Some n" using inv by (simp add: keeps_sealed_def)
  from step_effect [OF step] have "dict_get F' p = Some n"
  proof (elim disjE)
    assume "write_effect E run_id F F'"
    then consider "F' = F" | q G where "dirs_added F G" "unsealed E run_id F q" "F' = G \<or> (\<exists>c. F' = dict_set q (RegularFile c 1) G)"
      by (auto simp: write_effect_def)
    then show ?thesis
    proof cases
      case (2 q G)
      have "dict_get G p = Some n" using 2(1) get by (auto simp: dirs_added_def dest: spec [of _ p])
      moreover have "q \<noteq> p" using sealed_stays [OF 2(2)] inv unfolding keeps_sealed_def by blast
      ultimately show ?thesis using 2(3) by (auto simp: dict_simps)
    qed (use get in simp)
  qed (use get p in \<open>auto simp: append_effect_def dict_simps\<close>)
  then show "keeps_sealed E run_id c p n F'" using log inv by (simp add: keeps_sealed_def)
qed

interpretation growing: transition_invariant "store_step E run_id" "log_extends events_log c l" for E run_id c l
  by unfold_locales (auto intro: step_extends)

interpretation staying: transition_invariant "store_step E run_id" "\<lambda>F. dict_get F p \<noteq> None" for E run_id p
proof
  fix F e F' assume some: "dict_get F p \<noteq> None" and "store_step E run_id F e F'"
  from step_effect [OF this(2)] show "dict_get F' p \<noteq> None"
  proof (elim disjE)
    assume "write_effect E run_id F F'"
    then consider "F' = F" | q G where "dirs_added F G" "F' = G \<or> (\<exists>c. F' = dict_set q (RegularFile c 1) G)"
      by (auto simp: write_effect_def)
    then show ?thesis
    proof cases
      case (2 q G)
      have "dict_get G p \<noteq> None" using 2(1) some by (auto simp: dirs_added_def dest: spec [of _ p])
      then show ?thesis using 2(2) by (auto simp: dict_simps)
    qed (use some in simp)
  qed (use some in \<open>auto simp: append_effect_def dict_simps\<close>)
qed

lemma record_return_same: "call_in same_files (call_bind (record_path_identity E p) (\<lambda>_. call_return q))"
  by (intro unchanged.in_rules record_same)

lemma create_private_outcome:
  assumes "call_bind (prepare_destination_parent E p) (\<lambda>_. call_bind (atomic_create_private io p c) f) s = (r, t)"
    and "\<And>x. call_in same_files (f x)"
  shows "\<exists>G. dirs_added (rs_files s) G \<and> (rs_files t = G \<and> \<not> is_ok r \<or> dict_get G p = None \<and> rs_files t = dict_set p (RegularFile c 1) G)"
  using assms(1)
proof (rule call_bindE)
  fix e assume e: "prepare_destination_parent E p s = (Inl e, t)" "r = Inl e"
  have "dirs_added (rs_files s) (rs_files t)" using call_inD [OF prepare_grows] e(1) by (auto simp: prepare_destination_parent_def dirs_relation_def)
  then show ?thesis using e(2) by (auto simp: is_ok_def)
next
  fix x m assume m: "prepare_destination_parent E p s = (Inr x, m)" "call_bind (atomic_create_private io p c) f m = (r, t)"
  have grown: "dirs_added (rs_files s) (rs_files m)" using call_inD [OF prepare_grows] m(1) by (auto simp: prepare_destination_parent_def dirs_relation_def)
  from m(2) show ?thesis
  proof (rule call_bindE)
    fix e assume "r = Inl e" "atomic_create_private io p c m = (Inl e, t)"
    then show ?thesis using grown
      by (auto simp: atomic_create_private_def atomic_write_private_def Let_def is_ok_def split: if_splits install.splits)
  next
    fix y n assume n: "atomic_create_private io p c m = (Inr y, n)" "f y n = (r, t)"
    have "dict_get (rs_files m) p = None" "rs_files n = dict_set p (RegularFile c 1) (rs_files m)"
      using n(1) by (auto simp: atomic_create_private_def atomic_write_private_def Let_def split: if_splits install.splits)
    moreover have "rs_files t = rs_files n" using call_inD [OF assms(2) n(2)] by (simp add: same_files_def)
    ultimately show ?thesis using grown by auto
  qed
qed

lemma dirs_added_refl [simp]: "dirs_added F F"
  by (simp add: dirs_added_def)

lemma safe_destination_same: "safe_destination E p s = (Inr d, t) \<Longrightarrow> d = p"
  using validated_same by (auto simp: safe_destination_def call_lift_def result_bind_Inr elim!: call_bind_okE)

lemma json_create_only_outcome:
  assumes "store_write_json_create_only E io p v s = (r, t)"
  shows "\<exists>G. dirs_added (rs_files s) G \<and> (rs_files t = G \<and> \<not> is_ok r \<or>
    (\<exists>c. strict_json_bytes E v = Inr c \<and> dict_get G p = None \<and> rs_files t = dict_set p (RegularFile c 1) G))"
proof -
  have raised: ?thesis if "same_files s t" "r = Inl e" for e
    using that by (intro exI [of _ "rs_files s"]) (simp add: same_files_def is_ok_def)
  let ?body = "\<lambda>d. call_bind (call_lift (strict_json_bytes E v)) (\<lambda>c. call_bind (prepare_destination_parent E d) (\<lambda>_.
      call_bind (atomic_create_private io d c) (\<lambda>_. call_bind (record_path_identity E d) (\<lambda>_. call_return d))))"
  from mutation_outcome [OF assms [unfolded store_write_json_create_only_def write_artifact_def]] show ?thesis
  proof (elim disjE exE conjE)
    fix m assume m: "same_files s m" "call_bind (safe_destination E p) (\<lambda>d. call_bind (require_unsealed E d) (\<lambda>_. ?body d)) m = (r, t)"
    from m(2) show ?thesis
    proof (rule call_bindE)
      fix e assume "safe_destination E p m = (Inl e, t)" "r = Inl e"
      then show ?thesis using raised call_inD [OF destination_same] m(1) by (auto simp: same_files_def)
    next
      fix d m1 assume d: "safe_destination E p m = (Inr d, m1)" "call_bind (require_unsealed E d) (\<lambda>_. ?body d) m1 = (r, t)"
      have m1: "same_files m m1" using call_inD [OF destination_same d(1)] .
      from d(2) show ?thesis
      proof (rule call_bindE)
        fix e assume "require_unsealed E d m1 = (Inl e, t)" "r = Inl e"
        then show ?thesis using raised call_inD [OF unsealed_same] m(1) m1 by (auto simp: same_files_def)
      next
        fix x m2 assume x: "require_unsealed E d m1 = (Inr x, m2)" "?body d m2 = (r, t)"
        have m2: "same_files s m2" using checked_destination(1) [OF d(1) x(1)] m(1) by (auto simp: same_files_def)
        show ?thesis
        proof (cases "strict_json_bytes E v")
          case (Inl e)
          then have "r = Inl e" "t = m2" using x(2) by (simp_all add: call_bind_def call_lift_def)
          then show ?thesis using raised m2 by blast
        next
          case (Inr c)
          then have "call_bind (prepare_destination_parent E p) (\<lambda>_.
              call_bind (atomic_create_private io p c) (\<lambda>_. call_bind (record_path_identity E p) (\<lambda>_. call_return p))) m2 = (r, t)"
            using x(2) safe_destination_same [OF d(1)] by (simp add: call_bind_def [of "call_lift _"] call_lift_def)
          from create_private_outcome [OF this record_return_same] show ?thesis using m2 Inr by (auto simp: same_files_def)
        qed
      qed
    qed
  qed (use raised in blast)
qed

lemma json_create_only_returns:
  assumes "store_write_json_create_only E io p v s = (Inr q, t)"
  shows "dict_get (rs_files s) p = None \<and> (\<exists>c. strict_json_bytes E v = Inr c \<and> dict_get (rs_files t) p = Some (RegularFile c 1))"
proof -
  obtain G c where "dirs_added (rs_files s) G" "strict_json_bytes E v = Inr c" "dict_get G p = None" "rs_files t = dict_set p (RegularFile c 1) G"
    using json_create_only_outcome [OF assms] by (auto simp: is_ok_def)
  then show ?thesis by (auto simp: dirs_added_def dict_simps dest: spec [of _ p])
qed

end
