(* ===== verification/Run_Appends.thy ===== *)
theory Run_Appends
  imports Run_Histories
begin

text \<open>
  Appending to a log: what \<open>append_event\<close> returns is the next record of the chain. On a log that ends in a newline a
  record within the limits of the reader is then loaded after the old ones. What the store relies on of Pydantic is that
  it prints compact JSON and reads integers and datetimes; that such a line passes the strict reader is proved here.
\<close>

text \<open>What the store relies on of Pydantic: an integer reads as itself, a datetime of the record reads back
  from its text.\<close>

definition datetime_reads :: "store_env \<Rightarrow> py_datetime \<Rightarrow> bool" where
  "datetime_reads E d \<longleftrightarrow> se_datetime E (JvStr (se_iso E d)) = Some d"

definition ints_read :: "store_env \<Rightarrow> bool" where
  "ints_read E \<longleftrightarrow> (\<forall>n. se_int E (JvInt n) = Some n)"

text \<open>\<open>model_dump_json\<close> prints compact JSON, with \<open>fr\<close> for the floats.\<close>

definition compact_dump :: "store_env \<Rightarrow> (rat \<Rightarrow> ustr) \<Rightarrow> bool" where
  "compact_dump E fr \<longleftrightarrow> (\<forall>v. se_dump_json E v = json_dump fr v)"

text \<open>The JSON text of a record is one line within the limits of the strict reader, which gives the record back.\<close>

definition line_reads :: "store_env \<Rightarrow> int \<Rightarrow> jv \<Rightarrow> bool" where
  "line_reads E max_bytes v \<longleftrightarrow>
     (\<exists>b. utf8_encode (se_dump_json E v) = Some b \<and> 10 \<notin> set b \<and> \<not> blank_line b \<and>
        (\<forall>label. parse_strict_json_bytes (b @ [10]) label max_bytes 64 200000 = Inr v))"

definition record_line :: "store_env \<Rightarrow> jv \<Rightarrow> nat list" where
  "record_line E v = (case utf8_encode (se_dump_json E v @ [10]) of None \<Rightarrow> [] | Some b \<Rightarrow> b)"

text \<open>The limits of \<open>parse_strict_json_bytes\<close> on one line, as the loaders of the logs call it.\<close>

definition record_fits :: "store_env \<Rightarrow> int \<Rightarrow> jv \<Rightarrow> bool" where
  "record_fits E max_bytes v \<longleftrightarrow>
     int (length (record_line E v)) \<le> max_bytes \<and> jv_height v \<le> 64 \<and> jv_tokens v \<le> 200000"

text \<open>A directory whose event log is absent, with no events, or a file that loads as the events.\<close>

definition log_loads :: "store_env \<Rightarrow> ustr \<Rightarrow> run_files \<Rightarrow> stored_event list \<Rightarrow> bool" where
  "log_loads E run_id F es \<longleftrightarrow>
     (case dict_get F events_log of
        None \<Rightarrow> es = []
      | Some (RegularFile c l) \<Rightarrow> l = 1 \<and> load_events E (Some (RegularFile c 1)) (Some run_id) = Inr es
      | Some _ \<Rightarrow> False)"

definition log_bytes :: "ustr \<Rightarrow> run_files \<Rightarrow> nat list" where
  "log_bytes lg F = (case dict_get F lg of Some (RegularFile c _) \<Rightarrow> c | _ \<Rightarrow> [])"

text \<open>The log also ends in a newline, which the loader does not ask for.\<close>

definition log_good :: "store_env \<Rightarrow> ustr \<Rightarrow> run_files \<Rightarrow> stored_event list \<Rightarrow> bool" where
  "log_good E run_id F es \<longleftrightarrow> log_loads E run_id F es \<and> terminated (log_bytes events_log F)"

text \<open>The next record of \<open>v\<close> still fits in the log.\<close>

definition event_room :: "store_env \<Rightarrow> run_files \<Rightarrow> stored_event list \<Rightarrow> jv \<Rightarrow> bool" where
  "event_room E F es v \<longleftrightarrow>
     int (length (log_bytes events_log F)) + int (length (record_line E v)) \<le> MAX_EVENT_LOG_BYTES \<and>
     int (length es) < MAX_AUDIT_EVENT_RECORDS"

definition pinned_ok :: "store_io \<Rightarrow> run_store \<Rightarrow> bool" where
  "pinned_ok io s \<longleftrightarrow> rs_pinned s = None \<or> io_pinned io = rs_pinned s"

text \<open>The record that \<open>append_event\<close> makes after the events \<open>es\<close>, before its hash is known.\<close>

definition draft_event ::
  "store_io \<Rightarrow> ustr \<Rightarrow> stored_event list \<Rightarrow> ustr \<Rightarrow> (ustr \<times> jv) list option \<Rightarrow> py_datetime option \<Rightarrow> stored_event" where
  "draft_event io run_id es ty payload occurred_at =
     \<lparr>ae_event_id = u ''event_'' @ io_uuid io, ae_run_id = run_id, ae_sequence = int (length es) + 1, ae_event_type = ty,
      ae_occurred_at = (case occurred_at of None \<Rightarrow> io_now io | Some d \<Rightarrow> d), ae_payload = (case payload of None \<Rightarrow> [] | Some p \<Rightarrow> p),
      ae_previous_hash = (if es = [] then None else Some (ae_event_hash (last es))), ae_event_hash = replicate 64 48\<rparr>"

definition may_append :: "store_env \<Rightarrow> store_io \<Rightarrow> ustr \<Rightarrow> stored_event list \<Rightarrow> ustr \<Rightarrow> (ustr \<times> jv) list option \<Rightarrow> py_datetime option \<Rightarrow> ustr \<Rightarrow> bool" where
  "may_append E io run_id es ty payload at_time h \<longleftrightarrow>
     \<not> (ty \<in> set CAMPAIGN_TERMINAL_EVENTS \<and> (\<exists>e \<in> set es. is_terminal e)) \<and>
     valid_event (draft_event io run_id es ty payload at_time) \<and> computed_hash E (draft_event io run_id es ty payload at_time) = Inr h"

text \<open>The directory after the record \<open>v\<close> has been appended to a log.\<close>

definition with_record :: "store_env \<Rightarrow> ustr \<Rightarrow> jv \<Rightarrow> run_files \<Rightarrow> run_files" where
  "with_record E lg v F = dict_set lg (RegularFile (log_bytes lg F @ record_line E v) 1) F"

text \<open>The disk takes the whole line of a record.\<close>

definition line_written :: "store_env \<Rightarrow> store_io \<Rightarrow> jv \<Rightarrow> bool" where
  "line_written E io v \<longleftrightarrow>
     (\<exists>b. utf8_encode (se_dump_json E v @ [10]) = Some b \<and> snd (write_loop (io_writes io) b)) \<and> \<not> io_open_fails io \<and> \<not> io_sync_fails io"

section \<open>Records read back\<close>

lemma join_commas_set: "set (join_commas xs) \<subseteq> {44} \<union> (\<Union>x \<in> set xs. set x)"
  by (induction xs rule: join_commas.induct) auto

lemma string_no_newline: "10 \<notin> set (json_string s)"
proof -
  have "hex_lower n \<noteq> 10" for n by (simp add: hex_lower_def)
  then have "10 \<notin> set (json_escape c)" for c by (simp add: json_escape_def)
  then show ?thesis by (simp add: json_string_def)
qed

lemma dump_no_newline: "exact_value fr v \<Longrightarrow> 10 \<notin> set (json_dump fr v)"
proof (induction v)
  case (JvInt i)
  then show ?case using json_int_word [of 10 i] by (simp add: word_end_def uni_space_def) blast
next
  case (JvFloat x)
  then have "\<forall>c \<in> set (fr x). \<not> word_end c" by (simp add: exact_value_def exact_leaf_def float_reads_def)
  moreover have "word_end 10" by (simp add: word_end_def uni_space_def)
  ultimately show ?case by auto
next
  case (JvList vs)
  then show ?case using join_commas_set [of "map (json_dump fr) vs"] by (auto simp: exact_value_simps list_all_iff)
next
  case (JvObj kvs)
  have "10 \<notin> set (dump_member fr kv)" if "kv \<in> set kvs" for kv
    using JvObj that string_no_newline by (cases kv) (auto simp: dump_member_def exact_value_simps snds.simps list_all_iff)
  then show ?case using join_commas_set [of "map (dump_member fr) kvs"] unfolding json_dump_obj by auto
qed (use string_no_newline in \<open>auto simp: u_def\<close>)

lemma utf8_no_newline: "utf8_encode s = Some b \<Longrightarrow> 10 \<notin> set s \<Longrightarrow> 10 \<notin> set b"
  by (induction s arbitrary: b) (auto simp: utf8_char_def split: option.splits if_splits)

lemma dump_line_loads:
  assumes "exact_value fr v" "distinct_keys v" "r = [] \<or> r = [10]"
  shows "json_loads (json_dump fr v @ r) = Some v"
proof -
  let ?s = "json_dump fr v @ r"
  have "skip_ws ?s = ?s" by (rule skip_ws_dump [OF assms(1)])
  moreover have "scan_value (2 * length ?s + 1) ?s = Scanned v r"
    by (rule scan_value_read [OF assms(1,2), unfolded reads_back_def, rule_format]) (use assms(3) in \<open>auto simp: json_delim_def\<close>)
  moreover have "hd ?s \<noteq> 0xFEFF" using dump_first_ascii [OF assms(1)] dump_first [OF assms(1)] by (cases "json_dump fr v") auto
  ultimately show ?thesis using assms(3) by (auto simp: json_loads_def skip_ws_def json_ws_def)
qed

text \<open>The text of a value within the limits passes the strict reader, with its newline or without.\<close>

lemma dump_parses:
  assumes "exact_value fr v" "distinct_keys v" "utf8_encode (json_dump fr v) = Some b" "json_dumpable v"
    and "int (length b) < max_bytes" "jv_height v \<le> 64" "jv_tokens v \<le> 200000" and r: "r = [] \<or> r = [10]"
  shows "parse_strict_json_bytes (b @ r) label max_bytes 64 200000 = Inr v"
proof -
  let ?s = "json_dump fr v @ r"
  have dec: "utf8_decode (b @ r) = Some ?s"
    by (rule utf8_decode_encode) (use r assms(3) in \<open>auto simp: utf8_encode_append utf8_char_def\<close>)
  have "preflight label 64 200000 [] 0 ?s = preflight label 64 200000 [] (0 + int (jv_tokens v)) r"
    by (rule value_passes [OF assms(1), unfolded passes_def, rule_format]) (use assms(6,7) r in \<open>auto simp: json_delim_def\<close>)
  then have pre: "preflight label 64 200000 [] 0 ?s = Inr ()" using r by (auto simp: uni_space_def)
  have "decoded_loop label 64 200000 [(v, 0)] 0 = Inr ()"
    using decoded_loop_Inr [of 0 200000 label 64 "[(v, 0)]"] jv_size_le_tokens [of v] assms(4,6,7) by simp
  then show ?thesis
    using assms(5) r by (auto simp: parse_strict_json_bytes_def validate_json_limits_def dec pre dump_line_loads [OF assms(1,2) r])
qed

lemma dump_not_blank: "exact_value fr v \<Longrightarrow> utf8_encode (json_dump fr v) = Some b \<Longrightarrow> b \<noteq> [] \<and> \<not> blank_line b"
proof -
  assume v: "exact_value fr v" "utf8_encode (json_dump fr v) = Some b"
  have "b \<noteq> [] \<and> hd b = hd (json_dump fr v)"
    using dump_first [OF v(1)] dump_first_ascii [OF v(1)] v(2) by (cases "json_dump fr v") (auto simp: utf8_char_def split: option.splits)
  then show ?thesis using dump_first [OF v(1)] by (cases b) (auto simp: blank_line_def uni_space_def)
qed

lemma compact_line_reads:
  assumes "compact_dump E fr" "exact_value fr v" "distinct_keys v" "utf8_encode (json_dump fr v) = Some b" "json_dumpable v"
    and "int (length b) < max_bytes" "jv_height v \<le> 64" "jv_tokens v \<le> 200000"
  shows "line_reads E max_bytes v"
  using dump_parses [OF assms(2-8), of "[10]"] dump_not_blank [OF assms(2,4)] utf8_no_newline [OF assms(4) dump_no_newline [OF assms(2)]] assms(1,4)
  by (auto simp: line_reads_def compact_dump_def)

lemma hash_pattern_digest [simp]: "hash_pattern (u (sha256_hex m))"
proof -
  have "is_hex_lower c \<Longrightarrow> 48 \<le> (of_char c :: nat) \<and> (of_char c :: nat) \<le> 57 \<or> 97 \<le> (of_char c :: nat) \<and> (of_char c :: nat) \<le> 102" for c
    by (auto simp: is_hex_lower_def)
  then show ?thesis using sha256_hex_shape [of m] by (auto simp: is_sha256_hex_def hash_pattern_def u_def list_all_iff)
qed

lemma hash_pattern_encodes: "hash_pattern s \<Longrightarrow> utf8_encode s = Some s"
  by (rule utf8_encode_ascii) (auto simp: hash_pattern_def is_ascii_def list_all_iff)

lemma digest_pattern: "canonical_digest E v = Inr h \<Longrightarrow> hash_pattern h"
  by (auto simp: canonical_digest_Inr)

lemma validate_event_json:
  assumes "valid_event e" "hash_pattern (ae_event_hash e)" "ints_read E" "datetime_reads E (ae_occurred_at e)"
  shows "validate_event E (event_json E e) = Some e"
proof -
  obtain i where i: "utf8_encode (ae_event_id e) = Some i" using assms(1) by (auto simp: valid_event_def)
  obtain r where r: "utf8_encode (ae_run_id e) = Some r" using assms(1) by (auto simp: valid_event_def)
  obtain ty where ty: "utf8_encode (ae_event_type e) = Some ty" using assms(1) by (auto simp: valid_event_def)
  have prev: "optional_hash_field (event_material E e @ [(u ''event_hash'', JvStr (ae_event_hash e))]) ''previous_hash'' = Some (ae_previous_hash e)"
    using assms(1) by (auto simp: optional_hash_field_def event_material_def jv_optional_def hash_field_def text_field_def
        valid_event_def hash_pattern_encodes split: option.splits)
  have payload: "payload_field (event_material E e @ [(u ''event_hash'', JvStr (ae_event_hash e))]) ''payload'' = Some (ae_payload e)"
    using assms(1) by (simp add: payload_field_def event_material_def valid_event_def)
  have known: "known_fields [''event_id'', ''run_id'', ''sequence'', ''event_type'', ''occurred_at'', ''payload'', ''previous_hash'',
      ''event_hash''] (event_material E e @ [(u ''event_hash'', JvStr (ae_event_hash e))])"
    by (simp add: known_fields_def event_material_def)
  show ?thesis
    unfolding validate_event_def event_json_def jv.case
    using assms(1,3,4) known prev payload
    by (simp add: text_field_or_def text_field_def int_field_def aware_field_or_def hash_field_def event_material_def
        i r ty hash_pattern_encodes [OF assms(2)] assms(2) ints_read_def datetime_reads_def valid_event_def)
qed

lemma record_line_reads:
  assumes "line_reads E m v"
  obtains b where "record_line E v = b @ [10]" "utf8_encode (se_dump_json E v @ [10]) = Some (b @ [10])" "10 \<notin> set b" "\<not> blank_line (b @ [10])"
    "\<And>label. parse_strict_json_bytes (b @ [10]) label m 64 200000 = Inr v" "jsonl_lines (b @ [10]) = [b @ [10]]"
proof -
  obtain b where b: "utf8_encode (se_dump_json E v) = Some b" "10 \<notin> set b" "\<not> blank_line b"
    "\<And>label. parse_strict_json_bytes (b @ [10]) label m 64 200000 = Inr v" using assms by (auto simp: line_reads_def)
  have enc: "utf8_encode (se_dump_json E v @ [10]) = Some (b @ [10])"
    by (simp add: utf8_encode_append b(1) utf8_char_def)
  then show thesis using that [of b] b by (simp add: record_line_def blank_line_def jsonl_lines_line)
qed

lemma read_event_line:
  assumes "line_reads E MAX_AUDIT_EVENT_RECORD_BYTES (event_json E e)" "validate_event E (event_json E e) = Some e"
  shows "read_event E n (record_line E (event_json E e)) = Inr e"
proof -
  obtain b where b: "record_line E (event_json E e) = b @ [10]" "\<not> blank_line (b @ [10])"
    "\<And>label. parse_strict_json_bytes (b @ [10]) label MAX_AUDIT_EVENT_RECORD_BYTES 64 200000 = Inr (event_json E e)"
    using record_line_reads [OF assms(1)] by blast
  then show ?thesis using assms(2) by (simp add: read_event_def read_record_def)
qed

section \<open>Appending to a log\<close>

lemma write_loop_done: "write_loop ws bs = (w, True) \<Longrightarrow> w = bs"
proof (induction ws bs arbitrary: w rule: write_loop.induct)
  case (3 v ws b bs)
  then show ?case by (auto split: if_splits prod.splits)
qed auto

lemma append_private_line_returns:
  assumes "append_private_line io lg line s = (Inr x, t)" "dict_get (rs_files s) lg = None \<or> (\<exists>c l. dict_get (rs_files s) lg = Some (RegularFile c l))"
  shows "\<exists>b. utf8_encode line = Some b \<and>
    t = s\<lparr>rs_files := dict_set lg (RegularFile (log_bytes lg (rs_files s) @ b) (case dict_get (rs_files s) lg of Some n \<Rightarrow> node_links n | None \<Rightarrow> 1)) (rs_files s)\<rparr>"
proof -
  obtain b w d where b: "utf8_encode line = Some b" and w: "write_loop (io_writes io) b = (w, d)"
    using assms(1) by (cases "utf8_encode line"; cases "write_loop (io_writes io) (the (utf8_encode line))") (auto simp: append_private_line_def)
  have "d" using assms b w by (auto simp: append_private_line_def Let_def split: if_splits option.splits)
  then have "w = b" using write_loop_done w by simp
  then show ?thesis using assms b w by (auto simp: append_private_line_def Let_def log_bytes_def split: if_splits option.splits)
qed

lemma record_appended:
  assumes "terminated c" "jsonl_lines l = [l]" "lines_fit mf mr mn (jsonl_lines c)" "log_reads read check dg 1 None (jsonl_lines c) rs"
    "int (length l) \<le> mr" "int (length c) + int (length l) \<le> mf" "int (length rs) < mn"
    "read (1 + int (length rs)) l = Inr r" "check (1 + int (length rs)) (if rs = [] then None else Some (dg (last rs))) r = Inr ()"
  shows "lines_fit mf mr mn (jsonl_lines (c @ l)) \<and> log_reads read check dg 1 None (jsonl_lines (c @ l)) (rs @ [r])"
proof -
  have lines: "jsonl_lines (c @ l) = jsonl_lines c @ [l]" using lines_append [OF assms(1), of l] assms(2) by simp
  have len: "length (jsonl_lines c) = length rs" using reads_length [OF assms(4)] by simp
  have "log_reads read check dg (1 + int (length (jsonl_lines c))) (if rs = [] then None else Some (dg (last rs))) [l] [r]"
    using assms(8,9) by (simp add: len)
  then have "log_reads read check dg 1 None (jsonl_lines (c @ l)) (rs @ [r])" using assms(4) unfolding lines reads_append by blast
  moreover have "lines_fit mf mr mn (jsonl_lines (c @ l))"
    using assms(3,5-7) len unfolding lines_fit_def lines by auto
  ultimately show ?thesis by blast
qed

lemma record_line_length: "line_reads E m v \<Longrightarrow> int (length (record_line E v)) \<le> m \<and> jsonl_lines (record_line E v) = [record_line E v]"
proof (elim record_line_reads)
  fix b assume b: "record_line E v = b @ [10]" "\<And>label. parse_strict_json_bytes (b @ [10]) label m 64 200000 = Inr v"
    "jsonl_lines (b @ [10]) = [b @ [10]]"
  have "int (length (b @ [10])) \<le> m"
    using b(2) [of "[]"] by (auto simp: parse_strict_json_bytes_def split: sum.splits if_splits)
  then show ?thesis using b(1,3) by simp
qed

text \<open>A checked record at the end of a complete log is loaded after the others.\<close>

lemma load_appended_event:
  assumes good: "log_good E run_id F es" and line: "line_reads E MAX_AUDIT_EVENT_RECORD_BYTES (event_json E e)"
    and valid: "validate_event E (event_json E e) = Some e"
    and check: "check_event E run_id (int (length es) + 1) (if es = [] then None else Some (ae_event_hash (last es))) e = Inr ()"
    and once: "length (filter is_terminal (es @ [e])) \<le> 1" and room: "event_room E F es (event_json E e)"
  shows "load_events E (Some (RegularFile (log_bytes events_log F @ record_line E (event_json E e)) 1)) (Some run_id) = Inr (es @ [e])"
proof -
  let ?c = "log_bytes events_log F" and ?l = "record_line E (event_json E e)"
  note l = record_line_length [OF line]
  have c: "terminated ?c" "event_fit ?c" "events_read E run_id ?c es"
    using good by (auto simp: log_good_def log_loads_def log_bytes_def terminated_def load_events_iff log_content_def event_fit_def lines_fit_def events_read_def
        MAX_EVENT_LOG_BYTES_def MAX_AUDIT_EVENT_RECORDS_def split: option.splits run_node.splits)
  have "event_fit (?c @ ?l) \<and> events_read E run_id (?c @ ?l) (es @ [e])"
    unfolding event_fit_def events_read_def
    by (rule record_appended)
      (use c l room check read_event_line [OF line valid] in \<open>simp_all add: event_fit_def events_read_def event_room_def add.commute\<close>)
  then show ?thesis using once by (auto simp: load_events_iff log_content_def)
qed

lemma rebase_good:
  assumes "log_loads E (rs_run_id s) (rs_files s) es"
  shows "rebase_mutation_state E s = (Inr (), s\<lparr>rs_path_identities := None, rs_event_count := Some (int (length es)),
    rs_event_head_hash := (if es = [] then None else Some (ae_event_hash (last es))),
    rs_campaign_terminal_event := map_option ae_event_type (List.find is_terminal es)\<rparr>)"
proof (cases "dict_get (rs_files s) events_log")
  case None
  then show ?thesis using assms by (simp add: log_loads_def rebase_mutation_state_def rebase_event_state_def Let_def)
next
  case (Some n)
  then obtain c where n: "n = RegularFile c 1" "load_events E (Some (RegularFile c 1)) (Some (rs_run_id s)) = Inr es"
    using assms by (auto simp: log_loads_def split: run_node.splits)
  moreover have "es \<noteq> []" using n(2) by (simp add: load_events_iff)
  ultimately show ?thesis using Some by (simp add: rebase_mutation_state_def rebase_event_state_def Let_def)
qed

lemma mutation_good:
  assumes "log_loads E (rs_run_id s) (rs_files s) es"
  shows "mutation E io body s =
    (if pinned_ok io s then body (s\<lparr>rs_path_identities := None, rs_event_count := Some (int (length es)),
      rs_event_head_hash := (if es = [] then None else Some (ae_event_hash (last es))),
      rs_campaign_terminal_event := map_option ae_event_type (List.find is_terminal es)\<rparr>)
     else (Inl (RunIntegrityError ''RunStore is outside its pinned workspace context''), s))"
  by (auto simp: mutation_def call_bind_def require_pinned_workspace_def pinned_ok_def rebase_good [OF assms])

lemma computed_hash_update [simp]: "computed_hash E (e\<lparr>ae_event_hash := h\<rparr>) = computed_hash E e"
  by (simp add: computed_hash_def event_material_def)

lemma find_None_iff: "List.find P xs = None \<longleftrightarrow> (\<forall>x \<in> set xs. \<not> P x)"
  by (induction xs) auto

lemma append_locked_good:
  fixes s es
  defines "m \<equiv> s\<lparr>rs_path_identities := None, rs_event_count := Some (int (length es)),
      rs_event_head_hash := (if es = [] then None else Some (ae_event_hash (last es))),
      rs_campaign_terminal_event := map_option ae_event_type (List.find is_terminal es)\<rparr>"
  assumes "append_event_locked E io ty payload at_time m = (Inr e, t)"
  shows "\<exists>h. may_append E io (rs_run_id s) es ty payload at_time h \<and> e = (draft_event io (rs_run_id s) es ty payload at_time)\<lparr>ae_event_hash := h\<rparr> \<and>
    (\<exists>t'. append_private_line io events_log (se_dump_json E (event_json E e) @ [10]) m = (Inr (), t') \<and> rs_files t = rs_files t' \<and> rs_run_id t = rs_run_id t')"
  using assms(2) unfolding append_event_locked_def m_def new_event_def
  by (auto simp: may_append_def draft_event_def Let_def find_None_iff split: if_splits sum.splits elim!: call_bind_okE)

lemma may_append_event:
  assumes "may_append E io run_id es ty payload at_time h" "e = (draft_event io run_id es ty payload at_time)\<lparr>ae_event_hash := h\<rparr>"
  shows "valid_event e" "hash_pattern (ae_event_hash e)"
    "check_event E run_id (int (length es) + 1) (if es = [] then None else Some (ae_event_hash (last es))) e = Inr ()"
    "length (filter is_terminal es) \<le> 1 \<Longrightarrow> length (filter is_terminal (es @ [e])) \<le> 1"
proof -
  have h: "computed_hash E e = Inr h" "ae_event_hash e = h" using assms by (simp_all add: may_append_def)
  show "valid_event e" using assms by (simp add: may_append_def valid_event_def)
  show "hash_pattern (ae_event_hash e)" using h by (auto simp: computed_hash_def intro: digest_pattern)
  show "check_event E run_id (int (length es) + 1) (if es = [] then None else Some (ae_event_hash (last es))) e = Inr ()"
    using h by (simp add: check_event_ok assms(2) draft_event_def)
  show "length (filter is_terminal (es @ [e])) \<le> 1" if "length (filter is_terminal es) \<le> 1"
    using assms that by (auto simp: may_append_def is_terminal_def draft_event_def filter_empty_conv)
qed

lemma log_good_loads: "log_good E r F es \<Longrightarrow> log_loads E r F es"
  by (simp add: log_good_def)

lemma log_terminal: "log_loads E r F es \<Longrightarrow> length (filter is_terminal es) \<le> 1"
  by (auto simp: log_loads_def load_events_iff split: option.splits run_node.splits)

lemma log_length: "log_loads E r F es \<Longrightarrow> int (length es) \<le> MAX_AUDIT_EVENT_RECORDS"
  using loaded_events(4) by (fastforce simp: log_loads_def MAX_AUDIT_EVENT_RECORDS_def split: option.splits run_node.splits)

lemma record_line_terminated: "line_reads E m v \<Longrightarrow> terminated (c @ record_line E v) \<and> record_line E v \<noteq> []"
  by (elim record_line_reads) (simp add: terminated_def)

lemma log_good_appended:
  assumes good: "log_good E run_id F es" and may: "may_append E io run_id es ty payload at_time h"
    and e: "e = (draft_event io run_id es ty payload at_time)\<lparr>ae_event_hash := h\<rparr>"
    and codec: "ints_read E" "datetime_reads E (ae_occurred_at e)" and line: "line_reads E MAX_AUDIT_EVENT_RECORD_BYTES (event_json E e)"
    and room: "event_room E F es (event_json E e)"
  shows "log_good E run_id (with_record E events_log (event_json E e) F) (es @ [e])"
proof -
  note m = may_append_event [OF may e]
  note log = log_good_loads [OF good]
  have "validate_event E (event_json E e) = Some e" by (rule validate_event_json [OF m(1,2) codec])
  then have "load_events E (Some (RegularFile (log_bytes events_log F @ record_line E (event_json E e)) 1)) (Some run_id) = Inr (es @ [e])"
    by (rule load_appended_event [OF good line _ m(3) m(4) [OF log_terminal [OF log]] room])
  then show ?thesis using record_line_terminated [OF line]
    by (simp add: log_good_def log_loads_def log_bytes_def with_record_def dict_simps)
qed

lemma log_node:
  assumes "log_loads E run_id F es"
  shows "dict_get F events_log = None \<or> (\<exists>c. dict_get F events_log = Some (RegularFile c 1))"
    "(case dict_get F events_log of Some n \<Rightarrow> node_links n | None \<Rightarrow> 1) = 1"
  using assms by (auto simp: log_loads_def split: option.splits run_node.splits)

lemma append_locked_outcome:
  fixes s es
  defines "m \<equiv> s\<lparr>rs_path_identities := None, rs_event_count := Some (int (length es)),
      rs_event_head_hash := (if es = [] then None else Some (ae_event_hash (last es))),
      rs_campaign_terminal_event := map_option ae_event_type (List.find is_terminal es)\<rparr>"
  assumes good: "log_loads E (rs_run_id s) (rs_files s) es" and run: "append_event_locked E io ty payload at_time m = (Inr e, t)"
  shows "\<exists>h. may_append E io (rs_run_id s) es ty payload at_time h \<and> e = (draft_event io (rs_run_id s) es ty payload at_time)\<lparr>ae_event_hash := h\<rparr> \<and>
    rs_files t = with_record E events_log (event_json E e) (rs_files s) \<and> rs_run_id t = rs_run_id s \<and>
    (\<exists>b. utf8_encode (se_dump_json E (event_json E e) @ [10]) = Some b)"
proof -
  obtain h t' where h: "may_append E io (rs_run_id s) es ty payload at_time h"
    "e = (draft_event io (rs_run_id s) es ty payload at_time)\<lparr>ae_event_hash := h\<rparr>"
    "append_private_line io events_log (se_dump_json E (event_json E e) @ [10]) m = (Inr (), t')" "rs_files t = rs_files t'" "rs_run_id t = rs_run_id t'"
    using append_locked_good [OF run [unfolded m_def]] unfolding m_def by blast
  have files: "rs_files m = rs_files s" "rs_run_id m = rs_run_id s" by (simp_all add: m_def)
  have "dict_get (rs_files m) events_log = None \<or> (\<exists>c l. dict_get (rs_files m) events_log = Some (RegularFile c l))"
    using log_node(1) [OF good] by (auto simp: files)
  from append_private_line_returns [OF h(3) this] obtain b where b: "utf8_encode (se_dump_json E (event_json E e) @ [10]) = Some b"
    "t' = m\<lparr>rs_files := dict_set events_log (RegularFile (log_bytes events_log (rs_files m) @ b)
       (case dict_get (rs_files m) events_log of Some n \<Rightarrow> node_links n | None \<Rightarrow> 1)) (rs_files m)\<rparr>" by blast
  have "rs_files t' = with_record E events_log (event_json E e) (rs_files s)" "rs_run_id t' = rs_run_id s"
    using b log_node(2) [OF good] by (simp_all add: files with_record_def record_line_def)
  then show ?thesis using h(1,2,4,5) b(1) by auto
qed

lemma returned_appendE:
  assumes "log_loads E (rs_run_id s) (rs_files s) es" "store_append_event E io ty payload at_time s = (Inr e, t)"
  obtains h b where "may_append E io (rs_run_id s) es ty payload at_time h"
    "e = (draft_event io (rs_run_id s) es ty payload at_time)\<lparr>ae_event_hash := h\<rparr>"
    "rs_files t = with_record E events_log (event_json E e) (rs_files s)" "pinned_ok io s"
    "utf8_encode (se_dump_json E (event_json E e) @ [10]) = Some b"
proof -
  have pin: "pinned_ok io s" using assms(2) unfolding store_append_event_def mutation_good [OF assms(1)] by (simp split: if_splits)
  note run = assms(2) [unfolded store_append_event_def mutation_good [OF assms(1)] if_P [OF pin]]
  show thesis using append_locked_outcome [OF assms(1) run] that pin by blast
qed

lemma append_private_line_completes:
  assumes "line_written E io v" "dict_get (rs_files s) lg = None \<or> (\<exists>c. dict_get (rs_files s) lg = Some (RegularFile c 1))"
  shows "append_private_line io lg (se_dump_json E v @ [10]) s = (Inr (), s\<lparr>rs_files := with_record E lg v (rs_files s)\<rparr>)"
proof -
  obtain b where b: "utf8_encode (se_dump_json E v @ [10]) = Some b" "snd (write_loop (io_writes io) b)" "\<not> io_sync_fails io" "\<not> io_open_fails io"
    using assms(1) by (auto simp: line_written_def)
  then have "write_loop (io_writes io) b = (b, True)" using write_loop_done by (metis prod.collapse)
  then show ?thesis using assms(2) b
    by (auto simp: append_private_line_def with_record_def record_line_def log_bytes_def)
qed

lemma append_event_succeeds:
  assumes good: "log_loads E (rs_run_id s) (rs_files s) es" and pin: "pinned_ok io s"
    and may: "may_append E io (rs_run_id s) es ty payload at_time h"
    and e: "e = (draft_event io (rs_run_id s) es ty payload at_time)\<lparr>ae_event_hash := h\<rparr>"
    and written: "line_written E io (event_json E e)"
  shows "\<exists>t. store_append_event E io ty payload at_time s = (Inr e, t) \<and> rs_run_id t = rs_run_id s \<and> rs_pinned t = rs_pinned s \<and>
    rs_files t = with_record E events_log (event_json E e) (rs_files s)"
proof -
  define m where "m = s\<lparr>rs_path_identities := None, rs_event_count := Some (int (length es)),
      rs_event_head_hash := (if es = [] then None else Some (ae_event_hash (last es))),
      rs_campaign_terminal_event := map_option ae_event_type (List.find is_terminal es)\<rparr>"
  have line: "append_private_line io events_log (se_dump_json E (event_json E e) @ [10]) m =
      (Inr (), m\<lparr>rs_files := with_record E events_log (event_json E e) (rs_files s)\<rparr>)"
    using append_private_line_completes [OF written, of m events_log] log_node(1) [OF good] by (simp add: m_def)
  define d where "d = draft_event io (rs_run_id s) es ty payload at_time"
  have new: "new_event io m (int (length es) + 1) ty (case payload of None \<Rightarrow> [] | Some p \<Rightarrow> p) at_time = d"
    by (simp add: new_event_def draft_event_def m_def d_def)
  have d: "valid_event d" "computed_hash E d = Inr h" "d\<lparr>ae_event_hash := h\<rparr> = e" using may e by (simp_all add: may_append_def d_def)
  have m: "rs_event_count m = Some (int (length es))" "\<not> (ty \<in> set CAMPAIGN_TERMINAL_EVENTS \<and> rs_campaign_terminal_event m \<noteq> None)"
    using may by (auto simp: m_def may_append_def find_None_iff)
  have "append_event_locked E io ty payload at_time m = (Inr e, m\<lparr>rs_files := with_record E events_log (event_json E e) (rs_files s),
      rs_event_count := Some (int (length es) + 1), rs_event_head_hash := Some h,
      rs_campaign_terminal_event := (if ty \<in> set CAMPAIGN_TERMINAL_EVENTS then Some ty else rs_campaign_terminal_event m)\<rparr>)"
    unfolding append_event_locked_def m(1) option.case Let_def if_not_P [OF m(2)] new using d line by (simp add: call_bind_def)
  then show ?thesis unfolding store_append_event_def mutation_good [OF good] m_def [symmetric] using pin by (simp add: m_def)
qed

lemma compact_record_reads:
  assumes "compact_dump E fr" "exact_value fr v" "distinct_keys v" "json_dumpable v" "utf8_encode (se_dump_json E v @ [10]) = Some b"
    and "record_fits E m v"
  shows "line_reads E m v"
proof -
  obtain a where a: "utf8_encode (json_dump fr v) = Some a" "b = a @ [10]"
    using assms(1,5) by (auto simp: compact_dump_def utf8_encode_append utf8_char_def split: option.splits)
  then have "record_line E v = a @ [10]" using assms(5) by (simp add: record_line_def)
  then show ?thesis using assms(6) by (intro compact_line_reads [OF assms(1-3) a(1) assms(4)]) (simp_all add: record_fits_def)
qed

lemma event_json_exact:
  "exact_value fr (JvObj (ae_payload e)) \<Longrightarrow> \<bar>ae_sequence e\<bar> \<le> 2 ^ 63 \<Longrightarrow> exact_value fr (event_json E e)"
  using event_material_exact [of fr e E] by (simp add: event_json_def exact_value_simps)

lemma event_json_distinct: "distinct_keys (JvObj (ae_payload e)) \<Longrightarrow> distinct_keys (event_json E e)"
  using event_material_distinct [of e E] by (auto simp: event_json_def event_material_def)

lemma hashed_event_dumpable: "computed_hash E e = Inr h \<Longrightarrow> json_dumpable (event_json E e)"
  by (auto simp: computed_hash_def canonical_digest_def event_json_def dumpable_obj split: if_splits)

lemma appended_event_reads:
  assumes "may_append E io run_id es ty payload at_time h" "e = (draft_event io run_id es ty payload at_time)\<lparr>ae_event_hash := h\<rparr>"
    and "compact_dump E fr" "exact_value fr (JvObj (ae_payload e))" "distinct_keys (JvObj (ae_payload e))"
    and "utf8_encode (se_dump_json E (event_json E e) @ [10]) = Some b"
    and "record_fits E MAX_AUDIT_EVENT_RECORD_BYTES (event_json E e)" "event_room E F es (event_json E e)"
  shows "line_reads E MAX_AUDIT_EVENT_RECORD_BYTES (event_json E e)"
proof -
  have "\<bar>ae_sequence e\<bar> \<le> 2 ^ 63" using assms(8) by (simp add: assms(2) draft_event_def event_room_def MAX_AUDIT_EVENT_RECORDS_def)
  moreover have "computed_hash E e = Inr h" using assms(1) by (simp add: assms(2) may_append_def)
  ultimately show ?thesis
    using compact_record_reads [OF assms(3) event_json_exact [OF assms(4)] event_json_distinct [OF assms(5)] hashed_event_dumpable assms(6,7)] by blast
qed

end
