(* ===== verification/Run_Sealing.thy ===== *)
theory Run_Sealing
  imports Run_Appends
begin

text \<open>
  Sealing: a seal that is returned makes the Run verify, with the root digest of the seal. The new artifacts pass every
  check of the verification, and the earlier seals pass as before.
\<close>

abbreviation path_key :: "store_env \<Rightarrow> ustr \<Rightarrow> ustr" where
  "path_key E p \<equiv> canonical_path_key (se_paths E) p"

definition keyed_paths :: "store_env \<Rightarrow> ustr list \<Rightarrow> (ustr, ustr) dict \<Rightarrow> bool" where
  "keyed_paths E ps d \<longleftrightarrow>
     (\<forall>p \<in> set ps. validated_relative_artifact_path (se_paths E) p = Inr p \<and> path_key E p \<notin> set (RESERVED_ARTIFACT_KEYS (se_paths E)) \<and>
        dict_get d (path_key E p) = Some p)"

definition by_key :: "store_env \<Rightarrow> ustr list \<Rightarrow> (ustr, ustr) dict" where
  "by_key E ps = fold (\<lambda>relative d. dict_set (path_key E relative) relative d) ps []"

definition sealed_keyed :: "store_env \<Rightarrow> sealed_index \<Rightarrow> bool" where
  "sealed_keyed E sealed \<longleftrightarrow> (\<forall>k q. dict_get (snd sealed) k = Some q \<longrightarrow> k = path_key E q \<and> q \<in> set (fst sealed))"

definition valid_provenance :: "artifact_provenance \<Rightarrow> bool" where
  "valid_provenance p \<longleftrightarrow> encodable (ap_request_id p) \<and> encodable (ap_tool_id p) \<and> encodable (ap_execution_id p) \<and>
     list_all (\<lambda>s. encodable (Some s)) (ap_event_ids p)"

definition valid_artifact :: "sealed_artifact \<Rightarrow> bool" where
  "valid_artifact a \<longleftrightarrow> encodable (Some (sa_path a)) \<and> hash_pattern (sa_sha256 a) \<and> 0 \<le> sa_size_bytes a \<and>
     encodable (Some (sa_media_type a)) \<and> (case sa_provenance a of None \<Rightarrow> True | Some p \<Rightarrow> valid_provenance p)"

definition valid_seal :: "run_seal \<Rightarrow> bool" where
  "valid_seal s \<longleftrightarrow> encodable (Some (sl_api_version s)) \<and> encodable (Some (sl_seal_id s)) \<and> encodable (Some (sl_run_id s)) \<and>
     1 \<le> sl_sequence s \<and> is_aware (sl_sealed_at s) \<and>
     (case sl_previous_root_digest s of None \<Rightarrow> True | Some h \<Rightarrow> hash_pattern h) \<and> 1 \<le> sl_event_count s \<and>
     hash_pattern (sl_event_head_hash s) \<and> hash_pattern (sl_artifact_root_digest s) \<and> list_all valid_artifact (sl_artifacts s) \<and>
     hash_pattern (sl_root_digest s)"

definition seals_good :: "store_env \<Rightarrow> ustr \<Rightarrow> run_files \<Rightarrow> run_seal list \<Rightarrow> bool" where
  "seals_good E run_id F ss \<longleftrightarrow>
     (case dict_get F integrity_log of
        None \<Rightarrow> ss = []
      | Some (RegularFile c l) \<Rightarrow> l = 1 \<and> terminated c \<and> load_seals E (Some (RegularFile c 1)) run_id = Inr ss
      | Some _ \<Rightarrow> False)"

definition seal_room :: "store_env \<Rightarrow> run_files \<Rightarrow> run_seal list \<Rightarrow> jv \<Rightarrow> bool" where
  "seal_room E F ss v \<longleftrightarrow>
     int (length (log_bytes integrity_log F)) + int (length (record_line E v)) \<le> MAX_INTEGRITY_LOG_BYTES \<and>
     int (length ss) < MAX_INTEGRITY_SEAL_RECORDS"

text \<open>No file is longer than a signed 64-bit size.\<close>

definition small_files :: "run_files \<Rightarrow> bool" where
  "small_files F \<longleftrightarrow> (\<forall>p c. file_content F p = Some c \<longrightarrow> int (length c) \<le> 2 ^ 63)"

section \<open>Artifact paths and their keys\<close>

lemma keyed_step:
  assumes "artifact_path_step E entry st = Inr st'" "keyed_paths E (fst st) (snd st)"
  shows "keyed_paths E (fst st') (snd st')"
proof -
  obtain p n ps d where e: "entry = (p, n)" "st = (ps, d)" by (cases entry, cases st)
  consider "st' = st" | "validated_relative_artifact_path (se_paths E) p = Inr p" "path_key E p \<notin> set (RESERVED_ARTIFACT_KEYS (se_paths E))"
      "dict_get d (path_key E p) \<in> {None, Some p}" "st' = (ps @ [p], dict_set (path_key E p) p d)"
  proof (cases "validated_relative_artifact_path (se_paths E) p")
    case (Inr q)
    then have "q = p" by (rule validated_same)
    then show ?thesis using assms(1) that Inr
      by (auto simp: e artifact_path_step_def Let_def split: if_splits option.splits)
  qed (use assms(1) that in \<open>auto simp: e artifact_path_step_def split: if_splits\<close>)
  then show ?thesis
  proof cases
    case 2
    have "dict_get (dict_set (path_key E p) p d) (path_key E q) = Some q" if "q \<in> set ps" for q
    proof -
      have "dict_get d (path_key E q) = Some q" using assms(2) that by (simp add: e keyed_paths_def)
      then show ?thesis using 2(3) by (cases "path_key E q = path_key E p") (simp_all add: dict_simps)
    qed
    then show ?thesis using assms(2) 2(1,2) unfolding 2(4) e keyed_paths_def by (simp add: dict_simps)
  qed (use assms(2) in simp)
qed

lemma artifact_paths_keyed:
  assumes "artifact_paths E F = Inr ps"
  shows "\<exists>d. keyed_paths E ps d"
proof -
  obtain qs d where fold: "result_fold (artifact_path_step E) F ([], []) = Inr (qs, d)" and ps: "ps = sort qs"
    using assms by (auto simp: artifact_paths_def result_bind_Inr)
  have "(\<lambda>st. keyed_paths E (fst st) (snd st)) (qs, d)"
    by (rule result_fold_inv [OF fold]) (auto simp: keyed_paths_def [of E "[]"] intro: keyed_step)
  then show ?thesis by (auto simp: ps keyed_paths_def)
qed

lemma keyed_unique: "keyed_paths E ps d \<Longrightarrow> p \<in> set ps \<Longrightarrow> q \<in> set ps \<Longrightarrow> path_key E p = path_key E q \<Longrightarrow> p = q"
  by (auto simp: keyed_paths_def) (metis option.inject)

lemma by_key_get:
  assumes "keyed_paths E ps d" "p \<in> set ps"
  shows "dict_get (by_key E ps) (path_key E p) = Some p"
proof -
  have "p \<in> set xs \<or> dict_get d0 (path_key E p) = Some p \<Longrightarrow> set xs \<subseteq> set ps \<Longrightarrow>
      dict_get (fold (\<lambda>relative d. dict_set (path_key E relative) relative d) xs d0) (path_key E p) = Some p" for xs d0
  proof (induction xs arbitrary: d0)
    case (Cons x xs)
    have "path_key E p = path_key E x \<Longrightarrow> p = x" using keyed_unique [OF assms(1,2), of x] Cons.prems(2) by simp
    then have "p \<in> set xs \<or> dict_get (dict_set (path_key E x) x d0) (path_key E p) = Some p"
      using Cons.prems(1) by (auto simp: dict_simps)
    then show ?case using Cons.IH [of "dict_set (path_key E x) x d0"] Cons.prems(2) by simp
  qed simp
  then show ?thesis using assms(2) by (simp add: by_key_def)
qed

section \<open>A log beside the artifacts\<close>

lemma artifact_paths_reserved:
  assumes "q \<in> set RESERVED_ARTIFACTS" "dict_get F q = None \<or> (\<exists>c l. dict_get F q = Some (RegularFile c l))"
  shows "artifact_paths E (dict_set q (RegularFile c l) F) = artifact_paths E F"
proof -
  have skip: "artifact_path_step E (q, RegularFile c l) st = Inr st" for c l st
    using assms(1) by (cases st) (simp add: artifact_path_step_def)
  have "result_fold (artifact_path_step E) (dict_set q (RegularFile c l) F) st = result_fold (artifact_path_step E) F st" for st
    using assms(2)
  proof (induction F arbitrary: st)
    case (Cons x F)
    show ?case
    proof (cases "fst x = q")
      case True
      then obtain c' l' where "x = (q, RegularFile c' l')" using Cons.prems by (cases x) auto
      then show ?thesis by (simp add: skip)
    next
      case False
      then show ?thesis using Cons by (cases x) (auto simp: result_bind_def split: sum.splits)
    qed
  qed (simp add: skip)
  then show ?thesis by (simp add: artifact_paths_def)
qed

lemma artifact_record_other:
  assumes "p \<noteq> q"
  shows "artifact_record E (dict_set q n F) p i = artifact_record E F p i"
proof -
  have get: "dict_get (dict_set q n F) p = dict_get F p" using assms by (simp add: dict_simps)
  then have other: "artifact_provenance_of E (dict_set q n F) p i = artifact_provenance_of E F p i"
    unfolding artifact_provenance_of_def by simp
  show ?thesis unfolding artifact_record_def get other ..
qed

lemma index_sealed_reserved:
  assumes "q \<in> set RESERVED_ARTIFACTS"
  shows "index_sealed_artifact E (dict_set q n F) i cur a sealed = index_sealed_artifact E F i cur a sealed"
proof (cases "sa_path a = q")
  case True
  have "path_key E q \<in> set (RESERVED_ARTIFACT_KEYS (se_paths E))" using assms by (simp add: RESERVED_ARTIFACT_KEYS_def)
  then show ?thesis
    by (auto simp: index_sealed_artifact_def verify_sealed_artifact_def Let_def True dest!: validated_same split: sum.splits)
next
  case False
  then have get: "dict_get (dict_set q n F) (sa_path a) = dict_get F (sa_path a)" by (simp add: dict_simps)
  show ?thesis
    unfolding index_sealed_artifact_def verify_sealed_artifact_def get artifact_record_other [OF False] ..
qed

lemma integrity_step_reserved:
  assumes "q \<in> set RESERVED_ARTIFACTS"
  shows "integrity_step E (dict_set q n F) = integrity_step E F"
proof -
  have eq: "index_sealed_artifact E (dict_set q n F) i cur = index_sealed_artifact E F i cur" for i cur
    by (intro ext) (rule index_sealed_reserved [OF assms])
  show ?thesis by (intro ext) (unfold integrity_step_def eq, rule refl)
qed

section \<open>The step of a new seal\<close>

lemma index_sealed_keyed:
  assumes "index_sealed_artifact E F i cur a sealed = Inr sealed'" "sealed_keyed E sealed"
  shows "sealed_keyed E sealed'"
  using assms
  by (auto simp: sealed_keyed_def index_sealed_artifact_def verify_sealed_artifact_def Let_def result_bind_Inr dict_simps
      dest!: validated_same split: sum.splits if_splits option.splits)

lemma integrity_fold_keyed:
  assumes "result_fold (integrity_step E F events cur) seals st = Inr st'" "sealed_keyed E (snd (snd st))"
  shows "sealed_keyed E (snd (snd st'))"
proof (rule result_fold_inv [OF assms(1), of "\<lambda>st. sealed_keyed E (snd (snd st))"])
  show "sealed_keyed E (snd (snd t'))" if step: "integrity_step E F events cur s t = Inr t'" "sealed_keyed E (snd (snd t))" for s t t'
  proof -
    obtain n i sealed where t: "t = (n, i, sealed)" by (cases t)
    obtain j sealed' where "result_fold (index_sealed_artifact E F j cur) (sl_artifacts s) sealed = Inr sealed'" "snd (snd t') = sealed'"
      using step(1) by (auto simp: t integrity_step_def Let_def result_bind_Inr split: if_splits)
    then show ?thesis using result_fold_inv [of "index_sealed_artifact E F j cur" "sl_artifacts s" sealed sealed' "sealed_keyed E"]
        index_sealed_keyed step(2) by (auto simp: t)
  qed
qed (rule assms(2))

lemma integrity_fold_index:
  assumes "result_fold (integrity_step E F events cur) seals (n, fold index_add (take (nat n) events) [], sealed) = Inr (n', index', sealed')" "0 \<le> n"
  shows "index' = fold index_add (take (nat n') events) []"
  using assms
proof (induction seals arbitrary: n sealed)
  case (Cons s seals)
  obtain m i t where step: "integrity_step E F events cur s (n, fold index_add (take (nat n) events) [], sealed) = Inr (m, i, t)"
    and rest: "result_fold (integrity_step E F events cur) seals (m, i, t) = Inr (n', index', sealed')"
    using Cons.prems(1) by (auto simp: result_bind_Inr)
  note a = integrity_step_Inr [OF step]
  have "take (nat m) events = take (nat n) events @ drop (nat n) (take (nat m) events)"
    using a(2) by (metis append_take_drop_id min.absorb1 nat_mono take_take)
  then have "i = fold index_add (take (nat m) events) []" using a(7) by (metis comp_apply fold_append)
  then show ?case using Cons.IH [of m t] rest a(2) Cons.prems(2) by simp
qed auto

text \<open>The records of new artifacts are accepted.\<close>

lemma new_artifacts_indexed:
  assumes keyed: "keyed_paths E ps d" and cur: "cur = by_key E ps"
    and node: "\<And>p. p \<in> set ps \<Longrightarrow> node_is_file (dict_get F p) \<and> \<not> node_is_symlink (dict_get F p)"
    and "\<forall>a \<in> set as. sa_path a \<in> set ps \<and> artifact_record E F (sa_path a) i = Inr a"
    and "distinct (map sa_path as)" "\<forall>a \<in> set as. sa_path a \<notin> set (fst sealed)" "sealed_keyed E sealed" "set (fst sealed) \<subseteq> set ps"
  shows "\<exists>sealed'. result_fold (index_sealed_artifact E F i cur) as sealed = Inr sealed' \<and> set (fst sealed') = set (fst sealed) \<union> sa_path ` set as"
  using assms(4-8)
proof (induction as arbitrary: sealed)
  case (Cons a as)
  let ?p = "sa_path a"
  have p: "?p \<in> set ps" "artifact_record E F ?p i = Inr a" "?p \<notin> set (fst sealed)" using Cons.prems by auto
  have k: "validated_relative_artifact_path (se_paths E) ?p = Inr ?p" "path_key E ?p \<notin> set (RESERVED_ARTIFACT_KEYS (se_paths E))"
    using keyed p(1) by (auto simp: keyed_paths_def)
  have free: "dict_get (snd sealed) (path_key E ?p) = None"
  proof (rule ccontr)
    assume "dict_get (snd sealed) (path_key E ?p) \<noteq> None"
    then obtain q where "path_key E ?p = path_key E q" "q \<in> set (fst sealed)" using Cons.prems(4) by (auto simp: sealed_keyed_def)
    then show False using keyed_unique [OF keyed p(1), of q] Cons.prems(5) p(3) by auto
  qed
  have "dict_get cur (path_key E ?p) = Some ?p" unfolding cur by (rule by_key_get [OF keyed p(1)])
  then have step: "index_sealed_artifact E F i cur a sealed = Inr (List.insert ?p (fst sealed), dict_set (path_key E ?p) ?p (snd sealed))"
    using node [OF p(1)] k p(2,3) free by (simp add: index_sealed_artifact_def verify_sealed_artifact_def Let_def)
  let ?s = "(List.insert ?p (fst sealed), dict_set (path_key E ?p) ?p (snd sealed))"
  have "\<exists>sealed'. result_fold (index_sealed_artifact E F i cur) as ?s = Inr sealed' \<and> set (fst sealed') = set (fst ?s) \<union> sa_path ` set as"
  proof (rule Cons.IH)
    show "sealed_keyed E ?s" by (rule index_sealed_keyed [OF step Cons.prems(4)])
    show "\<forall>a \<in> set as. sa_path a \<in> set ps \<and> artifact_record E F (sa_path a) i = Inr a" using Cons.prems(1) by simp
    show "distinct (map sa_path as)" using Cons.prems(2) by simp
    show "\<forall>b \<in> set as. sa_path b \<notin> set (fst ?s)" using Cons.prems(2,3) by (auto simp: image_iff)
    show "set (fst ?s) \<subseteq> set ps" using Cons.prems(5) p(1) by simp
  qed
  then show ?case using step by auto
qed auto

section \<open>Seals read back\<close>

lemma encodable_Some: "encodable (Some s) \<longleftrightarrow> utf8_encode s \<noteq> None"
  by (simp add: encodable_def)

lemma optional_text_json: "map_of kvs (u k) = Some (jv_optional v) \<Longrightarrow> encodable v \<Longrightarrow> optional_text_field kvs k = Some v"
  by (auto simp: optional_text_field_def jv_optional_def text_field_def encodable_def split: option.splits)

lemma optional_hash_json:
  "map_of kvs (u k) = Some (jv_optional v) \<Longrightarrow> (case v of None \<Rightarrow> True | Some h \<Rightarrow> hash_pattern h) \<Longrightarrow> optional_hash_field kvs k = Some v"
  by (auto simp: optional_hash_field_def jv_optional_def hash_field_def text_field_def hash_pattern_encodes split: option.splits)

lemma text_json: "map_of kvs (u k) = Some (JvStr s) \<Longrightarrow> encodable (Some s) \<Longrightarrow> text_field kvs k = Some s \<and> text_field_or d kvs k = Some s"
  by (auto simp: text_field_def text_field_or_def encodable_def)

lemma hash_json: "map_of kvs (u k) = Some (JvStr s) \<Longrightarrow> hash_pattern s \<Longrightarrow> hash_field kvs k = Some s"
  by (simp add: hash_field_def text_field_def hash_pattern_encodes)

lemma int_json: "map_of kvs (u k) = Some (JvInt n) \<Longrightarrow> ints_read E \<Longrightarrow> least \<le> n \<Longrightarrow> int_field E least kvs k = Some n"
  by (simp add: int_field_def ints_read_def)

lemma all_some_map: "(\<And>x. x \<in> set xs \<Longrightarrow> f x = Some (g x)) \<Longrightarrow> all_some (map f xs) = Some (map g xs)"
  by (induction xs) auto

lemma validate_provenance_json: "valid_provenance p \<Longrightarrow> validate_provenance (provenance_json (Some p)) = Some p"
proof -
  assume v: "valid_provenance p"
  have "texts_of (JvList (map JvStr (ap_event_ids p))) = Some (map id (ap_event_ids p))"
    unfolding texts_of_def jv.case map_map
    by (rule all_some_map) (use v in \<open>auto simp: valid_provenance_def list_all_iff encodable_def\<close>)
  then show ?thesis using v
    by (simp add: validate_provenance_def provenance_json_def known_fields_def optional_text_json valid_provenance_def)
qed

lemma validate_artifact_json:
  assumes "valid_artifact a" "ints_read E"
  shows "validate_artifact E (artifact_json a) = Some a"
proof -
  have p: "(case provenance_json (sa_provenance a) of JvNull \<Rightarrow> Some None | v \<Rightarrow> map_option Some (validate_provenance v)) = Some (sa_provenance a)"
  proof (cases "sa_provenance a")
    case (Some q)
    then have "validate_provenance (provenance_json (Some q)) = Some q"
      using assms(1) by (intro validate_provenance_json) (simp add: valid_artifact_def)
    then show ?thesis using Some by (simp add: provenance_json_def)
  qed (simp add: provenance_json_def)
  show ?thesis using assms p
    by (simp add: validate_artifact_def artifact_json_def known_fields_def text_json hash_json int_json valid_artifact_def)
qed

lemma validate_seal_json:
  assumes "valid_seal s" "ints_read E" "datetime_reads E (sl_sealed_at s)"
  shows "validate_seal E (seal_json E s) = Some s"
proof -
  have a: "all_some (map (validate_artifact E) (map artifact_json (sl_artifacts s))) = Some (map id (sl_artifacts s))"
    unfolding map_map by (rule all_some_map) (use assms in \<open>auto simp: valid_seal_def list_all_iff intro: validate_artifact_json\<close>)
  then show ?thesis using assms
    by (simp add: validate_seal_def seal_json_def seal_material_def known_fields_def text_json hash_json int_json optional_hash_json
        aware_field_or_def artifacts_field_def datetime_reads_def valid_seal_def)
qed

lemma artifact_record_valid: "artifact_record E F p i = Inr a \<Longrightarrow> valid_artifact a"
proof -
  assume r: "artifact_record E F p i = Inr a"
  have "provenance_of x y z ids = Inr (Some q) \<Longrightarrow> valid_provenance q" for x y z ids q
    by (auto simp: provenance_of_def valid_provenance_def split: if_splits)
  then have prov: "artifact_provenance_of E F p i = Inr (Some q) \<Longrightarrow> valid_provenance q" for q
    by (auto simp: artifact_provenance_of_def Let_def result_bind_Inr split: if_splits)
  have "encodable (Some (media_type_of E p))"
    by (auto simp: media_type_of_def MEDIA_TYPES_def encodable_def u_def utf8_char_def split: option.splits if_splits)
  then show ?thesis using r prov
    by (auto simp: artifact_record_def result_bind_Inr valid_artifact_def encodable_def
        split: option.splits run_node.splits if_splits)
qed

section \<open>A returned seal\<close>

lemma integrity_stateE:
  assumes "integrity_state_of E F allow = Inr st"
  obtains events seals paths n index sealed keys where
    "load_events E (dict_get F events_log) None = Inr events"
    "load_seals E (dict_get F integrity_log) (ae_run_id (hd events)) = Inr seals"
    "artifact_paths E F = Inr paths"
    "result_fold (integrity_step E F events (by_key E paths)) seals (0, [], ([], [])) = Inr (n, index, (sealed, keys))"
    "st = \<lparr>ig_run_id = ae_run_id (hd events), ig_events = events, ig_seals = seals, ig_sealed_paths = sealed,
       ig_unsealed_paths = filter (\<lambda>p. p \<notin> set sealed) paths\<rparr>"
  using assms unfolding integrity_state_of_def Let_def by_key_def [symmetric]
  by (elim result_bindE; simp split: if_splits prod.splits add: result_bind_Inr; elim exE conjE result_bindE; simp split: if_splits; blast)

lemma integrity_stateI:
  assumes "load_events E (dict_get F events_log) None = Inr events"
    "load_seals E (dict_get F integrity_log) (ae_run_id (hd events)) = Inr seals" "seals \<noteq> []"
    "artifact_paths E F = Inr paths"
    "result_fold (integrity_step E F events (by_key E paths)) seals (0, [], ([], [])) = Inr (n, index, (sealed, keys))"
    "sl_event_count (last seals) = int (length events)" "set paths \<subseteq> set sealed"
  shows "integrity_state_of E F False = Inr \<lparr>ig_run_id = ae_run_id (hd events), ig_events = events, ig_seals = seals,
    ig_sealed_paths = sealed, ig_unsealed_paths = []\<rparr>"
proof -
  have "filter (\<lambda>p. p \<notin> set sealed) paths = []" using assms(7) by (auto simp: filter_empty_conv)
  then show ?thesis unfolding integrity_state_of_def Let_def by_key_def [symmetric] using assms by simp
qed

lemma load_appended_seal:
  assumes good: "seals_good E run_id F ss" and line: "line_reads E MAX_INTEGRITY_SEAL_RECORD_BYTES (seal_json E s)"
    and valid: "validate_seal E (seal_json E s) = Some s"
    and check: "check_seal E run_id (int (length ss) + 1) (if ss = [] then None else Some (sl_root_digest (last ss))) s = Inr ()"
    and room: "seal_room E F ss (seal_json E s)"
  shows "load_seals E (dict_get (with_record E integrity_log (seal_json E s) F) integrity_log) run_id = Inr (ss @ [s])"
proof -
  let ?c = "log_bytes integrity_log F" and ?l = "record_line E (seal_json E s)"
  note l = record_line_length [OF line]
  have c: "terminated ?c" "seal_fit ?c" "seals_read E run_id ?c ss"
    using good by (auto simp: seals_good_def log_bytes_def terminated_def load_seals_iff log_content_def seal_fit_def lines_fit_def seals_read_def
        MAX_INTEGRITY_LOG_BYTES_def MAX_INTEGRITY_SEAL_RECORDS_def split: option.splits run_node.splits)
  obtain b where b: "?l = b @ [10]" "\<not> blank_line (b @ [10])"
    "\<And>label. parse_strict_json_bytes (b @ [10]) label MAX_INTEGRITY_SEAL_RECORD_BYTES 64 200000 = Inr (seal_json E s)"
    using record_line_reads [OF line] by metis
  then have read: "read_seal E n ?l = Inr s" for n using valid by (simp add: read_seal_def read_record_def)
  have "seal_fit (?c @ ?l) \<and> seals_read E run_id (?c @ ?l) (ss @ [s])"
    unfolding seal_fit_def seals_read_def
    by (rule record_appended) (use c l room check read in \<open>simp_all add: seal_fit_def seals_read_def seal_room_def add.commute\<close>)
  then show ?thesis by (simp add: load_seals_iff log_content_def with_record_def dict_simps)
qed

lemma artifact_records_Inr:
  "artifact_records E F i ps = Inr as \<Longrightarrow> map sa_path as = ps \<and> (\<forall>a \<in> set as. artifact_record E F (sa_path a) i = Inr a)"
proof (induction ps arbitrary: as)
  case (Cons p ps)
  obtain a bs where a: "artifact_record E F p i = Inr a" "artifact_records E F i ps = Inr bs" "as = a # bs"
    using Cons.prems by (auto simp: result_bind_Inr)
  moreover have "sa_path a = p" using artifact_record_content [OF a(1)] by blast
  ultimately show ?case using Cons.IH [OF a(2)] by auto
qed simp

lemma seal_locked_returns:
  assumes "seal_locked E io s = (Inr seal, t)"
  obtains st records root where "integrity_state_of E (rs_files s) True = Inr st" "ig_run_id st = rs_run_id s"
    "artifact_records E (rs_files s) (index_from_events (ig_events st)) (ig_unsealed_paths st) = Inr records"
    "canonical_digest E (JvList (map artifact_json (sort_key sa_path records))) = Inr (sl_artifact_root_digest seal)"
    "seal = (new_seal io (rs_run_id s) st (sort_key sa_path records) (sl_artifact_root_digest seal))\<lparr>sl_root_digest := root\<rparr>"
    "computed_root_digest E (new_seal io (rs_run_id s) st (sort_key sa_path records) (sl_artifact_root_digest seal)) = Inr root"
    "is_aware (sl_sealed_at seal)" "utf8_encode (sl_seal_id seal) \<noteq> None" "utf8_encode (sl_run_id seal) \<noteq> None"
    "append_private_line io integrity_log (se_dump_json E (seal_json E seal) @ [10]) s = (Inr (), t)"
  using assms unfolding seal_locked_def Let_def
  by (auto simp: new_seal_def split: sum.splits if_splits elim!: call_bind_okE)

lemma regular_in_paths:
  assumes "artifact_paths E F = Inr ps" "file_content F p = Some c" "p \<notin> set RESERVED_ARTIFACTS"
  shows "p \<in> set ps"
proof -
  obtain n where "dict_get F p = Some n" "node_is_file (Some n)"
    using assms(2) by (auto simp: file_content_def split: option.splits run_node.splits)
  then show ?thesis using assms(3) artifact_paths_Inr(1) [OF assms(1)] map_of_SomeD by fastforce
qed

lemma paths_nodes:
  assumes "artifact_paths E F = Inr ps" "dict_ok F" "p \<in> set ps"
  shows "node_is_file (dict_get F p) \<and> \<not> node_is_symlink (dict_get F p)"
proof -
  obtain n where n: "(p, n) \<in> set F" "node_is_file (Some n)" using assms(3) artifact_paths_Inr(1) [OF assms(1)] by auto
  then have "dict_get F p = Some n" using assms(2) by (simp add: dict_ok_def)
  then show ?thesis using n artifact_paths_Inr(2) [OF assms(1)] by auto
qed

lemma paths_distinct:
  assumes "artifact_paths E F = Inr ps" "dict_ok F"
  shows "distinct ps"
proof -
  obtain qs d where fold: "result_fold (artifact_path_step E) F ([], []) = Inr (qs, d)" and ps: "ps = sort qs"
    using assms(1) by (auto simp: artifact_paths_def result_bind_Inr)
  have "distinct (map fst (filter P F))" for P using assms(2) by (simp add: dict_ok_def distinct_map_filter)
  then show ?thesis using artifact_paths_fold [OF fold] by (simp add: ps)
qed

text \<open>The loop over the seals goes on over a new one.\<close>

lemma new_seal_step:
  assumes fold: "result_fold (integrity_step E F events (by_key E paths)) seals (0, [], ([], [])) = Inr (n, index, (sealed, keys))"
    and paths: "artifact_paths E F = Inr paths" and ok: "dict_ok F"
    and count: "sl_event_count s = int (length events)" "events \<noteq> []" "sl_event_head_hash s = ae_event_hash (last events)"
    and arts: "map sa_path (sl_artifacts s) = filter (\<lambda>p. p \<notin> set sealed) paths"
      "\<forall>a \<in> set (sl_artifacts s). artifact_record E F (sa_path a) (index_from_events events) = Inr a"
  shows "\<exists>i sealed'. integrity_step E F events (by_key E paths) s (n, index, (sealed, keys)) = Inr (int (length events), i, sealed') \<and>
    set paths \<subseteq> set (fst sealed')"
proof -
  note f = integrity_fold [OF fold]
  have n: "0 \<le> n" "n \<le> int (length events)"
  proof -
    show "0 \<le> n" using f by simp
    show "n \<le> int (length events)"
    proof (cases "seals = []")
      case False
      then have "seal_verified E F events 0 (last seals)" using f by simp
      then show ?thesis using f False by (simp add: seal_verified_def)
    qed (use f in simp)
  qed
  have "index = fold index_add (take (nat n) events) []"
    by (rule integrity_fold_index [of E F events "by_key E paths" seals 0 "([], [])"]) (use fold in simp_all)
  moreover have "take (nat n) events @ drop (nat n) events = events" by simp
  ultimately have index: "fold index_add (drop (nat n) events) index = index_from_events events"
    unfolding index_from_events_def by (metis comp_apply fold_append)
  obtain d where keyed: "keyed_paths E paths d" using artifact_paths_keyed [OF paths] by blast
  have sub: "set sealed \<subseteq> set paths"
  proof
    fix p assume "p \<in> set sealed"
    then obtain r a where "r \<in> set seals" "a \<in> set (sl_artifacts r)" "p = sa_path a" using f by auto
    moreover have "seal_verified E F events 0 r" using f \<open>r \<in> set seals\<close> by blast
    ultimately obtain i where "p \<notin> set RESERVED_ARTIFACTS" "artifact_record E F p i = Inr a" unfolding seal_verified_def by blast
    then show "p \<in> set paths" using regular_in_paths [OF paths] artifact_record_content by blast
  qed
  have skeyed: "sealed_keyed E (sealed, keys)" using integrity_fold_keyed [OF fold] by (simp add: sealed_keyed_def)
  have "\<exists>sealed'. result_fold (index_sealed_artifact E F (index_from_events events) (by_key E paths)) (sl_artifacts s) (sealed, keys) = Inr sealed' \<and>
      set (fst sealed') = set (fst (sealed, keys)) \<union> sa_path ` set (sl_artifacts s)"
  proof (rule new_artifacts_indexed [OF keyed refl paths_nodes [OF paths ok]])
    have paths_in: "sa_path a \<in> set (filter (\<lambda>p. p \<notin> set sealed) paths)" if "a \<in> set (sl_artifacts s)" for a
      using that unfolding arts(1) [symmetric] by simp
    show "\<forall>a \<in> set (sl_artifacts s). sa_path a \<in> set paths \<and> artifact_record E F (sa_path a) (index_from_events events) = Inr a"
      "\<forall>a \<in> set (sl_artifacts s). sa_path a \<notin> set (fst (sealed, keys))" using arts(2) paths_in by auto
    show "distinct (map sa_path (sl_artifacts s))" unfolding arts(1) using paths_distinct [OF paths ok] by simp
  qed (use skeyed sub in auto)
  then obtain sealed' where sealed': "result_fold (index_sealed_artifact E F (index_from_events events) (by_key E paths)) (sl_artifacts s) (sealed, keys) = Inr sealed'"
    "set (fst sealed') = set sealed \<union> sa_path ` set (sl_artifacts s)" by auto
  have "sa_path ` set (sl_artifacts s) = set (filter (\<lambda>p. p \<notin> set sealed) paths)" unfolding arts(1) [symmetric] by simp
  moreover have "integrity_step E F events (by_key E paths) s (n, index, (sealed, keys)) = Inr (int (length events), index_from_events events, sealed')"
    using n count index sealed'(1) by (simp add: integrity_step_def Let_def last_conv_nth nat_diff_distrib')
  ultimately show ?thesis using sealed'(2) by auto
qed

lemma new_seal_valid:
  assumes st: "load_events E node None = Inr (ig_events st)" "load_seals E node' r = Inr (ig_seals st)"
    and records: "\<forall>a \<in> set artifacts. valid_artifact a" "canonical_digest E (JvList (map artifact_json artifacts)) = Inr ar"
    and rt: "computed_root_digest E (new_seal io r st artifacts ar) = Inr rt"
    and shape: "is_aware (io_now io)" "utf8_encode (u ''seal_'' @ io_uuid io) \<noteq> None" "utf8_encode r \<noteq> None"
  shows "valid_seal ((new_seal io r st artifacts ar)\<lparr>sl_root_digest := rt\<rparr>)"
proof -
  note events = loaded_events [OF load_events_any [OF st(1)]]
  have "hash_pattern (ae_event_hash (last (ig_events st)))"
    using events(2) events(3) [of "last (ig_events st)"] digest_pattern by (auto simp: computed_hash_def)
  moreover have "hash_pattern (sl_root_digest (last (ig_seals st)))" if "ig_seals st \<noteq> []"
    using loaded_seals(2) [OF st(2), of "last (ig_seals st)"] that digest_pattern by (auto simp: computed_root_digest_def)
  moreover have "1 \<le> int (length (ig_events st))" using events(2) by (cases "ig_events st") auto
  moreover have "encodable (Some INTEGRITY_API_VERSION)" by (simp add: encodable_def INTEGRITY_API_VERSION_def u_def utf8_char_def)
  ultimately show ?thesis using assms digest_pattern
    by (auto simp: valid_seal_def new_seal_def encodable_def list_all_iff computed_root_digest_def)
qed

lemma new_seal_checks:
  assumes "canonical_digest E (JvList (map artifact_json (sort_key sa_path records))) = Inr ar"
    and "computed_root_digest E (new_seal io r st (sort_key sa_path records) ar) = Inr rt"
  shows "check_seal E r (int (length (ig_seals st)) + 1) (if ig_seals st = [] then None else Some (sl_root_digest (last (ig_seals st))))
    ((new_seal io r st (sort_key sa_path records) ar)\<lparr>sl_root_digest := rt\<rparr>) = Inr ()"
  using assms by (simp add: check_seal_ok new_seal_def computed_artifact_root_digest_def computed_root_digest_def seal_material_def
      sort_key_id_if_sorted)

lemma sealed_run_verifies:
  assumes st: "integrity_state_of E F True = Inr st" and ok: "dict_ok F"
    and seals: "load_seals E (dict_get (dict_set integrity_log (RegularFile c l) F) integrity_log) (ig_run_id st) = Inr (ig_seals st @ [s])"
    and plain: "dict_get F integrity_log = None \<or> (\<exists>c l. dict_get F integrity_log = Some (RegularFile c l))"
    and count: "sl_event_count s = int (length (ig_events st))" "sl_event_head_hash s = ae_event_hash (last (ig_events st))"
    and arts: "artifact_records E F (index_from_events (ig_events st)) (ig_unsealed_paths st) = Inr records" "sl_artifacts s = sort_key sa_path records"
  shows "\<exists>v. verify_run_integrity E (dict_set integrity_log (RegularFile c l) F) = Inr v \<and> rv_run_id v = ig_run_id st \<and>
    rv_seal_count v = int (length (ig_seals st)) + 1 \<and> rv_event_count v = int (length (ig_events st)) \<and> rv_root_digest v = sl_root_digest s"
  using st
proof (rule integrity_stateE)
  fix events seals paths n index sealed keys
  let ?F = "dict_set integrity_log (RegularFile c l) F"
  assume events: "load_events E (dict_get F events_log) None = Inr events" and paths: "artifact_paths E F = Inr paths"
    and fold: "result_fold (integrity_step E F events (by_key E paths)) seals (0, [], ([], [])) = Inr (n, index, (sealed, keys))"
    and st: "st = \<lparr>ig_run_id = ae_run_id (hd events), ig_events = events, ig_seals = seals, ig_sealed_paths = sealed,
       ig_unsealed_paths = filter (\<lambda>p. p \<notin> set sealed) paths\<rparr>"
  have res: "integrity_log \<in> set RESERVED_ARTIFACTS" "integrity_log \<noteq> events_log"
    by (simp_all add: RESERVED_ARTIFACTS_def integrity_log_def events_log_def u_def)
  have sorted: "sorted paths" using artifact_paths_Inr(3) [OF paths] .
  note records = artifact_records_Inr [OF arts(1)]
  have sa: "sl_artifacts s = records" unfolding arts(2)
    by (rule sort_key_id_if_sorted) (use records sorted in \<open>simp add: st sorted_wrt_filter\<close>)
  have ne: "events \<noteq> []" using loaded_events(2) [OF load_events_any [OF events]] .
  obtain i sealed' where step: "integrity_step E F events (by_key E paths) s (n, index, (sealed, keys)) = Inr (int (length events), i, sealed')"
    "set paths \<subseteq> set (fst sealed')"
    using new_seal_step [OF fold paths ok _ ne, of s] count records by (auto simp: st sa)
  have fold': "result_fold (integrity_step E ?F events (by_key E paths)) (seals @ [s]) (0, [], ([], [])) =
      Inr (int (length events), i, (fst sealed', snd sealed'))"
    unfolding integrity_step_reserved [OF res(1)] result_fold_append fold by (simp add: step(1))
  have "integrity_state_of E ?F False = Inr \<lparr>ig_run_id = ae_run_id (hd events), ig_events = events, ig_seals = seals @ [s],
      ig_sealed_paths = fst sealed', ig_unsealed_paths = []\<rparr>"
    by (rule integrity_stateI [OF _ _ _ _ fold'])
      (use events seals paths count step(2) res artifact_paths_reserved [OF res(1) plain] in \<open>simp_all add: st dict_simps\<close>)
  then show ?thesis by (simp add: verify_run_integrity_def verification_from_state_def st)
qed

lemma seal_returns_when:
  assumes st: "integrity_state_of E (rs_files s) True = Inr st" "ig_run_id st = rs_run_id s"
    and new: "ig_seals st = [] \<or> ig_unsealed_paths st \<noteq> [] \<or> sl_event_count (last (ig_seals st)) \<noteq> int (length (ig_events st))"
    and records: "artifact_records E (rs_files s) (index_from_events (ig_events st)) (ig_unsealed_paths st) = Inr records"
    and ar: "canonical_digest E (JvList (map artifact_json (sort_key sa_path records))) = Inr ar"
    and shape: "is_aware (io_now io)" "utf8_encode (u ''seal_'' @ io_uuid io) \<noteq> None" "utf8_encode (rs_run_id s) \<noteq> None"
    and rt: "computed_root_digest E (new_seal io (rs_run_id s) st (sort_key sa_path records) ar) = Inr rt"
    and seal: "seal = (new_seal io (rs_run_id s) st (sort_key sa_path records) ar)\<lparr>sl_root_digest := rt\<rparr>"
    and written: "line_written E io (seal_json E seal)"
    and plain: "dict_get (rs_files s) integrity_log = None \<or> (\<exists>c. dict_get (rs_files s) integrity_log = Some (RegularFile c 1))"
  shows "seal_locked E io s = (Inr seal, s\<lparr>rs_files := with_record E integrity_log (seal_json E seal) (rs_files s)\<rparr>)"
proof -
  note line = append_private_line_completes [OF written plain]
  have "is_aware (sl_sealed_at (new_seal io (rs_run_id s) st (sort_key sa_path records) ar))"
    "utf8_encode (sl_seal_id (new_seal io (rs_run_id s) st (sort_key sa_path records) ar)) \<noteq> None"
    "utf8_encode (sl_run_id (new_seal io (rs_run_id s) st (sort_key sa_path records) ar)) \<noteq> None"
    using shape by (simp_all add: new_seal_def)
  moreover have "\<not> (ig_seals st \<noteq> [] \<and> ig_unsealed_paths st = [] \<and> sl_event_count (last (ig_seals st)) = int (length (ig_events st)))"
    using new by blast
  ultimately show ?thesis using line unfolding seal_locked_def Let_def st(1) sum.case st(2)
    by (auto simp: records ar rt call_bind_def call_return_def seal [symmetric])
qed

lemma seal_json_shape:
  assumes "\<bar>sl_sequence s\<bar> \<le> 2 ^ 63" "\<bar>sl_event_count s\<bar> \<le> 2 ^ 63" "\<forall>a \<in> set (sl_artifacts s). \<bar>sa_size_bytes a\<bar> \<le> 2 ^ 63"
  shows "exact_value fr (seal_json E s)" "distinct_keys (seal_json E s)"
  using seal_material_exact [OF assms, of fr E] seal_material_distinct [of E s]
  by (auto simp: seal_json_def exact_value_simps seal_material_def)

lemma digested_seal_dumpable: "computed_root_digest E s = Inr h \<Longrightarrow> json_dumpable (seal_json E (s\<lparr>sl_root_digest := h\<rparr>))"
  by (auto simp: computed_root_digest_def canonical_digest_def seal_json_def seal_material_def dumpable_obj split: if_splits)

lemma returned_sealE:
  assumes "seals_good E (rs_run_id s) (rs_files s) ss" "store_seal E io s = (Inr seal, t)"
  obtains st records rt m where "integrity_state_of E (rs_files s) True = Inr st" "ig_run_id st = rs_run_id s" "ig_seals st = ss"
    "load_events E (dict_get (rs_files s) events_log) None = Inr (ig_events st)"
    "load_seals E (dict_get (rs_files s) integrity_log) (rs_run_id s) = Inr (ig_seals st)"
    "artifact_records E (rs_files s) (index_from_events (ig_events st)) (ig_unsealed_paths st) = Inr records"
    "canonical_digest E (JvList (map artifact_json (sort_key sa_path records))) = Inr (sl_artifact_root_digest seal)"
    "seal = (new_seal io (rs_run_id s) st (sort_key sa_path records) (sl_artifact_root_digest seal))\<lparr>sl_root_digest := rt\<rparr>"
    "computed_root_digest E (new_seal io (rs_run_id s) st (sort_key sa_path records) (sl_artifact_root_digest seal)) = Inr rt"
    "is_aware (sl_sealed_at seal)" "utf8_encode (sl_seal_id seal) \<noteq> None" "utf8_encode (sl_run_id seal) \<noteq> None"
    "rs_files m = rs_files s" "append_private_line io integrity_log (se_dump_json E (seal_json E seal) @ [10]) m = (Inr (), t)"
proof -
  obtain m where m: "rs_files m = rs_files s" "rs_run_id m = rs_run_id s" "seal_locked E io m = (Inr seal, t)"
    using mutation_outcome assms(2) unfolding store_seal_def same_files_def by fastforce
  from seal_locked_returns [OF m(3), unfolded m(1,2)] obtain st records rt where
    st: "integrity_state_of E (rs_files s) True = Inr st" "ig_run_id st = rs_run_id s"
    "artifact_records E (rs_files s) (index_from_events (ig_events st)) (ig_unsealed_paths st) = Inr records"
    "canonical_digest E (JvList (map artifact_json (sort_key sa_path records))) = Inr (sl_artifact_root_digest seal)"
    "seal = (new_seal io (rs_run_id s) st (sort_key sa_path records) (sl_artifact_root_digest seal))\<lparr>sl_root_digest := rt\<rparr>"
    "computed_root_digest E (new_seal io (rs_run_id s) st (sort_key sa_path records) (sl_artifact_root_digest seal)) = Inr rt"
    "is_aware (sl_sealed_at seal)" "utf8_encode (sl_seal_id seal) \<noteq> None" "utf8_encode (sl_run_id seal) \<noteq> None"
    "append_private_line io integrity_log (se_dump_json E (seal_json E seal) @ [10]) m = (Inr (), t)" by metis
  have loads: "load_events E (dict_get (rs_files s) events_log) None = Inr (ig_events st)"
    "load_seals E (dict_get (rs_files s) integrity_log) (rs_run_id s) = Inr (ig_seals st)"
    using st(1,2) by (auto elim!: integrity_stateE)
  have "ig_seals st = ss"
    using assms(1) loads(2) by (auto simp: seals_good_def load_seals_def split: option.splits run_node.splits)
  then show thesis using that st loads m(1) by metis
qed

lemma returned_seal_reads:
  assumes "seals_good E (rs_run_id s) (rs_files s) ss" "store_seal E io s = (Inr seal, t)" "small_files (rs_files s)"
    and "compact_dump E fr" "record_fits E MAX_INTEGRITY_SEAL_RECORD_BYTES (seal_json E seal)" "seal_room E (rs_files s) ss (seal_json E seal)"
  shows "line_reads E MAX_INTEGRITY_SEAL_RECORD_BYTES (seal_json E seal)"
proof (rule returned_sealE [OF assms(1,2)])
  fix st records rt m
  assume ss: "ig_seals st = ss" and loads: "load_events E (dict_get (rs_files s) events_log) None = Inr (ig_events st)"
    and records: "artifact_records E (rs_files s) (index_from_events (ig_events st)) (ig_unsealed_paths st) = Inr records"
    and seal: "seal = (new_seal io (rs_run_id s) st (sort_key sa_path records) (sl_artifact_root_digest seal))\<lparr>sl_root_digest := rt\<rparr>"
    and rt: "computed_root_digest E (new_seal io (rs_run_id s) st (sort_key sa_path records) (sl_artifact_root_digest seal)) = Inr rt"
    and run: "append_private_line io integrity_log (se_dump_json E (seal_json E seal) @ [10]) m = (Inr (), t)"
  have fields: "sl_sequence seal = int (length ss) + 1" "sl_event_count seal = int (length (ig_events st))" "sl_artifacts seal = sort_key sa_path records"
    by (subst seal, simp add: new_seal_def ss)+
  have "int (length (ig_events st)) \<le> MAX_AUDIT_EVENT_RECORDS"
    using loaded_events(4) [OF load_events_any [OF loads]] by simp
  moreover have "\<bar>sa_size_bytes a\<bar> \<le> 2 ^ 63" if "a \<in> set records" for a
    using artifact_records_Inr [OF records] that artifact_record_content assms(3) by (fastforce simp: small_files_def)
  ultimately have shape: "exact_value fr (seal_json E seal)" "distinct_keys (seal_json E seal)"
    using assms(6) by (auto intro!: seal_json_shape simp: fields seal_room_def MAX_INTEGRITY_SEAL_RECORDS_def MAX_AUDIT_EVENT_RECORDS_def)
  obtain b where "utf8_encode (se_dump_json E (seal_json E seal) @ [10]) = Some b"
    using run by (auto simp: append_private_line_def split: option.splits)
  then show ?thesis
    using compact_record_reads [OF assms(4) shape _ _ assms(5)] digested_seal_dumpable [OF rt] seal by metis
qed

lemma returned_seal_verifies:
  assumes "dict_ok (rs_files s)" and "seals_good E (rs_run_id s) (rs_files s) ss" and "store_seal E io s = (Inr seal, t)"
    and "ints_read E" and "datetime_reads E (sl_sealed_at seal)"
    and "line_reads E MAX_INTEGRITY_SEAL_RECORD_BYTES (seal_json E seal)" and "seal_room E (rs_files s) ss (seal_json E seal)"
  shows "\<exists>v. verify_run_integrity E (rs_files t) = Inr v \<and> rv_run_id v = rs_run_id s \<and> rv_root_digest v = sl_root_digest seal \<and>
    rv_seal_count v = int (length ss) + 1 \<and> rv_event_count v = sl_event_count seal \<and>
    load_seals E (dict_get (rs_files t) integrity_log) (rs_run_id s) = Inr (ss @ [seal]) \<and>
    (\<forall>p. p = integrity_log \<or> dict_get (rs_files t) p = dict_get (rs_files s) p)"
proof (rule returned_sealE [OF assms(2,3)])
  let ?F = "rs_files s"
  fix st records rt m
  assume st: "integrity_state_of E ?F True = Inr st" "ig_run_id st = rs_run_id s" and ss: "ig_seals st = ss"
    and loads: "load_events E (dict_get ?F events_log) None = Inr (ig_events st)"
      "load_seals E (dict_get ?F integrity_log) (rs_run_id s) = Inr (ig_seals st)"
    and records: "artifact_records E ?F (index_from_events (ig_events st)) (ig_unsealed_paths st) = Inr records"
    and ar: "canonical_digest E (JvList (map artifact_json (sort_key sa_path records))) = Inr (sl_artifact_root_digest seal)"
    and seal: "seal = (new_seal io (rs_run_id s) st (sort_key sa_path records) (sl_artifact_root_digest seal))\<lparr>sl_root_digest := rt\<rparr>"
    and rt: "computed_root_digest E (new_seal io (rs_run_id s) st (sort_key sa_path records) (sl_artifact_root_digest seal)) = Inr rt"
    and shape: "is_aware (sl_sealed_at seal)" "utf8_encode (sl_seal_id seal) \<noteq> None" "utf8_encode (sl_run_id seal) \<noteq> None"
    and m: "rs_files m = ?F" and run: "append_private_line io integrity_log (se_dump_json E (seal_json E seal) @ [10]) m = (Inr (), t)"
  have plain: "dict_get ?F integrity_log = None \<or> (\<exists>c l. dict_get ?F integrity_log = Some (RegularFile c l))"
    "(case dict_get ?F integrity_log of Some n \<Rightarrow> node_links n | None \<Rightarrow> 1) = 1"
    using assms(2) by (auto simp: seals_good_def split: option.splits run_node.splits)
  have fields: "sl_sealed_at seal = io_now io" "sl_seal_id seal = u ''seal_'' @ io_uuid io" "sl_run_id seal = rs_run_id s"
    "sl_event_count seal = int (length (ig_events st))" "sl_event_head_hash seal = ae_event_hash (last (ig_events st))"
    "sl_artifacts seal = sort_key sa_path records"
    by (subst seal, simp add: new_seal_def)+
  have valid: "valid_seal seal"
    by (subst seal, rule new_seal_valid [OF loads _ ar rt])
      (use artifact_records_Inr [OF records] artifact_record_valid shape fields in \<open>auto\<close>)
  have F: "rs_files t = with_record E integrity_log (seal_json E seal) ?F"
    using append_private_line_returns [OF run] plain by (auto simp: m with_record_def record_line_def)
  have check: "check_seal E (rs_run_id s) (int (length ss) + 1) (if ss = [] then None else Some (sl_root_digest (last ss))) seal = Inr ()"
    using new_seal_checks [OF ar rt, folded seal] unfolding ss .
  have chain: "load_seals E (dict_get (with_record E integrity_log (seal_json E seal) ?F) integrity_log) (rs_run_id s) = Inr (ss @ [seal])"
    by (rule load_appended_seal [OF assms(2,6) validate_seal_json [OF valid assms(4,5)] check assms(7)])
  then show ?thesis
    using sealed_run_verifies [OF st(1) assms(1) _ plain(1) fields(4,5) records fields(6)] fields(4) chain
    unfolding F with_record_def st(2) ss by (auto simp: dict_simps)
qed

lemma integrity_state_allow:
  assumes "integrity_state_of E F False = Inr st"
  shows "integrity_state_of E F True = Inr st"
  using assms unfolding integrity_state_of_def Let_def
  by (elim result_bindE; simp split: if_splits prod.splits add: result_bind_Inr; elim exE conjE result_bindE; simp split: if_splits)

lemma verify_reserved:
  assumes "q \<in> set RESERVED_ARTIFACTS" "q \<noteq> events_log" "q \<noteq> integrity_log"
    and "dict_get F q = None \<or> (\<exists>c l. dict_get F q = Some (RegularFile c l))"
  shows "verify_run_integrity E (dict_set q (RegularFile c l) F) = verify_run_integrity E F"
proof -
  have g: "dict_get (dict_set q n F) events_log = dict_get F events_log" "dict_get (dict_set q n F) integrity_log = dict_get F integrity_log" for n
    using assms(2,3) by (simp_all add: dict_simps)
  show ?thesis
    unfolding verify_run_integrity_def integrity_state_of_def g artifact_paths_reserved [OF assms(1,4)] integrity_step_reserved [OF assms(1)] ..
qed


end
