(* ===== verification/Run_Snapshots.thy ===== *)
theory Run_Snapshots
  imports Run_Binding
begin

text \<open>
  Verified snapshots: what the loops over requests, reads and seal records give. The directory may change between the
  two verifications and the reads, so they are three arguments.
\<close>

lemma record_of_seal:
  "dict_get (fold (\<lambda>a d. dict_set (sa_path a) a d) as d) p = Some a \<Longrightarrow> a \<in> set as \<and> sa_path a = p \<or> dict_get d p = Some a"
proof (induction as arbitrary: d)
  case (Cons b as)
  then show ?case by (fastforce simp: dict_simps split: if_splits)
qed simp

lemma sealed_recordsD:
  assumes "sealed_artifact_records ss = Inr records" "dict_get records p = Some a"
  shows "\<exists>s \<in> set ss. a \<in> set (sl_artifacts s) \<and> sa_path a = p"
  using assms record_of_seal [of "concat (map sl_artifacts ss)" "[]" p a] by (auto simp: sealed_artifact_records_def Let_def split: if_splits)

lemma loaded_bytes:
  "result_fold (load_snapshot_step F records) rs d = Inr L \<Longrightarrow>
     (\<forall>p c. dict_get L p = Some c \<longrightarrow> dict_get d p = Some c \<or> file_content F p = Some c) \<and>
     {p. dict_get L p \<noteq> None} = {p. dict_get d p \<noteq> None} \<union> fst ` set rs \<and> (dict_ok d \<longrightarrow> dict_ok L)"
proof (induction rs arbitrary: d)
  case (Cons r rs)
  obtain p m where r: "r = (p, m)" by (cases r)
  obtain c where c: "read_bounded_regular_bytes (dict_get F p) ''sealed Run artifact '' m True = Inr c"
    "result_fold (load_snapshot_step F records) rs (dict_set p c d) = Inr L"
    using Cons.prems by (auto simp: r load_snapshot_step_def [of F records "(p, m)"] result_bind_Inr split: if_splits sum.splits)
  have "file_content F p = Some c"
    using c(1) by (auto simp: read_bounded_regular_bytes_def file_content_def split: option.splits run_node.splits if_splits)
  then show ?case using Cons.IH [OF c(2)] by (auto simp: r dict_simps split: if_splits)
qed auto

lemma bound_bytes:
  assumes "bind_snapshot_artifact_bytes L records = Inr x" "(p, c) \<in> set L"
  shows "\<exists>a. dict_get records p = Some a \<and> sa_sha256 a = u (sha256_hex c) \<and> sa_size_bytes a = int (length c)"
proof -
  have "\<exists>y z. bind_snapshot_artifact records (p, c) y = Inr z"
    using assms by (auto simp: bind_snapshot_artifact_bytes_def dest: result_fold_each)
  then show ?thesis by (auto simp: bind_snapshot_artifact_def split: option.splits if_splits)
qed

lemma request_step_paths:
  assumes "snapshot_request_step E r st = Inr st'"
  shows "{p. dict_get (fst st') p \<noteq> None} = insert (fst r) {p. dict_get (fst st) p \<noteq> None} \<and> (dict_ok (fst st) \<longrightarrow> dict_ok (fst st'))"
proof -
  obtain q m v cs where "r = (q, m)" "st = (v, cs)" by (cases r, cases st)
  moreover have "validated_relative_artifact_path (se_paths E) q = Inr d \<Longrightarrow> d = q" for d by (rule validated_same)
  ultimately show ?thesis using assms
    by (auto simp: snapshot_request_step_def Let_def result_bind_Inr dict_simps split: if_splits py_num.splits)
qed

lemma request_paths:
  "result_fold (snapshot_request_step E) rs st = Inr st' \<Longrightarrow>
   {p. dict_get (fst st') p \<noteq> None} = {p. dict_get (fst st) p \<noteq> None} \<union> fst ` set rs \<and> (dict_ok (fst st) \<longrightarrow> dict_ok (fst st'))"
proof (induction rs arbitrary: st)
  case (Cons r rs)
  then obtain m where m: "snapshot_request_step E r st = Inr m" "result_fold (snapshot_request_step E) rs m = Inr st'" by (auto simp: result_bind_Inr)
  show ?case using Cons.IH [OF m(2)] request_step_paths [OF m(1)] by auto
qed simp

lemma validated_request_paths:
  assumes "validated_snapshot_requests E requests = Inr v"
  shows "fst ` set v = fst ` set requests"
proof -
  obtain d cs where "result_fold (snapshot_request_step E) requests ([], []) = Inr (d, cs)" and v: "v = sort_key fst d"
    using assms by (auto simp: validated_snapshot_requests_def result_bind_Inr split: if_splits)
  then have "{p. dict_get d p \<noteq> None} = fst ` set requests" using request_paths [of E requests "([], [])" "(d, cs)"] by simp
  moreover have "{p. dict_get d p \<noteq> None} = fst ` set d" by (auto simp: map_of_eq_None_iff)
  ultimately show ?thesis by (simp add: v)
qed

end
