(* ===== verification/Run_Samples.thy ===== *)
theory Run_Samples
  imports Run_Sealing Run_Snapshots
begin

text \<open>
  A small Run: the sample directory holds one artifact and one event and is then sealed; its hashes are left symbolic.
  An event that is too long, a record without its newline and a directory with a reserved name are made from it.
\<close>

definition run_sample_time :: py_datetime where
  "run_sample_time = PyDatetime 1767225600000000 (Some (TzOffset (Some 0)))"

definition run_sample_stamp :: ustr where
  "run_sample_stamp = u ''2026-01-01T00:00:00Z''"

definition run_sample_env :: store_env where
  "run_sample_env =
     \<lparr>se_paths = \<lparr>pe_nfc = (\<lambda>s. s), pe_casefold = map ascii_lower, pe_control = (\<lambda>c. c < 32 \<or> c = 127)\<rparr>,
      se_db = \<lparr>uni_lower = map ascii_lower, uni_nfkc = (\<lambda>s. s), uni_to_ascii = (\<lambda>s. if is_ascii s then Some s else None)\<rparr>, se_float = no_floats, se_dump_json = json_dump no_floats,
      se_int = (\<lambda>v. case v of JvInt n \<Rightarrow> Some n | _ \<Rightarrow> None),
      se_datetime = (\<lambda>v. if v = JvStr run_sample_stamp then Some run_sample_time else None),
      se_iso = (\<lambda>d. if d = run_sample_time then run_sample_stamp else json_int (wall d)),
      se_default_uuid = (\<lambda>_. u ''0''), se_default_now = (\<lambda>_. run_sample_time)\<rparr>"

definition run_sample_run :: ustr where
  "run_sample_run = u ''run_20260101T000000Z_0123abcd''"

definition run_sample_io :: store_io where
  "run_sample_io = \<lparr>io_pinned = None, io_uuid = u ''0f'', io_now = run_sample_time, io_open_fails = False, io_writes = [10000], io_sync_fails = False,
     io_install = Installed\<rparr>"

definition run_sample_payload :: "(ustr \<times> jv) list" where
  "run_sample_payload = [(u ''artifact'', JvStr (u ''report.txt''))]"

definition run_sample_file :: "ustr \<times> run_node" where
  "run_sample_file = (u ''report.txt'', RegularFile (u ''ok'' @ [10]) 1)"

definition run_sample_draft :: stored_event where
  "run_sample_draft = draft_event run_sample_io run_sample_run [] (u ''run.created'') (Some run_sample_payload) None"

definition run_sample_hash :: ustr where
  "run_sample_hash = u (sha256_hex (json_dump no_floats (sort_keys (JvObj (event_material run_sample_env run_sample_draft)))))"

definition run_sample_event :: stored_event where
  "run_sample_event = run_sample_draft\<lparr>ae_event_hash := run_sample_hash\<rparr>"

definition plain :: "ustr \<Rightarrow> bool" where
  "plain s \<longleftrightarrow> list_all (\<lambda>c. 35 \<le> c \<and> c < 127 \<and> c \<noteq> 92) s"

definition run_sample_path :: ustr where
  "run_sample_path = u ''report.txt''"

definition run_sample_start :: run_store where
  "run_sample_start = new_store run_sample_run None [run_sample_file]"

definition run_sample_log :: run_files where
  "run_sample_log = with_record run_sample_env events_log (event_json run_sample_env run_sample_event) [run_sample_file]"

definition run_sample_artifact :: sealed_artifact where
  "run_sample_artifact = \<lparr>sa_path = run_sample_path, sa_sha256 = u (sha256_hex (u ''ok'' @ [10])), sa_size_bytes = 3,
     sa_media_type = u ''text/plain'',
     sa_provenance = Some \<lparr>ap_request_id = None, ap_tool_id = None, ap_execution_id = None, ap_event_ids = [u ''event_0f'']\<rparr>\<rparr>"

definition run_sample_state :: integrity_state where
  "run_sample_state = \<lparr>ig_run_id = run_sample_run, ig_events = [run_sample_event], ig_seals = [], ig_sealed_paths = [],
     ig_unsealed_paths = [run_sample_path]\<rparr>"

definition run_sample_artifact_root :: ustr where
  "run_sample_artifact_root = u (sha256_hex (json_dump no_floats (sort_keys (JvList [artifact_json run_sample_artifact]))))"

definition run_sample_seal_draft :: run_seal where
  "run_sample_seal_draft = new_seal run_sample_io run_sample_run run_sample_state [run_sample_artifact] run_sample_artifact_root"

definition run_sample_root :: ustr where
  "run_sample_root = u (sha256_hex (json_dump no_floats (sort_keys (JvObj (seal_material run_sample_env run_sample_seal_draft)))))"

definition run_sample_seal :: run_seal where
  "run_sample_seal = run_sample_seal_draft\<lparr>sl_root_digest := run_sample_root\<rparr>"

definition run_sample_sealed :: run_files where
  "run_sample_sealed = with_record run_sample_env integrity_log (seal_json run_sample_env run_sample_seal) run_sample_log"

definition lock_name :: ustr where
  "lock_name = u ''.pajin-run.lock''"

text \<open>An event whose payload is a text of four mebibytes.\<close>

definition big_text :: ustr where
  "big_text = replicate 4194304 97"

definition big_io :: store_io where
  "big_io = run_sample_io\<lparr>io_writes := [5000000]\<rparr>"

definition big_draft :: stored_event where
  "big_draft = draft_event big_io run_sample_run [] (u ''note'') (Some [(u ''text'', JvStr big_text)]) None"

definition big_hash :: ustr where
  "big_hash = u (sha256_hex (json_dump no_floats (sort_keys (JvObj (event_material run_sample_env big_draft)))))"

definition big_event :: stored_event where
  "big_event = big_draft\<lparr>ae_event_hash := big_hash\<rparr>"

text \<open>The log of the sample without its last byte, and an event that is appended to it.\<close>

definition torn_store :: run_store where
  "torn_store = new_store run_sample_run None (dict_set events_log (RegularFile (json_dump no_floats (event_json run_sample_env run_sample_event)) 1) [run_sample_file])"

definition torn_draft :: stored_event where
  "torn_draft = draft_event run_sample_io run_sample_run [run_sample_event] (u ''note'') None None"

definition torn_hash :: ustr where
  "torn_hash = u (sha256_hex (json_dump no_floats (sort_keys (JvObj (event_material run_sample_env torn_draft)))))"

definition torn_event :: stored_event where
  "torn_event = torn_draft\<lparr>ae_event_hash := torn_hash\<rparr>"

lemma run_sample_write: "rs_files (snd (store_write_text run_sample_env run_sample_io (u ''report.txt'') (u ''ok'') (new_store run_sample_run None []))) = [run_sample_file]"
  by code_simp

lemma write_at_once: "length b \<le> w \<Longrightarrow> 0 < w \<Longrightarrow> write_loop [w] b = (b, True)"
  by (cases b) auto

lemma canonical_ascii:
  "json_dumpable v \<Longrightarrow> is_ascii (json_dump (se_float E) (sort_keys v)) \<Longrightarrow>
   canonical_digest E v = Inr (u (sha256_hex (json_dump (se_float E) (sort_keys v))))"
  by (simp only: canonical_digest_def utf8_encode_ascii option.case not_not simp_thms if_False)

lemma run_sample_codec: "ints_read run_sample_env" "datetime_reads run_sample_env run_sample_time" "compact_dump run_sample_env no_floats" "se_float run_sample_env = no_floats"
  "se_iso run_sample_env run_sample_time = run_sample_stamp" "io_now run_sample_io = run_sample_time" "is_aware run_sample_time" "pinned_ok run_sample_io (new_store r None F)"
  "\<not> io_sync_fails run_sample_io \<and> \<not> io_open_fails run_sample_io"
  by (simp_all add: ints_read_def datetime_reads_def compact_dump_def run_sample_env_def run_sample_io_def is_aware_def utcoffset_def run_sample_time_def
      pinned_ok_def new_store_def)

text \<open>A text of at most 10000 ASCII characters is written at once and reads back.\<close>

lemma run_sample_line:
  assumes "is_ascii (json_dump no_floats v)" "length (json_dump no_floats v) < 10000"
  shows "line_written run_sample_env run_sample_io v" "record_line run_sample_env v = json_dump no_floats v @ [10]"
    and "exact_value no_floats v \<Longrightarrow> distinct_keys v \<Longrightarrow> json_dumpable v \<Longrightarrow> jv_height v \<le> 64 \<Longrightarrow> jv_tokens v \<le> 200000 \<Longrightarrow> 10000 \<le> m \<Longrightarrow>
      line_reads run_sample_env m v"
proof -
  let ?s = "json_dump no_floats v"
  have ascii: "is_ascii (?s @ [10])" using assms(1) by (simp add: is_ascii_def)
  have "write_loop [10000] (?s @ [10]) = (?s @ [10], True)" by (rule write_at_once) (use assms(2) in auto)
  then show "line_written run_sample_env run_sample_io v"
    by (simp add: line_written_def utf8_encode_ascii [OF ascii] run_sample_env_def run_sample_io_def)
  show "record_line run_sample_env v = ?s @ [10]" by (simp add: record_line_def run_sample_env_def utf8_encode_ascii [OF ascii])
  show "line_reads run_sample_env m v" if "exact_value no_floats v" "distinct_keys v" "json_dumpable v" "jv_height v \<le> 64" "jv_tokens v \<le> 200000" "10000 \<le> m"
    by (rule compact_line_reads [OF run_sample_codec(3) that(1,2) utf8_encode_ascii [OF assms(1)]]) (use that assms(2) in auto)
qed

lemma run_sample_draft_material:
  "json_dumpable (JvObj (event_material run_sample_env run_sample_draft))"
  "is_ascii (json_dump no_floats (sort_keys (JvObj (event_material run_sample_env run_sample_draft))))"
  "valid_event run_sample_draft"
  by code_simp+

lemma run_sample_may_append: "may_append run_sample_env run_sample_io run_sample_run [] (u ''run.created'') (Some run_sample_payload) None run_sample_hash"
proof -
  have "computed_hash run_sample_env run_sample_draft = Inr run_sample_hash"
    using canonical_ascii [OF run_sample_draft_material(1), of run_sample_env] run_sample_draft_material(2)
    by (simp only: computed_hash_def run_sample_hash_def run_sample_codec(4))
  then show ?thesis using run_sample_draft_material(3) by (simp add: may_append_def run_sample_draft_def)
qed

lemma run_sample_event_fields:
  "ae_event_id run_sample_event = u ''event_0f''" "ae_run_id run_sample_event = run_sample_run" "ae_sequence run_sample_event = 1"
  "ae_event_type run_sample_event = u ''run.created''" "ae_occurred_at run_sample_event = run_sample_time" "ae_payload run_sample_event = run_sample_payload"
  "ae_previous_hash run_sample_event = None" "ae_event_hash run_sample_event = run_sample_hash"
  by (simp_all add: run_sample_event_def run_sample_draft_def draft_event_def run_sample_io_def u_def)

lemma plain_text: "plain s \<Longrightarrow> json_string s = 34 # s @ [34] \<and> is_ascii s"
proof -
  assume "plain s"
  then have "map json_escape s = map (\<lambda>c. [c]) s" "is_ascii s" by (auto simp: plain_def list_all_iff json_escape_def is_ascii_def)
  then have "concat (map json_escape s) = s" "is_ascii s" by (simp_all del: map_eq_conv)
  then show ?thesis by (simp add: json_string_def)
qed

lemma plain_u: "plain (u s) \<longleftrightarrow> list_all (\<lambda>c. 35 \<le> (of_char c :: nat) \<and> (of_char c :: nat) < 127 \<and> (of_char c :: nat) \<noteq> 92) s"
  "length (u s) = length s"
  by (simp_all add: plain_def u_def list_all_iff)

lemma plain_hash: "hash_pattern h \<Longrightarrow> plain h \<and> length h = 64"
  by (auto simp: hash_pattern_def plain_def list_all_iff)

lemma ascii_simps: "is_ascii []" "is_ascii (c # s) \<longleftrightarrow> c < 128 \<and> is_ascii s" "is_ascii (s @ t) \<longleftrightarrow> is_ascii s \<and> is_ascii t"
  by (simp_all add: is_ascii_def)

lemma run_sample_texts: "json_int 1 = [49]" "plain run_sample_run" "plain run_sample_stamp" "length run_sample_run = 29" "length run_sample_stamp = 20"
  by code_simp+

lemma run_sample_hash_text: "plain run_sample_hash" "length run_sample_hash = 64"
  using plain_hash [of run_sample_hash] by (simp_all add: run_sample_hash_def)

lemmas text_simps = plain_text plain_u ascii_simps run_sample_texts run_sample_hash_text jv_optional_def

lemma run_sample_event_line:
  "is_ascii (json_dump no_floats (event_json run_sample_env run_sample_event))" "length (json_dump no_floats (event_json run_sample_env run_sample_event)) < 10000"
  by (simp_all add: event_json_def event_material_def run_sample_event_fields run_sample_codec run_sample_payload_def text_simps)

lemma run_sample_event_shape:
  "exact_value no_floats (event_json run_sample_env run_sample_event)" "exact_value no_floats (JvObj (ae_payload run_sample_event))"
  "distinct_keys (event_json run_sample_env run_sample_event)" "distinct_keys (JvObj (ae_payload run_sample_event))"
  "json_dumpable (event_json run_sample_env run_sample_event)"
  "jv_height (event_json run_sample_env run_sample_event) \<le> 64" "jv_tokens (event_json run_sample_env run_sample_event) \<le> 200000"
  by (simp_all add: event_json_def event_material_def run_sample_event_fields exact_value_simps exact_small_int jv_optional_def run_sample_payload_def u_def)

lemma run_sample_event_fits: "record_fits run_sample_env MAX_AUDIT_EVENT_RECORD_BYTES (event_json run_sample_env run_sample_event)"
  using run_sample_event_shape(6,7) run_sample_event_line(2)
  by (simp add: record_fits_def run_sample_line(2) [OF run_sample_event_line] MAX_AUDIT_EVENT_RECORD_BYTES_def)

lemma run_sample_event_reads: "line_reads run_sample_env MAX_AUDIT_EVENT_RECORD_BYTES (event_json run_sample_env run_sample_event)"
  by (rule run_sample_line(3) [OF run_sample_event_line run_sample_event_shape(1,3,5-7)]) (simp add: MAX_AUDIT_EVENT_RECORD_BYTES_def)

lemma run_sample_start_good: "log_good run_sample_env (rs_run_id run_sample_start) (rs_files run_sample_start) []" "rs_files run_sample_start = [run_sample_file]"
  "rs_run_id run_sample_start = run_sample_run"
  by (simp_all add: log_good_def log_loads_def log_bytes_def terminated_def run_sample_start_def new_store_def run_sample_file_def events_log_def u_def)

lemma run_sample_appends:
  "\<exists>t. store_append_event run_sample_env run_sample_io (u ''run.created'') (Some run_sample_payload) None run_sample_start = (Inr run_sample_event, t) \<and>
    rs_run_id t = run_sample_run \<and> rs_pinned t = None \<and> rs_files t = run_sample_log"
  using append_event_succeeds [OF log_good_loads [OF run_sample_start_good(1)], of run_sample_io "u ''run.created''" "Some run_sample_payload" None run_sample_hash run_sample_event]
    run_sample_may_append run_sample_line(1) [OF run_sample_event_line] run_sample_codec(8)
  by (simp add: run_sample_start_good run_sample_event_def run_sample_draft_def run_sample_log_def) (simp add: run_sample_start_def new_store_def)

lemma run_sample_room: "event_room run_sample_env [run_sample_file] [] (event_json run_sample_env run_sample_event)"
  using run_sample_event_line(2)
  by (simp add: event_room_def run_sample_line(2) [OF run_sample_event_line] log_bytes_def run_sample_file_def events_log_def u_def
      MAX_EVENT_LOG_BYTES_def MAX_AUDIT_EVENT_RECORDS_def)

lemma run_sample_log_good: "log_good run_sample_env run_sample_run run_sample_log [run_sample_event]"
  unfolding run_sample_log_def
  by (rule log_good_appended [OF run_sample_start_good(1) [unfolded run_sample_start_good], of run_sample_io "u ''run.created''" "Some run_sample_payload" None run_sample_hash, simplified])
    (use run_sample_may_append run_sample_codec run_sample_event_reads run_sample_room in \<open>simp_all add: run_sample_event_def run_sample_draft_def draft_event_def\<close>)

lemma run_sample_index: "index_from_events [run_sample_event] = index_from_events [run_sample_draft]"
  by (simp add: index_from_events_def index_add_def run_sample_event_def)

lemma run_sample_sources:
  "artifact_provenance_of run_sample_env [run_sample_file] run_sample_path (index_from_events [run_sample_draft]) =
     Inr (Some \<lparr>ap_request_id = None, ap_tool_id = None, ap_execution_id = None, ap_event_ids = [u ''event_0f'']\<rparr>)"
  "utf8_encode run_sample_path = Some (u ''report.txt'')" "media_type_of run_sample_env run_sample_path = u ''text/plain''" "run_sample_path \<noteq> events_log"
  "run_sample_path \<noteq> integrity_log" "artifact_paths run_sample_env [run_sample_file] = Inr [run_sample_path]"
  "[run_sample_file] = [(run_sample_path, RegularFile (u ''ok'' @ [10]) 1)]" "length (u ''ok'' @ [10]) = 3"
  "dict_get [run_sample_file] events_log = None" "dict_get [run_sample_file] integrity_log = None" "events_log \<in> set RESERVED_ARTIFACTS"
  "events_log \<noteq> integrity_log"
  by code_simp+

lemma run_sample_record: "artifact_record run_sample_env run_sample_log run_sample_path (index_from_events [run_sample_event]) = Inr run_sample_artifact"
proof -
  have "dict_get [run_sample_file] run_sample_path = Some (RegularFile (u ''ok'' @ [10]) 1)" by (simp add: run_sample_sources(7))
  then have "artifact_record run_sample_env [run_sample_file] run_sample_path (index_from_events [run_sample_draft]) = Inr run_sample_artifact"
    unfolding artifact_record_def run_sample_artifact_def by (simp only: option.case run_node.case run_sample_sources(1-3,8) run_sample_index) simp
  then show ?thesis unfolding run_sample_log_def with_record_def artifact_record_other [OF run_sample_sources(4)] run_sample_index .
qed

lemma run_sample_log_loads: "load_events run_sample_env (dict_get run_sample_log events_log) None = Inr [run_sample_event]"
  using run_sample_log_good load_events_unnamed by (auto simp: log_good_def log_loads_def split: option.splits run_node.splits)

lemma run_sample_integrity_state: "integrity_state_of run_sample_env run_sample_log True = Inr run_sample_state"
proof -
  have paths: "artifact_paths run_sample_env run_sample_log = Inr [run_sample_path]"
    using artifact_paths_reserved [OF run_sample_sources(11), of "[run_sample_file]"] run_sample_sources(6,9)
    by (simp add: run_sample_log_def with_record_def)
  have seals: "load_seals run_sample_env (dict_get run_sample_log integrity_log) r = Inr []" for r
    using run_sample_sources(10,12) by (auto simp: run_sample_log_def with_record_def dict_simps load_seals_def split: if_splits)
  show ?thesis unfolding integrity_state_of_def run_sample_log_loads
    by (simp add: Let_def seals paths run_sample_event_fields run_sample_state_def)
qed

lemma run_sample_artifact_text: "plain (sa_sha256 run_sample_artifact)" "length (sa_sha256 run_sample_artifact) = 64"
  using plain_hash [of "sa_sha256 run_sample_artifact"] by (simp_all add: run_sample_artifact_def)

lemma run_sample_artifact_json:
  "artifact_json run_sample_artifact = JvObj [(u ''path'', JvStr run_sample_path), (u ''sha256'', JvStr (sa_sha256 run_sample_artifact)), (u ''size_bytes'', JvInt 3),
     (u ''media_type'', JvStr (u ''text/plain'')), (u ''provenance'', JvObj [(u ''request_id'', JvNull), (u ''tool_id'', JvNull),
       (u ''execution_id'', JvNull), (u ''event_ids'', JvList [JvStr (u ''event_0f'')])])]"
  by (simp add: artifact_json_def run_sample_artifact_def provenance_json_def jv_optional_def)

lemma ascii_join: "is_ascii (join_commas xs) \<longleftrightarrow> list_all is_ascii xs"
  by (induction xs rule: join_commas.induct) (auto simp: ascii_simps)

lemma ascii_dump: "is_ascii (json_dump fr v) \<longleftrightarrow> jv_all (\<lambda>w. case w of JvStr s \<Rightarrow> is_ascii (json_string s) | JvFloat x \<Rightarrow> is_ascii (fr x) | _ \<Rightarrow> True) (\<lambda>k. is_ascii (json_string k)) v"
proof (induction v)
  case (JvInt i)
  have "is_ascii (decimal n)" for n using decimal_digits(1) [of n] by (auto simp: is_ascii_def list_all_iff ascii_digit_def)
  then show ?case by (simp add: json_int_def ascii_simps)
next
  case (JvList vs)
  then show ?case by (simp add: ascii_simps ascii_join list_all_iff)
next
  case (JvObj kvs)
  then show ?case by (fastforce simp: ascii_simps ascii_join list_all_iff snds.simps)
qed (simp_all add: ascii_simps is_ascii_def u_def)

lemma ascii_sorted: "is_ascii (json_dump fr (sort_keys v)) \<longleftrightarrow> is_ascii (json_dump fr v)"
  unfolding ascii_dump sort_keys_all ..

lemma run_sample_short_texts: "json_int 3 = [51]" "plain run_sample_path" "length run_sample_path = 10" "plain (u ''seal_'' @ u ''0f'')"
  by code_simp+

lemmas run_sample_text_simps = text_simps run_sample_artifact_text run_sample_short_texts run_sample_artifact_json

lemma run_sample_artifact_digest: "canonical_digest run_sample_env (JvList [artifact_json run_sample_artifact]) = Inr run_sample_artifact_root"
proof -
  have "json_dumpable (JvList [artifact_json run_sample_artifact])" by (simp add: run_sample_artifact_json)
  moreover have "is_ascii (json_dump no_floats (JvList [artifact_json run_sample_artifact]))" by (simp add: run_sample_text_simps)
  ultimately show ?thesis using canonical_ascii [of "JvList [artifact_json run_sample_artifact]" run_sample_env]
    unfolding run_sample_codec(4) ascii_sorted run_sample_artifact_root_def by blast
qed

lemma run_sample_seal_fields:
  "sl_api_version run_sample_seal_draft = INTEGRITY_API_VERSION" "sl_seal_id run_sample_seal_draft = u ''seal_'' @ u ''0f''"
  "sl_run_id run_sample_seal_draft = run_sample_run" "sl_sequence run_sample_seal_draft = 1" "sl_sealed_at run_sample_seal_draft = run_sample_time"
  "sl_previous_root_digest run_sample_seal_draft = None" "sl_event_count run_sample_seal_draft = 1" "sl_event_head_hash run_sample_seal_draft = run_sample_hash"
  "sl_artifact_root_digest run_sample_seal_draft = run_sample_artifact_root" "sl_artifacts run_sample_seal_draft = [run_sample_artifact]"
  by (simp_all add: run_sample_seal_draft_def new_seal_def run_sample_state_def run_sample_io_def run_sample_event_fields)

lemma run_sample_root_text: "plain run_sample_artifact_root" "length run_sample_artifact_root = 64" "plain run_sample_root" "length run_sample_root = 64"
  "plain INTEGRITY_API_VERSION" "length INTEGRITY_API_VERSION < 100"
  using plain_hash [of run_sample_artifact_root] plain_hash [of run_sample_root]
  by (simp_all add: run_sample_artifact_root_def run_sample_root_def INTEGRITY_API_VERSION_def plain_u)

lemma run_sample_material_line: "is_ascii (json_dump no_floats (JvObj (seal_material run_sample_env run_sample_seal_draft)))"
  by (simp add: seal_material_def run_sample_seal_fields run_sample_codec run_sample_text_simps run_sample_root_text)

lemma run_sample_root_digest: "computed_root_digest run_sample_env run_sample_seal_draft = Inr run_sample_root"
proof -
  have "json_dumpable (JvObj (seal_material run_sample_env run_sample_seal_draft))"
    by (simp add: seal_material_def run_sample_seal_fields run_sample_artifact_json jv_optional_def)
  then show ?thesis using canonical_ascii [of "JvObj (seal_material run_sample_env run_sample_seal_draft)" run_sample_env] run_sample_material_line
    unfolding run_sample_codec(4) ascii_sorted run_sample_root_def computed_root_digest_def by blast
qed

lemma run_sample_seal_json: "seal_json run_sample_env run_sample_seal = JvObj (seal_material run_sample_env run_sample_seal_draft @ [(u ''root_digest'', JvStr run_sample_root)])"
  by (simp add: seal_json_def seal_material_def run_sample_seal_def)

lemma run_sample_seal_line:
  "is_ascii (json_dump no_floats (seal_json run_sample_env run_sample_seal))" "length (json_dump no_floats (seal_json run_sample_env run_sample_seal)) < 10000"
  using run_sample_root_text(6)
  by (simp_all add: run_sample_seal_json seal_material_def run_sample_seal_fields run_sample_codec run_sample_text_simps run_sample_root_text(1-5))

lemma run_sample_seal_reads: "line_reads run_sample_env MAX_INTEGRITY_SEAL_RECORD_BYTES (seal_json run_sample_env run_sample_seal)"
proof (rule run_sample_line(3) [OF run_sample_seal_line])
  show "exact_value no_floats (seal_json run_sample_env run_sample_seal)"
    by (simp add: run_sample_seal_json seal_material_def run_sample_seal_fields exact_value_simps exact_small_int jv_optional_def run_sample_artifact_json)
  show "distinct_keys (seal_json run_sample_env run_sample_seal)" "json_dumpable (seal_json run_sample_env run_sample_seal)"
    "jv_height (seal_json run_sample_env run_sample_seal) \<le> 64" "jv_tokens (seal_json run_sample_env run_sample_seal) \<le> 200000"
    by (simp_all add: run_sample_seal_json seal_material_def run_sample_seal_fields jv_optional_def run_sample_artifact_json u_def)
qed (simp add: MAX_INTEGRITY_SEAL_RECORD_BYTES_def)

lemma run_sample_seals:
  assumes "rs_files s = run_sample_log" "rs_run_id s = run_sample_run" "rs_pinned s = None"
  shows "\<exists>t. store_seal run_sample_env run_sample_io s = (Inr run_sample_seal, t) \<and> rs_files t = run_sample_sealed \<and> rs_run_id t = run_sample_run \<and> rs_pinned t = None"
proof -
  define m where "m = s\<lparr>rs_path_identities := None, rs_event_count := Some (int (length [run_sample_event])),
      rs_event_head_hash := (if [run_sample_event] = [] then None else Some (ae_event_hash (last [run_sample_event]))),
      rs_campaign_terminal_event := map_option ae_event_type (List.find is_terminal [run_sample_event])\<rparr>"
  have m: "rs_files m = run_sample_log" "rs_run_id m = run_sample_run" "rs_pinned m = None" using assms by (simp_all add: m_def)
  have good: "log_loads run_sample_env (rs_run_id s) (rs_files s) [run_sample_event]" using log_good_loads [OF run_sample_log_good] assms by simp
  have none: "dict_get run_sample_log integrity_log = None"
    using run_sample_sources(10,12) by (auto simp: run_sample_log_def with_record_def dict_simps split: if_splits)
  have "seal_locked run_sample_env run_sample_io m = (Inr run_sample_seal, m\<lparr>rs_files := with_record run_sample_env integrity_log (seal_json run_sample_env run_sample_seal) (rs_files m)\<rparr>)"
  proof (rule seal_returns_when)
    show "integrity_state_of run_sample_env (rs_files m) True = Inr run_sample_state" using run_sample_integrity_state m by simp
    show "ig_run_id run_sample_state = rs_run_id m" "ig_seals run_sample_state = [] \<or> ig_unsealed_paths run_sample_state \<noteq> [] \<or>
        sl_event_count (last (ig_seals run_sample_state)) \<noteq> int (length (ig_events run_sample_state))" by (simp_all add: run_sample_state_def m)
    show "artifact_records run_sample_env (rs_files m) (index_from_events (ig_events run_sample_state)) (ig_unsealed_paths run_sample_state) = Inr [run_sample_artifact]"
      by (simp add: run_sample_state_def m run_sample_record)
    show "canonical_digest run_sample_env (JvList (map artifact_json (sort_key sa_path [run_sample_artifact]))) = Inr run_sample_artifact_root"
      using run_sample_artifact_digest by simp
    show "computed_root_digest run_sample_env (new_seal run_sample_io (rs_run_id m) run_sample_state (sort_key sa_path [run_sample_artifact]) run_sample_artifact_root) = Inr run_sample_root"
      using run_sample_root_digest by (simp add: m run_sample_seal_draft_def)
    show "run_sample_seal = (new_seal run_sample_io (rs_run_id m) run_sample_state (sort_key sa_path [run_sample_artifact]) run_sample_artifact_root)\<lparr>sl_root_digest := run_sample_root\<rparr>"
      by (simp add: m run_sample_seal_def run_sample_seal_draft_def)
    show "line_written run_sample_env run_sample_io (seal_json run_sample_env run_sample_seal)" by (rule run_sample_line(1) [OF run_sample_seal_line])
    show "is_aware (io_now run_sample_io)" by (simp add: run_sample_codec)
    show "utf8_encode (u ''seal_'' @ io_uuid run_sample_io) \<noteq> None" "utf8_encode (rs_run_id m) \<noteq> None" unfolding m by code_simp+
  qed (use none m in simp)
  moreover have "pinned_ok run_sample_io s" using assms by (simp add: pinned_ok_def)
  ultimately show ?thesis unfolding store_seal_def mutation_good [OF good] m_def [symmetric] by (simp add: m run_sample_sealed_def)
qed

lemma run_sample_log_ok: "dict_ok run_sample_log" "dict_ok run_sample_sealed"
proof -
  have "dict_ok [run_sample_file]" by (simp add: dict_ok_def)
  then show "dict_ok run_sample_log" unfolding run_sample_log_def with_record_def by (rule dict_ok_set)
  then show "dict_ok run_sample_sealed" unfolding run_sample_sealed_def with_record_def by (rule dict_ok_set)
qed

lemma run_sample_seals_good: "seals_good run_sample_env run_sample_run run_sample_log []" "seal_room run_sample_env run_sample_log [] (seal_json run_sample_env run_sample_seal)"
proof -
  have none: "dict_get run_sample_log integrity_log = None"
    using run_sample_sources(10,12) by (auto simp: run_sample_log_def with_record_def dict_simps split: if_splits)
  then show "seals_good run_sample_env run_sample_run run_sample_log []" by (simp add: seals_good_def)
  show "seal_room run_sample_env run_sample_log [] (seal_json run_sample_env run_sample_seal)"
    using none run_sample_seal_line(2) by (simp add: seal_room_def log_bytes_def run_sample_line(2) [OF run_sample_seal_line] MAX_INTEGRITY_LOG_BYTES_def MAX_INTEGRITY_SEAL_RECORDS_def)
qed

lemma run_sample_verifies: "\<exists>v. verify_run_integrity run_sample_env run_sample_sealed = Inr v \<and> rv_root_digest v = run_sample_root"
proof -
  obtain t where t: "store_seal run_sample_env run_sample_io (new_store run_sample_run None run_sample_log) = (Inr run_sample_seal, t)" "rs_files t = run_sample_sealed"
    using run_sample_seals [of "new_store run_sample_run None run_sample_log"] by (auto simp: new_store_def)
  show ?thesis
    using returned_seal_verifies [OF _ _ t(1) run_sample_codec(1), of "[]"] run_sample_log_ok(1) run_sample_seals_good run_sample_seal_reads run_sample_codec(2)
    by (auto simp: t(2) new_store_def run_sample_seal_def run_sample_seal_fields)
qed

lemma run_sample_gets:
  "dict_get run_sample_log p = (if p = events_log then Some (RegularFile (json_dump no_floats (event_json run_sample_env run_sample_event) @ [10]) 1)
     else if p = run_sample_path then Some (RegularFile (u ''ok'' @ [10]) 1) else None)"
  "dict_get run_sample_sealed p = (if p = integrity_log then Some (RegularFile (json_dump no_floats (seal_json run_sample_env run_sample_seal) @ [10]) 1)
     else dict_get run_sample_log p)"
proof -
  have files: "dict_get [run_sample_file] p = (if p = run_sample_path then Some (RegularFile (u ''ok'' @ [10]) 1) else None)" for p
    unfolding run_sample_sources(7) by simp
  have bytes: "log_bytes events_log [run_sample_file] = []" unfolding log_bytes_def run_sample_sources(9) by simp
  show log: "dict_get run_sample_log p = (if p = events_log then Some (RegularFile (json_dump no_floats (event_json run_sample_env run_sample_event) @ [10]) 1)
     else if p = run_sample_path then Some (RegularFile (u ''ok'' @ [10]) 1) else None)" for p
    unfolding run_sample_log_def with_record_def bytes run_sample_line(2) [OF run_sample_event_line] dict_simps files by simp
  have bytes': "log_bytes integrity_log run_sample_log = []"
    unfolding log_bytes_def log using run_sample_sources(5,12) by auto
  show "dict_get run_sample_sealed p = (if p = integrity_log then Some (RegularFile (json_dump no_floats (seal_json run_sample_env run_sample_seal) @ [10]) 1)
     else dict_get run_sample_log p)"
    unfolding run_sample_sealed_def with_record_def bytes' run_sample_line(2) [OF run_sample_seal_line] dict_simps by simp
qed

lemma run_sample_path_free: "run_sample_path \<notin> set RESERVED_ARTIFACTS" by code_simp

lemma run_sample_sealed_loads: "load_events run_sample_env (dict_get run_sample_sealed events_log) None = Inr [run_sample_event]"
  using run_sample_log_loads run_sample_sources(12) by (simp add: run_sample_gets(2))

lemma run_sample_sealed_state:
  "\<exists>st. integrity_state_of run_sample_env run_sample_sealed True = Inr st \<and> ig_run_id st = run_sample_run \<and> run_sample_path \<in> set (ig_sealed_paths st)"
proof -
  obtain st where st: "integrity_state_of run_sample_env run_sample_sealed False = Inr st"
    using run_sample_verifies by (auto simp: verify_run_integrity_def result_bind_Inr)
  note v = verified_state [OF st]
  have "dict_get run_sample_sealed run_sample_path = Some (RegularFile (u ''ok'' @ [10]) 1)"
    using run_sample_sources(4,5) by (simp add: run_sample_gets)
  then have "run_sample_path \<in> set (ig_sealed_paths st)" using v(6,8) run_sample_path_free map_of_SomeD by fastforce
  moreover have "ig_run_id st = run_sample_run" using v(1,2) run_sample_sealed_loads by (auto simp: run_sample_event_fields dest: sym)
  ultimately show ?thesis using integrity_state_allow [OF st] by blast
qed

lemma run_sample_exact_run: "exact_run run_sample_env run_sample_sealed"
proof -
  have "int (length c) < 2 ^ 63" if "file_content run_sample_sealed p = Some c" for p c
    using that run_sample_event_line(2) run_sample_seal_line(2) run_sample_sources(8)
    by (auto simp: file_content_def run_sample_gets split: if_splits)
  moreover have "run_events run_sample_env run_sample_sealed = [run_sample_event]" by (simp add: run_events_def run_sample_sealed_loads)
  ultimately show ?thesis by (simp add: exact_run_def run_sample_event_fields run_sample_payload_def exact_value_simps run_sample_codec)
qed

lemma big_texts: "plain big_text" "length big_text = 4194304" "plain big_hash" "length big_hash = 64"
  using plain_hash [of big_hash] by (simp_all add: big_text_def plain_def list_all_iff big_hash_def)

lemma big_fields:
  "ae_event_id big_draft = u ''event_'' @ u ''0f''" "ae_run_id big_draft = run_sample_run" "ae_sequence big_draft = 1"
  "ae_event_type big_draft = u ''note''" "ae_occurred_at big_draft = run_sample_time" "ae_payload big_draft = [(u ''text'', JvStr big_text)]"
  "ae_previous_hash big_draft = None"
  by (simp_all add: big_draft_def draft_event_def big_io_def run_sample_io_def)

lemma plain_append: "plain (s @ t) \<longleftrightarrow> plain s \<and> plain t"
  by (simp add: plain_def)

lemma big_material: "is_ascii (json_dump no_floats (JvObj (event_material run_sample_env big_draft)))" "json_dumpable (JvObj (event_material run_sample_env big_draft))"
  by (simp_all add: event_material_def big_fields run_sample_codec text_simps big_texts plain_append)

lemma plain_encodes: "plain s \<Longrightarrow> utf8_encode s \<noteq> None"
  using plain_text utf8_encode_ascii by fastforce

lemma big_may_append: "may_append run_sample_env big_io run_sample_run [] (u ''note'') (Some [(u ''text'', JvStr big_text)]) None big_hash"
proof -
  have "computed_hash run_sample_env big_draft = Inr big_hash"
    using canonical_ascii [OF big_material(2), of run_sample_env] big_material(1)
    unfolding run_sample_codec(4) ascii_sorted computed_hash_def big_hash_def by blast
  moreover have "valid_event big_draft"
    using plain_encodes by (simp add: valid_event_def big_fields run_sample_codec plain_append plain_u run_sample_texts)
  moreover have "u ''note'' \<notin> set CAMPAIGN_TERMINAL_EVENTS" by code_simp
  ultimately show ?thesis unfolding may_append_def big_draft_def [symmetric] by simp
qed

lemma big_dump:
  "is_ascii (json_dump no_floats (event_json run_sample_env big_event))" "4194304 \<le> length (json_dump no_floats (event_json run_sample_env big_event))"
  "length (json_dump no_floats (event_json run_sample_env big_event)) < 4999999"
proof -
  have "event_json run_sample_env big_event = JvObj (event_material run_sample_env big_draft @ [(u ''event_hash'', JvStr big_hash)])"
    by (simp add: event_json_def event_material_def big_event_def)
  then show "is_ascii (json_dump no_floats (event_json run_sample_env big_event))" "4194304 \<le> length (json_dump no_floats (event_json run_sample_env big_event))"
    "length (json_dump no_floats (event_json run_sample_env big_event)) < 4999999"
    by (simp_all add: event_material_def big_fields run_sample_codec text_simps big_texts plain_append)
qed

lemma big_appends:
  "\<exists>t. store_append_event run_sample_env big_io (u ''note'') (Some [(u ''text'', JvStr big_text)]) None run_sample_start = (Inr big_event, t)"
proof -
  let ?s = "json_dump no_floats (event_json run_sample_env big_event)"
  have ascii: "is_ascii (?s @ [10])" using big_dump(1) by (simp add: ascii_simps)
  have "write_loop [5000000] (?s @ [10]) = (?s @ [10], True)" by (rule write_at_once) (use big_dump(3) in auto)
  then have "line_written run_sample_env big_io (event_json run_sample_env big_event)"
    using run_sample_codec(3,9) by (simp add: line_written_def compact_dump_def utf8_encode_ascii [OF ascii] big_io_def)
  moreover have "pinned_ok big_io run_sample_start" by (simp add: pinned_ok_def run_sample_start_def new_store_def)
  ultimately show ?thesis
    using append_event_succeeds [OF log_good_loads [OF run_sample_start_good(1)], of big_io "u ''note''" "Some [(u ''text'', JvStr big_text)]" None big_hash big_event] big_may_append
    by (auto simp: run_sample_start_good big_event_def big_draft_def)
qed

lemma run_sample_sealed_seals: "load_seals run_sample_env (dict_get run_sample_sealed integrity_log) run_sample_run = Inr [run_sample_seal]"
proof -
  obtain t where t: "store_seal run_sample_env run_sample_io (new_store run_sample_run None run_sample_log) = (Inr run_sample_seal, t)" "rs_files t = run_sample_sealed"
    using run_sample_seals [of "new_store run_sample_run None run_sample_log"] by (auto simp: new_store_def)
  show ?thesis
    using returned_seal_verifies [OF _ _ t(1) run_sample_codec(1), of "[]"] run_sample_log_ok(1) run_sample_seals_good run_sample_seal_reads run_sample_codec(2)
    by (auto simp: t(2) new_store_def run_sample_seal_def run_sample_seal_fields)
qed

lemma run_sample_eqs: "event_eq run_sample_event run_sample_event" "seal_eq run_sample_seal run_sample_seal"
  by (simp_all add: event_eq_def run_sample_event_fields run_sample_payload_def seal_eq_def py_datetime_eq_def utcoffset_def run_sample_time_def run_sample_seal_def run_sample_seal_fields)

lemma run_sample_requests: "validated_snapshot_requests run_sample_env [(run_sample_path, PyInt 100)] = Inr [(run_sample_path, 100)]"
  by code_simp

lemma run_sample_snapshot:
  "\<exists>snap. load_verified_run_artifacts run_sample_env run_sample_sealed run_sample_sealed run_sample_sealed [(run_sample_path, PyInt 100)] None = Inr snap \<and>
     sn_artifacts snap = [(run_sample_path, u ''ok'' @ [10])]"
proof -
  obtain st where st: "integrity_state_of run_sample_env run_sample_sealed False = Inr st"
    using run_sample_verifies by (auto simp: verify_run_integrity_def result_bind_Inr)
  have ev: "ig_events st = [run_sample_event]" using verified_state(1) [OF st] run_sample_sealed_loads by simp
  then have "ig_run_id st = run_sample_run" using verified_state(2) [OF st] by (simp add: run_sample_event_fields)
  then have se: "ig_seals st = [run_sample_seal]" using verified_state(3) [OF st] run_sample_sealed_seals by simp
  have recs: "sealed_artifact_records [run_sample_seal] = Inr [(run_sample_path, run_sample_artifact)]"
    by (simp add: sealed_artifact_records_def run_sample_seal_def run_sample_seal_fields) (simp add: run_sample_artifact_def)
  have get: "dict_get run_sample_sealed run_sample_path = Some (RegularFile (u ''ok'' @ [10]) 1)"
    using run_sample_sources(4,5) by (simp add: run_sample_gets)
  have bind: "bind_snapshot_artifact_bytes [(run_sample_path, u ''ok'' @ [10])] [(run_sample_path, run_sample_artifact)] = Inr ()"
    using run_sample_sources(8) by (simp add: bind_snapshot_artifact_bytes_def bind_snapshot_artifact_def run_sample_artifact_def)
  have load: "load_snapshot_artifact_bytes run_sample_sealed [(run_sample_path, 100)] [(run_sample_path, run_sample_artifact)] = Inr [(run_sample_path, u ''ok'' @ [10])]"
    using bind run_sample_sources(8) by (simp add: load_snapshot_artifact_bytes_def load_snapshot_step_def get read_bounded_regular_bytes_def)
  show ?thesis unfolding load_verified_run_artifacts_def run_sample_requests st
    by (simp add: ev se recs load bind run_sample_eqs)
qed

lemma run_sample_lock: "verify_run_integrity run_sample_env (dict_set lock_name (RegularFile [] 1) run_sample_sealed) = verify_run_integrity run_sample_env run_sample_sealed"
proof (rule verify_reserved)
  show lock: "lock_name \<in> set RESERVED_ARTIFACTS" "lock_name \<noteq> events_log" "lock_name \<noteq> integrity_log" by code_simp+
  then show "dict_get run_sample_sealed lock_name = None \<or> (\<exists>c l. dict_get run_sample_sealed lock_name = Some (RegularFile c l))"
    by (simp add: run_sample_gets)
qed

lemma run_sample_lock_exact: "exact_run run_sample_env (dict_set lock_name (RegularFile [] 1) run_sample_sealed)"
proof -
  have "lock_name \<noteq> events_log" by code_simp
  then have "run_events run_sample_env (dict_set lock_name (RegularFile [] 1) run_sample_sealed) = run_events run_sample_env run_sample_sealed"
    by (simp add: run_events_def dict_simps)
  then show ?thesis using run_sample_exact_run by (auto simp: exact_run_def file_content_def dict_simps)
qed

lemma run_sample_claim:
  "fst (store_write_json_create_only run_sample_env run_sample_io (u ''requests/a.json'') JvNull (new_store run_sample_run None [])) = Inr (u ''requests/a.json'')"
  by code_simp

lemma big_no_newline: "10 \<notin> set (json_dump no_floats (event_json run_sample_env big_event))"
  by (rule dump_no_newline)
    (simp add: event_json_def event_material_def big_event_def big_fields exact_value_simps exact_small_int jv_optional_def)

lemma torn_fields:
  "ae_event_id torn_draft = u ''event_'' @ u ''0f''" "ae_run_id torn_draft = run_sample_run" "ae_sequence torn_draft = 2"
  "ae_event_type torn_draft = u ''note''" "ae_occurred_at torn_draft = run_sample_time" "ae_payload torn_draft = []"
  "ae_previous_hash torn_draft = Some run_sample_hash"
  by (simp_all add: torn_draft_def draft_event_def run_sample_io_def run_sample_event_fields)

lemma torn_texts: "json_int 2 = [50]" "plain torn_hash" "length torn_hash = 64"
proof -
  show "json_int 2 = [50]" by code_simp
  show "plain torn_hash" "length torn_hash = 64" using plain_hash [OF hash_pattern_digest] by (simp_all add: torn_hash_def)
qed

lemma torn_may_append: "may_append run_sample_env run_sample_io run_sample_run [run_sample_event] (u ''note'') None None torn_hash"
proof -
  have m: "is_ascii (json_dump no_floats (JvObj (event_material run_sample_env torn_draft)))" "json_dumpable (JvObj (event_material run_sample_env torn_draft))"
    by (simp_all add: event_material_def torn_fields run_sample_codec text_simps torn_texts plain_append)
  have "computed_hash run_sample_env torn_draft = Inr torn_hash"
    using canonical_ascii [OF m(2), of run_sample_env] m(1)
    unfolding run_sample_codec(4) ascii_sorted computed_hash_def torn_hash_def by blast
  moreover have "valid_event torn_draft"
    using plain_encodes hash_pattern_digest
    by (simp add: valid_event_def torn_fields run_sample_codec plain_append plain_u run_sample_texts) (simp add: run_sample_hash_def)
  moreover have "u ''note'' \<notin> set CAMPAIGN_TERMINAL_EVENTS" by code_simp
  ultimately show ?thesis unfolding may_append_def torn_draft_def [symmetric] by simp
qed

lemma torn_event_line:
  "is_ascii (json_dump no_floats (event_json run_sample_env torn_event))" "length (json_dump no_floats (event_json run_sample_env torn_event)) < 10000"
proof -
  have "event_json run_sample_env torn_event = JvObj (event_material run_sample_env torn_draft @ [(u ''event_hash'', JvStr torn_hash)])"
    by (simp add: event_json_def event_material_def torn_event_def)
  then show "is_ascii (json_dump no_floats (event_json run_sample_env torn_event))" "length (json_dump no_floats (event_json run_sample_env torn_event)) < 10000"
    by (simp_all add: event_material_def torn_fields run_sample_codec text_simps torn_texts plain_append)
qed

lemma torn_log:
  "log_bytes events_log (rs_files torn_store) = [] @ json_dump no_floats (event_json run_sample_env run_sample_event)"
  "log_loads run_sample_env (rs_run_id torn_store) (rs_files torn_store) ([] @ [run_sample_event])"
proof -
  let ?a = "json_dump no_floats (event_json run_sample_env run_sample_event)"
  show "log_bytes events_log (rs_files torn_store) = [] @ ?a" by (simp add: torn_store_def new_store_def log_bytes_def dict_simps)
  note a = run_sample_event_shape(1) utf8_encode_ascii [OF run_sample_event_line(1)]
  have line: "jsonl_lines ?a = [?a]"
    using dump_no_newline [OF a(1)] dump_not_blank [OF a] jsonl_lines_plain by blast
  have "int (length ?a) < MAX_AUDIT_EVENT_RECORD_BYTES" using run_sample_event_line(2) by (simp add: MAX_AUDIT_EVENT_RECORD_BYTES_def)
  then have parses: "parse_strict_json_bytes (?a @ []) label MAX_AUDIT_EVENT_RECORD_BYTES 64 200000 = Inr (event_json run_sample_env run_sample_event)" for label
    by (intro dump_parses [OF a(1) run_sample_event_shape(3) a(2) run_sample_event_shape(5) _ run_sample_event_shape(6,7)]) simp_all
  have "run_sample_event = (draft_event run_sample_io run_sample_run [] (u ''run.created'') (Some run_sample_payload) None)\<lparr>ae_event_hash := run_sample_hash\<rparr>"
    by (simp add: run_sample_event_def run_sample_draft_def)
  note m = may_append_event [OF run_sample_may_append this]
  have "validate_event run_sample_env (event_json run_sample_env run_sample_event) = Some run_sample_event"
    by (rule validate_event_json [OF m(1,2) run_sample_codec(1)]) (simp add: run_sample_event_fields run_sample_codec)
  then have "read_event run_sample_env 1 ?a = Inr run_sample_event"
    using parses dump_not_blank [OF a] by (simp add: read_event_def read_record_def)
  then have "events_read run_sample_env run_sample_run ?a [run_sample_event]"
    using m(3) by (simp add: events_read_def line)
  moreover have "event_fit ?a" using run_sample_event_line(2)
    by (simp add: event_fit_def line lines_fit_def MAX_AUDIT_EVENT_RECORD_BYTES_def MAX_EVENT_LOG_BYTES_def MAX_AUDIT_EVENT_RECORDS_def)
  ultimately show "log_loads run_sample_env (rs_run_id torn_store) (rs_files torn_store) ([] @ [run_sample_event])"
    by (auto simp: log_loads_def torn_store_def new_store_def dict_simps load_events_iff log_content_def)
qed

lemma torn_appends: "\<exists>t. store_append_event run_sample_env run_sample_io (u ''note'') None None torn_store = (Inr torn_event, t)"
  using append_event_succeeds [OF torn_log(2), of run_sample_io "u ''note''" None None torn_hash torn_event] torn_may_append
    run_sample_line(1) [OF torn_event_line]
  by (auto simp: torn_event_def torn_draft_def) (auto simp: torn_store_def new_store_def pinned_ok_def)

lemma run_sample_seal_fits: "record_fits run_sample_env MAX_INTEGRITY_SEAL_RECORD_BYTES (seal_json run_sample_env run_sample_seal)" "small_files run_sample_log"
proof -
  have "jv_height (seal_json run_sample_env run_sample_seal) \<le> 64" "jv_tokens (seal_json run_sample_env run_sample_seal) \<le> 200000"
    by (simp_all add: run_sample_seal_json seal_material_def run_sample_seal_fields jv_optional_def run_sample_artifact_json u_def)
  then show "record_fits run_sample_env MAX_INTEGRITY_SEAL_RECORD_BYTES (seal_json run_sample_env run_sample_seal)"
    using run_sample_seal_line(2) by (simp add: record_fits_def run_sample_line(2) [OF run_sample_seal_line] MAX_INTEGRITY_SEAL_RECORD_BYTES_def)
  show "small_files run_sample_log"
    using run_sample_event_line(2) run_sample_line(2) [OF run_sample_event_line]
    by (auto simp: small_files_def file_content_def run_sample_log_def with_record_def log_bytes_def run_sample_file_def u_def events_log_def dict_simps split: if_splits option.splits run_node.splits)
qed

lemma blocked_sample:
  "fst (run_op run_sample_env run_sample_io (WriteText (u ''run-integrity.jsonl/x'') (u ''ok'')) run_sample_start) = Inr ()"
  "u ''run-integrity.jsonl/x'' = integrity_log @ [47] @ u ''x''"
  by code_simp+

end
