(* ===== verification/Run_Gateway.thy ===== *)
theory Run_Gateway
  imports Run_Histories Tool_Gateway
begin

text \<open>
  The Run store under the gateway. The gateway model sees a store whose calls return, or raise with or without their
  effect. Here the files of that store are those of the directory, and a call of \<open>RunStore\<close> is such a call.
\<close>

definition file_agrees :: "(artifact \<Rightarrow> nat list) \<Rightarrow> artifact option \<Rightarrow> run_node option \<Rightarrow> bool" where
  "file_agrees enc x n \<longleftrightarrow> (case x of None \<Rightarrow> \<not> node_is_file n | Some a \<Rightarrow> (\<exists>l. n = Some (RegularFile (enc a) l)))"

definition files_agree :: "(artifact \<Rightarrow> nat list) \<Rightarrow> (string, artifact) dict \<Rightarrow> run_files \<Rightarrow> bool" where
  "files_agree enc d F \<longleftrightarrow> (\<forall>p. u p \<in> set RESERVED_ARTIFACTS \<or> file_agrees enc (dict_get d p) (dict_get F (u p)))"

text \<open>How a call of the store looks to the gateway: it returns, or it raises with or without its effect.\<close>

definition outcome_of :: "ustr \<Rightarrow> 'a result \<Rightarrow> run_files \<Rightarrow> run_files \<Rightarrow> store_outcome" where
  "outcome_of p r F F' =
     (case r of Inr _ \<Rightarrow> StoreOk | Inl e \<Rightarrow> StoreFails (dict_get F p = None \<and> node_is_file (dict_get F' p)) e)"

lemma dirs_agree:
  assumes "files_agree enc d F" "dirs_added F G"
  shows "files_agree enc d G"
proof -
  have "file_agrees enc x (dict_get F p) \<Longrightarrow> file_agrees enc x (dict_get G p)" for x p
    using assms(2) by (auto simp: file_agrees_def dirs_added_def dest: spec [of _ p] split: option.splits)
  then show ?thesis using assms(1) unfolding files_agree_def by blast
qed

lemma append_keeps_agreement:
  assumes "files_agree enc d (rs_files s)" "store_append_event E io ty payload at_time s = (r, t)"
  shows "files_agree enc d (rs_files t)"
proof -
  have other: "dict_get (rs_files t) p = dict_get (rs_files s) p" if "p \<notin> set RESERVED_ARTIFACTS" for p
    using append_event_effect [OF assms(2)] that reserved_logs(1) by (auto simp: append_effect_def dict_simps)
  then show ?thesis using assms(1) unfolding files_agree_def by metis
qed

lemma last_prefix: "p \<in> set (path_prefixes p)"
proof -
  have "path_parts p \<noteq> []" unfolding path_parts_def by (rule path_parts_nonempty)
  then show ?thesis unfolding path_prefixes_def Let_def
    by (simp add: image_iff) (rule bexI [of _ "length (path_parts p) - 1"], simp_all)
qed

lemma exists_is_implemented:
  assumes "files_agree enc (gs_files gs) (rs_files s)" "store_artifact_exists E io (u p) s = (Inr b, t)" "u p \<notin> set RESERVED_ARTIFACTS"
  shows "rs_files t = rs_files s \<and> b = (dict_get (gs_files gs) p \<noteq> None)"
proof -
  obtain x m d where m: "require_pinned_workspace io s = (Inr x, m)" "safe_destination E (u p) m = (Inr d, t)" "b = node_exists (dict_get (rs_files t) d)"
    using assms(2) by (auto simp: store_artifact_exists_def elim!: call_bind_okE)
  have same: "rs_files t = rs_files s" "d = u p"
    using call_inD [OF pinned_same m(1)] call_inD [OF destination_same m(2)] safe_destination_same [OF m(2)] by (auto simp: same_files_def)
  obtain ids where "result_fold (check_component E (rs_files t) ids) (map (\<lambda>q. (q, q = u p)) (path_prefixes (u p))) () = Inr ()"
    using m(2) validated_same by (fastforce simp: safe_destination_def call_lift_def result_bind_Inr elim!: call_bind_okE)
  then have "check_component E (rs_files s) ids (u p, True) () = Inr ()"
    using last_prefix [of "u p"] by (force simp: result_fold_unit same)
  moreover have "node_is_file n \<Longrightarrow> node_exists n" for n by (induction n rule: node_is_file.induct) auto
  ultimately have "b = node_is_file (dict_get (rs_files s) (u p))" "\<not> node_is_symlink (dict_get (rs_files s) (u p))"
    using m(3) same by (auto simp: check_component_def Let_def split: if_splits)
  moreover have "file_agrees enc (dict_get (gs_files gs) p) (dict_get (rs_files s) (u p))" using assms(1,3) unfolding files_agree_def by blast
  ultimately show ?thesis using same by (auto simp: file_agrees_def split: option.splits)
qed

end
