(* ===== verification/Run_Failures.thy ===== *)
theory Run_Failures
  imports Run_Sealing
begin

text \<open>
  Directories that a returned call leaves and from which there is no way back. A log that does not load locks its Run:
  every mutation reads the log first. This is what a record beyond the limits of the reader leaves, and a record that
  is appended to one that lost its newline. A directory with the name of the integrity log stays, and prevents every seal.
\<close>

text \<open>The event log is there and no reader accepts it.\<close>

definition unreadable :: "store_env \<Rightarrow> run_files \<Rightarrow> bool" where
  "unreadable E F \<longleftrightarrow> node_exists (dict_get F events_log) \<and> (\<forall>run_id. \<exists>e. load_events E (dict_get F events_log) run_id = Inl e)"

text \<open>The path that a call writes.\<close>

fun written_path :: "store_op \<Rightarrow> ustr option" where
  "written_path (WriteJson p v) = Some p"
| "written_path (WriteJsonCreateOnly p v) = Some p"
| "written_path (WriteText p c) = Some p"
| "written_path (WriteTextCreateOnly p c) = Some p"
| "written_path (WriteBytes p c) = Some p"
| "written_path _ = None"

section \<open>Logs that do not load\<close>

lemma unreadable_refuses:
  assumes "unreadable E (rs_files s)"
  shows "\<exists>e. fst (mutation E io body s) = Inl e" "rs_files (snd (mutation E io body s)) = rs_files s"
proof -
  obtain e where e: "load_events E (dict_get (rs_files s) events_log) (Some (rs_run_id s)) = Inl e" "node_exists (dict_get (rs_files s) events_log)"
    using assms by (auto simp: unreadable_def)
  then show "\<exists>e. fst (mutation E io body s) = Inl e" "rs_files (snd (mutation E io body s)) = rs_files s"
    by (auto simp: mutation_def call_bind_def require_pinned_workspace_def rebase_mutation_state_def rebase_event_state_def Let_def)
qed

lemma call_unit_result: "fst (call_unit m s) = map_sum id (\<lambda>_. ()) (fst (m s))" "snd (call_unit m s) = snd (m s)"
  by (auto simp: call_unit_def call_bind_def call_return_def split: prod.splits sum.splits)

lemma unreadable_op:
  assumes "unreadable E (rs_files s)"
  shows "(\<forall>p. opn \<noteq> ArtifactExists p) \<Longrightarrow> \<exists>e. fst (run_op E io opn s) = Inl e" "rs_files (snd (run_op E io opn s)) = rs_files s"
proof -
  note refused = unreadable_refuses [OF assms]
  have unique: "\<exists>e. fst (call_unit (store_append_unique_event E io ty q d k) s) = Inl e"
    "rs_files (snd (call_unit (store_append_unique_event E io ty q d k) s)) = rs_files s" for ty q d k
    using refused by (auto simp: store_append_unique_event_def call_unit_result call_raise_def Let_def)
  have look: "rs_files (snd (store_artifact_exists E io p s)) = rs_files s" for p
    using exists_same [of E io p] by (auto simp: call_in_def same_files_def) (metis prod.collapse)
  note defs = store_append_event_def store_write_json_def store_write_json_create_only_def store_write_text_def
    store_write_text_create_only_def store_write_bytes_def write_artifact_def store_seal_def
  show "\<exists>e. fst (run_op E io opn s) = Inl e" if "\<forall>p. opn \<noteq> ArtifactExists p"
    using that unique by (cases opn) (auto simp: defs call_unit_result intro: refused(1))
  show "rs_files (snd (run_op E io opn s)) = rs_files s"
    using unique look by (cases opn) (simp_all add: defs call_unit_result refused(2))
qed

interpretation locked: transition_invariant "store_step E run_id" "\<lambda>G. unreadable E F \<and> G = F" for E run_id F
proof
  fix G op H assume "unreadable E F \<and> G = F" "store_step E run_id G op H"
  then show "unreadable E F \<and> H = F"
    using unreadable_op(2) by (cases op) (auto elim!: store_stepE, metis snd_conv)
qed

lemma unreadable_verify: "unreadable E F \<Longrightarrow> \<exists>e. verify_run_integrity E F = Inl e"
  by (auto simp: unreadable_def verify_run_integrity_def integrity_state_of_def dest: spec [of _ None])

lemma unreadable_run:
  assumes "unreadable E F" "steps (store_step E run_id) F ops (rs_files s)"
  shows "rs_files s = F" "\<exists>err. verify_run_integrity E F = Inl err"
    "(\<forall>p. opn \<noteq> ArtifactExists p) \<Longrightarrow> \<exists>err. fst (run_op E io opn s) = Inl err" "rs_files (snd (run_op E io opn s)) = F"
proof -
  show F: "rs_files s = F" using locked.run_inv [OF assms(2)] assms(1) by blast
  show "\<exists>err. verify_run_integrity E F = Inl err" by (rule unreadable_verify [OF assms(1)])
  show "(\<forall>p. opn \<noteq> ArtifactExists p) \<Longrightarrow> \<exists>err. fst (run_op E io opn s) = Inl err" "rs_files (snd (run_op E io opn s)) = F"
    using unreadable_op [of E s] assms(1) F by auto
qed

section \<open>Events that are too long\<close>

lemma last_line:
  assumes "10 \<notin> set b"
  shows "\<exists>ls x. jsonl_lines (c @ b @ [10]) = ls @ [x @ b @ [10]]"
proof -
  define x where "x = rev (takeWhile (\<lambda>a. a \<noteq> 10) (rev c))"
  define d where "d = rev (dropWhile (\<lambda>a. a \<noteq> 10) (rev c))"
  have c: "c = d @ x" unfolding d_def x_def rev_append [symmetric] takeWhile_dropWhile_id by simp
  have "terminated d"
    using hd_dropWhile [of "\<lambda>a. a \<noteq> 10" "rev c"] by (auto simp: terminated_def d_def last_rev)
  then have "jsonl_lines (d @ ((x @ b) @ [10])) = jsonl_lines d @ jsonl_lines ((x @ b) @ [10])" by (rule lines_append)
  moreover have "10 \<notin> set (x @ b)" using assms by (auto simp: x_def dest: set_takeWhileD)
  ultimately have "jsonl_lines (d @ ((x @ b) @ [10])) = jsonl_lines d @ [(x @ b) @ [10]]"
    by (metis jsonl_lines_line)
  then have "jsonl_lines (c @ b @ [10]) = jsonl_lines d @ [x @ b @ [10]]" by (simp add: c)
  then show ?thesis by blast
qed

lemma unreadableI:
  assumes "dict_get F events_log = Some (RegularFile c l)" "\<And>r es. \<not> (event_fit c \<and> events_read E r c es)"
  shows "unreadable E F"
proof -
  have "load_events E (dict_get F events_log) (Some r) \<noteq> Inr es" for r es
    using assms by (auto simp: load_events_iff log_content_def split: if_splits)
  then have "load_events E (dict_get F events_log) run_id \<noteq> Inr es" for run_id es
    using load_events_any by (cases run_id) fastforce+
  then have "\<exists>e. load_events E (dict_get F events_log) run_id = Inl e" for run_id by (metis old.sum.exhaust)
  then show ?thesis using assms(1) by (simp add: unreadable_def)
qed

lemma oversized_unreadable:
  assumes "10 \<notin> set b" "MAX_AUDIT_EVENT_RECORD_BYTES \<le> int (length b)" "dict_get F events_log = Some (RegularFile (c @ b @ [10]) l)"
  shows "unreadable E F"
proof (rule unreadableI [OF assms(3)])
  obtain ls x where "jsonl_lines (c @ b @ [10]) = ls @ [x @ b @ [10]]" using last_line [OF assms(1)] by blast
  then have "\<not> event_fit (c @ b @ [10])" using assms(2) by (auto simp: event_fit_def lines_fit_def)
  then show "\<not> (event_fit (c @ b @ [10]) \<and> events_read E r (c @ b @ [10]) es)" for r es by blast
qed

section \<open>Records that are joined\<close>

lemma joined_records:
  assumes "exact_value fr (JvObj kvs)" "distinct_keys (JvObj kvs)" "skip_ws rest \<noteq> []"
    "utf8_decode line = Some (json_dump fr (JvObj kvs) @ rest)"
  shows "\<exists>e. parse_strict_json_bytes line label m d n = Inl e"
proof -
  have "reads_back fr (snd kv) \<and> exact_value fr (snd kv)" if "kv \<in> set kvs" for kv
    using assms(1,2) that by (cases kv) (auto simp: exact_value_simps list_all_iff intro!: scan_value_read)
  then have "json_loads (json_dump fr (JvObj kvs) @ rest) = None"
    using object_read [of kvs fr rest "2 * length (json_dump fr (JvObj kvs) @ rest) + 1"] assms(2,3)
    by (simp add: json_loads_def skip_ws_dump [OF assms(1)] del: json_dump.simps)
  then show ?thesis using assms(4) by (auto simp: parse_strict_json_bytes_def split: sum.splits)
qed

lemma joined_unreadable:
  assumes "exact_value fr (JvObj kvs)" "distinct_keys (JvObj kvs)" "utf8_encode (json_dump fr (JvObj kvs)) = Some a"
    and "utf8_encode (json_dump fr (JvObj mvs)) = Some b" "10 \<notin> set b"
    and "terminated c" "dict_get F events_log = Some (RegularFile (c @ a @ b @ [10]) l)"
  shows "unreadable E F"
proof (rule unreadableI [OF assms(7)])
  fix r es
  have a: "10 \<notin> set a" by (rule utf8_no_newline [OF assms(3) dump_no_newline [OF assms(1)]])
  have "utf8_decode (a @ b @ [10]) = Some (json_dump fr (JvObj kvs) @ json_dump fr (JvObj mvs) @ [10])"
    by (rule utf8_decode_encode) (simp add: utf8_encode_append assms(3,4) utf8_char_def del: json_dump.simps)
  then have "\<exists>e. parse_strict_json_bytes (a @ b @ [10]) label m d n = Inl e" for label m d n
    by (rule joined_records [OF assms(1,2), rotated]) (simp add: json_dump_obj skip_ws_def json_ws_def)
  then have "read_event E n (a @ b @ [10]) \<noteq> Inr e" for n e
    by (auto simp: read_event_def read_record_def) (metis (no_types, lifting) sum.case(1) Inl_Inr_False)
  moreover have "jsonl_lines (c @ a @ b @ [10]) = jsonl_lines c @ [a @ b @ [10]]"
    using jsonl_lines_line [of "a @ b"] a assms(5) by (simp add: lines_append [OF assms(6)])
  ultimately show "\<not> (event_fit (c @ a @ b @ [10]) \<and> events_read E r (c @ a @ b @ [10]) es)"
    by (auto simp: events_read_def reads_append split: list.splits)
qed

lemma logged_event:
  assumes "log_loads E r F es" "e \<in> set es"
  shows "distinct_keys (JvObj (ae_payload e))" "\<bar>ae_sequence e\<bar> \<le> 2 ^ 63"
proof -
  obtain c where load: "load_events E (Some (RegularFile c 1)) (Some r) = Inr es"
    using assms by (auto simp: log_loads_def split: option.splits run_node.splits)
  note l = loaded_events [OF load]
  show "\<bar>ae_sequence e\<bar> \<le> 2 ^ 63" using linked_positions [OF l(1) assms(2)] l(4) by (simp add: MAX_AUDIT_EVENT_RECORDS_def)
  obtain d where "log_reads (read_event E) (check_event E r) ae_event_hash 1 None (jsonl_lines d) es"
    using load unfolding load_events_iff events_read_def by blast
  from reads_all [OF this assms(2)] show "distinct_keys (JvObj (ae_payload e))" by (blast intro: payload_distinct)
qed

lemma joined_event_unreadable:
  assumes "log_loads E r F (es @ [e0])" "log_bytes events_log F = c @ a" "terminated c"
    and "utf8_encode (se_dump_json E (event_json E e0)) = Some a" "compact_dump E fr" "exact_value fr (JvObj (ae_payload e0))"
    and "exact_value fr (event_json E e)" "utf8_encode (se_dump_json E (event_json E e) @ [10]) = Some b"
  shows "unreadable E (with_record E events_log (event_json E e) F)"
proof -
  have e0: "distinct_keys (JvObj (ae_payload e0))" "\<bar>ae_sequence e0\<bar> \<le> 2 ^ 63" using logged_event [OF assms(1), of e0] by simp_all
  obtain d where d: "utf8_encode (json_dump fr (event_json E e)) = Some d" "b = d @ [10]"
    using assms(5,8) by (auto simp: compact_dump_def utf8_encode_append utf8_char_def split: option.splits)
  have "dict_get (with_record E events_log (event_json E e) F) events_log = Some (RegularFile (c @ a @ d @ [10]) 1)"
    using assms(2,8) d by (simp add: with_record_def record_line_def dict_simps)
  moreover have "utf8_encode (json_dump fr (event_json E e0)) = Some a" using assms(4,5) by (simp add: compact_dump_def)
  ultimately show ?thesis
    using joined_unreadable [OF event_json_exact [OF assms(6) e0(2), unfolded event_json_def] event_json_distinct [OF e0(1), unfolded event_json_def] _
        d(1) [unfolded event_json_def] utf8_no_newline [OF d(1) dump_no_newline [OF assms(7)]] assms(3)]
    by (simp add: event_json_def)
qed

section \<open>A directory in place of the integrity log\<close>

lemma prepared_directories:
  "prepare_directories E ds s = (Inr x, t) \<Longrightarrow> d \<in> set ds \<Longrightarrow> dict_get (rs_files t) d = Some Directory"
proof (induction ds arbitrary: s)
  case (Cons e ds)
  from Cons.prems(1) obtain m n where m: "ensure_private_directory e s = (Inr (), m)" "record_path_identity E e m = (Inr (), n)"
    "prepare_directories E ds n = (Inr x, t)"
    by (auto elim!: call_bind_okE)
  have "dict_get (rs_files m) e = Some Directory"
    using m(1) by (cases "dict_get (rs_files s) e" rule: node_is_dir.cases)
      (auto simp: ensure_private_directory_def Let_def dict_simps split: if_splits)
  then have "dict_get (rs_files n) e = Some Directory" using call_inD [OF record_same m(2)] by (simp add: same_files_def)
  moreover have "dirs_added (rs_files n) (rs_files t)" using call_inD [OF prepare_grows m(3)] by (simp add: dirs_relation_def)
  ultimately have "dict_get (rs_files t) e = Some Directory" by (auto simp: dirs_added_def dest: spec [of _ e])
  then show ?case using Cons.IH [OF m(3)] Cons.prems(2) by auto
qed simp

lemma parents_stay:
  assumes "prepare_destination_parent E p s = (Inr x, m)" "d \<in> set (butlast (path_prefixes p))" "d \<noteq> p"
    and "rs_files t = rs_files m \<or> (\<exists>c. rs_files t = dict_set p (RegularFile c 1) (rs_files m))"
  shows "dict_get (rs_files t) d = Some Directory"
  using prepared_directories [OF assms(1) [unfolded prepare_destination_parent_def] assms(2)] assms(3,4) by (auto simp: dict_simps)

lemma write_artifact_parents:
  assumes "write_artifact E io i p c s = (Inr q, t)" "i = atomic_write_private io' \<or> i = atomic_create_private io'"
    and "d \<in> set (butlast (path_prefixes p))" "d \<noteq> p"
  shows "dict_get (rs_files t) d = Some Directory"
proof -
  obtain m where m: "call_bind (safe_destination E p) (\<lambda>destination.
        call_bind (require_unsealed E destination) (\<lambda>_.
        call_bind (call_lift c) (\<lambda>encoded.
        call_bind (prepare_destination_parent E destination) (\<lambda>_.
        call_bind (i destination encoded) (\<lambda>_.
        call_bind (record_path_identity E destination) (\<lambda>_. call_return destination)))))) m = (Inr q, t)"
    using assms(1) mutation_outcome unfolding write_artifact_def by fastforce
  then show ?thesis
  proof (elim call_bind_okE)
    fix d0 a0 a2 x a3 b y a4 z a5
    assume "safe_destination E p m = (Inr d0, a0)" and parents: "prepare_destination_parent E d0 a2 = (Inr x, a3)"
      and install: "i d0 b a3 = (Inr y, a4)" and "record_path_identity E d0 a4 = (Inr z, a5)" "call_return d0 a5 = (Inr q, t)"
    then have "d0 = p" "rs_files t = rs_files a4"
      using safe_destination_same call_inD [OF record_same] by (auto simp: same_files_def call_return_def)
    then show ?thesis
      using parents assms(3,4) install_effect [OF assms(2) install] by (intro parents_stay [of E p a2 x a3 d t]) auto
  qed
qed

lemma create_text_parents:
  assumes "store_write_text_create_only E io p c s = (Inr q, t)" "d \<in> set (butlast (path_prefixes p))" "d \<noteq> p"
  shows "dict_get (rs_files t) d = Some Directory"
proof -
  obtain m where "call_bind (safe_destination E p) (\<lambda>destination.
        call_bind (require_unsealed E destination) (\<lambda>_.
        call_bind (prepare_destination_parent E destination) (\<lambda>_.
        call_bind (call_lift (text_bytes c)) (\<lambda>encoded.
        call_bind (atomic_create_private io destination encoded) (\<lambda>_.
        call_bind (record_path_identity E destination) (\<lambda>_. call_return destination)))))) m = (Inr q, t)"
    using assms(1) mutation_outcome unfolding store_write_text_create_only_def by fastforce
  then show ?thesis
  proof (elim call_bind_okE)
    fix d0 a0 a2 x a3 b a y a4 z a5
    assume "safe_destination E p m = (Inr d0, a0)" and parents: "prepare_destination_parent E d0 a2 = (Inr x, a3)"
      and "call_lift (text_bytes c) a3 = (Inr b, a)"
      and install: "atomic_create_private io d0 b a = (Inr y, a4)" and "record_path_identity E d0 a4 = (Inr z, a5)" "call_return d0 a5 = (Inr q, t)"
    then have "d0 = p" "rs_files t = rs_files a4" "a = a3"
      using safe_destination_same call_inD [OF record_same] by (auto simp: same_files_def call_return_def call_lift_def split: sum.splits)
    then show ?thesis
      using parents assms(2,3) install_effect [of "atomic_create_private io" io, OF _ install] by (intro parents_stay [of E p a2 x a3 d t]) auto
  qed
qed

lemma written_parents:
  assumes "run_op E io opn s = (Inr (), t)" "written_path opn = Some p" "d \<in> set (butlast (path_prefixes p))" "d \<noteq> p"
  shows "dict_get (rs_files t) d = Some Directory"
proof -
  note a = write_artifact_parents [OF _ _ assms(3,4)]
  show ?thesis
    using assms(1,2) a [of E io "atomic_write_private io" _ s _ t io] a [of E io "atomic_create_private io" _ s _ t io]
      create_text_parents [OF _ assms(3,4), of E io _ s _ t]
    by (cases opn) (auto simp: store_write_json_def store_write_json_create_only_def store_write_text_def store_write_bytes_def call_unit_def elim!: call_bind_okE)
qed

lemma reserved_prefix: "integrity_log \<in> set (butlast (path_prefixes (integrity_log @ 47 # x)))"
proof -
  have parts: "path_parts (integrity_log @ 47 # x) = integrity_log # path_parts x"
    unfolding path_parts_def by (subst split_at_append) (simp_all add: split_at_plain integrity_log_def u_def)
  obtain y ys where y: "path_parts x = y # ys" using path_parts_nonempty by (cases "path_parts x") (auto simp: path_parts_def)
  have "path_prefixes (integrity_log @ 47 # x) ! 0 = integrity_log" "1 < length (path_prefixes (integrity_log @ 47 # x))"
    by (simp_all add: path_prefixes_def parts y nth_append del: upt_Suc)
  then show ?thesis unfolding in_set_conv_nth by (intro exI [of _ 0]) (simp add: nth_butlast)
qed

interpretation blocked: transition_invariant "store_step E run_id" "\<lambda>F. dict_get F integrity_log = Some Directory" for E run_id
proof
  fix F op F' assume dir: "dict_get F integrity_log = Some Directory" and step: "store_step E run_id F op F'"
  have app: "dict_get F' integrity_log = Some Directory" if "append_effect path F F'" for path
    using that dir by (auto simp: append_effect_def dict_simps split: if_splits)
  have "dict_get F' integrity_log = Some Directory" if "write_effect E run_id F F'"
    using that
  proof -
    consider "F' = F" | p G where "dirs_added F G" "unsealed E run_id F p" "F' = G \<or> (\<exists>c. F' = dict_set p (RegularFile c 1) G)"
      using \<open>write_effect E run_id F F'\<close> by (auto simp: write_effect_def)
    then show ?thesis
    proof cases
      case (2 p G)
      have "dict_get G integrity_log = Some Directory" using 2(1) dir by (auto simp: dirs_added_def dest: spec [of _ integrity_log])
      moreover have "p \<noteq> integrity_log" using unsealed_not_reserved [OF 2(2) reserved_logs(2)] .
      ultimately show ?thesis using 2(3) by (auto simp: dict_simps)
    qed (use dir in simp)
  qed
  then show "dict_get F' integrity_log = Some Directory" using step_effect [OF step] app by blast
qed

lemma directory_blocks_sealing:
  assumes "dict_get (rs_files s) integrity_log = Some Directory"
  shows "\<exists>e. fst (store_seal E io s) = Inl e"
proof (cases "fst (store_seal E io s)")
  case (Inr seal)
  then obtain t where "store_seal E io s = (Inr seal, t)" by (metis prod.collapse)
  then obtain m where m: "same_files s m" "seal_locked E io m = (Inr seal, t)"
    unfolding store_seal_def using mutation_outcome by fastforce
  obtain line where "append_private_line io integrity_log line m = (Inr (), t)" using seal_locked_returns [OF m(2)] by blast
  then show ?thesis using assms m(1) by (auto simp: append_private_line_def same_files_def Let_def split: if_splits option.splits prod.splits)
qed simp

lemma directory_unverified:
  assumes "dict_get F integrity_log = Some Directory"
  shows "\<exists>e. verify_run_integrity E F = Inl e"
proof (cases "verify_run_integrity E F")
  case (Inr v)
  then obtain st where st: "integrity_state_of E F False = Inr st" by (auto simp: verify_run_integrity_def result_bind_Inr)
  then have "ig_seals st = []" using verified_state(3) [OF st] assms by (simp add: load_seals_def)
  then show ?thesis using verified_state(6) [OF st] by simp
qed simp

end
