(* ===== verification/Run_Guarantees.thy ===== *)
theory Run_Guarantees
  imports Run_Samples Run_Gateway Run_Failures Gateway_Samples
begin

text \<open>
  The properties of the Run store: the root digest binds the Run, sealed artifacts and recorded events are never
  rewritten, what append, seal and create-only write return holds of the directory, and three ways in which a call that
  returns makes the Run unusable.
\<close>

text \<open>C3. The root digest of the last seal binds the Run: two Runs that verify with the same root digest have the same events, the
  same seals and the same bytes in every artifact, unless two of the messages that their verifications hash, one of each
  Run, are a collision of SHA-256.\<close>

theorem root_digest_binds_the_run:
  assumes "verify_run_integrity E F1 = Inr v1" and "verify_run_integrity E F2 = Inr v2"
    and "rv_root_digest v1 = rv_root_digest v2" and "exact_run E F1" and "exact_run E F2"
  shows "hash_collision (run_messages E F1) (run_messages E F2) \<or>
    (map (event_content E) (run_events E F1) = map (event_content E) (run_events E F2) \<and>
     map (seal_content E) (run_seals E F1) = map (seal_content E) (run_seals E F2) \<and>
     (\<forall>p. p \<in> set RESERVED_ARTIFACTS \<or> file_content F1 p = file_content F2 p))"
proof (cases "hash_collision (run_messages E F1) (run_messages E F2)")
  case free: False
  then have free': "\<not> hash_collision (run_messages E F2) (run_messages E F1)" by (metis hash_collision_def)
  obtain s1 s2 where s: "integrity_state_of E F1 False = Inr s1" "integrity_state_of E F2 False = Inr s2"
    and v: "v1 = verification_from_state s1" "v2 = verification_from_state s2"
    using assms(1,2) by (auto simp: verify_run_integrity_def result_bind_Inr)
  have root: "sl_root_digest (last (ig_seals s1)) = sl_root_digest (last (ig_seals s2))"
    using assms(3) by (simp add: v verification_from_state_def)
  note logs = same_logs [OF s(1) assms(4) s(2) assms(5) root free]
  have "file_content F1 p = file_content F2 p" if "p \<notin> set RESERVED_ARTIFACTS" for p
  proof (cases "file_content F1 p")
    case None
    then show ?thesis using same_artifacts [OF s(2,1) logs(1) [symmetric] free' that] by (cases "file_content F2 p") auto
  next
    case (Some c)
    then show ?thesis using same_artifacts [OF s logs(1) free that] by simp
  qed
  then show ?thesis
    using logs verified_run [OF s(1)] verified_run [OF s(2)] by auto
qed simp

theorem root_digest_binds_the_run_witness:
  "\<exists>v. verify_run_integrity run_sample_env run_sample_sealed = Inr v \<and>
     verify_run_integrity run_sample_env (dict_set lock_name (RegularFile [] 1) run_sample_sealed) = Inr v \<and>
     (hash_collision (run_messages run_sample_env run_sample_sealed)
        (run_messages run_sample_env (dict_set lock_name (RegularFile [] 1) run_sample_sealed)) \<or>
      run_events run_sample_env run_sample_sealed = [run_sample_event])"
proof -
  let ?G = "dict_set lock_name (RegularFile [] 1) run_sample_sealed"
  obtain v where v: "verify_run_integrity run_sample_env run_sample_sealed = Inr v" using run_sample_verifies by blast
  then have "verify_run_integrity run_sample_env ?G = Inr v" using run_sample_lock by simp
  then show ?thesis
    using root_digest_binds_the_run [OF v _ refl run_sample_exact_run] run_sample_lock_exact v run_sample_sealed_loads
    by (auto simp: run_events_def)
qed

text \<open>C4. Once a seal covers an artifact and the integrity log ends in a newline, no history of calls of any store objects of the
  Run changes the artifact, whatever their cached fields are and whichever writes, flushes or installations fail: the file keeps its
  bytes, and the integrity log only grows.\<close>

theorem sealed_artifacts_never_change:
  assumes "integrity_state_of E F True = Inr st" and "p \<in> set (ig_sealed_paths st)"
    and "dict_get F integrity_log = Some (RegularFile c 1)" and "terminated c"
    and "steps (store_step E (ig_run_id st)) F ops F'"
  shows "\<exists>content. file_content F p = Some content \<and> file_content F' p = Some content \<and> dict_get F' p = dict_get F p \<and>
    log_extends integrity_log c 1 F'"
proof -
  obtain s a where s: "s \<in> set (ig_seals st)" "a \<in> set (sl_artifacts s)" "sa_path a = p"
    using assms(2) unfolding verified_state(5) [OF assms(1)] by auto
  obtain i where a: "p \<notin> set RESERVED_ARTIFACTS" "artifact_record E F p i = Inr a"
    using verified_state(4) [OF assms(1) s(1)] s(2,3) by (auto simp: seal_verified_def)
  obtain content where content: "file_content F p = Some content" using artifact_record_content [OF a(2)] by blast
  then obtain n where n: "dict_get F p = Some n" by (auto simp: file_content_def split: option.splits)
  have "seals_read E (ig_run_id st) c (ig_seals st)"
    using verified_state(3) [OF assms(1)] assms(3) by (simp add: load_seals_iff log_content_def)
  then have "sealed_in E (ig_run_id st) c p" using assms(4) a(1) s by (auto simp: sealed_in_def)
  then have "keeps_sealed E (ig_run_id st) c p n F" using n assms(3) by (auto simp: keeps_sealed_def log_extends_def)
  then have "keeps_sealed E (ig_run_id st) c p n F'" by (rule sealed.run_inv [OF assms(5)])
  then show ?thesis using content n by (auto simp: keeps_sealed_def file_content_def)
qed

theorem sealed_artifacts_never_change_witness:
  "\<exists>F'. steps (store_step run_sample_env run_sample_run) run_sample_sealed [(run_sample_io, WriteText run_sample_path (u ''no''))] F' \<and>
     file_content F' run_sample_path = Some (u ''ok'' @ [10])"
proof -
  define F' where "F' = rs_files (snd (run_op run_sample_env run_sample_io (WriteText run_sample_path (u ''no'')) (new_store run_sample_run None run_sample_sealed)))"
  have "store_step run_sample_env run_sample_run (rs_files (new_store run_sample_run None run_sample_sealed)) (run_sample_io, WriteText run_sample_path (u ''no'')) F'"
    unfolding F'_def by (rule store_stepI [OF _ prod.collapse [symmetric]]) (simp add: new_store_def)
  then have run: "steps (store_step run_sample_env run_sample_run) run_sample_sealed [(run_sample_io, WriteText run_sample_path (u ''no''))] F'"
    by (simp add: new_store_def steps_single)
  obtain st where st: "integrity_state_of run_sample_env run_sample_sealed True = Inr st" "ig_run_id st = run_sample_run" "run_sample_path \<in> set (ig_sealed_paths st)"
    using run_sample_sealed_state by blast
  have log: "dict_get run_sample_sealed integrity_log = Some (RegularFile (json_dump no_floats (seal_json run_sample_env run_sample_seal) @ [10]) 1)"
    by (simp add: run_sample_gets(2))
  have "file_content run_sample_sealed run_sample_path = Some (u ''ok'' @ [10])"
    using run_sample_sources(4,5) by (simp add: file_content_def run_sample_gets)
  then show ?thesis
    using sealed_artifacts_never_change [OF st(1,3) log] run st(2) by (auto simp: terminated_def)
qed

text \<open>C10. An event that \<open>append_event\<close> returns is the next record of the log, if the log was absent or ended in a newline, the
  record is within the limits of the reader (four mebibytes, depth 64, 200000 tokens) and the log has room for it: the log then
  loads as the old events and the new one and ends in a newline again, the event has the type and the payload that were asked for,
  and no other file changes. The payload is a JSON value whose objects have each key once and whose numbers read back. Of Pydantic
  it is used that it prints compact JSON and reads an integer and the datetime of the event from its text; that the repository's
  strict reader accepts the line is proved.\<close>

theorem returned_event_is_in_the_log:
  assumes "log_good E (rs_run_id s) (rs_files s) es" and "store_append_event E io ty payload at_time s = (Inr e, t)"
    and "compact_dump E fr" and "ints_read E" and "datetime_reads E (ae_occurred_at e)"
    and "exact_value fr (JvObj (ae_payload e))" and "distinct_keys (JvObj (ae_payload e))"
    and "record_fits E MAX_AUDIT_EVENT_RECORD_BYTES (event_json E e)" and "event_room E (rs_files s) es (event_json E e)"
  shows "log_good E (rs_run_id s) (rs_files t) (es @ [e]) \<and> ae_event_type e = ty \<and>
    ae_payload e = (case payload of None \<Rightarrow> [] | Some p \<Rightarrow> p) \<and> (\<forall>p. p = events_log \<or> dict_get (rs_files t) p = dict_get (rs_files s) p)"
proof (rule returned_appendE [OF log_good_loads [OF assms(1)] assms(2)])
  fix h b
  assume h: "may_append E io (rs_run_id s) es ty payload at_time h"
    "e = (draft_event io (rs_run_id s) es ty payload at_time)\<lparr>ae_event_hash := h\<rparr>"
    "rs_files t = with_record E events_log (event_json E e) (rs_files s)"
    and b: "utf8_encode (se_dump_json E (event_json E e) @ [10]) = Some b"
  have "line_reads E MAX_AUDIT_EVENT_RECORD_BYTES (event_json E e)"
    by (rule appended_event_reads [OF h(1,2) assms(3,6,7) b assms(8,9)])
  then show ?thesis using log_good_appended [OF assms(1) h(1,2) assms(4,5) _ assms(9)] h(2,3)
    by (auto simp: draft_event_def with_record_def dict_simps)
qed

theorem returned_event_is_in_the_log_witness:
  "\<exists>t. store_append_event run_sample_env run_sample_io (u ''run.created'') (Some run_sample_payload) None run_sample_start = (Inr run_sample_event, t) \<and>
     log_good run_sample_env run_sample_run (rs_files t) [run_sample_event]"
proof -
  obtain t where t: "store_append_event run_sample_env run_sample_io (u ''run.created'') (Some run_sample_payload) None run_sample_start = (Inr run_sample_event, t)"
    using run_sample_appends by blast
  show ?thesis
    using returned_event_is_in_the_log [OF run_sample_start_good(1) t run_sample_codec(3,1) _ run_sample_event_shape(2,4) run_sample_event_fits]
      t run_sample_codec(2) run_sample_room
    by (simp add: run_sample_start_good run_sample_event_fields)
qed

text \<open>C13. With a disk that takes the whole line, \<open>append_event\<close> on a log that loads, with or without a last newline, returns
  exactly when the store is in its pinned workspace and the event may follow the log: a second terminal event, an invalid record and a
  payload without a canonical digest are refused.\<close>

theorem append_event_returns_exactly_when_allowed:
  assumes "log_loads E (rs_run_id s) (rs_files s) es"
    and "\<And>h. may_append E io (rs_run_id s) es ty payload at_time h \<Longrightarrow>
      line_written E io (event_json E ((draft_event io (rs_run_id s) es ty payload at_time)\<lparr>ae_event_hash := h\<rparr>))"
  shows "(\<exists>e t. store_append_event E io ty payload at_time s = (Inr e, t)) \<longleftrightarrow>
    pinned_ok io s \<and> (\<exists>h. may_append E io (rs_run_id s) es ty payload at_time h)"
  using returned_appendE [OF assms(1)] append_event_succeeds [OF assms(1) _ _ refl assms(2)] by metis

theorem append_event_returns_exactly_when_allowed_witness:
  "(\<exists>e t. store_append_event run_sample_env run_sample_io (u ''run.created'') (Some run_sample_payload) None run_sample_start = (Inr e, t)) \<and>
   may_append run_sample_env run_sample_io run_sample_run [] (u ''run.created'') (Some run_sample_payload) None run_sample_hash"
proof -
  have "line_written run_sample_env run_sample_io (event_json run_sample_env
      ((draft_event run_sample_io (rs_run_id run_sample_start) [] (u ''run.created'') (Some run_sample_payload) None)\<lparr>ae_event_hash := h\<rparr>))"
    if "may_append run_sample_env run_sample_io (rs_run_id run_sample_start) [] (u ''run.created'') (Some run_sample_payload) None h" for h
  proof -
    have "h = run_sample_hash" using that run_sample_may_append by (simp add: may_append_def run_sample_start_good)
    then show ?thesis using run_sample_line(1) [OF run_sample_event_line] by (simp add: run_sample_start_good run_sample_event_def run_sample_draft_def)
  qed
  then show ?thesis
    using append_event_returns_exactly_when_allowed [OF log_good_loads [OF run_sample_start_good(1)]] run_sample_may_append run_sample_codec(8) [of run_sample_run "[run_sample_file]"]
    by (simp add: run_sample_start_good) (auto simp: run_sample_start_def)
qed

text \<open>C11. No history of calls rewrites the events: if the log has events and ends in a newline, then whatever fails, a log that loads
  later starts with those events.\<close>

theorem event_history_is_append_only:
  assumes "log_good E run_id F es" and "es \<noteq> []" and "steps (store_step E run_id) F ops F'"
    and "load_events E (dict_get F' events_log) (Some run_id) = Inr es'"
  shows "\<exists>new. es' = es @ new"
proof -
  obtain c where c: "dict_get F events_log = Some (RegularFile c 1)" "terminated c" "events_read E run_id c es"
    using assms(1,2) by (auto simp: log_good_def log_loads_def log_bytes_def load_events_iff log_content_def split: option.splits run_node.splits)
  then have "log_extends events_log c 1 F'" by (intro growing.run_inv [OF assms(3)]) (auto simp: log_extends_def)
  then obtain d where "dict_get F' events_log = Some (RegularFile (c @ d) 1)" by (auto simp: log_extends_def)
  then have "events_read E run_id (c @ d) es'" using assms(4) by (auto simp: load_events_iff log_content_def)
  then obtain as bs where "es' = as @ bs" "log_reads (read_event E) (check_event E run_id) ae_event_hash 1 None (jsonl_lines c) as"
    by (auto simp: events_read_def lines_append [OF c(2)] reads_append)
  then show ?thesis using c(3) reads_unique unfolding events_read_def by blast
qed

theorem event_history_is_append_only_witness:
  "steps (store_step run_sample_env run_sample_run) run_sample_log [(run_sample_io, Seal)] run_sample_sealed \<and>
   (\<exists>es new. load_events run_sample_env (dict_get run_sample_sealed events_log) (Some run_sample_run) = Inr es \<and> es = [run_sample_event] @ new)"
proof -
  let ?s = "new_store run_sample_run None run_sample_log"
  obtain t where t: "store_seal run_sample_env run_sample_io ?s = (Inr run_sample_seal, t)" "rs_files t = run_sample_sealed"
    using run_sample_seals [of ?s] by (auto simp: new_store_def)
  have "store_step run_sample_env run_sample_run (rs_files ?s) (run_sample_io, Seal) (rs_files t)"
    by (rule store_stepI [of ?s _ _ _ _ "Inr ()"]) (simp_all add: new_store_def [of run_sample_run None] call_unit_def call_bind_def call_return_def t(1) [unfolded new_store_def])
  then have run: "steps (store_step run_sample_env run_sample_run) run_sample_log [(run_sample_io, Seal)] run_sample_sealed"
    by (simp add: new_store_def steps_single t(2))
  have "load_events run_sample_env (dict_get run_sample_sealed events_log) (Some run_sample_run) = Inr [run_sample_event]"
    using load_events_any [OF run_sample_sealed_loads] by (simp add: run_sample_event_fields)
  then show ?thesis using run event_history_is_append_only [OF run_sample_log_good _ run] by auto
qed

text \<open>C9. A seal that is returned makes the Run verify, if the integrity log was absent or ended in a newline, the record of the
  seal is within the limits of the reader (16 mebibytes, depth 64, 200000 tokens), the log has room for it and no file is longer
  than a signed 64-bit size: \<open>verify_run_integrity\<close> then returns, with the root digest of the seal, one more seal and every event
  covered, the seal is the last of the chain, and nothing but the integrity log has changed. Pydantic is used as for events.\<close>

theorem returned_seal_makes_the_run_verify:
  assumes "dict_ok (rs_files s)" and "seals_good E (rs_run_id s) (rs_files s) ss" and "store_seal E io s = (Inr seal, t)"
    and "compact_dump E fr" and "ints_read E" and "datetime_reads E (sl_sealed_at seal)" and "small_files (rs_files s)"
    and "record_fits E MAX_INTEGRITY_SEAL_RECORD_BYTES (seal_json E seal)" and "seal_room E (rs_files s) ss (seal_json E seal)"
  shows "\<exists>v. verify_run_integrity E (rs_files t) = Inr v \<and> rv_run_id v = rs_run_id s \<and> rv_root_digest v = sl_root_digest seal \<and>
    rv_seal_count v = int (length ss) + 1 \<and> rv_event_count v = sl_event_count seal \<and>
    load_seals E (dict_get (rs_files t) integrity_log) (rs_run_id s) = Inr (ss @ [seal]) \<and>
    (\<forall>p. p = integrity_log \<or> dict_get (rs_files t) p = dict_get (rs_files s) p)"
  by (rule returned_seal_verifies [OF assms(1-3,5,6) returned_seal_reads [OF assms(2,3,7,4,8,9)] assms(9)])

theorem returned_seal_makes_the_run_verify_witness:
  "\<exists>s t v. store_append_event run_sample_env run_sample_io (u ''run.created'') (Some run_sample_payload) None run_sample_start = (Inr run_sample_event, s) \<and>
     store_seal run_sample_env run_sample_io s = (Inr run_sample_seal, t) \<and> verify_run_integrity run_sample_env (rs_files t) = Inr v \<and>
     rv_root_digest v = run_sample_root"
proof -
  obtain s where s: "store_append_event run_sample_env run_sample_io (u ''run.created'') (Some run_sample_payload) None run_sample_start = (Inr run_sample_event, s)"
    "rs_run_id s = run_sample_run" "rs_files s = run_sample_log" "rs_pinned s = None" using run_sample_appends by blast
  obtain t where t: "store_seal run_sample_env run_sample_io s = (Inr run_sample_seal, t)" using run_sample_seals s by blast
  obtain v where "verify_run_integrity run_sample_env (rs_files t) = Inr v" "rv_root_digest v = sl_root_digest run_sample_seal"
    using returned_seal_makes_the_run_verify [OF _ _ t run_sample_codec(3,1), of "[]"] run_sample_log_ok(1) run_sample_seals_good run_sample_seal_fits run_sample_codec(2)
    by (auto simp: s run_sample_seal_def run_sample_seal_fields)
  then show ?thesis using s(1) t by (auto simp: run_sample_seal_def)
qed

text \<open>C14. The bytes in a verified snapshot are the sealed ones, although the directory may change between the two verifications
  and the reads: exactly the requested artifacts are there, each with the bytes that were read and with the length and the
  SHA-256 digest of the file at the last verification, and the events are those of that verification.\<close>

theorem snapshot_bytes_are_the_sealed_bytes:
  assumes "load_verified_run_artifacts E F1 F2 F3 requests expected = Inr snapshot"
  shows "verify_run_integrity E F3 = Inr (sn_verification snapshot) \<and> sn_events snapshot = run_events E F3 \<and>
    (\<forall>p. dict_get (sn_artifacts snapshot) p = None \<or>
       (\<exists>c d. dict_get (sn_artifacts snapshot) p = Some c \<and> file_content F2 p = Some c \<and> file_content F3 p = Some d \<and>
          sha256_hex d = sha256_hex c \<and> length d = length c)) \<and>
    {p. dict_get (sn_artifacts snapshot) p \<noteq> None} = fst ` set requests"
proof -
  obtain v rs0 rs L fin where v: "validated_snapshot_requests E requests = Inr v" and L: "load_snapshot_artifact_bytes F2 v rs0 = Inr L"
    and fin: "integrity_state_of E F3 False = Inr fin" "sealed_artifact_records (ig_seals fin) = Inr rs" "bind_snapshot_artifact_bytes L rs = Inr ()"
    and snap: "snapshot = \<lparr>sn_verification = verification_from_state fin, sn_events = ig_events fin, sn_seals = ig_seals fin, sn_artifacts = L\<rparr>"
    using assms unfolding load_verified_run_artifacts_def Let_def
    by (elim result_bindE, simp split: if_splits, (elim result_bindE)?, (simp split: if_splits)?, (elim result_bindE)?) simp
  have fold: "result_fold (load_snapshot_step F2 rs0) v [] = Inr L" using L by (auto simp: load_snapshot_artifact_bytes_def result_bind_Inr)
  have each: "\<exists>d. file_content F2 p = Some c \<and> file_content F3 p = Some d \<and> sha256_hex d = sha256_hex c \<and> length d = length c"
    if get: "dict_get L p = Some c" for p c
  proof -
    obtain a where a: "dict_get rs p = Some a" "sa_sha256 a = u (sha256_hex c)" "sa_size_bytes a = int (length c)"
      using bound_bytes [OF fin(3) map_of_SomeD [OF get]] by blast
    obtain s where s: "s \<in> set (ig_seals fin)" "a \<in> set (sl_artifacts s)" "sa_path a = p" using sealed_recordsD [OF fin(2) a(1)] by blast
    obtain i where "artifact_record E F3 p i = Inr a" using verified_state(4) [OF fin(1) s(1)] s(2,3) by (auto simp: seal_verified_def)
    then show ?thesis using artifact_record_content loaded_bytes [OF fold] get a(2,3) u_inject by fastforce
  qed
  have "{p. dict_get L p \<noteq> None} = fst ` set requests" using loaded_bytes [OF fold] validated_request_paths [OF v] by simp
  moreover have "dict_get L p = None \<or> (\<exists>c d. dict_get L p = Some c \<and> file_content F2 p = Some c \<and> file_content F3 p = Some d \<and>
      sha256_hex d = sha256_hex c \<and> length d = length c)" for p
    using each [of p] by (cases "dict_get L p") simp_all
  moreover have "verify_run_integrity E F3 = Inr (verification_from_state fin)" using fin(1) by (simp add: verify_run_integrity_def)
  ultimately show ?thesis using verified_run(1) [OF fin(1)] by (simp add: snap)
qed

theorem snapshot_bytes_are_the_sealed_bytes_witness:
  "\<exists>snap. load_verified_run_artifacts run_sample_env run_sample_sealed run_sample_sealed run_sample_sealed [(run_sample_path, PyInt 100)] None = Inr snap \<and>
     dict_get (sn_artifacts snap) run_sample_path = Some (u ''ok'' @ [10]) \<and> sn_events snap = run_events run_sample_env run_sample_sealed"
proof -
  obtain snap where snap: "load_verified_run_artifacts run_sample_env run_sample_sealed run_sample_sealed run_sample_sealed [(run_sample_path, PyInt 100)] None = Inr snap"
    "sn_artifacts snap = [(run_sample_path, u ''ok'' @ [10])]" using run_sample_snapshot by blast
  then show ?thesis using snapshot_bytes_are_the_sealed_bytes [OF snap(1)] by auto
qed

text \<open>C12. A create-only path is claimed once: after a returned \<open>write_json_create_only\<close>, no history of calls lets another one for
  the path return. The path was free before and then holds the JSON of the value.\<close>

theorem create_only_path_is_claimed_once:
  assumes "store_write_json_create_only E io p v s = (Inr q, t)"
    and "steps (store_step E (rs_run_id s)) (rs_files t) ops (rs_files s')"
  shows "dict_get (rs_files s) p = None \<and> (\<exists>c. strict_json_bytes E v = Inr c \<and> dict_get (rs_files t) p = Some (RegularFile c 1)) \<and>
    (\<exists>e. fst (store_write_json_create_only E io' p v' s') = Inl e)"
proof -
  note first = json_create_only_returns [OF assms(1)]
  then have "dict_get (rs_files s') p \<noteq> None" by (intro staying.run_inv [OF assms(2)]) auto
  then have "\<nexists>q' t'. store_write_json_create_only E io' p v' s' = (Inr q', t')" by (auto dest: json_create_only_returns)
  then have "\<exists>e. fst (store_write_json_create_only E io' p v' s') = Inl e" by (metis old.sum.exhaust prod.collapse)
  then show ?thesis using first by blast
qed

theorem create_only_path_is_claimed_once_witness:
  "\<exists>t. store_write_json_create_only run_sample_env run_sample_io (u ''requests/a.json'') JvNull (new_store run_sample_run None []) = (Inr (u ''requests/a.json''), t) \<and>
     (\<exists>e. fst (store_write_json_create_only run_sample_env run_sample_io (u ''requests/a.json'') (JvInt 1) t) = Inl e)"
proof -
  let ?s = "new_store run_sample_run None []"
  obtain t where t: "store_write_json_create_only run_sample_env run_sample_io (u ''requests/a.json'') JvNull ?s = (Inr (u ''requests/a.json''), t)"
    using run_sample_claim by (metis prod.collapse)
  show ?thesis using t create_only_path_is_claimed_once [OF t, of "[]" t] by simp
qed

text \<open>C8. The store implements what the gateway relies on: a call of \<open>write_json_create_only\<close> on the directory is, with every
  fault, a call of the gateway's abstract store that ends alike, and the files stay in agreement.\<close>

theorem gateway_claims_are_implemented:
  assumes "files_agree enc (gs_files gs) (rs_files s)" and "store_write_json_create_only E io (u p) v s = (r, t)"
    and "strict_json_bytes E v = Inr (enc a)" and "u p \<notin> set RESERVED_ARTIFACTS"
    and "ge_store env (gs_store_calls gs) = outcome_of (u p) r (rs_files s) (rs_files t)"
  shows "\<exists>gs'. write_json_create_only env p a gs = (map_sum id (\<lambda>_. p) r, gs') \<and> files_agree enc (gs_files gs') (rs_files t)"
proof -
  obtain G where G: "dirs_added (rs_files s) G" and t: "rs_files t = G \<and> \<not> is_ok r \<or> dict_get G (u p) = None \<and> rs_files t = dict_set (u p) (RegularFile (enc a) 1) G"
    using json_create_only_outcome [OF assms(2)] assms(3) by auto
  note agree = dirs_agree [OF assms(1) G]
  show ?thesis
  proof (cases "rs_files t = G \<and> \<not> is_ok r")
    case True
    then obtain e where r: "r = Inl e" by (cases r) (auto simp: is_ok_def)
    have "\<not> (dict_get (rs_files s) (u p) = None \<and> node_is_file (dict_get G (u p)))"
      using G by (auto simp: dirs_added_def dest: spec [of _ "u p"])
    then show ?thesis using True assms(5) agree
      by (auto simp: r outcome_of_def write_json_create_only_def store_call_def call_bind_def)
  next
    case False
    then have new: "dict_get G (u p) = None" "rs_files t = dict_set (u p) (RegularFile (enc a) 1) G" using t by auto
    have "file_agrees enc (dict_get (gs_files gs) p) None" using agree assms(4) new(1) unfolding files_agree_def by metis
    then have "dict_get (gs_files gs) p = None" by (simp add: file_agrees_def split: option.splits)
    moreover have "files_agree enc (dict_set p a (gs_files gs)) (rs_files t)"
      using agree unfolding files_agree_def new(2) by (auto simp: dict_simps u_inject file_agrees_def [of _ "Some _"])
    moreover have "dict_get (rs_files s) (u p) = None" using G new(1) by (auto simp: dirs_added_def dest: spec [of _ "u p"])
    ultimately show ?thesis using assms(5) new(2)
      by (cases r) (auto simp: outcome_of_def write_json_create_only_def store_call_def call_bind_def call_return_def dict_simps)
  qed
qed

theorem gateway_claims_are_implemented_witness:
  "\<exists>gs' t. store_write_json_create_only run_sample_env run_sample_io (u ''requests/a.json'') JvNull (new_store run_sample_run None []) = (Inr (u ''requests/a.json''), t) \<and>
     write_json_create_only (sample_gateway sample_job (\<lambda>_. StoreOk)) ''requests/a.json'' (ReservationFile ''a'' ''b'') idle_gateway = (Inr ''requests/a.json'', gs') \<and>
     files_agree (\<lambda>_. u ''null'' @ [10]) (gs_files gs') (rs_files t)"
proof -
  obtain t where t: "store_write_json_create_only run_sample_env run_sample_io (u ''requests/a.json'') JvNull (new_store run_sample_run None []) = (Inr (u ''requests/a.json''), t)"
    using run_sample_claim by (metis prod.collapse)
  have "files_agree (\<lambda>_. u ''null'' @ [10]) (gs_files idle_gateway) (rs_files (new_store run_sample_run None []))"
    by (simp add: files_agree_def file_agrees_def idle_gateway_def new_store_def)
  moreover have "strict_json_bytes run_sample_env JvNull = Inr (u ''null'' @ [10])" "u ''requests/a.json'' \<notin> set RESERVED_ARTIFACTS" by code_simp+
  ultimately show ?thesis
    using t gateway_claims_are_implemented [OF _ t, of "\<lambda>_. u ''null'' @ [10]" idle_gateway "ReservationFile ''a'' ''b''" "sample_gateway sample_job (\<lambda>_. StoreOk)"]
    by (simp add: outcome_of_def sample_gateway_def)
qed

text \<open>C37. \<open>append_event\<close> accepts an event whose record, a line of text, is longer than the loader allows, and the Run is lost
  with it: after any further history of calls, the directory is as that append left it, the Run does not verify, and every call of the
  store but \<open>artifact_exists\<close> raises and changes no file.\<close>

theorem oversized_event_locks_the_run:
  assumes "log_loads E (rs_run_id s) (rs_files s) es" and "store_append_event E io ty payload at_time s = (Inr e, t)"
    and "utf8_encode (se_dump_json E (event_json E e)) = Some b" and "10 \<notin> set b" and "MAX_AUDIT_EVENT_RECORD_BYTES \<le> int (length b)"
    and "steps (store_step E (rs_run_id s)) (rs_files t) ops (rs_files s')"
  shows "rs_files s' = rs_files t \<and> (\<exists>err. verify_run_integrity E (rs_files s') = Inl err) \<and>
    ((\<exists>p. opn = ArtifactExists p) \<or> (\<exists>err. fst (run_op E io' opn s') = Inl err)) \<and> rs_files (snd (run_op E io' opn s')) = rs_files t"
proof (rule returned_appendE [OF assms(1,2)])
  assume t: "rs_files t = with_record E events_log (event_json E e) (rs_files s)"
  have "utf8_encode (se_dump_json E (event_json E e) @ [10]) = Some (b @ [10])" by (simp add: utf8_encode_append assms(3) utf8_char_def)
  then have "dict_get (rs_files t) events_log = Some (RegularFile (log_bytes events_log (rs_files s) @ b @ [10]) 1)"
    by (simp add: t with_record_def record_line_def dict_simps)
  from unreadable_run [OF oversized_unreadable [OF assms(4,5) this] assms(6)] show ?thesis by metis
qed

theorem oversized_event_locks_the_run_witness:
  "\<exists>t. store_append_event run_sample_env big_io (u ''note'') (Some [(u ''text'', JvStr big_text)]) None run_sample_start = (Inr big_event, t) \<and>
     (\<exists>err. verify_run_integrity run_sample_env (rs_files t) = Inl err) \<and> (\<exists>err. fst (run_op run_sample_env run_sample_io Seal t) = Inl err)"
proof -
  obtain t where t: "store_append_event run_sample_env big_io (u ''note'') (Some [(u ''text'', JvStr big_text)]) None run_sample_start = (Inr big_event, t)"
    using big_appends by blast
  have b: "utf8_encode (se_dump_json run_sample_env (event_json run_sample_env big_event)) = Some (json_dump no_floats (event_json run_sample_env big_event))"
    using run_sample_codec(3) utf8_encode_ascii [OF big_dump(1)] by (simp add: compact_dump_def)
  show ?thesis
    using t oversized_event_locks_the_run [OF log_good_loads [OF run_sample_start_good(1)] t b big_no_newline, of "[]" t Seal run_sample_io] big_dump(2)
    by (simp add: MAX_AUDIT_EVENT_RECORD_BYTES_def)
qed

text \<open>C38. A name that is reserved for the store can be taken by a directory. After any of the five writes has returned for a path
  below \<^verbatim>\<open>run-integrity.jsonl/\<close>, on whatever Run, that name is a directory, stays one over every history of calls, and no
  call seals the Run or verifies it; the witness is such a write on a Run that has not been sealed.\<close>

theorem reserved_name_as_directory_blocks_sealing:
  assumes "run_op E io opn s = (Inr (), t)" and "written_path opn = Some (integrity_log @ [47] @ x)"
    and "steps (store_step E (rs_run_id s)) (rs_files t) ops (rs_files s')"
  shows "dict_get (rs_files s') integrity_log = Some Directory \<and> (\<exists>err. fst (store_seal E' io' s') = Inl err) \<and>
    (\<exists>err. verify_run_integrity E' (rs_files s') = Inl err)"
proof -
  have "dict_get (rs_files t) integrity_log = Some Directory"
    by (rule written_parents [OF assms(1,2)]) (use reserved_prefix [of x] in simp_all)
  then have "dict_get (rs_files s') integrity_log = Some Directory" by (rule blocked.run_inv [OF assms(3)])
  then show ?thesis using directory_blocks_sealing directory_unverified by blast
qed

theorem reserved_name_as_directory_blocks_sealing_witness:
  "\<exists>t. run_op run_sample_env run_sample_io (WriteText (u ''run-integrity.jsonl/x'') (u ''ok'')) run_sample_start = (Inr (), t) \<and>
     dict_get (rs_files t) integrity_log = Some Directory \<and> (\<exists>err. fst (store_seal run_sample_env run_sample_io t) = Inl err)"
proof -
  obtain t where t: "run_op run_sample_env run_sample_io (WriteText (u ''run-integrity.jsonl/x'') (u ''ok'')) run_sample_start = (Inr (), t)"
    using blocked_sample(1) by (metis prod.collapse)
  show ?thesis using t reserved_name_as_directory_blocks_sealing [OF t, of "u ''x''" "[]" t] blocked_sample(2) by simp
qed

text \<open>C39. A log whose last record lost its newline, as a write cut short by one byte leaves it, still loads and accepts an append,
  which puts two records on one line: when \<open>append_event\<close> returns on such a log, then after any further history of calls the directory is
  as that append left it, the Run does not verify, and every call of the store but \<open>artifact_exists\<close> raises and changes no file.
  Pydantic prints compact JSON, and the numbers of both payloads read back.\<close>

theorem append_after_a_lost_newline_locks_the_run:
  assumes "log_loads E (rs_run_id s) (rs_files s) (es @ [e0])" and "log_bytes events_log (rs_files s) = c @ a" and "terminated c"
    and "utf8_encode (se_dump_json E (event_json E e0)) = Some a" and "compact_dump E fr" and "exact_value fr (JvObj (ae_payload e0))"
    and "store_append_event E io ty payload at_time s = (Inr e, t)" and "exact_value fr (JvObj (ae_payload e))"
    and "steps (store_step E (rs_run_id s)) (rs_files t) ops (rs_files s')"
  shows "rs_files s' = rs_files t \<and> (\<exists>err. verify_run_integrity E (rs_files s') = Inl err) \<and>
    ((\<exists>p. opn = ArtifactExists p) \<or> (\<exists>err. fst (run_op E io' opn s') = Inl err)) \<and> rs_files (snd (run_op E io' opn s')) = rs_files t"
proof (rule returned_appendE [OF assms(1,7)])
  fix h b
  assume e: "e = (draft_event io (rs_run_id s) (es @ [e0]) ty payload at_time)\<lparr>ae_event_hash := h\<rparr>"
    and t: "rs_files t = with_record E events_log (event_json E e) (rs_files s)"
    and b: "utf8_encode (se_dump_json E (event_json E e) @ [10]) = Some b"
  have "\<bar>ae_sequence e\<bar> \<le> 2 ^ 63" using log_length [OF assms(1)] by (simp add: e draft_event_def MAX_AUDIT_EVENT_RECORDS_def)
  then have "unreadable E (rs_files t)"
    unfolding t by (rule joined_event_unreadable [OF assms(1-6) event_json_exact [OF assms(8)] b])
  from unreadable_run [OF this assms(9)] show ?thesis by metis
qed

theorem append_after_a_lost_newline_locks_the_run_witness:
  "\<exists>t. store_append_event run_sample_env run_sample_io (u ''note'') None None torn_store = (Inr torn_event, t) \<and>
     (\<exists>err. verify_run_integrity run_sample_env (rs_files t) = Inl err) \<and> (\<exists>err. fst (run_op run_sample_env run_sample_io Seal t) = Inl err)"
proof -
  obtain t where t: "store_append_event run_sample_env run_sample_io (u ''note'') None None torn_store = (Inr torn_event, t)"
    using torn_appends by blast
  have a: "utf8_encode (se_dump_json run_sample_env (event_json run_sample_env run_sample_event)) = Some (json_dump no_floats (event_json run_sample_env run_sample_event))"
    using run_sample_codec(3) utf8_encode_ascii [OF run_sample_event_line(1)] by (simp add: compact_dump_def)
  have "exact_value no_floats (JvObj (ae_payload torn_event))" by (simp add: torn_event_def torn_fields exact_value_simps)
  then show ?thesis
    using t append_after_a_lost_newline_locks_the_run [OF torn_log(2,1) _ a run_sample_codec(3) run_sample_event_shape(2) t, of "[]" t Seal run_sample_io]
    by (simp add: terminated_def)
qed

end
