(* ===== verification/Spec2Isabelle.thy ===== *)
theory Spec2Isabelle
  imports Capability_Ledger Policy_Engine Dual_Budget Cancellation_Contexts Rate_Limits Gateway_Progress Run_Guarantees
begin

text \<open>
  A verification library for PAJIN, a platform that runs security tools on behalf of agents under a campaign's
  authority. Paths below are relative to \<^verbatim>\<open>src/src/pajin\<close>.

  \<^bold>\<open>The program.\<close> A campaign manifest says who approved what, which targets and methods are in scope, and
  what may be spent. A capability grant gives an agent a part of that authority. For every tool call the gateway claims
  the request identifier, asks the policy engine, prepares a Worker job, reserves rate-limit units, leases secrets,
  dispatches the Worker, and turns its answer into a bounded, redacted and recorded result. Budgets and cancellation
  contexts bound a run from outside. Everything a Run records is in its directory: a hash-chained event log, artifacts,
  and a chain of seals over both.

  \<^bold>\<open>Theories.\<close>
  \<^item> \<open>Pajin_Prelude\<close>: exceptions as the datatype \<open>exn\<close>, results as a sum, dictionaries as association lists,
    runs of a labelled step relation (\<open>steps\<close>), the locale \<open>transition_invariant\<close>.
  \<^item> \<open>Result_Calls\<close>: calls that return or raise and change a state, the forms of Python's \<open>try\<close>, and the locale
    \<open>state_preorder\<close> with the rules by which every form keeps a relation between the states.
  \<^item> \<open>Campaign_Models\<close>: the manifest, grant and request records of \<^verbatim>\<open>domain/models.py\<close> with their validators.
  \<^item> \<open>Capability_Ledger\<close>: \<^verbatim>\<open>policy/capability.py\<close>. Calls are conserved over the delegation tree, authority only
    shrinks, revocation is final.
  \<^item> \<open>Python_Text\<close>, \<open>Url_Parsing\<close>, \<open>Scope_Matching\<close>: text as code points, the parts of \<open>urllib.parse\<close> and of the \<open>idna\<close>
    codec in use, and \<^verbatim>\<open>policy/scope.py\<close>. A match confines scheme, host, port and path.
  \<^item> \<open>Policy_Engine\<close>: \<^verbatim>\<open>policy/engine.py\<close>. A request is permitted exactly when every rule holds.
  \<^item> \<open>Float64\<close>, \<open>Budget_Control\<close>, \<open>Dual_Budget\<close>, \<open>Cancellation_Contexts\<close>: \<^verbatim>\<open>runtime/control.py\<close>. Doubles are rationals with an
    explicit rounding. Limits hold over every history; cancellation reaches every fork and is one-way.
  \<^item> \<open>Rate_Limits\<close>: \<open>RequestRateLimitLedger\<close> of \<^verbatim>\<open>tools/gateway.py\<close>. No minute holds more units than the limit.
  \<^item> \<open>Sha256\<close>, \<open>Strict_Json\<close>: \<open>hashlib.sha256\<close>, \<^verbatim>\<open>runtime/safe_files.py\<close>, \<^verbatim>\<open>discovery/canonicalization.py\<close> and the
    object walker of \<^verbatim>\<open>tools/execution_receipts.py\<close>. Canonical bytes read back; digests bind their content.
  \<^item> \<open>Secret_Broker\<close>, \<open>Secret_Redaction\<close>: \<^verbatim>\<open>runtime/secrets.py\<close>. Uses of a lease are bounded, an ended lease stays ended,
    redacted text hides the secrets that do not use the characters of a replacement.
  \<^item> \<open>Worker_Contracts\<close>, \<open>Execution_Receipts\<close>: \<^verbatim>\<open>runtime/worker.py\<close>, \<^verbatim>\<open>runtime/error_safety.py\<close> and
    \<^verbatim>\<open>tools/execution_receipts.py\<close>. Receipts are bounded and a published success is earned.
  \<^item> \<open>Tool_Gateway\<close>: \<open>ToolGateway\<close> of \<^verbatim>\<open>tools/gateway.py\<close> and \<open>ToolRegistry\<close> of \<^verbatim>\<open>tools/base.py\<close>, one definition per method.
    The state has the audit log, the artifacts, the rate ledger, the broker and the Worker calls made so far.
  \<^item> \<open>Gateway_Samples\<close>: a concrete gateway for the witnesses.
  \<^item> \<open>Gateway_Safety\<close>: a Worker runs only for an approved request; the gateway implements a dispatcher that spends an
    identifier once; a job has the campaign's network authority.
  \<^item> \<open>Gateway_Resources\<close>: rate-limit units and secret leases after a call, under faults of the store.
  \<^item> \<open>Gateway_Progress\<close>: a call for a free identifier is answered and the evidence file holds the answer.
  \<^item> \<open>Run_Paths\<close>, \<open>Run_Records\<close>, \<open>Run_Verification\<close>, \<open>Run_Store\<close>: \<^verbatim>\<open>runtime/store.py\<close>, in its order: artifact paths, the records
    of both logs with their validators and loaders, verification and snapshots, and \<open>RunStore\<close>, one definition per method.
  \<^item> \<open>Run_Chains\<close>, \<open>Run_Binding\<close>: when a log loads, and the locale \<open>digest_chain\<close>, by which the last digest of a chain of
    records determines all of them; both logs are interpretations of it. \<open>Run_Snapshots\<close>: the loops of a verified snapshot.
  \<^item> \<open>Run_Effects\<close>, \<open>Run_Histories\<close>: what a call can do to the directory with every fault, histories as runs of a step
    relation, and what they keep. \<open>Run_Appends\<close>, \<open>Run_Sealing\<close>: what append and seal return reads back and verifies.
    \<open>Run_Failures\<close>: what a returned call can leave from which there is no way back.
  \<^item> \<open>Run_Gateway\<close>: the store of the gateway model is implemented by the Run store. \<open>Run_Samples\<close>: a small Run for the
    witnesses. \<open>Run_Guarantees\<close>: the properties of the Run store.

  \<^bold>\<open>How the code is read.\<close> An operation is a function of its arguments and state that returns a result and the
  state; a raise leaves the state as the code leaves it. Objects that Pydantic refuses are \<open>None\<close> where the code re-validates
  them. Times are microseconds. Clock readings, \<open>uuid4\<close> values, Unicode tables, time zones, the texts of floats, the
  iteration order of sets, model dumps, the adapters, the dispatch guard and the Worker are arguments; where a result
  needs that identifiers are new, that is a hypothesis. In the gateway the Run store appends to a log and creates files;
  \<open>ge_store\<close> says how each of its calls ends, and a failing call may have had its effect. A call of the gateway runs to
  its end before the next: the method yields only while the Worker runs, after the identifier is claimed.

  The directory of a Run is a dictionary from relative paths to nodes: files with their bytes and number of links,
  directories, links and other nodes, in the order in which the code walks them. A mutation holds the lock of its Run and
  reads the logs again, so any interleaving of stores is a sequence of whole calls, each on a store object with arbitrary
  cached fields; the snapshot functions take the directory at each of their reads, since a process without the lock may
  change it. Whether \<open>os.open\<close> of a log fails, what \<open>os.write\<close> returns, and whether flushing or installing fails, is in
  \<open>store_io\<close>. What Pydantic does is in \<open>store_env\<close>: how it prints a record and how it reads integers and datetimes. Theorems on
  records that read back have as hypotheses that it prints compact JSON (\<open>compact_dump\<close>), that integers read as themselves
  (\<open>ints_read\<close>) and that the datetime at hand reads back from its text (\<open>datetime_reads\<close>), and, of the Run, that the log ends
  in a newline (\<open>log_good\<close>, \<open>seals_good\<close>), has room for the record (\<open>event_room\<close>, \<open>seal_room\<close>) and the record is within the
  limits of the strict reader (\<open>record_fits\<close>). That the reader accepts such a line is a lemma (\<open>line_reads\<close>). The loader also
  accepts a log whose last record lost its newline (\<open>log_loads\<close>); what an append to such a log does, and an append beyond the
  limits, are properties of their own. Values that are hashed stay symbolic in witnesses. Tamper evidence is stated with the
  collision spelled out: two different messages among those that the verifications hash, with the same SHA-256 digest.

  \<^bold>\<open>Where the model is coarser than the code.\<close> A float is the rational it denotes, so that \<open>0.0\<close> and \<open>-0.0\<close> are one value with one
  text. The keys of a JSON object are texts; a dictionary with other keys, which \<open>json.dumps\<close> would print as text, is a value
  that cannot be dumped. The timestamps of a grant are instants; a grant with naive ones, which the code rejects when it compares
  them, is not a value of the model. Cancellation is the only exception outside \<open>Exception\<close>: \<open>KeyboardInterrupt\<close> and \<open>SystemExit\<close> end the process. A write
  that fails may leave a temporary file beside its target, and errors of the locks come before a call has an effect; neither is
  in the state.

  \<^bold>\<open>Bounds and fuel.\<close> The loops of the ledger and of \<open>mark_forced\<close> that follow pointers are partial functions into
  \<open>option\<close>, and theorems show that they return on every state the component reaches. The recursive JSON scanner takes
  twice the length of the text plus one as fuel, and a lemma shows that it never runs out of it. The percent-decoding
  passes of the redaction, the limits of the JSON reader and those of the logs are the bounds of the code.

  \<^bold>\<open>Not modelled.\<close> The Docker and simulated Worker backends and the egress proxy are processes. Of the Run store, the
  locks, file modes, pinned directory descriptors and the enrollment of a new store for recovery are calls of the
  operating system around the modelled methods. The budget journal is a database behind the controller. Agents and providers call
  language models; the gateway treats what they ask for as arbitrary. The individual tool adapters are arbitrary values
  of their interface. Workflows, control plane, graph, discovery, supervision, replay, web assessment, benchmarks,
  reporting and command line compose these parts and are outside the library.
\<close>

end
